(* ===== verification/Prelude.thy ===== *)
theory Prelude
  imports Complex_Main "HOL-Library.Monad_Syntax"
begin

text \<open>
  Shared vocabulary of the development: results of code that may throw, the arithmetic helpers of
  the JavaScript number type that the modelled modules use, filtering with a predicate that may
  throw, and the generic list lemmas the component proofs share.

  JavaScript numbers are modelled as \<open>real\<close>, without rounding; the values \<open>NaN\<close> and infinity are
  written out (as \<open>None\<close>, or as constructors of their own) wherever the code tests for them.
\<close>

named_theorems js_num \<open>unfolding of the numeric helpers\<close>

section \<open>Results of code that may throw\<close>

datatype js_error =
    UnknownPredicate string
  | NoAuthoredVariants string
  | NoHintAtLevel nat
  | ForbiddenTransition nat nat
  | MissingRequestedState
  | JsError string

type_synonym 'a result = "js_error + 'a"

text \<open>Sequencing: a thrown error skips the rest.\<close>

definition then_do :: "'a result \<Rightarrow> ('a \<Rightarrow> 'b result) \<Rightarrow> 'b result" where
  "then_do r f = (case r of Inl e \<Rightarrow> Inl e | Inr a \<Rightarrow> f a)"

lemma then_do_simps [simp]:
  "then_do (Inl e) f = Inl e"
  "then_do (Inr a) f = f a"
  by (simp_all add: then_do_def)

lemma then_do_eq_Inr_iff: "then_do r f = Inr b \<longleftrightarrow> (\<exists>a. r = Inr a \<and> f a = Inr b)"
  by (cases r) auto

lemma then_do_eq_InrE [elim!]:
  assumes "then_do r f = Inr b"
  obtains a where "r = Inr a" and "f a = Inr b"
  using assms by (auto simp: then_do_eq_Inr_iff)

text \<open>\<open>Array.prototype.filter\<close> with a predicate that may throw: the first error wins.\<close>

fun filter_res :: "('a \<Rightarrow> bool result) \<Rightarrow> 'a list \<Rightarrow> 'a list result" where
  "filter_res p [] = Inr []"
| "filter_res p (x # xs) =
     then_do (p x) (\<lambda>b. then_do (filter_res p xs) (\<lambda>ys. Inr (if b then x # ys else ys)))"

lemma filter_res_Inr:
  "filter_res p xs = Inr ys \<Longrightarrow> ys = filter (\<lambda>x. p x = Inr True) xs \<and> (\<forall>x\<in>set xs. \<exists>b. p x = Inr b)"
  by (induction xs arbitrary: ys) (auto split: if_splits)

lemma filter_res_total:
  "\<forall>x\<in>set xs. \<exists>b. p x = Inr b \<Longrightarrow> filter_res p xs = Inr (filter (\<lambda>x. p x = Inr True) xs)"
  by (induction xs) auto

text \<open>\<open>every\<close> with a predicate that may throw: it stops at the first false term, or error.\<close>

fun every_res :: "('a \<Rightarrow> bool result) \<Rightarrow> 'a list \<Rightarrow> bool result" where
  "every_res p [] = Inr True"
| "every_res p (x # xs) = then_do (p x) (\<lambda>b. if b then every_res p xs else Inr False)"

lemma every_res_True: "every_res p xs = Inr True \<longleftrightarrow> (\<forall>x\<in>set xs. p x = Inr True)"
  by (induction xs) (auto simp: then_do_eq_Inr_iff split: if_splits)

lemma every_res_total: "\<forall>x\<in>set xs. \<exists>b. p x = Inr b \<Longrightarrow> \<exists>b. every_res p xs = Inr b"
  by (induction xs) auto

section \<open>Numbers\<close>

definition clamp01 :: "real \<Rightarrow> real" where
  "clamp01 v = min 1 (max 0 v)"

lemma clamp01_range [simp]: "0 \<le> clamp01 v" "clamp01 v \<le> 1"
  by (simp_all add: clamp01_def)

lemma clamp01_id: "0 \<le> v \<Longrightarrow> v \<le> 1 \<Longrightarrow> clamp01 v = v"
  by (simp add: clamp01_def)

lemma clamp01_mono: "u \<le> v \<Longrightarrow> clamp01 u \<le> clamp01 v"
  by (simp add: clamp01_def min_def max_def)

text \<open>\<open>Math.round\<close> rounds half up.\<close>

definition math_round :: "real \<Rightarrow> int" where
  "math_round x = floor (x + 1 / 2)"

lemma math_round_mono: "x \<le> y \<Longrightarrow> math_round x \<le> math_round y"
  by (simp add: math_round_def floor_mono)

lemma math_round_of_int [simp]: "math_round (of_int k) = k"
  by (simp add: math_round_def)

lemma math_round_bounds: "x - 1/2 < math_round x" "math_round x \<le> x + 1/2"
  unfolding math_round_def by linarith+

text \<open>\<open>Number(x.toFixed(2))\<close>: the nearest multiple of one hundredth.\<close>

definition to_fixed2 :: "real \<Rightarrow> real" where
  "to_fixed2 x = of_int (floor (x * 100 + 1 / 2)) / 100"

lemma to_fixed2_nonneg: "0 \<le> x \<Longrightarrow> 0 \<le> to_fixed2 x"
  by (simp add: to_fixed2_def)

section \<open>Lists\<close>

text \<open>\<open>xs.find(p)\<close> is \<open>List.find\<close>; the element found is in the list and satisfies \<open>p\<close>.\<close>

lemma find_SomeD: "find p xs = Some x \<Longrightarrow> x \<in> set xs \<and> p x"
  by (induction xs) (auto split: if_splits)

lemma find_None_iff': "find p xs = None \<longleftrightarrow> (\<forall>x\<in>set xs. \<not> p x)"
  by (induction xs) (auto split: if_splits)

text \<open>Looking an element up by a key that identifies it.\<close>

lemma find_by_key:
  "distinct (map f xs) \<Longrightarrow> x \<in> set xs \<Longrightarrow> find (\<lambda>y. Some (f y) = Some (f x)) xs = Some x"
  by (induction xs) auto

lemma same_key: "distinct (map f xs) \<Longrightarrow> x \<in> set xs \<Longrightarrow> y \<in> set xs \<Longrightarrow> f x = f y \<Longrightarrow> x = y"
  by (metis distinct_map inj_onD)

text \<open>\<open>xs[0] ?? null\<close>.\<close>

definition first_of :: "'a list \<Rightarrow> 'a option" where
  "first_of xs = (case xs of [] \<Rightarrow> None | x # _ \<Rightarrow> Some x)"

lemma first_of_simps [simp]: "first_of [] = None" "first_of (x # xs) = Some x"
  by (simp_all add: first_of_def)

lemma first_of_SomeD: "first_of xs = Some x \<Longrightarrow> x \<in> set xs"
  by (cases xs) auto

lemma first_of_None [simp]: "first_of xs = None \<longleftrightarrow> xs = []"
  by (cases xs) auto

text \<open>A nullable string in a boolean position: present and not empty.\<close>

definition truthy :: "'a list option \<Rightarrow> bool" where
  "truthy s = (case s of None \<Rightarrow> False | Some t \<Rightarrow> t \<noteq> [])"

lemma truthy_iff [simp]: "truthy s \<longleftrightarrow> (\<exists>t. s = Some t \<and> t \<noteq> [])"
  by (auto simp: truthy_def split: option.splits)

text \<open>\<open>[...new Set(xs)]\<close> keeps the first occurrence of each element, in order.\<close>

fun uniq :: "'a list \<Rightarrow> 'a list" where
  "uniq [] = []"
| "uniq (x # xs) = x # filter (\<lambda>y. y \<noteq> x) (uniq xs)"

lemma set_uniq [simp]: "set (uniq xs) = set xs"
  by (induction xs) auto

lemma distinct_uniq [simp]: "distinct (uniq xs)"
  by (induction xs) auto

lemma uniq_distinct_id: "distinct xs \<Longrightarrow> uniq xs = xs"
proof (induction xs)
  case Nil
  then show ?case by simp
next
  case (Cons x xs)
  then have "filter (\<lambda>y. y \<noteq> x) xs = xs" by (auto simp: filter_id_conv)
  with Cons show ?case by simp
qed

section \<open>String-keyed records (a JavaScript object used as a map), as association lists\<close>

definition get_key :: "('k \<times> 'v) list \<Rightarrow> 'k \<Rightarrow> 'v option" where
  "get_key m k = map_of m k"

fun set_key :: "('k \<times> 'v) list \<Rightarrow> 'k \<Rightarrow> 'v \<Rightarrow> ('k \<times> 'v) list" where
  "set_key [] k v = [(k, v)]"
| "set_key ((k', v') # m) k v = (if k' = k then (k, v) # m else (k', v') # set_key m k v)"

lemma get_set_key [simp]: "get_key (set_key m k v) k' = (if k' = k then Some v else get_key m k')"
  by (induction m k v rule: set_key.induct) (auto simp: get_key_def)

definition count_of :: "(string \<times> nat) list \<Rightarrow> string \<Rightarrow> nat" where
  "count_of m k = (case get_key m k of None \<Rightarrow> 0 | Some n \<Rightarrow> n)"

lemma count_of_set_key [simp]:
  "count_of (set_key m k v) k' = (if k' = k then v else count_of m k')"
  by (simp add: count_of_def)

lemma count_of_Nil [simp]: "count_of [] k = 0"
  by (simp add: count_of_def get_key_def)

end
