(* ===== verification/Vad.thy ===== *)
theory Vad
  imports Prelude
begin

text \<open>
  \<open>apps/web/lib/vad.ts\<close>: the detector of speech boundaries in the browser. Levels are in dB, times in
  milliseconds. The predictor that reads the prosody of the tail is a parameter; the model records
  the time it is asked about. An empty frame, whose level is minus infinity, does not reach the
  detector: the audio worklet delivers frames of a fixed size.
\<close>

record vad_config =
  startMarginDb :: real
  continueMarginDb :: real
  minSpeechMs :: real
  endHangoverMs :: real
  noiseAdaptRate :: real
  calibrationMs :: real
  calibrationAdaptRate :: real
  initialNoiseFloorDb :: real

definition DEFAULT_VAD_CONFIG :: vad_config where
  "DEFAULT_VAD_CONFIG = \<lparr>
     startMarginDb = 9,
     continueMarginDb = 5,
     minSpeechMs = 40,
     endHangoverMs = 350,
     noiseAdaptRate = 2 / 100,
     calibrationMs = 500,
     calibrationAdaptRate = 1 / 4,
     initialNoiseFloorDb = -55\<rparr>"

text \<open>\<open>None\<close> is minus infinity.\<close>

definition frameDb :: "real list \<Rightarrow> real option" where
  "frameDb samples =
     (if samples = [] then None
      else (let rms = sqrt (sum_list (map (\<lambda>x. x * x) samples) / real (length samples))
            in if rms \<le> 1 / 10 ^ 10 then Some (-200) else Some (20 * log 10 rms)))"

datatype vad_event_type = SPEECH_START | SPEECH_END

record 'p vad_event =
  ve_type :: vad_event_type
  ve_prosody :: "'p option"
  ve_atMs :: real

record vad =
  noiseFloorDb :: real
  speaking :: bool
  voiceRunStartedAtMs :: "real option"
  quietRunStartedAtMs :: "real option"
  firstFrameAtMs :: "real option"

definition new_vad :: "vad_config \<Rightarrow> vad" where
  "new_vad cfg = \<lparr>noiseFloorDb = initialNoiseFloorDb cfg, speaking = False, voiceRunStartedAtMs = None,
     quietRunStartedAtMs = None, firstFrameAtMs = None\<rparr>"

definition calibrating :: "vad_config \<Rightarrow> vad \<Rightarrow> real \<Rightarrow> bool" where
  "calibrating cfg v t = (case firstFrameAtMs v of None \<Rightarrow> True | Some t0 \<Rightarrow> t - t0 < calibrationMs cfg)"

definition run_start :: "real option \<Rightarrow> real \<Rightarrow> real" where
  "run_start r t = (case r of None \<Rightarrow> t | Some t0 \<Rightarrow> t0)"

type_synonym 'p predictor = "(real \<Rightarrow> 'p) option"

definition prosodyAt :: "'p predictor \<Rightarrow> real \<Rightarrow> 'p option" where
  "prosodyAt pr t = map_option (\<lambda>estimate. estimate t) pr"

definition whileSilent :: "vad_config \<Rightarrow> bool \<Rightarrow> real \<Rightarrow> vad \<Rightarrow> vad \<times> 'p vad_event option" where
  "whileSilent cfg isVoice t v =
     (if \<not> isVoice then (v\<lparr>voiceRunStartedAtMs := None\<rparr>, None)
      else (let start = run_start (voiceRunStartedAtMs v) t
            in if t - start \<ge> minSpeechMs cfg
               then (v\<lparr>speaking := True, voiceRunStartedAtMs := None, quietRunStartedAtMs := None\<rparr>,
                     Some \<lparr>ve_type = SPEECH_START, ve_prosody = None, ve_atMs = start\<rparr>)
               else (v\<lparr>voiceRunStartedAtMs := Some start\<rparr>, None)))"

definition whileSpeaking ::
  "vad_config \<Rightarrow> 'p predictor \<Rightarrow> bool \<Rightarrow> real \<Rightarrow> vad \<Rightarrow> vad \<times> 'p vad_event option" where
  "whileSpeaking cfg pr isVoice t v =
     (if isVoice then (v\<lparr>quietRunStartedAtMs := None\<rparr>, None)
      else (let quiet = run_start (quietRunStartedAtMs v) t
            in if t - quiet \<ge> endHangoverMs cfg
               then (v\<lparr>speaking := False, quietRunStartedAtMs := None, voiceRunStartedAtMs := None\<rparr>,
                     Some \<lparr>ve_type = SPEECH_END, ve_prosody = prosodyAt pr quiet, ve_atMs = quiet\<rparr>)
               else (v\<lparr>quietRunStartedAtMs := Some quiet\<rparr>, None)))"

definition is_voice :: "vad_config \<Rightarrow> vad \<Rightarrow> real \<Rightarrow> bool" where
  "is_voice cfg v db \<longleftrightarrow>
     db > noiseFloorDb v + (if speaking v then continueMarginDb cfg else startMarginDb cfg)"

definition adapt :: "real \<Rightarrow> real \<Rightarrow> vad \<Rightarrow> vad" where
  "adapt rate db v = v\<lparr>noiseFloorDb := noiseFloorDb v + (db - noiseFloorDb v) * rate\<rparr>"

definition pushDb :: "vad_config \<Rightarrow> 'p predictor \<Rightarrow> real \<Rightarrow> real \<Rightarrow> vad \<Rightarrow> vad \<times> 'p vad_event option" where
  "pushDb cfg pr db t v0 =
     (let v = (if firstFrameAtMs v0 = None then v0\<lparr>firstFrameAtMs := Some t\<rparr> else v0)
      in if calibrating cfg v t then (adapt (calibrationAdaptRate cfg) db v, None)
         else (let voice = is_voice cfg v db;
                   v1 = (if \<not> voice \<and> \<not> speaking v then adapt (noiseAdaptRate cfg) db v else v)
               in if speaking v1 then whileSpeaking cfg pr voice t v1 else whileSilent cfg voice t v1))"

definition vad_reset :: "'p predictor \<Rightarrow> real \<Rightarrow> vad \<Rightarrow> vad \<times> 'p vad_event option" where
  "vad_reset pr t v =
     (v\<lparr>speaking := False, voiceRunStartedAtMs := None, quietRunStartedAtMs := None\<rparr>,
      if speaking v then Some \<lparr>ve_type = SPEECH_END, ve_prosody = prosodyAt pr t, ve_atMs = t\<rparr> else None)"

text \<open>A recording: levels with their times.\<close>

fun listen :: "vad_config \<Rightarrow> 'p predictor \<Rightarrow> (real \<times> real) list \<Rightarrow> vad \<Rightarrow> 'p vad_event list" where
  "listen cfg pr [] v = []"
| "listen cfg pr ((db, t) # fs) v =
     (case pushDb cfg pr db t v of (v', ev) \<Rightarrow>
        (case ev of None \<Rightarrow> [] | Some e \<Rightarrow> [e]) @ listen cfg pr fs v')"

section \<open>One frame\<close>

lemma adapt_sel [simp]:
  "speaking (adapt r db v) = speaking v" "voiceRunStartedAtMs (adapt r db v) = voiceRunStartedAtMs v"
  "quietRunStartedAtMs (adapt r db v) = quietRunStartedAtMs v" "firstFrameAtMs (adapt r db v) = firstFrameAtMs v"
  by (simp_all add: adapt_def)

text \<open>The run that is being timed: of voice while silent, of quiet while speaking.\<close>

definition current_run :: "vad \<Rightarrow> real option" where
  "current_run v = (if speaking v then quietRunStartedAtMs v else voiceRunStartedAtMs v)"

definition confirm_ms :: "vad_config \<Rightarrow> bool \<Rightarrow> real" where
  "confirm_ms cfg spk = (if spk then endHangoverMs cfg else minSpeechMs cfg)"

lemma pushDb_cases:
  assumes "pushDb cfg pr db t v = (v', ev)"
  obtains (boundary) e where "ev = Some e" "speaking v' = (\<not> speaking v)" "current_run v' = None"
      "ve_type e = (if speaking v then SPEECH_END else SPEECH_START)"
      "ve_atMs e = run_start (current_run v) t" "t - ve_atMs e \<ge> confirm_ms cfg (speaking v)"
      "is_voice cfg (if firstFrameAtMs v = None then v\<lparr>firstFrameAtMs := Some t\<rparr> else v) db \<longleftrightarrow> \<not> speaking v"
  | (within) "ev = None" "speaking v' = speaking v"
      "current_run v' = None \<or> current_run v' = Some (run_start (current_run v) t) \<or> current_run v' = current_run v"
  using assms
  by (auto simp: pushDb_def Let_def whileSilent_def whileSpeaking_def current_run_def confirm_ms_def
      split: if_splits)

section \<open>A recording\<close>

text \<open>
  Boundaries alternate, and each comes at least the confirmation time after the one before: the
  time of speech between a start and an end, of quiet between an end and a start.
\<close>

fun spaced :: "vad_config \<Rightarrow> bool \<Rightarrow> real \<Rightarrow> 'p vad_event list \<Rightarrow> bool" where
  "spaced cfg spk lo [] \<longleftrightarrow> True"
| "spaced cfg spk lo (e # es) \<longleftrightarrow>
     ve_type e = (if spk then SPEECH_END else SPEECH_START) \<and> lo \<le> ve_atMs e \<and>
     spaced cfg (\<not> spk) (ve_atMs e + confirm_ms cfg spk) es"

lemma listen_spaced:
  assumes "sorted (map snd fs)" and "\<forall>f\<in>set fs. lo \<le> snd f"
    and "\<forall>r. current_run v = Some r \<longrightarrow> lo \<le> r"
  shows "spaced cfg (speaking v) lo (listen cfg pr fs v)"
  using assms
proof (induction fs arbitrary: v lo)
  case (Cons f fs)
  obtain db t where f: "f = (db, t)" by (cases f)
  obtain v' ev where p: "pushDb cfg pr db t v = (v', ev)" by (cases "pushDb cfg pr db t v")
  have later: "\<forall>g\<in>set fs. t \<le> snd g" and lo: "lo \<le> t" using Cons.prems f by auto
  have start: "lo \<le> run_start (current_run v) t" using Cons.prems(3) lo by (simp add: run_start_def split: option.splits)
  have srt: "sorted (map snd fs)" using Cons.prems(1) by simp
  from p show ?case
  proof (cases rule: pushDb_cases)
    case (boundary e)
    have "spaced cfg (speaking v') (ve_atMs e + confirm_ms cfg (speaking v)) (listen cfg pr fs v')"
      by (rule Cons.IH [OF srt]) (use later boundary in auto)
    then show ?thesis using p f boundary start by simp
  next
    case within
    have "\<forall>r. current_run v' = Some r \<longrightarrow> lo \<le> r" using within(3) start Cons.prems(3) by auto
    moreover have "\<forall>g\<in>set fs. lo \<le> snd g" using later lo by auto
    ultimately have "spaced cfg (speaking v') lo (listen cfg pr fs v')" by (intro Cons.IH [OF srt])
    then show ?thesis using p f within by simp
  qed
qed simp

lemma listen_from_new:
  assumes "sorted (map snd fs)" and "\<forall>f\<in>set fs. lo \<le> snd f"
  shows "spaced cfg False lo (listen cfg pr fs (new_vad cfg))"
  using listen_spaced [OF assms, of "new_vad cfg" cfg pr] by (simp add: new_vad_def current_run_def)

text \<open>Nothing is declared while the room is calibrated, and the floor rests while speaking.\<close>

lemma calibration_silent:
  assumes "t0 \<le> t" and "firstFrameAtMs v = Some t0" and "t - t0 < calibrationMs cfg"
  shows "snd (pushDb cfg pr db t v) = None"
  using assms by (simp add: pushDb_def calibrating_def)

lemma floor_rests:
  assumes "speaking v" and "firstFrameAtMs v = Some t0" and "calibrationMs cfg \<le> t - t0"
  shows "noiseFloorDb (fst (pushDb cfg pr db t v)) = noiseFloorDb v"
  using assms by (auto simp: pushDb_def calibrating_def whileSpeaking_def Let_def)

text \<open>A frame moves the floor part of the way towards its level, never past it.\<close>

lemma adapt_between:
  assumes "0 \<le> rate" and "rate \<le> 1"
  shows "min (noiseFloorDb v) db \<le> noiseFloorDb (adapt rate db v)"
    and "noiseFloorDb (adapt rate db v) \<le> max (noiseFloorDb v) db"
proof -
  let ?n = "noiseFloorDb v"
  have a: "noiseFloorDb (adapt rate db v) = (1 - rate) * ?n + rate * db" by (simp add: adapt_def algebra_simps)
  have "(1 - rate) * min ?n db + rate * min ?n db \<le> (1 - rate) * ?n + rate * db"
    using assms by (intro add_mono mult_left_mono) auto
  then show "min ?n db \<le> noiseFloorDb (adapt rate db v)" unfolding a by (simp add: algebra_simps)
  have "(1 - rate) * ?n + rate * db \<le> (1 - rate) * max ?n db + rate * max ?n db"
    using assms by (intro add_mono mult_left_mono) auto
  then show "noiseFloorDb (adapt rate db v) \<le> max ?n db" unfolding a by (simp add: algebra_simps)
qed

end
