(* ===== verification/JsText.thy ===== *)
theory JsText
  imports Prelude
begin

text \<open>
  JavaScript strings and regular expressions, as far as the modelled modules use them.

  A string is a list of UTF-16 code units; here each unit is a HOL \<open>char\<close>, so the texts covered
  are those of the Latin-1 range. Regular expressions follow the matcher of the ECMAScript
  standard: \<open>ends\<close> returns every way a pattern can match from a position, in the order the
  backtracking matcher would try them, with the captures made on the way. \<open>rx\<close> reads the text of
  a regular expression literal, written with \<open>%\<close> for the backslash (an inner-syntax string has no
  backslash), so that the definitions of the other theories show the literals of the source.
\<close>

named_theorems js_text \<open>unfolding of the string helpers\<close>

section \<open>Characters and strings\<close>

definition white_chars :: string where
  "white_chars = [CHR 0x20, CHR 0x09, CHR 0x0A, CHR 0x0B, CHR 0x0C, CHR 0x0D, CHR 0xA0]"

definition is_white :: "char \<Rightarrow> bool" where
  "is_white c \<longleftrightarrow> c \<in> set white_chars"

definition digit_chars :: string where
  "digit_chars = ''0123456789''"

definition lower_letters :: string where
  "lower_letters = ''abcdefghijklmnopqrstuvwxyz''"

definition upper_letters :: string where
  "upper_letters = ''ABCDEFGHIJKLMNOPQRSTUVWXYZ''"

definition is_word :: "char \<Rightarrow> bool" where
  "is_word c \<longleftrightarrow> c \<in> set lower_letters \<or> c \<in> set upper_letters \<or> c \<in> set digit_chars \<or> c = CHR ''_''"

text \<open>
  The same test on the bits of a character, for evaluation: letters have bit 6 set and low bits
  from 1 to 26, digits have bits 4 and 5 set and low bits up to 9.
\<close>

definition low_letter :: "bool \<Rightarrow> bool \<Rightarrow> bool \<Rightarrow> bool \<Rightarrow> bool \<Rightarrow> bool" where
  "low_letter b0 b1 b2 b3 b4 =
     (if b4 then (if b3 then (if b2 then False else if b1 then \<not> b0 else True) else True)
      else if b3 then True else if b2 then True else if b1 then True else b0)"

lemma is_word_code [code]:
  "is_word (Char b0 b1 b2 b3 b4 b5 b6 b7) =
     (if b7 then False
      else if b6 then (if low_letter b0 b1 b2 b3 b4 then True
                       else if b5 then False else if b0 then if b1 then if b2 then if b3 then b4 else False else False else False else False)
      else if b5 then (if b4 then (if b3 then if b2 then False else \<not> b1 else True) else False)
      else False)"
  by (cases b0; cases b1; cases b2; cases b3; cases b4; cases b5; cases b6; cases b7)
     (simp_all add: is_word_def lower_letters_def upper_letters_def digit_chars_def low_letter_def)

definition lower_char :: "char \<Rightarrow> char" where
  "lower_char c = (let n = of_char c :: nat in
     if (65 \<le> n \<and> n \<le> 90) \<or> (192 \<le> n \<and> n \<le> 222 \<and> n \<noteq> 215) then char_of (n + 32) else c)"

definition to_lower :: "string \<Rightarrow> string" where
  "to_lower s = map lower_char s"

definition trim_start :: "string \<Rightarrow> string" where
  "trim_start s = dropWhile is_white s"

definition trim :: "string \<Rightarrow> string" where
  "trim s = rev (dropWhile is_white (rev (dropWhile is_white s)))"

fun starts_with :: "string \<Rightarrow> string \<Rightarrow> bool" where
  "starts_with s [] = True"
| "starts_with [] (p # ps) = False"
| "starts_with (c # s) (p # ps) = (c = p \<and> starts_with s ps)"

definition ends_with :: "string \<Rightarrow> string \<Rightarrow> bool" where
  "ends_with s p = starts_with (rev s) (rev p)"

text \<open>\<open>s.includes(p)\<close>.\<close>

fun has_sub :: "string \<Rightarrow> string \<Rightarrow> bool" where
  "has_sub [] p = (p = [])"
| "has_sub (c # s) p = (starts_with (c # s) p \<or> has_sub s p)"

text \<open>\<open>s.split(sep)\<close> for a one-character and for a two-character separator.\<close>

fun split_char :: "char \<Rightarrow> string \<Rightarrow> string list" where
  "split_char d [] = [[]]"
| "split_char d (c # s) =
     (if c = d then [] # split_char d s
      else (case split_char d s of [] \<Rightarrow> [[c]] | w # ws \<Rightarrow> (c # w) # ws))"

fun split_two :: "char \<Rightarrow> char \<Rightarrow> string \<Rightarrow> string list" where
  "split_two a b [] = [[]]"
| "split_two a b [c] = [[c]]"
| "split_two a b (c # d # s) =
     (if c = a \<and> d = b then [] # split_two a b s
      else (case split_two a b (d # s) of [] \<Rightarrow> [[c]] | w # ws \<Rightarrow> (c # w) # ws))"

text \<open>\<open>xs.join(sep)\<close>.\<close>

fun join :: "string \<Rightarrow> string list \<Rightarrow> string" where
  "join sep [] = []"
| "join sep [x] = x"
| "join sep (x # y # zs) = x @ sep @ join sep (y # zs)"

text \<open>\<open>s.replace(/\s+/g, '' '')\<close>: every run of white space becomes one blank.\<close>

fun squeeze_white :: "string \<Rightarrow> string" where
  "squeeze_white [] = []"
| "squeeze_white [c] = (if is_white c then '' '' else [c])"
| "squeeze_white (c # d # s) =
     (if is_white c then (if is_white d then squeeze_white (d # s) else '' '' @ squeeze_white (d # s))
      else c # squeeze_white (d # s))"

text \<open>Decimal rendering of integers (\<open>String(n)\<close>).\<close>

definition digit_of :: "nat \<Rightarrow> char" where
  "digit_of d = char_of (48 + d)"

fun show_nat :: "nat \<Rightarrow> string" where
  "show_nat n = (if n < 10 then [digit_of n] else show_nat (n div 10) @ [digit_of (n mod 10)])"

declare show_nat.simps [simp del]

definition show_int :: "int \<Rightarrow> string" where
  "show_int k = (if k < 0 then CHR ''-'' # show_nat (nat (- k)) else show_nat (nat k))"

section \<open>Lemmas on strings\<close>

lemma starts_with_append: "starts_with s p \<longleftrightarrow> (\<exists>t. s = p @ t)"
  by (induction s p rule: starts_with.induct) auto

lemma has_sub_iff: "has_sub s p \<longleftrightarrow> (\<exists>a b. s = a @ p @ b)"
proof (induction s)
  case Nil
  then show ?case by auto
next
  case (Cons c s)
  have "(\<exists>a b. c # s = a @ p @ b) \<longleftrightarrow> (\<exists>b. c # s = p @ b) \<or> (\<exists>a b. s = a @ p @ b)"
    by (metis (no_types, opaque_lifting) append_Cons append_Nil list.inject neq_Nil_conv)
  with Cons show ?case by (simp add: starts_with_append)
qed

lemma split_char_nonempty [simp]: "split_char d s \<noteq> []"
  by (induction s) (auto split: list.splits)

lemma split_two_nonempty [simp]: "split_two a b s \<noteq> []"
  by (induction a b s rule: split_two.induct) (auto split: list.splits)

lemma join_split_char: "join [d] (split_char d s) = s"
proof (induction s)
  case Nil
  then show ?case by simp
next
  case (Cons c s)
  obtain w ws where w: "split_char d s = w # ws"
    using split_char_nonempty neq_Nil_conv by metis
  show ?case
  proof (cases "c = d")
    case True
    with Cons w show ?thesis by simp
  next
    case False
    have "join [d] ((c # w) # ws) = c # join [d] (w # ws)" by (cases ws) auto
    with False Cons w show ?thesis by simp
  qed
qed

lemma split_char_no_sep: "w \<in> set (split_char d s) \<Longrightarrow> d \<notin> set w"
  by (induction s arbitrary: w) (auto split: if_splits list.splits)

lemma lower_char_idem: "lower_char (lower_char c) = lower_char c"
proof -
  define n where "n = (of_char c :: nat)"
  have n: "n < 256" by (simp add: n_def)
  show ?thesis
  proof (cases "(65 \<le> n \<and> n \<le> 90) \<or> (192 \<le> n \<and> n \<le> 222 \<and> n \<noteq> 215)")
    case True
    then have "of_char (char_of (n + 32)) = n + 32" by auto
    with True show ?thesis by (auto simp: lower_char_def Let_def simp flip: n_def)
  next
    case False
    then have "lower_char c = c" by (auto simp: lower_char_def Let_def simp flip: n_def)
    then show ?thesis by simp
  qed
qed

lemma to_lower_idem [simp]: "to_lower (to_lower s) = to_lower s"
  by (simp add: to_lower_def lower_char_idem)

lemma length_to_lower [simp]: "length (to_lower s) = length s"
  by (simp add: to_lower_def)

lemma digit_of_inj: "a < 10 \<Longrightarrow> b < 10 \<Longrightarrow> digit_of a = digit_of b \<Longrightarrow> a = b"
proof -
  assume a: "a < 10" "b < 10" and eq: "digit_of a = digit_of b"
  then have "of_char (digit_of a) = (of_char (digit_of b) :: nat)" by simp
  with a show "a = b" by (simp add: digit_of_def)
qed

lemma show_nat_nonempty [simp]: "show_nat n \<noteq> []"
  by (subst show_nat.simps) simp

lemma show_nat_small: "n < 10 \<Longrightarrow> show_nat n = [digit_of n]"
  by (subst show_nat.simps) simp

lemma show_nat_big: "\<not> n < 10 \<Longrightarrow> show_nat n = show_nat (n div 10) @ [digit_of (n mod 10)]"
  by (subst show_nat.simps) simp

lemma show_nat_inj: "show_nat m = show_nat n \<Longrightarrow> m = n"
proof (induction m arbitrary: n rule: less_induct)
  case (less m)
  show ?case
  proof (cases "m < 10")
    case True
    then have m: "show_nat m = [digit_of m]" by (rule show_nat_small)
    have "n < 10"
    proof (rule ccontr)
      assume "\<not> n < 10"
      with less.prems m have "[digit_of m] = show_nat (n div 10) @ [digit_of (n mod 10)]"
        by (simp add: show_nat_big)
      then show False by (cases "show_nat (n div 10)") auto
    qed
    with less.prems m True show ?thesis by (auto simp: show_nat_small dest: digit_of_inj)
  next
    case False
    then have m: "show_nat m = show_nat (m div 10) @ [digit_of (m mod 10)]" by (rule show_nat_big)
    have n: "\<not> n < 10"
    proof
      assume "n < 10"
      with less.prems m have "show_nat (m div 10) @ [digit_of (m mod 10)] = [digit_of n]"
        by (simp add: show_nat_small)
      then show False by (cases "show_nat (m div 10)") auto
    qed
    from less.prems m show_nat_big [OF n]
    have eq: "show_nat (m div 10) = show_nat (n div 10)" "digit_of (m mod 10) = digit_of (n mod 10)"
      by auto
    from False have "m div 10 < m" by simp
    from less.IH [OF this eq(1)] digit_of_inj [OF _ _ eq(2)] have "m div 10 = n div 10" "m mod 10 = n mod 10"
      by auto
    then show ?thesis by (metis div_mult_mod_eq)
  qed
qed

lemma digit_of_chars: "d < 10 \<Longrightarrow> digit_of d \<in> set digit_chars"
proof -
  assume "d < 10"
  then have "d \<in> set [0..<10]" by simp
  moreover have "\<forall>d\<in>set [0..<10]. digit_of d \<in> set digit_chars" by code_simp
  ultimately show ?thesis by blast
qed

lemma show_nat_digits: "set (show_nat n) \<subseteq> set digit_chars"
proof (induction n rule: less_induct)
  case (less n)
  show ?case
  proof (cases "n < 10")
    case True
    then show ?thesis by (simp add: show_nat_small digit_of_chars)
  next
    case False
    then have "n div 10 < n" by simp
    from less.IH [OF this] False show ?thesis by (simp add: show_nat_big digit_of_chars)
  qed
qed

lemma show_int_chars: "set (show_int k) \<subseteq> insert (CHR ''-'') (set digit_chars)"
  using show_nat_digits by (auto simp: show_int_def)

lemma show_int_inj: "show_int a = show_int b \<Longrightarrow> a = b"
proof -
  have minus: "CHR ''-'' \<notin> set (show_nat n)" for n
    using show_nat_digits [of n] by (auto simp: digit_chars_def)
  assume "show_int a = show_int b"
  with minus show "a = b"
    unfolding show_int_def by (auto split: if_splits dest!: show_nat_inj) (metis list.set_intros(1))+
qed

end
