(* ===== verification/JsRegex.thy ===== *)
theory JsRegex
  imports JsText
begin

text \<open>
  The regular expressions of the source. \<open>re\<close> is the abstract syntax, \<open>ends\<close> the backtracking
  matcher (all ends of a match from a position, in the order of the standard's matcher, with the
  captures), \<open>exec_at\<close>, \<open>re_test\<close>, \<open>replace_all\<close>, \<open>re_split\<close> and \<open>match_all\<close> the library
  functions built on it, and \<open>rx\<close> the reader of the literals. The flag \<open>i\<close> is the first argument
  of the matcher; since the patterns of the source are ASCII, it compares ASCII letters only.
\<close>

section \<open>Syntax\<close>

datatype class_item =
    One char
  | Word bool                             \<comment> \<open>\<open>\w\<close>, and \<open>\W\<close> for \<open>False\<close>\<close>
  | Space bool                            \<comment> \<open>\<open>\s\<close>, and \<open>\S\<close> for \<open>False\<close>\<close>
  | Digit

datatype re =
    Eps
  | Chr char
  | Cls bool "class_item list"            \<comment> \<open>\<open>[...]\<close>; the flag says the class is negated\<close>
  | WordB                                 \<comment> \<open>\<open>\b\<close>\<close>
  | Bol                                   \<comment> \<open>\<open>^\<close>\<close>
  | Eol                                   \<comment> \<open>\<open>$\<close>\<close>
  | Sq re re
  | Alt re re
  | Rep bool nat "nat option" re          \<comment> \<open>greedy flag, least and greatest number of copies\<close>
  | Grp nat re                            \<comment> \<open>capturing group\<close>
  | Look bool re                          \<comment> \<open>lookahead; \<open>False\<close> for \<open>(?!...)\<close>\<close>

text \<open>A state of the matcher: the position and the captures, latest first.\<close>

type_synonym mstate = "nat \<times> (nat \<times> nat \<times> nat) list"

section \<open>The matcher\<close>

definition fold_case :: "char \<Rightarrow> char" where
  "fold_case c = (case map_of (zip upper_letters lower_letters) c of Some d \<Rightarrow> d | None \<Rightarrow> c)"

text \<open>On the bits of a character, for evaluation: an upper-case letter has bits 5 and 7 clear.\<close>

lemma fold_case_code [code]:
  "fold_case (Char b0 b1 b2 b3 b4 b5 b6 b7) =
     (if b7 then Char b0 b1 b2 b3 b4 b5 b6 b7
      else if b6 then (if b5 then Char b0 b1 b2 b3 b4 b5 b6 b7
                       else if low_letter b0 b1 b2 b3 b4 then Char b0 b1 b2 b3 b4 True b6 b7
                       else Char b0 b1 b2 b3 b4 b5 b6 b7)
      else Char b0 b1 b2 b3 b4 b5 b6 b7)"
  by (cases b0; cases b1; cases b2; cases b3; cases b4; cases b5; cases b6; cases b7)
     (simp_all add: fold_case_def lower_letters_def upper_letters_def low_letter_def)

definition same_char :: "bool \<Rightarrow> char \<Rightarrow> char \<Rightarrow> bool" where
  "same_char ic c d = (if c = d then True else if ic then fold_case c = fold_case d else False)"

fun item_has :: "bool \<Rightarrow> char \<Rightarrow> class_item \<Rightarrow> bool" where
  "item_has ic c (One d) = same_char ic c d"
| "item_has ic c (Word pos) = (is_word c = pos)"
| "item_has ic c (Space pos) = (is_white c = pos)"
| "item_has ic c Digit = (c \<in> set digit_chars)"

definition char_at_word :: "string \<Rightarrow> nat \<Rightarrow> bool" where
  "char_at_word s i \<longleftrightarrow> i < length s \<and> is_word (s ! i)"

definition at_word_boundary :: "string \<Rightarrow> nat \<Rightarrow> bool" where
  "at_word_boundary s i \<longleftrightarrow> (0 < i \<and> char_at_word s (i - 1)) \<noteq> char_at_word s i"

text \<open>
  Repetition, given the matcher of one copy. A copy beyond the mandatory ones that consumes nothing
  is rejected, as the standard does; \<open>fuel\<close> bounds the number of copies (see \<open>rep_fuel_enough\<close>).
\<close>

fun rep_ends :: "bool \<Rightarrow> (mstate \<Rightarrow> mstate list) \<Rightarrow> nat \<Rightarrow> nat \<Rightarrow> nat option \<Rightarrow> mstate \<Rightarrow> mstate list" where
  "rep_ends greedy f 0 lo hi st = (if lo = 0 then [st] else [])"
| "rep_ends greedy f (Suc fuel) lo hi st =
     (if lo > 0 then concat (map (rep_ends greedy f fuel (lo - 1) (map_option (\<lambda>h. h - 1) hi)) (f st))
      else if hi = Some 0 then [st]
      else (let more = concat (map (rep_ends greedy f fuel 0 (map_option (\<lambda>h. h - 1) hi))
                                   (filter (\<lambda>st'. fst st' \<noteq> fst st) (f st)))
            in if greedy then more @ [st] else st # more))"

fun ends :: "bool \<Rightarrow> string \<Rightarrow> re \<Rightarrow> mstate \<Rightarrow> mstate list" where
  "ends ic s Eps st = [st]"
| "ends ic s (Chr c) st =
     (if fst st < length s then (if same_char ic (s ! fst st) c then [(Suc (fst st), snd st)] else []) else [])"
| "ends ic s (Cls neg items) st =
     (if fst st < length s
      then (if list_ex (item_has ic (s ! fst st)) items \<noteq> neg then [(Suc (fst st), snd st)] else [])
      else [])"
| "ends ic s WordB st = (if at_word_boundary s (fst st) then [st] else [])"
| "ends ic s Bol st = (if fst st = 0 then [st] else [])"
| "ends ic s Eol st = (if fst st = length s then [st] else [])"
| "ends ic s (Sq a b) st = concat (map (ends ic s b) (ends ic s a st))"
| "ends ic s (Alt a b) st = ends ic s a st @ ends ic s b st"
| "ends ic s (Rep greedy lo hi a) st = rep_ends greedy (ends ic s a) (lo + Suc (length s)) lo hi st"
| "ends ic s (Grp n a) st = map (\<lambda>st'. (fst st', (n, fst st, fst st') # snd st')) (ends ic s a st)"
| "ends ic s (Look pos a) st = (if (ends ic s a st \<noteq> []) = pos then [st] else [])"

text \<open>The match the library returns from one position: the first the backtracking order reaches.\<close>

definition match_here :: "bool \<Rightarrow> re \<Rightarrow> string \<Rightarrow> nat \<Rightarrow> mstate option" where
  "match_here ic r s i = first_of (ends ic s r (i, []))"

fun search_from :: "bool \<Rightarrow> re \<Rightarrow> string \<Rightarrow> nat list \<Rightarrow> (nat \<times> mstate) option" where
  "search_from ic r s [] = None"
| "search_from ic r s (i # is) =
     (case match_here ic r s i of Some st \<Rightarrow> Some (i, st) | None \<Rightarrow> search_from ic r s is)"

definition exec_at :: "bool \<Rightarrow> re \<Rightarrow> string \<Rightarrow> nat \<Rightarrow> (nat \<times> mstate) option" where
  "exec_at ic r s i = search_from ic r s [i..<Suc (length s)]"

definition re_test :: "bool \<Rightarrow> re \<Rightarrow> string \<Rightarrow> bool" where
  "re_test ic r s \<longleftrightarrow> exec_at ic r s 0 \<noteq> None"

definition substr :: "string \<Rightarrow> nat \<Rightarrow> nat \<Rightarrow> string" where
  "substr s i j = take (j - i) (drop i s)"

text \<open>\<open>match[n]\<close>.\<close>

definition capture :: "string \<Rightarrow> mstate \<Rightarrow> nat \<Rightarrow> string option" where
  "capture s st n = map_option (\<lambda>(i, j). substr s i j) (map_of (snd st) n)"

definition exec_groups :: "bool \<Rightarrow> re \<Rightarrow> string \<Rightarrow> (nat \<Rightarrow> string option) option" where
  "exec_groups ic r s = map_option (\<lambda>(i, st). capture s st) (exec_at ic r s 0)"

text \<open>All matches, left to right; after an empty match the search moves on by one unit.\<close>

fun matches_from :: "nat \<Rightarrow> bool \<Rightarrow> re \<Rightarrow> string \<Rightarrow> nat \<Rightarrow> (nat \<times> mstate) list" where
  "matches_from 0 ic r s i = []"
| "matches_from (Suc fuel) ic r s i =
     (case exec_at ic r s i of
        None \<Rightarrow> []
      | Some (b, st) \<Rightarrow> (b, st) # matches_from fuel ic r s (if fst st = b then Suc b else fst st))"

definition match_all :: "bool \<Rightarrow> re \<Rightarrow> string \<Rightarrow> (nat \<times> mstate) list" where
  "match_all ic r s = matches_from (Suc (length s)) ic r s 0"

text \<open>\<open>s.replace(r, f)\<close> with the flag \<open>g\<close>; \<open>f\<close> gets the matched text and the captures.\<close>

fun splice :: "string \<Rightarrow> (string \<Rightarrow> mstate \<Rightarrow> string) \<Rightarrow> nat \<Rightarrow> (nat \<times> mstate) list \<Rightarrow> string" where
  "splice s f i [] = drop i s"
| "splice s f i ((b, st) # ms) = substr s i b @ f (substr s b (fst st)) st @ splice s f (fst st) ms"

definition replace_all :: "bool \<Rightarrow> re \<Rightarrow> (string \<Rightarrow> mstate \<Rightarrow> string) \<Rightarrow> string \<Rightarrow> string" where
  "replace_all ic r f s = splice s f 0 (match_all ic r s)"

text \<open>\<open>s.split(r)\<close> for patterns without captures that never match the empty string.\<close>

fun pieces :: "string \<Rightarrow> nat \<Rightarrow> (nat \<times> mstate) list \<Rightarrow> string list" where
  "pieces s i [] = [drop i s]"
| "pieces s i ((b, st) # ms) = substr s i b # pieces s (fst st) ms"

definition re_split :: "bool \<Rightarrow> re \<Rightarrow> string \<Rightarrow> string list" where
  "re_split ic r s = pieces s 0 (match_all ic r s)"

section \<open>Reading a regular expression literal\<close>

definition esc_re :: "char \<Rightarrow> re" where
  "esc_re c =
     (if c = CHR ''b'' then WordB
      else if c = CHR ''s'' then Cls False [Space True]
      else if c = CHR ''S'' then Cls False [Space False]
      else if c = CHR ''w'' then Cls False [Word True]
      else if c = CHR ''W'' then Cls False [Word False]
      else if c = CHR ''d'' then Cls False [Digit]
      else if c = CHR ''n'' then Chr (CHR 0x0A)
      else if c = CHR ''r'' then Chr (CHR 0x0D)
      else if c = CHR ''t'' then Chr (CHR 0x09)
      else Chr c)"

definition esc_class :: "char \<Rightarrow> class_item list" where
  "esc_class c = (case esc_re c of Cls neg items \<Rightarrow> items | Chr d \<Rightarrow> [One d] | _ \<Rightarrow> [One c])"

text \<open>The ranges \<open>x-y\<close> between two digits or two letters of the same case.\<close>

definition range_alphabet :: string where
  "range_alphabet = digit_chars @ upper_letters @ lower_letters"

definition char_range :: "char \<Rightarrow> char \<Rightarrow> class_item list" where
  "char_range lo hi = map One (takeWhile (\<lambda>c. c \<noteq> hi) (dropWhile (\<lambda>c. c \<noteq> lo) range_alphabet) @ [hi])"

text \<open>The items of a class up to its \<open>]\<close>, and the rest of the literal.\<close>

fun class_items :: "string \<Rightarrow> class_item list \<times> string" where
  "class_items [] = ([], [])"
| "class_items [c] = ([], [])"
| "class_items [c, d] = (if c = CHR '']'' then ([], [d]) else ([One c], []))"
| "class_items (c # d # e # s) =
     (if c = CHR '']'' then ([], d # e # s)
      else if c = CHR ''%'' then (let (cs, r) = class_items (e # s) in (esc_class d @ cs, r))
      else if d = CHR ''-'' \<and> e \<noteq> CHR '']''
        then (let (cs, r) = class_items s in (char_range c e @ cs, r))
      else (let (cs, r) = class_items (d # e # s) in (One c # cs, r)))"

definition read_nat :: "string \<Rightarrow> nat" where
  "read_nat ds = foldl (\<lambda>n d. 10 * n + (of_char d - 48)) 0 ds"

text \<open>A quantifier after an atom.\<close>

definition lazy_mark :: "(bool \<Rightarrow> re) \<Rightarrow> string \<Rightarrow> re \<times> string" where
  "lazy_mark mk s =
     (case s of c # s' \<Rightarrow> (if c = CHR ''?'' then (mk False, s') else (mk True, s)) | [] \<Rightarrow> (mk True, s))"

definition read_quant :: "re \<Rightarrow> string \<Rightarrow> re \<times> string" where
  "read_quant a s =
     (case s of
        [] \<Rightarrow> (a, s)
      | c # s' \<Rightarrow>
          if c = CHR ''*'' then lazy_mark (\<lambda>g. Rep g 0 None a) s'
          else if c = CHR ''+'' then lazy_mark (\<lambda>g. Rep g 1 None a) s'
          else if c = CHR ''?'' then lazy_mark (\<lambda>g. Rep g 0 (Some 1) a) s'
          else if c = CHR ''{'' then
            (let body = takeWhile (\<lambda>d. d \<noteq> CHR ''}'') s';
                 rest = tl (dropWhile (\<lambda>d. d \<noteq> CHR ''}'') s');
                 lo = takeWhile (\<lambda>d. d \<noteq> CHR '','') body;
                 hi = tl (dropWhile (\<lambda>d. d \<noteq> CHR '','') body)
             in lazy_mark (\<lambda>g. Rep g (read_nat lo)
                  (if CHR '','' \<notin> set body then Some (read_nat lo) else if hi = [] then None else Some (read_nat hi)) a) rest)
          else (a, s))"

text \<open>
  Alternatives, sequences and atoms. The first argument is fuel (every call spends one unit; the
  length of the literal, tripled, is enough), the second the number of the next group.
\<close>

fun read_alt :: "nat \<Rightarrow> nat \<Rightarrow> string \<Rightarrow> re \<times> nat \<times> string"
and read_seq :: "nat \<Rightarrow> nat \<Rightarrow> string \<Rightarrow> re \<times> nat \<times> string"
and read_atom :: "nat \<Rightarrow> nat \<Rightarrow> string \<Rightarrow> re \<times> nat \<times> string" where
  "read_alt 0 g s = (Eps, g, s)"
| "read_alt (Suc n) g s =
     (let (a, g1, s1) = read_seq n g s in
      case s1 of
        c # s2 \<Rightarrow> if c = CHR ''|'' then (let (b, g2, s3) = read_alt n g1 s2 in (Alt a b, g2, s3)) else (a, g1, s1)
      | [] \<Rightarrow> (a, g1, s1))"
| "read_seq 0 g s = (Eps, g, s)"
| "read_seq (Suc n) g s =
     (case s of
        [] \<Rightarrow> (Eps, g, s)
      | c # s' \<Rightarrow>
          if c = CHR ''|'' \<or> c = CHR '')'' then (Eps, g, s)
          else (let (a, g1, s1) = read_atom n g s;
                    (q, s2) = read_quant a s1;
                    (b, g2, s3) = read_seq n g1 s2
                in (Sq q b, g2, s3)))"
| "read_atom 0 g s = (Eps, g, s)"
| "read_atom (Suc n) g s =
     (case s of
        [] \<Rightarrow> (Eps, g, s)
      | c # s' \<Rightarrow>
          if c = CHR ''('' then
            (if take 2 s' = ''?:'' then (let (a, g1, s1) = read_alt n g (drop 2 s') in (a, g1, tl s1))
             else if take 2 s' = ''?='' then (let (a, g1, s1) = read_alt n g (drop 2 s') in (Look True a, g1, tl s1))
             else if take 2 s' = ''?!'' then (let (a, g1, s1) = read_alt n g (drop 2 s') in (Look False a, g1, tl s1))
             else (let (a, g1, s1) = read_alt n (Suc g) s' in (Grp g a, g1, tl s1)))
          else if c = CHR ''['' then
            (case s' of
               d # s2 \<Rightarrow> if d = CHR 0x5E then (let (cs, r) = class_items s2 in (Cls True cs, g, r))
                         else (let (cs, r) = class_items s' in (Cls False cs, g, r))
             | [] \<Rightarrow> (Eps, g, s'))
          else if c = CHR ''%'' then (case s' of d # s2 \<Rightarrow> (esc_re d, g, s2) | [] \<Rightarrow> (Chr c, g, s'))
          else if c = CHR ''.'' then (Cls True [One (CHR 0x0A), One (CHR 0x0D)], g, s')
          else if c = CHR 0x5E then (Bol, g, s')
          else if c = CHR ''$'' then (Eol, g, s')
          else (Chr c, g, s'))"

definition rx :: "string \<Rightarrow> re" where
  "rx s = fst (read_alt (3 * length s + 3) 1 s)"

section \<open>Properties of the matcher\<close>

text \<open>Every end lies between the start and the end of the text.\<close>

definition advances :: "nat \<Rightarrow> (mstate \<Rightarrow> mstate list) \<Rightarrow> bool" where
  "advances n f \<longleftrightarrow> (\<forall>st st'. fst st \<le> n \<longrightarrow> st' \<in> set (f st) \<longrightarrow> fst st \<le> fst st' \<and> fst st' \<le> n)"

lemma advancesD: "advances n f \<Longrightarrow> fst st \<le> n \<Longrightarrow> st' \<in> set (f st) \<Longrightarrow> fst st \<le> fst st' \<and> fst st' \<le> n"
  unfolding advances_def by blast

lemma advancesI:
  "(\<And>st st'. fst st \<le> n \<Longrightarrow> st' \<in> set (f st) \<Longrightarrow> fst st \<le> fst st' \<and> fst st' \<le> n) \<Longrightarrow> advances n f"
  unfolding advances_def by blast

lemma rep_ends_advances: "advances n f \<Longrightarrow> advances n (rep_ends greedy f fuel lo hi)"
proof (induction fuel arbitrary: lo hi)
  case 0
  show ?case by (rule advancesI) (auto split: if_splits)
next
  case (Suc fuel)
  show ?case
  proof (rule advancesI)
    fix st st' :: mstate
    assume le: "fst st \<le> n" and "st' \<in> set (rep_ends greedy f (Suc fuel) lo hi st)"
    then consider "st' = st"
      | st'' lo' hi' where "st'' \<in> set (f st)" "st' \<in> set (rep_ends greedy f fuel lo' hi' st'')"
      by (auto simp: Let_def split: if_splits)
    then show "fst st \<le> fst st' \<and> fst st' \<le> n"
    proof cases
      case 1
      with le show ?thesis by simp
    next
      case 2
      from advancesD [OF Suc.prems le 2(1)] have mid: "fst st \<le> fst st''" "fst st'' \<le> n" by auto
      from advancesD [OF Suc.IH [OF Suc.prems] mid(2) 2(2)] mid show ?thesis by auto
    qed
  qed
qed

lemma ends_advances: "advances (length s) (ends ic s r)"
proof (induction r)
  case (Sq a b)
  show ?case
  proof (rule advancesI)
    fix st st'
    assume le: "fst st \<le> length s" and "st' \<in> set (ends ic s (Sq a b) st)"
    then obtain st'' where a: "st'' \<in> set (ends ic s a st)" and b: "st' \<in> set (ends ic s b st'')" by auto
    from advancesD [OF Sq.IH(1) le a] have mid: "fst st \<le> fst st''" "fst st'' \<le> length s" by auto
    from advancesD [OF Sq.IH(2) mid(2) b] mid show "fst st \<le> fst st' \<and> fst st' \<le> length s" by auto
  qed
next
  case (Alt a b)
  show ?case by (rule advancesI) (use Alt.IH in \<open>auto dest: advancesD\<close>)
next
  case (Rep greedy lo hi a)
  show ?case
    by (rule advancesI) (simp only: ends.simps, drule advancesD [OF rep_ends_advances [OF Rep.IH]], assumption+)
next
  case (Grp n a)
  show ?case by (rule advancesI) (use Grp.IH in \<open>auto dest: advancesD\<close>)
qed (rule advancesI, auto split: if_splits)+

text \<open>
  The fuel of a repetition is enough: from a position \<open>i\<close>, at most \<open>lo\<close> mandatory copies and
  \<open>length s - i\<close> further ones can be made, so any fuel beyond that gives the same ends.
\<close>

lemma rep_fuel_enough:
  assumes "advances n f" and "fst st \<le> n" and "lo + (n - fst st) < fuel"
  shows "rep_ends greedy f (Suc fuel) lo hi st = rep_ends greedy f fuel lo hi st"
  using assms(2,3)
proof (induction fuel arbitrary: lo hi st)
  case 0
  then show ?case by simp
next
  case (Suc fuel)
  have step: "rep_ends greedy f (Suc fuel) lo' hi' st' = rep_ends greedy f fuel lo' hi' st'"
    if "st' \<in> set (f st)" and "lo' + (n - fst st') < fuel" for lo' hi' st'
    using Suc.IH that advancesD [OF assms(1) Suc.prems(1) that(1)] by simp
  show ?case
  proof (cases "lo > 0")
    case True
    have "map (rep_ends greedy f (Suc fuel) (lo - 1) (map_option (\<lambda>h. h - 1) hi)) (f st)
        = map (rep_ends greedy f fuel (lo - 1) (map_option (\<lambda>h. h - 1) hi)) (f st)"
    proof (rule map_cong [OF refl])
      fix st' assume st': "st' \<in> set (f st)"
      from advancesD [OF assms(1) Suc.prems(1) st'] Suc.prems(2) True
      have "lo - 1 + (n - fst st') < fuel" by linarith
      with st' show "rep_ends greedy f (Suc fuel) (lo - 1) (map_option (\<lambda>h. h - 1) hi) st'
        = rep_ends greedy f fuel (lo - 1) (map_option (\<lambda>h. h - 1) hi) st'" by (rule step)
    qed
    with True show ?thesis by (simp only: rep_ends.simps if_True)
  next
    case False
    let ?ys = "filter (\<lambda>st'. fst st' \<noteq> fst st) (f st)"
    have "map (rep_ends greedy f (Suc fuel) 0 (map_option (\<lambda>h. h - 1) hi)) ?ys
        = map (rep_ends greedy f fuel 0 (map_option (\<lambda>h. h - 1) hi)) ?ys"
    proof (rule map_cong [OF refl])
      fix st' assume "st' \<in> set ?ys"
      then have st': "st' \<in> set (f st)" and ne: "fst st' \<noteq> fst st" by auto
      from advancesD [OF assms(1) Suc.prems(1) st'] ne Suc.prems(2)
      have "0 + (n - fst st') < fuel" by linarith
      with st' show "rep_ends greedy f (Suc fuel) 0 (map_option (\<lambda>h. h - 1) hi) st'
        = rep_ends greedy f fuel 0 (map_option (\<lambda>h. h - 1) hi) st'" by (rule step)
    qed
    with False show ?thesis by (simp only: rep_ends.simps if_False)
  qed
qed

lemma search_from_SomeD:
  "search_from ic r s is = Some (i, st) \<Longrightarrow> i \<in> set is \<and> match_here ic r s i = Some st"
  by (induction "is") (auto split: option.splits)

lemma search_from_None: "search_from ic r s is = None \<longleftrightarrow> (\<forall>i\<in>set is. ends ic s r (i, []) = [])"
  by (induction "is") (auto simp: match_here_def split: option.splits)

lemma exec_at_bounds:
  assumes "exec_at ic r s i = Some (b, st)"
  shows "i \<le> b" and "b \<le> fst st" and "fst st \<le> length s"
proof -
  from assms have b: "i \<le> b" "b \<le> length s" and st: "match_here ic r s b = Some st"
    by (auto simp: exec_at_def simp del: upt_Suc dest!: search_from_SomeD)
  from st have "st \<in> set (ends ic s r (b, []))"
    unfolding match_here_def by (rule first_of_SomeD)
  from advancesD [OF ends_advances _ this] b show "i \<le> b" "b \<le> fst st" "fst st \<le> length s" by auto
qed

text \<open>A pattern is found exactly when it matches from some position.\<close>

lemma re_test_iff: "re_test ic r s \<longleftrightarrow> (\<exists>i\<le>length s. ends ic s r (i, []) \<noteq> [])"
proof -
  have "exec_at ic r s 0 = None \<longleftrightarrow> (\<forall>i\<in>set [0..<Suc (length s)]. ends ic s r (i, []) = [])"
    unfolding exec_at_def by (rule search_from_None)
  then show ?thesis unfolding re_test_def by (auto simp: less_Suc_eq_le simp del: upt_Suc)
qed

end
