(* ===== verification/Keyed_Maps.thy ===== *)
theory Keyed_Maps
  imports Prelude
begin

text \<open>
  JavaScript maps and string-keyed records beyond the two operations of the prelude: the keys they
  hold, deletion by key and by value, and mapping over the values.
\<close>

definition has_key :: "('k \<times> 'v) list \<Rightarrow> 'k \<Rightarrow> bool" where
  "has_key m k \<longleftrightarrow> get_key m k \<noteq> None"

definition del_key :: "('k \<times> 'v) list \<Rightarrow> 'k \<Rightarrow> ('k \<times> 'v) list" where
  "del_key m k = filter (\<lambda>kv. fst kv \<noteq> k) m"

lemma get_key_Nil [simp]: "get_key [] k = None"
  by (simp add: get_key_def)

lemma get_key_Cons [simp]: "get_key ((k, v) # m) k' = (if k' = k then Some v else get_key m k')"
  by (simp add: get_key_def)

lemma get_key_SomeD: "get_key m k = Some v \<Longrightarrow> (k, v) \<in> set m"
  by (simp add: get_key_def map_of_SomeD)

lemma get_key_None_iff: "get_key m k = None \<longleftrightarrow> k \<notin> fst ` set m"
  by (simp add: get_key_def map_of_eq_None_iff)

lemma get_del_key [simp]: "get_key (del_key m k) k' = (if k' = k then None else get_key m k')"
  by (induction m) (auto simp: del_key_def)

lemma has_key_simps [simp]:
  "\<not> has_key [] k"
  "has_key (set_key m k v) k' \<longleftrightarrow> k' = k \<or> has_key m k'"
  "has_key (del_key m k) k' \<longleftrightarrow> k' \<noteq> k \<and> has_key m k'"
  by (auto simp: has_key_def)

lemma keys_set_key [simp]: "fst ` set (set_key m k v) = insert k (fst ` set m)"
  by (induction m k v rule: set_key.induct) auto

lemma set_key_new: "k \<notin> fst ` set m \<Longrightarrow> set_key m k v = m @ [(k, v)]"
  by (induction m k v rule: set_key.induct) auto

lemma distinct_set_key [simp]: "distinct (map fst m) \<Longrightarrow> distinct (map fst (set_key m k v))"
  by (induction m k v rule: set_key.induct) auto

lemma distinct_filter_keys [simp]: "distinct (map fst m) \<Longrightarrow> distinct (map fst (filter p m))"
  by (induction m) auto

lemma distinct_del_key [simp]: "distinct (map fst m) \<Longrightarrow> distinct (map fst (del_key m k))"
  by (simp add: del_key_def)

lemma get_key_map_value: "get_key (map (\<lambda>(k, v). (k, f k v)) m) k = map_option (f k) (get_key m k)"
  by (induction m) auto

lemma get_key_filter_value:
  "distinct (map fst m) \<Longrightarrow> get_key (filter (\<lambda>kv. p (snd kv)) m) k = Some v \<longleftrightarrow> get_key m k = Some v \<and> p v"
proof (induction m)
  case (Cons x m)
  obtain k' v' where x: "x = (k', v')" by (cases x)
  have "k' \<notin> fst ` set m" using Cons.prems x by simp
  then have "get_key (filter (\<lambda>kv. p (snd kv)) m) k' = None" by (auto simp: get_key_None_iff)
  with Cons x show ?case by auto
qed simp

end
