(* ===== verification/Contracts.thy ===== *)
theory Contracts
  imports JsText
begin

text \<open>
  The shared contracts of \<open>packages/contracts/src\<close>: the interview states, the actions and the two
  tables that tie them together, the interviewer policy, the candidate state, turns, the context
  and the decision of the response gate, the scenario content, and the session events.

  Texts made for the log only (the \<open>reason\<close> of a decision) are kept as constructors that carry the
  interpolated values, instead of the rendered sentence. A date string is represented by what
  \<open>Date.parse\<close> makes of it: the instant in milliseconds, or \<open>None\<close> for \<open>NaN\<close>.
\<close>

section \<open>Interview states and actions (\<open>interview-state.ts\<close>)\<close>

datatype interview_state =
    ORAL_PROBLEM_DELIVERY | CLARIFICATION | APPROACH_EXPLORATION | IMPLEMENTATION
  | TEST_AND_DEBUG | FOLLOW_UP | WRAP_UP | EVALUATION

datatype interview_action =
    STAY_SILENT | DELIVER_BRIEF | ACKNOWLEDGE_BRIEFLY | ANSWER_CLARIFICATION | ASK_PROBE
  | GIVE_HINT_L1 | GIVE_HINT_L2 | TRANSITION_STAGE | PRESENT_FOLLOW_UP | END_INTERVIEW

fun ALLOWED_ACTIONS :: "interview_state \<Rightarrow> interview_action list" where
  "ALLOWED_ACTIONS ORAL_PROBLEM_DELIVERY = [STAY_SILENT, DELIVER_BRIEF, TRANSITION_STAGE]"
| "ALLOWED_ACTIONS CLARIFICATION =
     [STAY_SILENT, ACKNOWLEDGE_BRIEFLY, ANSWER_CLARIFICATION, DELIVER_BRIEF, TRANSITION_STAGE]"
| "ALLOWED_ACTIONS APPROACH_EXPLORATION =
     [STAY_SILENT, DELIVER_BRIEF, ACKNOWLEDGE_BRIEFLY, ANSWER_CLARIFICATION, ASK_PROBE, GIVE_HINT_L1,
      TRANSITION_STAGE]"
| "ALLOWED_ACTIONS IMPLEMENTATION =
     [STAY_SILENT, DELIVER_BRIEF, ANSWER_CLARIFICATION, ASK_PROBE, GIVE_HINT_L1, TRANSITION_STAGE]"
| "ALLOWED_ACTIONS TEST_AND_DEBUG =
     [STAY_SILENT, DELIVER_BRIEF, ACKNOWLEDGE_BRIEFLY, ANSWER_CLARIFICATION, ASK_PROBE, GIVE_HINT_L1,
      GIVE_HINT_L2, TRANSITION_STAGE]"
| "ALLOWED_ACTIONS FOLLOW_UP =
     [STAY_SILENT, ACKNOWLEDGE_BRIEFLY, ANSWER_CLARIFICATION, ASK_PROBE, PRESENT_FOLLOW_UP,
      TRANSITION_STAGE]"
| "ALLOWED_ACTIONS WRAP_UP = [STAY_SILENT, ACKNOWLEDGE_BRIEFLY, END_INTERVIEW]"
| "ALLOWED_ACTIONS EVALUATION = []"

fun ALLOWED_TRANSITIONS :: "interview_state \<Rightarrow> interview_state list" where
  "ALLOWED_TRANSITIONS ORAL_PROBLEM_DELIVERY = [CLARIFICATION]"
| "ALLOWED_TRANSITIONS CLARIFICATION = [APPROACH_EXPLORATION]"
| "ALLOWED_TRANSITIONS APPROACH_EXPLORATION = [IMPLEMENTATION]"
| "ALLOWED_TRANSITIONS IMPLEMENTATION = [TEST_AND_DEBUG]"
| "ALLOWED_TRANSITIONS TEST_AND_DEBUG = [FOLLOW_UP, WRAP_UP]"
| "ALLOWED_TRANSITIONS FOLLOW_UP = [WRAP_UP]"
| "ALLOWED_TRANSITIONS WRAP_UP = [EVALUATION]"
| "ALLOWED_TRANSITIONS EVALUATION = []"

definition isActionAllowed :: "interview_state \<Rightarrow> interview_action \<Rightarrow> bool" where
  "isActionAllowed s a \<longleftrightarrow> a \<in> set (ALLOWED_ACTIONS s)"

definition isTransitionAllowed :: "interview_state \<Rightarrow> interview_state \<Rightarrow> bool" where
  "isTransitionAllowed from_state to_state \<longleftrightarrow> to_state \<in> set (ALLOWED_TRANSITIONS from_state)"

text \<open>The states in the order of \<open>INTERVIEW_STATES\<close>, as a linear order.\<close>

fun stage_index :: "interview_state \<Rightarrow> nat" where
  "stage_index ORAL_PROBLEM_DELIVERY = 0"
| "stage_index CLARIFICATION = 1"
| "stage_index APPROACH_EXPLORATION = 2"
| "stage_index IMPLEMENTATION = 3"
| "stage_index TEST_AND_DEBUG = 4"
| "stage_index FOLLOW_UP = 5"
| "stage_index WRAP_UP = 6"
| "stage_index EVALUATION = 7"

lemma stage_index_inj: "stage_index a = stage_index b \<Longrightarrow> a = b"
  by (cases a; cases b) simp_all

lemma stage_index_le_7 [simp]: "stage_index s \<le> 7"
  by (cases s) simp_all

instantiation interview_state :: linorder
begin

definition less_eq_interview_state :: "interview_state \<Rightarrow> interview_state \<Rightarrow> bool" where
  "less_eq_interview_state a b \<longleftrightarrow> stage_index a \<le> stage_index b"

definition less_interview_state :: "interview_state \<Rightarrow> interview_state \<Rightarrow> bool" where
  "less_interview_state a b \<longleftrightarrow> stage_index a < stage_index b"

instance
  by standard (auto simp: less_eq_interview_state_def less_interview_state_def intro: stage_index_inj)

end

lemmas stage_order = less_eq_interview_state_def less_interview_state_def

fun state_name :: "interview_state \<Rightarrow> string" where
  "state_name ORAL_PROBLEM_DELIVERY = ''ORAL_PROBLEM_DELIVERY''"
| "state_name CLARIFICATION = ''CLARIFICATION''"
| "state_name APPROACH_EXPLORATION = ''APPROACH_EXPLORATION''"
| "state_name IMPLEMENTATION = ''IMPLEMENTATION''"
| "state_name TEST_AND_DEBUG = ''TEST_AND_DEBUG''"
| "state_name FOLLOW_UP = ''FOLLOW_UP''"
| "state_name WRAP_UP = ''WRAP_UP''"
| "state_name EVALUATION = ''EVALUATION''"

definition all_states :: "interview_state list" where
  "all_states = [ORAL_PROBLEM_DELIVERY, CLARIFICATION, APPROACH_EXPLORATION, IMPLEMENTATION,
     TEST_AND_DEBUG, FOLLOW_UP, WRAP_UP, EVALUATION]"

text \<open>\<open>InterviewStateSchema.safeParse\<close>.\<close>

definition parse_state :: "string \<Rightarrow> interview_state option" where
  "parse_state s = List.find (\<lambda>st. state_name st = s) all_states"

fun action_name :: "interview_action \<Rightarrow> string" where
  "action_name STAY_SILENT = ''STAY_SILENT''"
| "action_name DELIVER_BRIEF = ''DELIVER_BRIEF''"
| "action_name ACKNOWLEDGE_BRIEFLY = ''ACKNOWLEDGE_BRIEFLY''"
| "action_name ANSWER_CLARIFICATION = ''ANSWER_CLARIFICATION''"
| "action_name ASK_PROBE = ''ASK_PROBE''"
| "action_name GIVE_HINT_L1 = ''GIVE_HINT_L1''"
| "action_name GIVE_HINT_L2 = ''GIVE_HINT_L2''"
| "action_name TRANSITION_STAGE = ''TRANSITION_STAGE''"
| "action_name PRESENT_FOLLOW_UP = ''PRESENT_FOLLOW_UP''"
| "action_name END_INTERVIEW = ''END_INTERVIEW''"

lemma state_name_inj [simp]: "state_name a = state_name b \<longleftrightarrow> a = b"
  by (cases a; cases b) simp_all

lemma parse_state_name [simp]: "parse_state (state_name s) = Some s"
  by (cases s) (simp_all add: parse_state_def all_states_def)

lemma action_name_silent [simp]: "action_name a = ''STAY_SILENT'' \<longleftrightarrow> a = STAY_SILENT"
  by (cases a) simp_all

section \<open>Policy (\<open>interview-state.ts\<close>)\<close>

datatype interview_mode = LEARNING | MOCK | STRICT

record interview_policy =
  mode :: interview_mode
  maxHintLevel :: nat
  hintBudget :: nat
  stallThreshold :: real
  minSecondsBetweenProbes :: real
  acknowledgeSmallTalk :: bool
  endOfTurnThreshold :: real
  minTurnEndSilenceMs :: real
  settledTurnEndSilenceMs :: real
  minTurnEndSilenceMsConfident :: "real option"
  settledTurnEndSilenceMsConfident :: "real option"
  minTurnEndSilenceMsPatient :: "real option"
  settledTurnEndSilenceMsPatient :: "real option"
  interruptQuietSeconds :: real
  stallSeconds :: real
  maxCodeStalenessSeconds :: real
  wrapUpSeconds :: real
  followUpMinSeconds :: real
  policyExpectedMinutes :: real

section \<open>Candidate state (\<open>candidate-state.ts\<close>) and milestones\<close>

type_synonym instant = "real option"

datatype milestone_kind =
    FIRST_COMPILES | BASE_TESTS_PASS | COMPLEXITY_CLAIM_MISMATCH | REPEATED_SAME_FAILURE | LARGE_REWRITE

fun milestone_name :: "milestone_kind \<Rightarrow> string" where
  "milestone_name FIRST_COMPILES = ''FIRST_COMPILES''"
| "milestone_name BASE_TESTS_PASS = ''BASE_TESTS_PASS''"
| "milestone_name COMPLEXITY_CLAIM_MISMATCH = ''COMPLEXITY_CLAIM_MISMATCH''"
| "milestone_name REPEATED_SAME_FAILURE = ''REPEATED_SAME_FAILURE''"
| "milestone_name LARGE_REWRITE = ''LARGE_REWRITE''"

definition parse_milestone :: "string \<Rightarrow> milestone_kind option" where
  "parse_milestone s = List.find (\<lambda>k. milestone_name k = s)
     [FIRST_COMPILES, BASE_TESTS_PASS, COMPLEXITY_CLAIM_MISMATCH, REPEATED_SAME_FAILURE, LARGE_REWRITE]"

lemma parse_milestone_name [simp]: "parse_milestone (milestone_name k) = Some k"
  by (cases k) (simp_all add: parse_milestone_def)

datatype code_activity = NONE | LOW | MEDIUM | HIGH

record candidate_state =
  currentApproach :: "string option"
  alternativesMentioned :: "string list"
  claimedTime :: "string option"
  claimedSpace :: "string option"
  detectedSolutionFamilyId :: "string option"
  understoodConstraints :: "string list"
  unresolvedRisks :: "string list"
  implementationProgress :: real
  recentCodeActivity :: code_activity
  stuckScore :: real
  hintsUsed :: "nat list"
  probeHistory :: "string list"
  milestonesReached :: "milestone_kind list"
  approachConfidence :: real
  complexityConfidence :: real
  derivedFromRevision :: real
  codeObservedAt :: "instant option"
  updatedAt :: instant

definition emptyCandidateState :: "instant \<Rightarrow> candidate_state" where
  "emptyCandidateState now = \<lparr>
     currentApproach = None,
     alternativesMentioned = [],
     claimedTime = None,
     claimedSpace = None,
     detectedSolutionFamilyId = None,
     understoodConstraints = [],
     unresolvedRisks = [],
     implementationProgress = 0,
     recentCodeActivity = NONE,
     stuckScore = 0,
     hintsUsed = [],
     probeHistory = [],
     milestonesReached = [],
     approachConfidence = 0,
     complexityConfidence = 0,
     derivedFromRevision = 0,
     codeObservedAt = None,
     updatedAt = now\<rparr>"

section \<open>Turns, context and decisions (\<open>gate.ts\<close> of the contracts)\<close>

datatype turn_intent =
    THINK_ALOUD | EXPLICIT_QUESTION | CLARIFICATION_REQUEST | HINT_REQUEST | COMPLEXITY_CLAIM
  | APPROACH_COMMITMENT | TEST_PLAN | CONFUSION | DONE_SIGNAL | SOCIAL_SMALL_TALK

record prosodic_evidence =
  ps_probability :: real
  ps_confidence :: real
  ps_reason :: "string option"

record turn =
  turnId :: string
  finalized :: bool
  transcript :: string
  semanticEndProbability :: real
  textEndProbability :: "real option"
  silenceMsBeforeEnd :: "real option"
  turn_prosody :: "prosodic_evidence option"
  intent :: turn_intent
  endedAt :: instant

record interview_context =
  state :: interview_state
  policy :: interview_policy
  candidateState :: candidate_state
  turn :: "turn option"
  interviewerCurrentlySpeaking :: bool
  candidateSpeechStarted :: bool
  candidateSpeakingNow :: bool
  secondsSinceInterviewerLastSpoke :: real
  secondsSinceCodeActivity :: real
  remainingSeconds :: real
  latestCodeRevision :: real

datatype clarification_refusal = NO_SUCH_FACT | NOT_YET_DISCLOSABLE | CANDIDATE_SHOULD_ASSUME

text \<open>Why a decision was taken: one constructor per sentence of the source, with its values.\<close>

datatype reason =
    OpeningBriefNotDelivered
  | OpeningNeverPlayed
  | BargeIn
  | CandidateStillSpeaking
  | TurnNotFinalized
  | BelowEndThreshold real real
  | SpokeBeforeOpeningReoffered
  | AskedToHearAgain
  | CanonicalFact string
  | NoCanonicalAnswer clarification_refusal
  | HintExhausted
  | HintPermitted nat
  | SmallTalkAcknowledged
  | SmallTalkIgnored
  | FollowUpEligible string
  | ObserverBehindMoving real
  | ProbeButTyping string real real
  | ProbeButTooSoon string real real
  | ObserverBehind real
  | ObservationTooOld real real
  | ObservationAgeUnknown
  | ProbeAsked string string
  | StuckOverThreshold real real
  | NoRuleAuthorized
  | NotPermittedIn interview_action interview_state reason
  | SpeechStaleRevision real real
  | SpeechAgeUnknown
  | SpeechTooOld real real

record gate_decision =
  action :: interview_action
  reason :: reason
  decidedByRule :: bool
  probeId :: "string option"
  hintLevel :: "nat option"
  factKey :: "string option"
  followUpId :: "string option"
  groundedInRevision :: "real option"

text \<open>A decision with only the three mandatory fields, and the silent one (\<open>SILENT\<close>).\<close>

definition decided :: "interview_action \<Rightarrow> reason \<Rightarrow> gate_decision" where
  "decided a r = \<lparr>action = a, reason = r, decidedByRule = True, probeId = None, hintLevel = None,
     factKey = None, followUpId = None, groundedInRevision = None\<rparr>"

definition SILENT :: "reason \<Rightarrow> gate_decision" where
  "SILENT r = decided STAY_SILENT r"

lemma decided_sel [simp]:
  "action (decided a r) = a" "reason (decided a r) = r" "decidedByRule (decided a r)"
  "probeId (decided a r) = None" "hintLevel (decided a r) = None" "factKey (decided a r) = None"
  "followUpId (decided a r) = None" "groundedInRevision (decided a r) = None"
  by (simp_all add: decided_def)

lemma SILENT_sel [simp]:
  "action (SILENT r) = STAY_SILENT" "reason (SILENT r) = r"
  "probeId (SILENT r) = None" "hintLevel (SILENT r) = None" "factKey (SILENT r) = None"
  "followUpId (SILENT r) = None" "groundedInRevision (SILENT r) = None"
  by (simp_all add: SILENT_def)

section \<open>Scenario content (\<open>scenario.ts\<close>)\<close>

datatype disclosure_level = ALWAYS | IF_ASKED | AFTER_PROBE

record fact =
  fact_key :: string
  fact_value :: string
  disclosure :: disclosure_level
  askedAs :: "string list"

record solution_family =
  family_id :: string
  timeComplexity :: string
  spaceComplexity :: string
  isOptimal :: bool

record probe =
  probe_id :: string
  probe_trigger :: string
  questionIntent :: string
  authoredVariants :: "string list"
  maxUses :: nat
  priority :: int

record hint =
  hint_level :: nat
  hint_text :: string
  scoreImpact :: real

record follow_up =
  followup_id :: string
  followup_trigger :: string
  oralDelta :: string
  rubricDelta :: "(string \<times> real) list"
  expectedAdaptation :: string

record test_case =
  test_id :: string
  hidden :: bool

datatype scenario_status = DRAFT | IN_REVIEW | ACTIVE | RETIRED

record scenario_version =
  version_id :: string
  scenarioId :: string
  version :: nat
  status :: scenario_status
  reviewNotes :: string
  expectedMinutes :: nat
  openingScript :: string
  repeatVariants :: "string list"
  facts :: "fact list"
  visibleStarterTests :: "test_case list"
  hiddenTests :: "test_case list"
  solutionFamilies :: "solution_family list"
  probes :: "probe list"
  hintLadder :: "hint list"
  followUps :: "follow_up list"

text \<open>What the schema of a scenario guarantees and the orchestrator relies on.\<close>

definition schema_ok :: "scenario_version \<Rightarrow> bool" where
  "schema_ok sc \<longleftrightarrow> repeatVariants sc \<noteq> [] \<and> solutionFamilies sc \<noteq> [] \<and> length (hintLadder sc) = 4 \<and>
     (\<forall>p\<in>set (probes sc). authoredVariants p \<noteq> [] \<and> (\<forall>v\<in>set (authoredVariants p). v \<noteq> []) \<and> 1 \<le> maxUses p) \<and>
     (\<forall>h\<in>set (hintLadder sc). hint_level h \<in> {1, 2, 3, 4} \<and> 0 \<le> scoreImpact h \<and> scoreImpact h \<le> 1)"

section \<open>Session events (\<open>session-event.ts\<close>)\<close>

datatype event_actor = CANDIDATE | INTERVIEWER | SYSTEM

datatype event_type =
    SESSION_STARTED | SESSION_ENDED | STATE_TRANSITIONED | TIMER_PAUSED | TIMER_RESUMED
  | SPEECH_STARTED | SPEECH_STOPPED | SPEECH_FINAL | SILENCE_ELAPSED | BARGE_IN
  | ACTION_DECIDED | BRIEF_DELIVERED | CLARIFICATION_ANSWERED | PROBE_ASKED | HINT_GIVEN
  | FOLLOW_UP_PRESENTED | UTTERANCE_OUTCOME
  | CODE_DELTA | SEMANTIC_SNAPSHOT | NOTE_DELTA | RUN_REQUESTED | RUN_COMPLETED | MILESTONE
  | CANDIDATE_STATE_UPDATED | RUNTIME_CHECKPOINT
  | VOICE_LATENCY_MEASURED
  | CONNECTION_LOST | CONNECTION_RESTORED | RUNNER_UNAVAILABLE | MODEL_ERROR

definition EVENT_TYPES :: "event_type list" where
  "EVENT_TYPES =
     [SESSION_STARTED, SESSION_ENDED, STATE_TRANSITIONED, TIMER_PAUSED, TIMER_RESUMED,
      SPEECH_STARTED, SPEECH_STOPPED, SPEECH_FINAL, SILENCE_ELAPSED, BARGE_IN,
      ACTION_DECIDED, BRIEF_DELIVERED, CLARIFICATION_ANSWERED, PROBE_ASKED, HINT_GIVEN,
      FOLLOW_UP_PRESENTED, UTTERANCE_OUTCOME,
      CODE_DELTA, SEMANTIC_SNAPSHOT, NOTE_DELTA, RUN_REQUESTED, RUN_COMPLETED, MILESTONE,
      CANDIDATE_STATE_UPDATED, RUNTIME_CHECKPOINT,
      VOICE_LATENCY_MEASURED,
      CONNECTION_LOST, CONNECTION_RESTORED, RUNNER_UNAVAILABLE, MODEL_ERROR]"

definition CLIENT_EVENT_TYPES :: "event_type list" where
  "CLIENT_EVENT_TYPES =
     [CODE_DELTA, NOTE_DELTA, RUN_REQUESTED, SPEECH_STARTED, SPEECH_STOPPED, SPEECH_FINAL, BARGE_IN]"

definition SERVER_ONLY_EVENT_TYPES :: "event_type list" where
  "SERVER_ONLY_EVENT_TYPES = filter (\<lambda>t. t \<notin> set CLIENT_EVENT_TYPES) EVENT_TYPES"

text \<open>
  Payloads: loose JSON objects. \<open>JReason\<close> stands for the rendered sentence of a reason, \<open>JDate\<close> for a
  string that holds a date.
\<close>

datatype json =
    JNull
  | JBool bool
  | JNum real
  | JStr string
  | JArr "json list"
  | JObj "(string \<times> json) list"
  | JReason reason
  | JDate instant

type_synonym payload = "(string \<times> json) list"

definition field :: "payload \<Rightarrow> string \<Rightarrow> json option" where
  "field p k = map_of p k"

text \<open>\<open>stringOf\<close> and \<open>numberOf\<close>, the two guards every consumer of a payload uses.\<close>

definition stringOf :: "json option \<Rightarrow> string option" where
  "stringOf v = (case v of Some (JStr s) \<Rightarrow> Some s | _ \<Rightarrow> None)"

definition numberOf :: "json option \<Rightarrow> real option" where
  "numberOf v = (case v of Some (JNum r) \<Rightarrow> Some r | _ \<Rightarrow> None)"

lemma stringOf_simps [simp]:
  "stringOf None = None" "stringOf (Some (JStr s)) = Some s" "stringOf (Some (JNum r)) = None"
  by (simp_all add: stringOf_def)

lemma numberOf_simps [simp]:
  "numberOf None = None" "numberOf (Some (JNum r)) = Some r" "numberOf (Some (JStr s)) = None"
  by (simp_all add: numberOf_def)

record session_event =
  sessionId :: string
  seq :: nat
  occurredAt :: instant
  etype :: event_type
  actor :: event_actor
  scenarioVersionId :: string
  payload :: payload
  evidenceHash :: string
  traceId :: string

section \<open>Lemmas on the tables\<close>

text \<open>Transitions only lead forward in the order of the stages.\<close>

lemma transition_forward: "isTransitionAllowed a b \<Longrightarrow> a < b"
  by (cases a) (auto simp: isTransitionAllowed_def stage_order)

lemma silent_allowed [simp]: "isActionAllowed s STAY_SILENT \<longleftrightarrow> s \<noteq> EVALUATION"
  by (cases s) (simp_all add: isActionAllowed_def)

lemma transition_stage_allowed [simp]:
  "isActionAllowed s TRANSITION_STAGE \<longleftrightarrow> s \<noteq> WRAP_UP \<and> s \<noteq> EVALUATION"
  by (cases s) (simp_all add: isActionAllowed_def)

lemma nothing_allowed_in_evaluation [simp]: "\<not> isActionAllowed EVALUATION a"
  by (simp add: isActionAllowed_def)

lemma event_types_complete: "t \<in> set EVENT_TYPES"
  by (cases t) (simp_all add: EVENT_TYPES_def)

end
