(* ===== verification/RealtimeVoice.thy ===== *)
theory RealtimeVoice
  imports Vad JsRegex Keyed_Maps Contracts
begin

text \<open>
  \<open>apps/web/lib/realtime-voice.ts\<close>: one connection to the speech model. The record keeps, in order, what
  was sent, which callbacks were made, and the moments at which a request is given up or the link
  closes. The owner reacts to a callback with calls of its own; \<open>react\<close> says which. A frame of the
  microphone comes with its level, \<open>frameDb\<close> of its samples; encodings of audio are left as they are.
\<close>

section \<open>Messages and callbacks\<close>

record authorization =
  au_action :: string
  au_utteranceId :: string

type_synonym tool_call = "string \<times> string \<times> json"
type_synonym tool_response = "string \<times> string \<times> payload"

text \<open>The number of a tool response is the epoch of its request, which is not part of the message.\<close>

datatype sent =
    Setup string
  | ActivityStart
  | ActivityEnd
  | AudioChunk "real list"
  | Instruct string string
  | ToolResponse nat "tool_response list"

datatype voice_callback =
    SpeechStarted real
  | SpeechStopped real "json option"
  | ModelAudio string "string option"
  | InputTranscript string bool
  | BargeIn
  | Provisional bool
  | Ready
  | ResumptionHandle string
  | GoAway real
  | Disconnected
  | VoiceError string
  | SpeechComplete "string option" bool
  | ToolCalled string real bool "string option"

datatype trace_item = Sent sent | Called voice_callback | Invalidated | Released | LinkClosed

text \<open>The calls of the owner that a callback can lead to.\<close>

datatype owner_call = RequestSpeech authorization | CancelSpeech | NoteLocal bool | NoteModel bool

type_synonym reaction = "voice_callback \<Rightarrow> owner_call list"

section \<open>State\<close>

datatype link_state = Dialing | Open | Closing | Gone

record relay =
  rl_epoch :: nat
  rl_left :: "tool_call list"
  rl_got :: "tool_response list"

record voice =
  rv_link :: link_state
  rv_vad :: vad
  rv_ready :: bool
  rv_muted :: bool
  rv_interviewerSpeaking :: bool
  rv_accepting :: bool
  rv_local :: bool
  rv_model :: bool
  rv_inputOpen :: bool
  rv_frames :: "real list list"
  rv_samples :: nat
  rv_provisional :: "real option"
  rv_generating :: bool
  rv_audioThisTurn :: bool
  rv_request :: "string option"
  rv_epoch :: nat
  rv_deferred :: bool
  rv_relays :: "relay list"
  rv_trace :: "trace_item list"

record voice_options =
  vo_model :: string
  vo_captureRate :: real
  vo_vad :: vad_config
  vo_predictor :: "json predictor"

definition new_voice :: "voice_options \<Rightarrow> voice" where
  "new_voice vo = \<lparr>rv_link = Dialing, rv_vad = new_vad (vo_vad vo), rv_ready = False, rv_muted = False,
     rv_interviewerSpeaking = False, rv_accepting = False, rv_local = False, rv_model = False, rv_inputOpen = False,
     rv_frames = [], rv_samples = 0, rv_provisional = None, rv_generating = False, rv_audioThisTurn = False,
     rv_request = None, rv_epoch = 0, rv_deferred = False, rv_relays = [], rv_trace = []\<rparr>"

definition DEFERRED_PREROLL_SECONDS :: real where "DEFERRED_PREROLL_SECONDS = 3 / 2"
definition PREROLL_SECONDS :: real where "PREROLL_SECONDS = 16 / 100"
definition BARGE_CONFIRM_MS :: real where "BARGE_CONFIRM_MS = 400"

text \<open>\<open>connect\<close> refuses a credential without the silence constraint.\<close>

definition voice_connect :: "bool \<Rightarrow> voice_options \<Rightarrow> voice result" where
  "voice_connect constrained vo =
     (if \<not> constrained then Inl (JsError ''refusing to connect'') else Inr (new_voice vo))"

section \<open>The parts of a call\<close>

definition note_item :: "trace_item \<Rightarrow> voice \<Rightarrow> voice" where
  "note_item x v = v\<lparr>rv_trace := rv_trace v @ [x]\<rparr>"

definition send_message :: "sent \<Rightarrow> voice \<Rightarrow> voice" where
  "send_message m v = (if rv_link v = Gone then v else note_item (Sent m) v)"

definition call_owner :: "voice_callback \<Rightarrow> voice \<Rightarrow> voice" where
  "call_owner c = note_item (Called c)"

definition invalidateRequest :: "voice \<Rightarrow> voice" where
  "invalidateRequest v = note_item Invalidated (v\<lparr>rv_epoch := rv_epoch v + 1, rv_accepting := False, rv_generating := False,
     rv_audioThisTurn := False, rv_request := None\<rparr>)"

definition clearPreSpeech :: "voice \<Rightarrow> voice" where
  "clearPreSpeech v = v\<lparr>rv_frames := [], rv_samples := 0\<rparr>"

definition endProvisionalBarge :: "voice \<Rightarrow> voice" where
  "endProvisionalBarge v =
     (if rv_provisional v = None then v else call_owner (Provisional False) (v\<lparr>rv_provisional := None\<rparr>))"

definition sendActivity :: "bool \<Rightarrow> voice \<Rightarrow> voice" where
  "sendActivity start v =
     (let v1 = (if start then v else v\<lparr>rv_inputOpen := False\<rparr>)
      in if \<not> rv_ready v1 \<or> rv_link v1 \<noteq> Open then v1
         else (send_message (if start then ActivityStart else ActivityEnd) v1)\<lparr>rv_inputOpen := start\<rparr>)"

definition send_frames :: "voice \<Rightarrow> voice" where
  "send_frames v = fold (\<lambda>f. send_message (AudioChunk f)) (rv_frames v) v"

definition openInputActivity :: "voice \<Rightarrow> voice" where
  "openInputActivity v =
     (let v1 = sendActivity True v in clearPreSpeech (if rv_inputOpen v1 then send_frames v1 else v1))"

definition closeInputActivity :: "voice \<Rightarrow> voice" where
  "closeInputActivity v =
     (if rv_deferred v then clearPreSpeech (v\<lparr>rv_deferred := False\<rparr>) else sendActivity False v)"

text \<open>A held interruption is released: the candidate is talking.\<close>

definition release_deferred :: "voice \<Rightarrow> voice" where
  "release_deferred v =
     (if \<not> rv_deferred v then v
      else (let v1 = v\<lparr>rv_deferred := False\<rparr>
            in if speaking (rv_vad v1) \<and> \<not> rv_muted v1 then openInputActivity v1 else clearPreSpeech v1))"

definition afterInterviewerChange :: "voice \<Rightarrow> voice" where
  "afterInterviewerChange v =
     (if rv_interviewerSpeaking v \<or> rv_generating v then v else endProvisionalBarge (release_deferred v))"

section \<open>What the owner calls\<close>

definition INSTRUCTIONS :: "(string \<times> string) list" where
  "INSTRUCTIONS = [
     (''ANSWER_CLARIFICATION'', ''Answer the candidate's question using get_clarification_fact. Say only what it returns.''),
     (''ASK_PROBE'', ''Ask the authorized probe. Call get_probe_wording and say what it returns.''),
     (''GIVE_HINT_L1'', ''Give the authorized hint. Call get_hint_wording and say what it returns.''),
     (''GIVE_HINT_L2'', ''Give the authorized hint. Call get_hint_wording and say what it returns.''),
     (''PRESENT_FOLLOW_UP'', ''Present the follow-up. Call get_follow_up and say what it returns.''),
     (''ACKNOWLEDGE_BRIEFLY'', ''Acknowledge in three words or fewer. Add nothing.''),
     (''DELIVER_BRIEF'', ''Call get_interview_context and read the complete openingScript verbatim. Read every sentence, including the actual coding task. Do not summarize, add a greeting, or invent a problem count. If openingScript is missing, say you couldn't load the problem and ask the candidate to request a repeat.''),
     (''END_INTERVIEW'', ''Close the interview in one sentence. No assessment.'')]"

definition instructionFor :: "authorization \<Rightarrow> string" where
  "instructionFor a = ''['' @ au_utteranceId a @ ''] '' @
     (case get_key INSTRUCTIONS (au_action a) of None \<Rightarrow> ''Say nothing.'' | Some s \<Rightarrow> s)"

definition requestSpeech :: "authorization \<Rightarrow> voice \<Rightarrow> voice \<times> bool" where
  "requestSpeech a v =
     (if \<not> rv_ready v \<or> rv_link v \<noteq> Open then (v, False)
      else (send_message (Instruct (au_utteranceId a) (instructionFor a))
              ((invalidateRequest v)\<lparr>rv_accepting := True, rv_generating := True, rv_audioThisTurn := False,
                 rv_request := Some (au_utteranceId a)\<rparr>), True))"

definition cancelSpeech :: "voice \<Rightarrow> voice" where
  "cancelSpeech v =
     (let v1 = invalidateRequest v
      in afterInterviewerChange (v1\<lparr>rv_interviewerSpeaking := rv_local v1 \<or> rv_model v1\<rparr>))"

definition noteLocalPlayback :: "bool \<Rightarrow> voice \<Rightarrow> voice" where
  "noteLocalPlayback active v =
     afterInterviewerChange (v\<lparr>rv_local := active, rv_interviewerSpeaking := active \<or> rv_model v\<rparr>)"

definition noteModelPlayback :: "bool \<Rightarrow> voice \<Rightarrow> voice" where
  "noteModelPlayback active v =
     afterInterviewerChange (v\<lparr>rv_model := active, rv_interviewerSpeaking := active \<or> rv_local v\<rparr>)"

fun owner_does :: "owner_call \<Rightarrow> voice \<Rightarrow> voice" where
  "owner_does (RequestSpeech a) v = fst (requestSpeech a v)"
| "owner_does CancelSpeech v = cancelSpeech v"
| "owner_does (NoteLocal b) v = noteLocalPlayback b v"
| "owner_does (NoteModel b) v = noteModelPlayback b v"

definition tell :: "reaction \<Rightarrow> voice_callback \<Rightarrow> voice \<Rightarrow> voice" where
  "tell react c v = fold owner_does (react c) (call_owner c v)"

section \<open>The microphone\<close>

definition confirmBargeIn :: "reaction \<Rightarrow> voice \<Rightarrow> voice" where
  "confirmBargeIn react v =
     (if rv_provisional v = None then v
      else tell react BargeIn (release_deferred (invalidateRequest
             (v\<lparr>rv_provisional := None, rv_local := False, rv_model := False, rv_interviewerSpeaking := False\<rparr>))))"

definition resolveProvisionalBarge :: "reaction \<Rightarrow> real \<Rightarrow> real \<Rightarrow> voice \<Rightarrow> voice" where
  "resolveProvisionalBarge react db t v =
     (case rv_provisional v of
        None \<Rightarrow> v
      | Some start \<Rightarrow>
          if db < noiseFloorDb (rv_vad v) + continueMarginDb DEFAULT_VAD_CONFIG then v\<lparr>rv_provisional := Some t\<rparr>
          else if t - start < BARGE_CONFIRM_MS then v
          else confirmBargeIn react v)"

definition handleVadEvent :: "json vad_event \<Rightarrow> voice \<Rightarrow> voice" where
  "handleVadEvent e v =
     (if ve_type e = SPEECH_START
      then (let possible = rv_interviewerSpeaking v \<or> rv_generating v;
                v1 = (if possible then call_owner (Provisional True) (v\<lparr>rv_provisional := Some (ve_atMs e)\<rparr>) else v)
            in if possible \<and> rv_generating v
               then call_owner (SpeechStarted (ve_atMs e)) (v1\<lparr>rv_deferred := True\<rparr>)
               else call_owner (SpeechStarted (ve_atMs e)) (openInputActivity v1))
      else call_owner (SpeechStopped (ve_atMs e) (ve_prosody e)) (closeInputActivity (endProvisionalBarge v)))"

text \<open>\<open>slice(-limit)\<close> keeps the newest samples of a frame; the oldest frames go.\<close>

fun drop_oldest :: "nat \<Rightarrow> real list list \<Rightarrow> nat \<Rightarrow> real list list \<times> nat" where
  "drop_oldest limit (f # g # fs) n = (if n > limit then drop_oldest limit (g # fs) (n - length f) else (f # g # fs, n))"
| "drop_oldest limit fs n = (fs, n)"

definition preroll_limit :: "voice_options \<Rightarrow> voice \<Rightarrow> nat" where
  "preroll_limit vo v =
     nat \<lceil>vo_captureRate vo * (if rv_deferred v then DEFERRED_PREROLL_SECONDS else PREROLL_SECONDS)\<rceil>"

definition bufferPreSpeech :: "voice_options \<Rightarrow> real list \<Rightarrow> voice \<Rightarrow> voice" where
  "bufferPreSpeech vo frame v =
     (let limit = preroll_limit vo v;
          copy = (if limit = 0 then frame else drop (length frame - limit) frame);
          (fs, n) = drop_oldest limit (rv_frames v @ [copy]) (rv_samples v + length copy)
      in v\<lparr>rv_frames := fs, rv_samples := n\<rparr>)"

definition pushAudio :: "voice_options \<Rightarrow> reaction \<Rightarrow> real list \<Rightarrow> real \<Rightarrow> real \<Rightarrow> voice \<Rightarrow> voice" where
  "pushAudio vo react frame db t v =
     (if rv_muted v then v
      else (let v1 = (if rv_inputOpen v then v else bufferPreSpeech vo frame v);
                (w, e) = pushDb (vo_vad vo) (vo_predictor vo) db t (rv_vad v1);
                v2 = v1\<lparr>rv_vad := w\<rparr>;
                v3 = (case e of None \<Rightarrow> v2 | Some ev \<Rightarrow> handleVadEvent ev v2);
                v4 = resolveProvisionalBarge react db t v3
            in if \<not> rv_ready v4 \<or> rv_link v4 \<noteq> Open \<or> \<not> rv_inputOpen v4 then v4
               else if map_option ve_type e = Some SPEECH_START then v4
               else send_message (AudioChunk frame) v4))"

definition force_silence :: "voice_options \<Rightarrow> real \<Rightarrow> voice \<Rightarrow> voice" where
  "force_silence vo now v =
     (let (w, e) = vad_reset (vo_predictor vo) now (rv_vad v);
          v1 = v\<lparr>rv_vad := w\<rparr>
      in case e of
           None \<Rightarrow> v1
         | Some ev \<Rightarrow> call_owner (SpeechStopped (ve_atMs ev) (ve_prosody ev)) (closeInputActivity v1))"

definition voice_setMuted :: "voice_options \<Rightarrow> real \<Rightarrow> bool \<Rightarrow> voice \<Rightarrow> voice" where
  "voice_setMuted vo now m v =
     (if m = rv_muted v then v
      else if m then force_silence vo now (endProvisionalBarge (clearPreSpeech (v\<lparr>rv_muted := m\<rparr>)))
      else v\<lparr>rv_muted := m\<rparr>)"

section \<open>The connection\<close>

definition voice_opened :: "voice_options \<Rightarrow> voice \<Rightarrow> voice" where
  "voice_opened vo v = send_message (Setup (vo_model vo)) (v\<lparr>rv_link := Open\<rparr>)"

definition voice_closed :: "reaction \<Rightarrow> voice \<Rightarrow> voice" where
  "voice_closed react v =
     (let v1 = clearPreSpeech (invalidateRequest (v\<lparr>rv_link := Closing, rv_ready := False, rv_inputOpen := False, rv_deferred := False\<rparr>));
          v2 = note_item LinkClosed (v1\<lparr>rv_interviewerSpeaking := rv_local v1 \<or> rv_model v1, rv_accepting := False\<rparr>)
      in tell react Disconnected (endProvisionalBarge v2))"

definition voice_disconnect :: "voice_options \<Rightarrow> real \<Rightarrow> voice \<Rightarrow> voice" where
  "voice_disconnect vo now v =
     (let v1 = invalidateRequest (force_silence vo now (endProvisionalBarge v))
      in note_item LinkClosed ((clearPreSpeech (v1\<lparr>rv_deferred := False, rv_ready := False, rv_inputOpen := False\<rparr>))\<lparr>rv_link := Gone\<rparr>))"

section \<open>Messages of the provider\<close>

definition nullish :: "json option \<Rightarrow> bool" where
  "nullish v \<longleftrightarrow> v = None \<or> v = Some JNull"

definition either_key :: "payload \<Rightarrow> string \<Rightarrow> string \<Rightarrow> json option" where
  "either_key m a b = (if nullish (get_key m a) then get_key m b else get_key m a)"

definition obj_of :: "json option \<Rightarrow> payload" where
  "obj_of v = (case v of Some (JObj kvs) \<Rightarrow> kvs | _ \<Rightarrow> [])"

definition arr_of :: "json option \<Rightarrow> json list option" where
  "arr_of v = (case v of Some (JArr xs) \<Rightarrow> Some xs | _ \<Rightarrow> None)"

definition truthy_json :: "json option \<Rightarrow> bool" where
  "truthy_json v = (case v of None \<Rightarrow> False | Some JNull \<Rightarrow> False | Some (JBool b) \<Rightarrow> b | Some (JNum n) \<Rightarrow> n \<noteq> 0
     | Some (JStr s) \<Rightarrow> s \<noteq> [] | _ \<Rightarrow> True)"

definition text_of :: "json option \<Rightarrow> string" where
  "text_of v = (case stringOf v of None \<Rightarrow> [] | Some s \<Rightarrow> s)"

definition serverContent :: "payload \<Rightarrow> payload" where
  "serverContent m = obj_of (either_key m ''serverContent'' ''server_content'')"

definition audio_part :: "json \<Rightarrow> string option" where
  "audio_part part =
     (let inline = either_key (obj_of (Some part)) ''inlineData'' ''inline_data'';
          mime = text_of (either_key (obj_of inline) ''mimeType'' ''mime_type'')
      in if truthy_json inline \<and> has_sub mime ''audio'' then stringOf (get_key (obj_of inline) ''data'') else None)"

definition extractModelAudio :: "payload \<Rightarrow> string list" where
  "extractModelAudio m =
     (case arr_of (get_key (obj_of (either_key (serverContent m) ''modelTurn'' ''model_turn'')) ''parts'') of
        None \<Rightarrow> []
      | Some parts \<Rightarrow> List.map_filter audio_part parts)"

definition transcriptText :: "json option \<Rightarrow> string" where
  "transcriptText v = trim (text_of (get_key (obj_of v) ''text''))"

text \<open>The decimal notation of a duration: digits, and digits behind a point.\<close>

definition decimal_value :: "string \<Rightarrow> real" where
  "decimal_value s =
     (case split_char CHR ''.'' s of
        [a, b] \<Rightarrow> real (read_nat a) + real (read_nat b) / 10 ^ length b
      | _ \<Rightarrow> real (read_nat s))"

definition DURATION :: re where
  "DURATION = rx ''^(%d+(?:%.%d+)?)s$''"

definition durationMs :: "json option \<Rightarrow> real" where
  "durationMs v =
     (case v of
        Some (JNum n) \<Rightarrow> max 0 (n * 1000)
      | Some (JStr s) \<Rightarrow>
          (case exec_groups False DURATION (trim s) of
             None \<Rightarrow> 0
           | Some g \<Rightarrow> (case g 1 of None \<Rightarrow> 0 | Some d \<Rightarrow> if d = [] then 0 else max 0 (decimal_value d * 1000)))
      | _ \<Rightarrow> 0)"

definition BARGE_WORDS :: re where
  "BARGE_WORDS = rx ''%b(wait|sorry|no|hold on|actually|excuse me|stop)%b''"

definition tool_call_of :: "json \<Rightarrow> tool_call" where
  "tool_call_of j =
     (let c = obj_of (Some j) in (text_of (get_key c ''id''), text_of (get_key c ''name''),
        if nullish (get_key c ''args'') then JObj [] else the (get_key c ''args'')))"

text \<open>A relay with no call left answers at once.\<close>

definition relayToolCall :: "payload \<Rightarrow> voice \<Rightarrow> voice" where
  "relayToolCall tc v =
     (case arr_of (either_key tc ''functionCalls'' ''function_calls'') of
        None \<Rightarrow> v
      | Some cs \<Rightarrow>
          if cs = [] then send_message (ToolResponse (rv_epoch v) []) v
          else v\<lparr>rv_relays := rv_relays v @ [\<lparr>rl_epoch = rv_epoch v, rl_left = map tool_call_of cs, rl_got = []\<rparr>]\<rparr>)"

datatype relay_outcome = Relayed payload | NoRelay | TimedOut | RelayFailed

definition refused :: "string \<Rightarrow> payload" where
  "refused why = [(''ok'', JBool False), (''refusal'', JStr why)]"

fun relay_response :: "relay_outcome \<Rightarrow> payload" where
  "relay_response (Relayed p) = p"
| "relay_response NoRelay = refused ''NO_RELAY''"
| "relay_response TimedOut = refused ''TOOL_TIMEOUT''"
| "relay_response RelayFailed = refused ''RELAY_FAILED''"

text \<open>The outcome of the current call of the \<open>i\<close>-th relay, after \<open>ms\<close> milliseconds.\<close>

definition without_nth :: "nat \<Rightarrow> 'a list \<Rightarrow> 'a list" where
  "without_nth i xs = take i xs @ drop (Suc i) xs"

definition relay_done :: "nat \<Rightarrow> relay_outcome \<Rightarrow> real \<Rightarrow> voice \<Rightarrow> voice" where
  "relay_done i outcome ms v =
     (if i \<ge> length (rv_relays v) then v
      else (let rl = rv_relays v ! i
            in case rl_left rl of
                 [] \<Rightarrow> v
               | (cid, nm, args) # later \<Rightarrow>
                   if rl_epoch rl \<noteq> rv_epoch v \<or> rv_link v = Gone then v\<lparr>rv_relays := without_nth i (rv_relays v)\<rparr>
                   else (let p = relay_response outcome;
                             got = rl_got rl @ [(cid, nm, p)];
                             v1 = call_owner (ToolCalled nm (max 0 ms) (get_key p ''ok'' \<noteq> Some (JBool False))
                                    (let r = stringOf (get_key p ''refusal'') in if truthy r then r else None)) v
                         in if later = []
                            then send_message (ToolResponse (rl_epoch rl) got) (v1\<lparr>rv_relays := without_nth i (rv_relays v1)\<rparr>)
                            else v1\<lparr>rv_relays := (rv_relays v1)[i := rl\<lparr>rl_left := later, rl_got := got\<rparr>]\<rparr>)))"

definition setup_complete :: "reaction \<Rightarrow> voice \<Rightarrow> voice" where
  "setup_complete react v =
     (let v1 = v\<lparr>rv_ready := True\<rparr>;
          v2 = (if speaking (rv_vad v1) \<and> \<not> rv_muted v1 then clearPreSpeech (send_frames (sendActivity True v1)) else v1)
      in tell react Ready v2)"

definition play_audio :: "reaction \<Rightarrow> string list \<Rightarrow> voice \<Rightarrow> voice" where
  "play_audio react chunks v =
     (if chunks = [] \<or> \<not> rv_accepting v then v
      else fold (\<lambda>a u. tell react (ModelAudio a (rv_request u)) u) chunks
             (v\<lparr>rv_interviewerSpeaking := True, rv_audioThisTurn := True\<rparr>))"

definition turn_complete :: "reaction \<Rightarrow> voice \<Rightarrow> voice" where
  "turn_complete react v =
     (let had = rv_audioThisTurn v;
          uid = rv_request v;
          v1 = (if had \<or> \<not> rv_generating v then note_item Released (v\<lparr>rv_accepting := False, rv_generating := False\<rparr>) else v);
          v2 = v1\<lparr>rv_interviewerSpeaking := rv_local v1 \<or> rv_model v1\<rparr>
      in afterInterviewerChange (tell react (SpeechComplete uid had) v2))"

definition content_message :: "reaction \<Rightarrow> payload \<Rightarrow> voice \<Rightarrow> voice" where
  "content_message react m v =
     (let content = serverContent m;
          v1 = play_audio react (extractModelAudio m) v;
          v2 = (if get_key content ''interrupted'' = Some (JBool True) \<and> rv_accepting v1 \<and> \<not> rv_local v1
                then tell react BargeIn (invalidateRequest (v1\<lparr>rv_interviewerSpeaking := False\<rparr>)) else v1);
          interim = transcriptText (either_key content ''interimInputTranscription'' ''interim_input_transcription'');
          final = transcriptText (either_key content ''inputTranscription'' ''input_transcription'');
          v3 = (if rv_provisional v2 \<noteq> None \<and> re_test True BARGE_WORDS (if interim \<noteq> [] then interim else final)
                then confirmBargeIn react v2 else v2);
          v4 = (if interim \<noteq> [] then call_owner (InputTranscript interim False) v3 else v3);
          v5 = (if final \<noteq> [] then call_owner (InputTranscript final True) v4 else v4)
      in if get_key content ''turnComplete'' = Some (JBool True) \<or> get_key content ''turn_complete'' = Some (JBool True)
         then turn_complete react v5 else v5)"

text \<open>\<open>handleMessage\<close>; \<open>None\<close> is a frame that does not parse. The text of an error is its JSON.\<close>

definition handleMessage :: "reaction \<Rightarrow> (json \<Rightarrow> string) \<Rightarrow> payload option \<Rightarrow> voice \<Rightarrow> voice" where
  "handleMessage react show_json raw v =
     (case raw of
        None \<Rightarrow> v
      | Some m \<Rightarrow>
          if has_key m ''setupComplete'' \<or> has_key m ''setup_complete'' then setup_complete react v
          else if has_key m ''error''
          then tell react (VoiceError (''realtime error: '' @ take 300 (show_json (the (get_key m ''error''))))) v
          else (let resumption = either_key m ''sessionResumptionUpdate'' ''session_resumption_update'';
                    go = either_key m ''goAway'' ''go_away'';
                    tool = either_key m ''toolCall'' ''tool_call''
                in if truthy_json resumption
                   then (let r = obj_of resumption;
                             h = stringOf (if nullish (get_key r ''newHandle'') then either_key r ''new_handle'' ''token''
                                           else get_key r ''newHandle'')
                         in if get_key r ''resumable'' \<noteq> Some (JBool False) \<and> truthy h
                            then call_owner (ResumptionHandle (the h)) v else v)
                   else if truthy_json go
                   then tell react (GoAway (durationMs (either_key (obj_of go) ''timeLeft'' ''time_left''))) v
                   else if truthy_json tool then relayToolCall (obj_of tool) v
                   else content_message react m v))"

end
