(* ===== verification/Step_Closure.thy ===== *)
theory Step_Closure
  imports Main
begin

text \<open>
  Two interfaces over an arbitrary step relation: an invariant that every step keeps, and an order in
  which every step only goes up. The theories of the runtime, of the session store and of the client
  state machines interpret them on their own steps.
\<close>

text \<open>Invariants of the steps, as an interface: what every step keeps holds of every reached state.\<close>

locale kept_by_steps =
  fixes step :: "'s \<Rightarrow> 's \<Rightarrow> bool" and inv :: "'s \<Rightarrow> bool"
  assumes kept: "inv s \<Longrightarrow> step s t \<Longrightarrow> inv t"
begin

lemma kept_by_closure: "step\<^sup>*\<^sup>* s t \<Longrightarrow> inv s \<Longrightarrow> inv t"
  by (induction rule: rtranclp_induct) (auto intro: kept)

end

text \<open>Growth under the steps: what every step only increases, a run of them only increases.\<close>

locale grown_by_steps =
  fixes step :: "'s \<Rightarrow> 's \<Rightarrow> bool" and le :: "'s \<Rightarrow> 's \<Rightarrow> bool"
  assumes le_refl: "le s s" and le_trans: "le s t \<Longrightarrow> le t u \<Longrightarrow> le s u"
    and grows: "step s t \<Longrightarrow> le s t"
begin

lemma grown_by_closure: "step\<^sup>*\<^sup>* s t \<Longrightarrow> le s t"
  by (induction rule: rtranclp_induct) (auto intro: le_refl le_trans grows)

end

end
