(* ===== verification/Playback.thy ===== *)
theory Playback
  imports Prelude Step_Closure
begin

text \<open>
  \<open>apps/web/lib/playback.ts\<close>: the scheduler of the interviewer's audio. Times are seconds of the audio
  clock, which the sink reports; a source is the number of its call, with the interval it was
  scheduled for. What the scheduler asks of the sink, and the reports of a natural end, are recorded
  in order.
\<close>

record source =
  so_id :: nat
  so_start :: real
  so_end :: real

datatype sink_call = Play source | StopSource nat | SetGain real real | Drained

record playback_options =
  po_sampleRate :: real
  po_leadSeconds :: real
  po_runningLeadSeconds :: real
  po_hasGain :: bool

record playback =
  pb_cursor :: "real option"
  pb_active :: "source list"
  pb_ducked :: bool
  pb_count :: nat
  pb_calls :: "sink_call list"

definition new_playback :: playback where
  "new_playback = \<lparr>pb_cursor = None, pb_active = [], pb_ducked = False, pb_count = 0, pb_calls = []\<rparr>"

definition sink_call :: "sink_call \<Rightarrow> playback \<Rightarrow> playback" where
  "sink_call k p = p\<lparr>pb_calls := pb_calls p @ [k]\<rparr>"

definition isPlaying :: "playback \<Rightarrow> bool" where
  "isPlaying p \<longleftrightarrow> length (pb_active p) > 0"

definition queuedSeconds :: "real \<Rightarrow> playback \<Rightarrow> real" where
  "queuedSeconds now p = (case pb_cursor p of None \<Rightarrow> 0 | Some c \<Rightarrow> max 0 (c - now))"

text \<open>\<open>n\<close> samples at \<open>rate\<close>; \<open>running\<close> is the state of the output context.\<close>

definition start_at :: "playback_options \<Rightarrow> real \<Rightarrow> bool \<Rightarrow> playback \<Rightarrow> real" where
  "start_at o1 now running p =
     (let lead = (if running then po_runningLeadSeconds o1 else po_leadSeconds o1)
      in case pb_cursor p of
           Some c \<Rightarrow> if c > now then c else now + lead
         | None \<Rightarrow> now + lead)"

definition enqueueAt :: "playback_options \<Rightarrow> nat \<Rightarrow> real \<Rightarrow> real \<Rightarrow> bool \<Rightarrow> playback \<Rightarrow> playback \<times> real option" where
  "enqueueAt o1 n rate now running p =
     (if n = 0 then (p, None)
      else (let startAt = start_at o1 now running p;
                src = \<lparr>so_id = pb_count p, so_start = startAt, so_end = startAt + real n / rate\<rparr>
            in ((sink_call (Play src) p)\<lparr>pb_active := pb_active p @ [src], pb_cursor := Some (so_end src),
                  pb_count := pb_count p + 1\<rparr>, Some startAt)))"

definition enqueue :: "playback_options \<Rightarrow> nat \<Rightarrow> real \<Rightarrow> bool \<Rightarrow> playback \<Rightarrow> playback \<times> real option" where
  "enqueue o1 n = enqueueAt o1 n (po_sampleRate o1)"

text \<open>The sink reports that a source ended on its own.\<close>

definition release_source :: "nat \<Rightarrow> playback \<Rightarrow> playback" where
  "release_source i p =
     (if i \<notin> so_id ` set (pb_active p) then p
      else (let p1 = p\<lparr>pb_active := filter (\<lambda>s. so_id s \<noteq> i) (pb_active p)\<rparr>
            in if pb_active p1 = [] then sink_call Drained (p1\<lparr>pb_cursor := None\<rparr>) else p1))"

definition stop_playback :: "playback_options \<Rightarrow> playback \<Rightarrow> playback" where
  "stop_playback o1 p =
     (let p1 = (if \<not> pb_ducked p then p
                else if po_hasGain o1 then sink_call (SetGain 1 0) (p\<lparr>pb_ducked := False\<rparr>)
                else p\<lparr>pb_ducked := False\<rparr>)
      in p1\<lparr>pb_calls := pb_calls p1 @ map (\<lambda>s. StopSource (so_id s)) (pb_active p1), pb_active := [], pb_cursor := None\<rparr>)"

definition duck :: "playback_options \<Rightarrow> playback \<Rightarrow> playback" where
  "duck o1 p =
     (if \<not> po_hasGain o1 then stop_playback o1 p
      else if pb_ducked p then p
      else sink_call (SetGain (1 / 4) (3 / 100)) (p\<lparr>pb_ducked := True\<rparr>))"

definition restore_gain :: "playback_options \<Rightarrow> playback \<Rightarrow> playback" where
  "restore_gain o1 p =
     (if \<not> pb_ducked p then p
      else if po_hasGain o1 then sink_call (SetGain 1 (3 / 100)) (p\<lparr>pb_ducked := False\<rparr>) else p\<lparr>pb_ducked := False\<rparr>)"

inductive playback_step :: "playback_options \<Rightarrow> playback \<times> real \<Rightarrow> playback \<times> real \<Rightarrow> bool" for o1 where
  enqueue: "now \<le> t \<Longrightarrow> 0 < rate \<Longrightarrow> playback_step o1 (p, now) (fst (enqueueAt o1 n rate t running p), t)"
| release: "now \<le> t \<Longrightarrow> playback_step o1 (p, now) (release_source i p, t)"
| stop: "now \<le> t \<Longrightarrow> playback_step o1 (p, now) (stop_playback o1 p, t)"
| duck: "now \<le> t \<Longrightarrow> playback_step o1 (p, now) (duck o1 p, t)"
| restore: "now \<le> t \<Longrightarrow> playback_step o1 (p, now) (restore_gain o1 p, t)"

section \<open>No two sources overlap\<close>

text \<open>The active sources follow each other in time, and the cursor lies at or behind the end of the last.\<close>

definition playback_inv :: "playback \<Rightarrow> bool" where
  "playback_inv p \<longleftrightarrow>
     sorted_wrt (\<lambda>a b. so_end a \<le> so_start b) (pb_active p) \<and> (\<forall>s\<in>set (pb_active p). so_start s < so_end s) \<and>
     (\<forall>s\<in>set (pb_active p). \<exists>c. pb_cursor p = Some c \<and> so_end s \<le> c) \<and>
     distinct (map so_id (pb_active p)) \<and> (\<forall>s\<in>set (pb_active p). so_id s < pb_count p) \<and>
     (pb_cursor p \<noteq> None \<longrightarrow> pb_active p \<noteq> [])"

lemma playback_inv_new: "playback_inv new_playback"
  by (simp add: playback_inv_def new_playback_def)

lemma sink_call_sel [simp]:
  "pb_active (sink_call k p) = pb_active p" "pb_cursor (sink_call k p) = pb_cursor p" "pb_count (sink_call k p) = pb_count p"
  "pb_ducked (sink_call k p) = pb_ducked p" "pb_calls (sink_call k p) = pb_calls p @ [k]"
  by (simp_all add: sink_call_def)

definition leads_ok :: "playback_options \<Rightarrow> bool" where
  "leads_ok o1 \<longleftrightarrow> 0 \<le> po_leadSeconds o1 \<and> 0 \<le> po_runningLeadSeconds o1"

lemma start_at_later:
  assumes "leads_ok o1"
  shows "now \<le> start_at o1 now running p" and "pb_cursor p = Some c \<Longrightarrow> c \<le> start_at o1 now running p"
  using assms by (auto simp: start_at_def leads_ok_def Let_def split: option.split)

lemma playback_inv_enqueue:
  assumes "playback_inv p" and "leads_ok o1" and "0 < rate"
  shows "playback_inv (fst (enqueueAt o1 n rate now running p))"
proof (cases "n = 0")
  case True
  then show ?thesis using assms(1) by (simp add: enqueueAt_def)
next
  case False
  let ?t = "start_at o1 now running p"
  have ends: "so_end s \<le> ?t" if "s \<in> set (pb_active p)" for s
    using assms(1) that start_at_later(2) [OF assms(2)] unfolding playback_inv_def by (meson order_trans)
  have later: "so_end s \<le> ?t + real n / rate" if "s \<in> set (pb_active p)" for s
    using ends [OF that] assms(3) False by (smt (verit) divide_nonneg_pos of_nat_0_le_iff)
  have pos: "0 < real n / rate" using False assms(3) by simp
  show ?thesis
    using assms(1) False ends later pos unfolding playback_inv_def enqueueAt_def
    by (auto simp: Let_def sorted_wrt_append less_SucI)
qed

lemma release_inv: "playback_inv p \<Longrightarrow> playback_inv (release_source i p)"
  by (auto simp: playback_inv_def release_source_def Let_def sorted_wrt_filter distinct_map_filter)

lemma stop_inv: "playback_inv (stop_playback o1 p)"
  by (simp add: playback_inv_def stop_playback_def Let_def)

lemma gain_inv: "playback_inv p \<Longrightarrow> playback_inv (duck o1 p)" "playback_inv p \<Longrightarrow> playback_inv (restore_gain o1 p)"
  using stop_inv by (auto simp: duck_def restore_gain_def) (auto simp: playback_inv_def)

lemma playback_step_inv:
  "playback_step o1 x y \<Longrightarrow> leads_ok o1 \<and> playback_inv (fst x) \<Longrightarrow> leads_ok o1 \<and> playback_inv (fst y)"
  by (induction rule: playback_step.induct) (auto intro: playback_inv_enqueue release_inv stop_inv gain_inv)

interpretation playback_kept: kept_by_steps "playback_step o1" "\<lambda>x. leads_ok o1 \<and> playback_inv (fst x)" for o1
  by unfold_locales (rule playback_step_inv)

section \<open>Gapless\<close>

text \<open>While audio is queued ahead of the clock, the next chunk starts where the last one ends.\<close>

lemma enqueue_gapless:
  assumes "pb_cursor p = Some c" and "now < c" and "0 < n"
  shows "snd (enqueueAt o1 n rate now running p) = Some c"
  using assms by (simp add: enqueueAt_def start_at_def Let_def)

lemma enqueue_queued:
  assumes "0 < queuedSeconds now p" and "0 < n" and "0 < rate"
  shows "queuedSeconds now (fst (enqueueAt o1 n rate now running p)) = queuedSeconds now p + real n / rate"
proof -
  have pos: "0 \<le> real n / rate" using assms(3) by simp
  obtain c where c: "pb_cursor p = Some c" "now < c"
    using assms(1) by (auto simp: queuedSeconds_def split: option.splits)
  have "start_at o1 now running p = c" using c by (simp add: start_at_def Let_def)
  then show ?thesis using assms(2) c pos by (simp add: queuedSeconds_def enqueueAt_def Let_def)
qed

section \<open>Stopping is total\<close>

lemma stop_total:
  shows "pb_active (stop_playback o1 p) = []" and "pb_cursor (stop_playback o1 p) = None" and "\<not> isPlaying (stop_playback o1 p)"
    and "\<forall>s\<in>set (pb_active p). StopSource (so_id s) \<in> set (pb_calls (stop_playback o1 p))"
    and "count_list (pb_calls (stop_playback o1 p)) Drained = count_list (pb_calls p) Drained"
proof -
  have "count_list (map (\<lambda>s. StopSource (so_id s)) xs) Drained = 0" for xs :: "source list" by (induction xs) simp_all
  then show "count_list (pb_calls (stop_playback o1 p)) Drained = count_list (pb_calls p) Drained"
    by (simp add: stop_playback_def Let_def)
qed (simp_all add: stop_playback_def isPlaying_def Let_def)

text \<open>What was scheduled is active, was stopped, or ended on its own.\<close>

definition accounted :: "nat list \<Rightarrow> playback \<Rightarrow> bool" where
  "accounted ended p \<longleftrightarrow> (\<forall>s. Play s \<in> set (pb_calls p) \<longrightarrow>
     s \<in> set (pb_active p) \<or> StopSource (so_id s) \<in> set (pb_calls p) \<or> so_id s \<in> set ended)"

lemma accounted_enqueue: "accounted ended p \<Longrightarrow> accounted ended (fst (enqueueAt o1 n rate now running p))"
  by (auto simp: accounted_def enqueueAt_def Let_def)

lemma accounted_release: "accounted ended p \<Longrightarrow> accounted (i # ended) (release_source i p)"
  by (auto simp: accounted_def release_source_def Let_def filter_empty_conv)

lemma accounted_stop: "accounted ended p \<Longrightarrow> accounted ended (stop_playback o1 p)"
  by (auto simp: accounted_def stop_playback_def Let_def)

lemma accounted_gain:
  "accounted ended p \<Longrightarrow> accounted ended (duck o1 p)" "accounted ended p \<Longrightarrow> accounted ended (restore_gain o1 p)"
  using accounted_stop by (auto simp: duck_def restore_gain_def) (auto simp: accounted_def)

end
