(* ===== verification/UtteranceLifecycle.thy ===== *)
theory UtteranceLifecycle
  imports Prelude Step_Closure
begin

text \<open>
  \<open>apps/web/lib/utterance-lifecycle.ts\<close>: one authorized utterance in the browser, from authorization
  to its end. Seconds and milliseconds are real numbers; \<open>Math.round\<close> is \<open>math_round\<close>.
\<close>

datatype utterance_outcome = COMPLETED | INTERRUPTED | FAILED | CANCELLED

datatype utterance_phase = AUTHORIZED | REQUESTED | FIRST_AUDIO | PLAYING | Ended utterance_outcome

datatype utterance_source = CACHED | MODEL

datatype utterance_signal =
    Requested
  | AudioReceived real
  | PlaybackStarted
  | SourceComplete
  | PlaybackDrained
  | Interrupt "real option"
  | Fail string "real option"
  | Cancel string

record utterance_report =
  ur_utteranceId :: string
  ur_action :: string
  ur_source :: utterance_source
  ur_outcome :: utterance_outcome
  ur_reason :: "string option"
  ur_firstAudio :: bool
  ur_receivedAudioMs :: int
  ur_playedAudioMs :: int
  ur_underruns :: nat
  ur_durationMs :: int

record lifecycle =
  ul_id :: string
  ul_action :: string
  ul_source :: utterance_source
  ul_authorizedAtMs :: real
  ul_current :: utterance_phase
  ul_sourceComplete :: bool
  ul_receivedSeconds :: real
  ul_playbackActive :: bool
  ul_underruns :: nat
  ul_report :: "utterance_report option"

definition new_lifecycle :: "string \<Rightarrow> string \<Rightarrow> utterance_source \<Rightarrow> real \<Rightarrow> lifecycle" where
  "new_lifecycle uid act src t = \<lparr>ul_id = uid, ul_action = act, ul_source = src, ul_authorizedAtMs = t,
     ul_current = AUTHORIZED, ul_sourceComplete = False, ul_receivedSeconds = 0, ul_playbackActive = False,
     ul_underruns = 0, ul_report = None\<rparr>"

fun is_terminal :: "utterance_phase \<Rightarrow> bool" where
  "is_terminal (Ended outcome) = True"
| "is_terminal _ = False"

definition hasAudio :: "lifecycle \<Rightarrow> bool" where
  "hasAudio u \<longleftrightarrow> ul_receivedSeconds u > 0"

definition switchSource :: "utterance_source \<Rightarrow> lifecycle \<Rightarrow> lifecycle \<times> bool" where
  "switchSource src u =
     (if is_terminal (ul_current u) \<or> hasAudio u then (u, False) else (u\<lparr>ul_source := src\<rparr>, True))"

definition or_zero :: "real option \<Rightarrow> real" where
  "or_zero v = (case v of None \<Rightarrow> 0 | Some x \<Rightarrow> x)"

definition the_reason :: "string option \<Rightarrow> string option" where
  "the_reason r = (if truthy r then r else None)"

definition finish ::
  "utterance_outcome \<Rightarrow> real \<Rightarrow> string option \<Rightarrow> real \<Rightarrow> lifecycle \<Rightarrow> lifecycle \<times> utterance_report option" where
  "finish outcome t reason unplayed u =
     (let received = math_round (ul_receivedSeconds u * 1000);
          missing = math_round (max 0 unplayed * 1000);
          r = \<lparr>ur_utteranceId = ul_id u, ur_action = ul_action u, ur_source = ul_source u, ur_outcome = outcome,
               ur_reason = the_reason reason, ur_firstAudio = hasAudio u, ur_receivedAudioMs = received,
               ur_playedAudioMs = max 0 (received - missing), ur_underruns = ul_underruns u,
               ur_durationMs = max 0 (math_round (t - ul_authorizedAtMs u))\<rparr>
      in (u\<lparr>ul_current := Ended outcome, ul_playbackActive := False, ul_report := Some r\<rparr>, Some r))"

definition apply_signal :: "utterance_signal \<Rightarrow> real \<Rightarrow> lifecycle \<Rightarrow> lifecycle \<times> utterance_report option" where
  "apply_signal sig t u =
     (if is_terminal (ul_current u) then (u, None)
      else case sig of
        Requested \<Rightarrow> (if ul_current u = AUTHORIZED then u\<lparr>ul_current := REQUESTED\<rparr> else u, None)
      | AudioReceived seconds \<Rightarrow>
          if \<not> seconds > 0 then (u, None)
          else (let u1 = u\<lparr>ul_receivedSeconds := ul_receivedSeconds u + seconds\<rparr>
                in (if ul_current u \<in> {AUTHORIZED, REQUESTED} then u1\<lparr>ul_current := FIRST_AUDIO\<rparr> else u1, None))
      | PlaybackStarted \<Rightarrow> (u\<lparr>ul_playbackActive := True, ul_current := PLAYING\<rparr>, None)
      | SourceComplete \<Rightarrow>
          (let u1 = u\<lparr>ul_sourceComplete := True\<rparr>
           in if \<not> hasAudio u1 then finish FAILED t (Some ''EMPTY_RESPONSE'') 0 u1
              else if \<not> ul_playbackActive u1 then finish COMPLETED t None 0 u1
              else (u1, None))
      | PlaybackDrained \<Rightarrow>
          if \<not> ul_playbackActive u then (u, None)
          else (let u1 = u\<lparr>ul_playbackActive := False\<rparr>
                in if ul_sourceComplete u1 then finish COMPLETED t None 0 u1
                   else (u1\<lparr>ul_underruns := ul_underruns u1 + 1\<rparr>, None))
      | Interrupt unplayed \<Rightarrow>
          if hasAudio u then finish INTERRUPTED t (Some ''CANDIDATE_BARGE_IN'') (or_zero unplayed) u
          else finish CANCELLED t (Some ''CANDIDATE_SPOKE_BEFORE_AUDIO'') 0 u
      | Fail reason unplayed \<Rightarrow> finish FAILED t (Some reason) (or_zero unplayed) u
      | Cancel reason \<Rightarrow> finish CANCELLED t (Some reason) 0 u)"

text \<open>A sequence of signals, and the reports it makes.\<close>

fun apply_signals :: "(utterance_signal \<times> real) list \<Rightarrow> lifecycle \<Rightarrow> lifecycle \<times> utterance_report list" where
  "apply_signals [] u = (u, [])"
| "apply_signals ((sig, t) # ss) u =
     (case apply_signal sig t u of (u1, r) \<Rightarrow>
        (case apply_signals ss u1 of (u2, rs) \<Rightarrow> (u2, (case r of None \<Rightarrow> [] | Some x \<Rightarrow> [x]) @ rs)))"

section \<open>One signal\<close>

fun phase_rank :: "utterance_phase \<Rightarrow> nat" where
  "phase_rank AUTHORIZED = 0"
| "phase_rank REQUESTED = 1"
| "phase_rank FIRST_AUDIO = 2"
| "phase_rank PLAYING = 3"
| "phase_rank (Ended outcome) = 4"

lemma is_terminal_rank: "is_terminal p \<longleftrightarrow> phase_rank p = 4"
  by (cases p) simp_all

lemma phase_rank_le [simp]: "phase_rank p \<le> 4"
  by (cases p) simp_all

definition report_ok :: "utterance_report \<Rightarrow> bool" where
  "report_ok r \<longleftrightarrow> 0 \<le> ur_playedAudioMs r \<and> ur_playedAudioMs r \<le> ur_receivedAudioMs r \<and> 0 \<le> ur_durationMs r \<and>
     (ur_outcome r = COMPLETED \<longrightarrow> ur_firstAudio r \<and> ur_reason r = None) \<and>
     (ur_outcome r = INTERRUPTED \<longrightarrow> ur_firstAudio r)"

definition lifecycle_inv :: "lifecycle \<Rightarrow> bool" where
  "lifecycle_inv u \<longleftrightarrow> 0 \<le> ul_receivedSeconds u \<and>
     (ul_current u \<in> {AUTHORIZED, REQUESTED} \<longrightarrow> \<not> hasAudio u \<and> \<not> ul_playbackActive u) \<and>
     (ul_sourceComplete u \<longrightarrow> is_terminal (ul_current u) \<or> hasAudio u) \<and>
     (case ul_report u of
        None \<Rightarrow> \<not> is_terminal (ul_current u)
      | Some r \<Rightarrow> ul_current u = Ended (ur_outcome r) \<and> report_ok r \<and>
          (ur_outcome r = COMPLETED \<longrightarrow> ul_sourceComplete u \<and> \<not> ul_playbackActive u))"

lemma lifecycle_inv_new: "lifecycle_inv (new_lifecycle uid act src t)"
  by (simp add: lifecycle_inv_def new_lifecycle_def hasAudio_def)

lemma math_round_nonneg: "0 \<le> x \<Longrightarrow> 0 \<le> math_round x"
  using math_round_mono [of 0 x] math_round_of_int [of 0] by simp

lemma finish_inv:
  assumes "0 \<le> ul_receivedSeconds u" and "outcome = COMPLETED \<longrightarrow> hasAudio u \<and> reason = None \<and> ul_sourceComplete u"
    and "outcome = INTERRUPTED \<longrightarrow> hasAudio u"
  shows "lifecycle_inv (fst (finish outcome t reason unplayed u))"
proof -
  have "0 \<le> math_round (max 0 unplayed * 1000)" "0 \<le> math_round (ul_receivedSeconds u * 1000)"
    using assms(1) by (auto intro: math_round_nonneg)
  then show ?thesis
    using assms by (auto simp: lifecycle_inv_def finish_def Let_def report_ok_def hasAudio_def the_reason_def)
qed

lemma apply_signal_inv:
  assumes "lifecycle_inv u"
  shows "lifecycle_inv (fst (apply_signal sig t u))"
proof (cases "is_terminal (ul_current u)")
  case True
  then show ?thesis using assms by (simp add: apply_signal_def)
next
  case False
  then have none: "ul_report u = None"
    using assms by (auto simp: lifecycle_inv_def split: option.splits)
  have recv: "0 \<le> ul_receivedSeconds u" using assms by (simp add: lifecycle_inv_def)
  have src: "ul_sourceComplete u \<longrightarrow> hasAudio u" using assms False by (simp add: lifecycle_inv_def)
  show ?thesis
    using assms False none recv src
    by (cases sig) (auto simp: apply_signal_def Let_def hasAudio_def intro!: finish_inv, auto simp: lifecycle_inv_def hasAudio_def)
qed

inductive lifecycle_step :: "lifecycle \<Rightarrow> lifecycle \<Rightarrow> bool" where
  signal: "lifecycle_step u (fst (apply_signal sig t u))"
| switch: "lifecycle_step u (fst (switchSource src u))"

lemma switchSource_inv: "lifecycle_inv u \<Longrightarrow> lifecycle_inv (fst (switchSource src u))"
  by (auto simp: switchSource_def lifecycle_inv_def hasAudio_def split: option.splits)

interpretation lifecycle_kept: kept_by_steps lifecycle_step lifecycle_inv
  by unfold_locales (auto elim!: lifecycle_step.cases intro: apply_signal_inv switchSource_inv)

text \<open>Phases only move forward, audio and underruns only add up, and the end is the end.\<close>

definition lifecycle_le :: "lifecycle \<Rightarrow> lifecycle \<Rightarrow> bool" where
  "lifecycle_le u v \<longleftrightarrow> phase_rank (ul_current u) \<le> phase_rank (ul_current v) \<and>
     ul_receivedSeconds u \<le> ul_receivedSeconds v \<and> ul_underruns u \<le> ul_underruns v \<and>
     (ul_sourceComplete u \<longrightarrow> ul_sourceComplete v) \<and> (is_terminal (ul_current u) \<longrightarrow> v = u)"

lemma terminal_absorbs: "is_terminal (ul_current u) \<Longrightarrow> apply_signal sig t u = (u, None) \<and> switchSource src u = (u, False)"
  by (simp add: apply_signal_def switchSource_def)

lemma running_rank: "\<not> is_terminal p \<Longrightarrow> phase_rank p \<le> 3"
  by (cases p) simp_all

lemma apply_signal_le: "lifecycle_le u (fst (apply_signal sig t u))"
proof (cases "is_terminal (ul_current u)")
  case True
  then show ?thesis using terminal_absorbs by (simp add: lifecycle_le_def)
next
  case False
  then show ?thesis
    by (cases sig) (auto simp: apply_signal_def lifecycle_le_def finish_def Let_def intro: running_rank)
qed

lemma switchSource_le: "lifecycle_le u (fst (switchSource src u))"
  by (simp add: switchSource_def lifecycle_le_def)

interpretation lifecycle_grows: grown_by_steps lifecycle_step lifecycle_le
proof unfold_locales
  fix u v w
  show "lifecycle_le u u" by (simp add: lifecycle_le_def)
  show "lifecycle_le u v \<Longrightarrow> lifecycle_le v w \<Longrightarrow> lifecycle_le u w" by (auto simp: lifecycle_le_def)
  show "lifecycle_step u v \<Longrightarrow> lifecycle_le u v"
    by (auto elim!: lifecycle_step.cases intro: apply_signal_le switchSource_le)
qed

section \<open>The reports of a sequence\<close>

lemma apply_signal_report:
  assumes "apply_signal sig t u = (u', r)" and "\<not> is_terminal (ul_current u)"
  shows "r = (if is_terminal (ul_current u') then ul_report u' else None)"
  using assms by (cases sig) (auto simp: apply_signal_def finish_def Let_def split: if_splits)

text \<open>One report at most, made when the end is reached, and it is the one the utterance keeps.\<close>

lemma apply_signals_terminal: "is_terminal (ul_current u) \<Longrightarrow> apply_signals ss u = (u, [])"
  by (induction ss u rule: apply_signals.induct) (auto simp: apply_signal_def)

lemma apply_signals_reports:
  assumes "apply_signals ss u = (v, rs)" and "\<not> is_terminal (ul_current u)" and "lifecycle_inv u"
  shows "rs = (if is_terminal (ul_current v) then [the (ul_report v)] else [])"
  using assms
proof (induction ss arbitrary: u rs)
  case (Cons s ss)
  obtain sig t where s: "s = (sig, t)" by (cases s)
  obtain u1 r where a: "apply_signal sig t u = (u1, r)" by (cases "apply_signal sig t u")
  obtain rs' where b: "apply_signals ss u1 = (v, rs')" and rs: "rs = (case r of None \<Rightarrow> [] | Some x \<Rightarrow> [x]) @ rs'"
    using Cons.prems(1) s a by (auto split: prod.splits)
  have inv: "lifecycle_inv u1" using apply_signal_inv [OF Cons.prems(3), of sig t] a by simp
  note r = apply_signal_report [OF a Cons.prems(2)]
  show ?case
  proof (cases "is_terminal (ul_current u1)")
    case True
    then obtain x where "ul_report u1 = Some x" using inv by (auto simp: lifecycle_inv_def split: option.splits)
    then show ?thesis using True r rs b apply_signals_terminal [OF True] by auto
  next
    case False
    then show ?thesis using Cons.IH [OF b False inv] r rs by simp
  qed
qed simp

lemma apply_signals_steps: "lifecycle_step\<^sup>*\<^sup>* u (fst (apply_signals ss u))"
proof (induction ss arbitrary: u)
  case (Cons s ss)
  obtain sig t where s: "s = (sig, t)" by (cases s)
  have "lifecycle_step u (fst (apply_signal sig t u))" by (rule lifecycle_step.signal)
  then show ?case
    using Cons [of "fst (apply_signal sig t u)"] s
    by (auto split: prod.splits intro: converse_rtranclp_into_rtranclp)
qed simp

end
