(* ===== verification/LatencyLedger.thy ===== *)
theory LatencyLedger
  imports Keyed_Maps Step_Closure "HOL-Library.Sublist"
begin

text \<open>
  \<open>apps/web/lib/latency-ledger.ts\<close>: the marks of an utterance, from the candidate's last sample to the
  first sample heard, collected in the browser. A set of marks is a partial record, here a list of
  pairs; reported ledgers are recorded in order. The server's timing fields are kept as they come.
\<close>

datatype latency_mark =
    QuietOnset | VadEndDetected | ActivityEndSent | FirstInterimTranscript | TranscriptFinal
  | AuthorizationReceived | SpeechRequested | AudioFetchStarted | FirstAudioByte | FirstSamplePlayed

definition LATENCY_MARKS :: "latency_mark list" where
  "LATENCY_MARKS = [QuietOnset, VadEndDetected, ActivityEndSent, FirstInterimTranscript, TranscriptFinal,
     AuthorizationReceived, SpeechRequested, AudioFetchStarted, FirstAudioByte, FirstSamplePlayed]"

definition UTTERANCE_MARKS :: "latency_mark list" where
  "UTTERANCE_MARKS = [AuthorizationReceived, SpeechRequested, AudioFetchStarted, FirstAudioByte, FirstSamplePlayed]"

datatype speech_source = CACHED_AUDIO | REALTIME_MODEL

type_synonym marks = "(latency_mark \<times> real) list"

record terminal_report =
  tr_outcome :: string
  tr_reason :: "string option"
  tr_underruns :: nat
  tr_receivedAudioMs :: int
  tr_playedAudioMs :: int

record ledger =
  ld_utteranceId :: string
  ld_action :: string
  ld_source :: speech_source
  ld_marks :: marks
  ld_transcriptChunks :: "nat option"
  ld_serverDecisionMs :: "real option"
  ld_classifierMs :: "real option"
  ld_classifierSource :: "string option"
  ld_toolMs :: "real option"
  ld_toolCalls :: "nat option"
  ld_toolFailures :: "nat option"
  ld_terminal :: "(terminal_report \<times> real) option"

record voice_ledger =
  vl_pending :: marks
  vl_pendingChunks :: nat
  vl_open :: "ledger option"
  vl_openedAtMs :: real
  vl_staleAfterMs :: real
  vl_reports :: "ledger list"

definition new_voice_ledger :: "real option \<Rightarrow> voice_ledger" where
  "new_voice_ledger stale = \<lparr>vl_pending = [], vl_pendingChunks = 0, vl_open = None, vl_openedAtMs = 0,
     vl_staleAfterMs = (case stale of None \<Rightarrow> 180000 | Some t \<Rightarrow> t), vl_reports = []\<rparr>"

definition mark_at :: "ledger \<Rightarrow> latency_mark \<Rightarrow> real option" where
  "mark_at l m = get_key (ld_marks l) m"

definition put_first :: "latency_mark \<Rightarrow> real \<Rightarrow> marks \<Rightarrow> marks" where
  "put_first m t ms = (if has_key ms m then ms else set_key ms m t)"

text \<open>A mark goes to the open utterance if it is its own, or if that utterance is not audible yet.\<close>

definition to_open :: "latency_mark \<Rightarrow> voice_ledger \<Rightarrow> ledger option" where
  "to_open m v = (case vl_open v of
     None \<Rightarrow> None
   | Some l \<Rightarrow> if m \<in> set UTTERANCE_MARKS \<or> mark_at l FirstSamplePlayed = None then Some l else None)"

definition suc_option :: "nat option \<Rightarrow> nat option" where
  "suc_option n = Some (case n of None \<Rightarrow> 1 | Some k \<Rightarrow> k + 1)"

definition mark :: "latency_mark \<Rightarrow> real \<Rightarrow> voice_ledger \<Rightarrow> voice_ledger" where
  "mark m t v =
     (if m = QuietOnset then v\<lparr>vl_pending := [(QuietOnset, t)], vl_pendingChunks := 0\<rparr>
      else if m = TranscriptFinal
      then (case to_open m v of
              Some l \<Rightarrow> v\<lparr>vl_open := Some (l\<lparr>ld_marks := set_key (ld_marks l) TranscriptFinal t,
                                           ld_transcriptChunks := suc_option (ld_transcriptChunks l)\<rparr>)\<rparr>
            | None \<Rightarrow> v\<lparr>vl_pending := set_key (vl_pending v) TranscriptFinal t, vl_pendingChunks := vl_pendingChunks v + 1\<rparr>)
      else (case to_open m v of
              Some l \<Rightarrow> v\<lparr>vl_open := Some (l\<lparr>ld_marks := put_first m t (ld_marks l)\<rparr>)\<rparr>
            | None \<Rightarrow> v\<lparr>vl_pending := put_first m t (vl_pending v)\<rparr>))"

definition expire :: "real \<Rightarrow> voice_ledger \<Rightarrow> voice_ledger" where
  "expire t v = (if vl_open v \<noteq> None \<and> t - vl_openedAtMs v > vl_staleAfterMs v then v\<lparr>vl_open := None\<rparr> else v)"

definition authorized_utterance :: "string \<Rightarrow> string \<Rightarrow> speech_source \<Rightarrow> real \<Rightarrow> voice_ledger \<Rightarrow> voice_ledger" where
  "authorized_utterance uid act src t v0 =
     (let v = expire t v0
      in v\<lparr>vl_open := Some \<lparr>ld_utteranceId = uid, ld_action = act, ld_source = src,
             ld_marks = set_key (vl_pending v) AuthorizationReceived t,
             ld_transcriptChunks = (if vl_pendingChunks v > 0 then Some (vl_pendingChunks v) else None),
             ld_serverDecisionMs = None, ld_classifierMs = None, ld_classifierSource = None,
             ld_toolMs = None, ld_toolCalls = None, ld_toolFailures = None, ld_terminal = None\<rparr>,
           vl_openedAtMs := t, vl_pending := [], vl_pendingChunks := 0\<rparr>)"

definition on_open :: "(ledger \<Rightarrow> ledger) \<Rightarrow> voice_ledger \<Rightarrow> voice_ledger" where
  "on_open f v = v\<lparr>vl_open := map_option f (vl_open v)\<rparr>"

definition setSource :: "speech_source \<Rightarrow> voice_ledger \<Rightarrow> voice_ledger" where
  "setSource src = on_open (\<lambda>l. l\<lparr>ld_source := src\<rparr>)"

definition setServerTiming :: "real option \<Rightarrow> real option \<Rightarrow> string option \<Rightarrow> voice_ledger \<Rightarrow> voice_ledger" where
  "setServerTiming decision classifier source = on_open (\<lambda>l. l\<lparr>
     ld_serverDecisionMs := (if decision = None then ld_serverDecisionMs l else decision),
     ld_classifierMs := (if classifier = None then ld_classifierMs l else classifier),
     ld_classifierSource := (if truthy source then source else ld_classifierSource l)\<rparr>)"

definition firstSamplePlayed :: "real \<Rightarrow> voice_ledger \<Rightarrow> voice_ledger" where
  "firstSamplePlayed t = on_open (\<lambda>l. l\<lparr>ld_marks := put_first FirstSamplePlayed t (ld_marks l)\<rparr>)"

definition toolCall :: "real \<Rightarrow> bool \<Rightarrow> voice_ledger \<Rightarrow> voice_ledger" where
  "toolCall ms fine = on_open (\<lambda>l. l\<lparr>
     ld_toolMs := Some ((case ld_toolMs l of None \<Rightarrow> 0 | Some x \<Rightarrow> x) + max 0 ms),
     ld_toolCalls := suc_option (ld_toolCalls l),
     ld_toolFailures := (if fine then ld_toolFailures l else suc_option (ld_toolFailures l))\<rparr>)"

text \<open>A reason that is reported is cut to 64 characters.\<close>

definition cut_reason :: "terminal_report \<Rightarrow> terminal_report" where
  "cut_reason r = r\<lparr>tr_reason := (if truthy (tr_reason r) then map_option (take 64) (tr_reason r) else None)\<rparr>"

definition terminal :: "terminal_report \<Rightarrow> real \<Rightarrow> voice_ledger \<Rightarrow> voice_ledger" where
  "terminal r t v = (case vl_open v of
     None \<Rightarrow> v
   | Some l \<Rightarrow> v\<lparr>vl_open := None, vl_reports := vl_reports v @ [l\<lparr>ld_terminal := Some (cut_reason r, t)\<rparr>]\<rparr>)"

definition abandon :: "voice_ledger \<Rightarrow> voice_ledger" where
  "abandon v = v\<lparr>vl_open := None\<rparr>"

definition present_marks :: "ledger \<Rightarrow> (latency_mark \<times> real) list" where
  "present_marks l = List.map_filter (\<lambda>m. map_option (\<lambda>t. (m, t)) (mark_at l m)) LATENCY_MARKS"

fun stages_between :: "(latency_mark \<times> real) list \<Rightarrow> ((latency_mark \<times> latency_mark) \<times> real) list" where
  "stages_between ((m, a) # (n, b) # rest) = ((m, n), b - a) # stages_between ((n, b) # rest)"
| "stages_between _ = []"

definition largestStages :: "ledger \<Rightarrow> nat \<Rightarrow> ((latency_mark \<times> latency_mark) \<times> real) list" where
  "largestStages l count = take count (sort_key (\<lambda>s. - snd s) (stages_between (present_marks l)))"

definition responseLatencyMs :: "ledger \<Rightarrow> real option" where
  "responseLatencyMs l = (case (mark_at l FirstSamplePlayed, mark_at l QuietOnset) of
     (Some b, Some a) \<Rightarrow> Some (b - a) | _ \<Rightarrow> None)"

definition authorizationLatencyMs :: "ledger \<Rightarrow> real option" where
  "authorizationLatencyMs l = (case (mark_at l FirstSamplePlayed, mark_at l AuthorizationReceived) of
     (Some b, Some a) \<Rightarrow> Some (b - a) | _ \<Rightarrow> None)"

section \<open>Sequences of calls\<close>

datatype ledger_call =
    Mark latency_mark
  | Authorized string string speech_source
  | SetSource speech_source
  | ServerTiming "real option" "real option" "string option"
  | FirstSample
  | ToolCall real bool
  | Terminal terminal_report
  | Abandon

fun apply_call :: "ledger_call \<Rightarrow> real \<Rightarrow> voice_ledger \<Rightarrow> voice_ledger" where
  "apply_call (Mark m) t = mark m t"
| "apply_call (Authorized uid act src) t = authorized_utterance uid act src t"
| "apply_call (SetSource src) t = setSource src"
| "apply_call (ServerTiming a b c) t = setServerTiming a b c"
| "apply_call FirstSample t = firstSamplePlayed t"
| "apply_call (ToolCall ms fine) t = toolCall ms fine"
| "apply_call (Terminal r) t = terminal r t"
| "apply_call Abandon t = abandon"

fun ledger_run :: "(ledger_call \<times> real) list \<Rightarrow> voice_ledger \<Rightarrow> voice_ledger" where
  "ledger_run [] v = v"
| "ledger_run ((k, t) # ks) v = ledger_run ks (apply_call k t v)"

fun authorized_ids :: "(ledger_call \<times> real) list \<Rightarrow> string list" where
  "authorized_ids [] = []"
| "authorized_ids ((Authorized uid act src, t) # ks) = uid # authorized_ids ks"
| "authorized_ids (_ # ks) = authorized_ids ks"

lemma ledger_run_append: "ledger_run (xs @ ys) v = ledger_run ys (ledger_run xs v)"
  by (induction xs arbitrary: v) auto

lemma on_open_sel [simp]:
  "vl_open (on_open f v) = map_option f (vl_open v)" "vl_reports (on_open f v) = vl_reports v"
  "vl_pending (on_open f v) = vl_pending v" "vl_openedAtMs (on_open f v) = vl_openedAtMs v"
  by (simp_all add: on_open_def)

lemma expire_sel [simp]:
  "vl_reports (expire t v) = vl_reports v" "vl_pending (expire t v) = vl_pending v"
  by (simp_all add: expire_def)

section \<open>Every report belongs to one authorization\<close>

definition open_id :: "voice_ledger \<Rightarrow> string list" where
  "open_id v = (case vl_open v of None \<Rightarrow> [] | Some l \<Rightarrow> [ld_utteranceId l])"

definition reported_ids :: "voice_ledger \<Rightarrow> string list" where
  "reported_ids v = map ld_utteranceId (vl_reports v)"

text \<open>One call turns the reported and the open utterance into a part of itself and what it authorized.\<close>

lemma apply_call_ids:
  "subseq (reported_ids (apply_call k t v) @ open_id (apply_call k t v))
     (reported_ids v @ open_id v @ authorized_ids [(k, t)])"
proof (cases k)
  case (Mark m)
  have "open_id (mark m t v) = open_id v" "reported_ids (mark m t v) = reported_ids v"
    by (auto simp: mark_def open_id_def reported_ids_def to_open_def split: option.splits if_splits)
  then show ?thesis using Mark by simp
next
  case (Authorized uid act src)
  have "open_id (authorized_utterance uid act src t v) = [uid]"
      "reported_ids (authorized_utterance uid act src t v) = reported_ids v"
    by (simp_all add: authorized_utterance_def open_id_def reported_ids_def Let_def)
  then show ?thesis using Authorized by (auto intro: list_emb_append_mono)
next
  case (Terminal r)
  then show ?thesis by (auto simp: terminal_def open_id_def reported_ids_def split: option.splits)
next
  case Abandon
  then show ?thesis by (auto simp: abandon_def open_id_def reported_ids_def)
qed (auto simp: setSource_def setServerTiming_def firstSamplePlayed_def toolCall_def open_id_def reported_ids_def
    split: option.splits)

lemma authorized_ids_Cons: "authorized_ids ((k, t) # ks) = authorized_ids [(k, t)] @ authorized_ids ks"
  by (cases k) simp_all

lemma ledger_run_ids:
  "subseq (reported_ids (ledger_run ks v) @ open_id (ledger_run ks v)) (reported_ids v @ open_id v @ authorized_ids ks)"
proof (induction ks arbitrary: v)
  case (Cons q ks)
  obtain k t where q: "q = (k, t)" by (cases q)
  have "subseq (reported_ids (ledger_run ks (apply_call k t v)) @ open_id (ledger_run ks (apply_call k t v)))
      ((reported_ids (apply_call k t v) @ open_id (apply_call k t v)) @ authorized_ids ks)"
    using Cons [of "apply_call k t v"] by simp
  also have "subseq \<dots> ((reported_ids v @ open_id v @ authorized_ids [(k, t)]) @ authorized_ids ks)"
    by (rule list_emb_append_mono [OF apply_call_ids]) simp
  finally show ?case using authorized_ids_Cons [of k t ks] q by simp
qed simp

section \<open>A turn taken over an audible utterance belongs to the next one\<close>

lemma candidate_mark_kept_apart:
  assumes "vl_open v = Some l" and "mark_at l FirstSamplePlayed \<noteq> None" and "m \<notin> set UTTERANCE_MARKS"
  shows "vl_open (mark m t v) = Some l"
  using assms by (auto simp: mark_def to_open_def split: option.split)

section \<open>The stages add up\<close>

lemma stages_telescope:
  "xs \<noteq> [] \<Longrightarrow> sum_list (map snd (stages_between xs)) = snd (last xs) - snd (hd xs)"
  by (induction xs rule: stages_between.induct) auto

lemma largest_sorted: "sorted_wrt (\<ge>) (map snd (largestStages l count))"
proof -
  have "sorted (map (\<lambda>s. - snd s) (sort_key (\<lambda>s. - snd s) (stages_between (present_marks l))))" by simp
  then have "sorted (map (\<lambda>s. - snd s) (largestStages l count))"
    unfolding largestStages_def by (simp add: sorted_wrt_take flip: take_map)
  then show ?thesis by (simp add: sorted_wrt_map)
qed

lemma largest_subset: "set (largestStages l count) \<subseteq> set (stages_between (present_marks l))"
  unfolding largestStages_def using set_take_subset by fastforce

section \<open>A late mark\<close>

text \<open>
  A mark of an utterance that has already ended is kept for the next one: its value is then older than
  the authorization it is reported with.
\<close>

lemma late_mark_adopted:
  assumes "vl_open v = None" and "m \<in> set UTTERANCE_MARKS" and "m \<noteq> AuthorizationReceived" and "\<not> has_key (vl_pending v) m"
    and "late < t"
  shows "\<exists>l. vl_open (authorized_utterance uid act src t (mark m late v)) = Some l \<and> mark_at l m = Some late \<and>
    mark_at l AuthorizationReceived = Some t"
  using assms
  by (auto simp: mark_def to_open_def authorized_utterance_def expire_def Let_def put_first_def mark_at_def UTTERANCE_MARKS_def)

end
