(* ===== verification/AudioPcm.thy ===== *)
theory AudioPcm
  imports Prelude "HOL-Library.Word"
begin

unbundle bit_operations_syntax

text \<open>
  \<open>apps/web/lib/audio.ts\<close> and the decoders of \<open>voice-session.ts\<close>: samples, bytes and their base64. A
  sample on the wire is a 16-bit word, read by \<open>sint\<close>; a sample of the audio graph is a real number,
  without the rounding of its 32-bit format and without \<open>NaN\<close>. \<open>btoa\<close> and \<open>atob\<close> are those of the
  platform.
\<close>

section \<open>Base64\<close>

definition B64 :: string where
  "B64 = ''ABCDEFGHIJKLMNOPQRSTUVWXYZabcdefghijklmnopqrstuvwxyz0123456789+/''"

fun sextets :: "8 word list \<Rightarrow> nat list" where
  "sextets (a # b # c # bs) =
     (let n = unat a * 65536 + unat b * 256 + unat c
      in [n div 262144, n div 4096 mod 64, n div 64 mod 64, n mod 64] @ sextets bs)"
| "sextets [a, b] = (let n = unat a * 1024 + unat b * 4 in [n div 4096, n div 64 mod 64, n mod 64])"
| "sextets [a] = (let n = unat a * 16 in [n div 64, n mod 64])"
| "sextets [] = []"

definition btoa :: "8 word list \<Rightarrow> string" where
  "btoa bs = map ((!) B64) (sextets bs) @ replicate ((3 - length bs mod 3) mod 3) (CHR ''='')"

fun bytes_of :: "nat list \<Rightarrow> 8 word list" where
  "bytes_of (a # b # c # d # ds) =
     (let n = a * 262144 + b * 4096 + c * 64 + d
      in [of_nat (n div 65536), of_nat (n div 256 mod 256), of_nat (n mod 256)] @ bytes_of ds)"
| "bytes_of [a, b, c] = (let n = a * 4096 + b * 64 + c in [of_nat (n div 1024), of_nat (n div 4 mod 256)])"
| "bytes_of [a, b] = [of_nat ((a * 64 + b) div 16)]"
| "bytes_of _ = []"

fun position_in :: "'a list \<Rightarrow> 'a \<Rightarrow> nat option" where
  "position_in [] x = None"
| "position_in (y # ys) x = (if x = y then Some 0 else map_option Suc (position_in ys x))"

definition strip_padding :: "string \<Rightarrow> string" where
  "strip_padding s =
     (if length s mod 4 \<noteq> 0 then s
      else if drop (length s - 2) s = ''=='' then take (length s - 2) s
      else if drop (length s - 1) s = ''='' then take (length s - 1) s else s)"

definition atob :: "string \<Rightarrow> 8 word list option" where
  "atob s =
     (let t = strip_padding (filter (\<lambda>c. c \<notin> set [CHR 0x09, CHR 0x0A, CHR 0x0C, CHR 0x0D, CHR '' '']) s);
          ds = map (position_in B64) t
      in if length t mod 4 = 1 \<or> None \<in> set ds then None else Some (bytes_of (map the ds)))"

section \<open>Samples\<close>

definition int16 :: "8 word \<Rightarrow> 8 word \<Rightarrow> 16 word" where
  "int16 low high = ucast low OR push_bit 8 (ucast high)"

definition pcm16ToBase64 :: "16 word list \<Rightarrow> string" where
  "pcm16ToBase64 pcm = btoa (concat (map (\<lambda>w. [ucast w, ucast (drop_bit 8 w)]) pcm))"

definition base64ToPcm16 :: "string \<Rightarrow> 16 word list option" where
  "base64ToPcm16 s =
     (case atob s of
        None \<Rightarrow> None
      | Some bs \<Rightarrow> Some (map (\<lambda>i. int16 (bs ! (2 * i)) (bs ! (2 * i + 1))) [0..<length bs div 2]))"

text \<open>A read beyond the array is \<open>undefined\<close>, then zero.\<close>

definition byte_at :: "8 word list \<Rightarrow> int \<Rightarrow> 8 word" where
  "byte_at bs i = (if 0 \<le> i \<and> i < int (length bs) then bs ! nat i else 0)"

definition toPcm16 :: "8 word list \<Rightarrow> 8 word option \<Rightarrow> 16 word list \<times> 8 word option" where
  "toPcm16 bs carry =
     (let n = length bs + (if carry = None then 0 else 1);
          sample = (\<lambda>i. int16
            (if i = 0 \<and> carry \<noteq> None then the carry else byte_at bs (2 * int i - (if carry = None then 0 else 1)))
            (byte_at bs (2 * int i + (if carry = None then 1 else 0))))
      in (map sample [0..<n div 2], if odd n then (if bs = [] then carry else Some (last bs)) else None))"

definition base64ToBytes :: "string \<Rightarrow> 8 word list option" where
  "base64ToBytes s = atob s"

text \<open>The storage of a number in an \<open>Int16Array\<close> truncates it and takes it modulo two to the sixteenth.\<close>

definition truncate_toward_zero :: "real \<Rightarrow> int" where
  "truncate_toward_zero x = (if x < 0 then \<lceil>x\<rceil> else \<lfloor>x\<rfloor>)"

definition floatToPcm16 :: "real list \<Rightarrow> 16 word list" where
  "floatToPcm16 frame = map (\<lambda>x. let clamped = max (-1) (min 1 x)
     in word_of_int (truncate_toward_zero (if clamped < 0 then clamped * 32768 else clamped * 32767))) frame"

definition pcm16ToFloat :: "16 word list \<Rightarrow> real list" where
  "pcm16ToFloat pcm = map (\<lambda>w. let s = real_of_int (sint w) in if s < 0 then s / 32768 else s / 32767) pcm"

definition LIVE_INPUT_SAMPLE_RATE :: real where "LIVE_INPUT_SAMPLE_RATE = 16000"
definition LIVE_OUTPUT_SAMPLE_RATE :: real where "LIVE_OUTPUT_SAMPLE_RATE = 24000"

definition sample_at :: "real list \<Rightarrow> nat \<Rightarrow> real" where
  "sample_at xs i = (if i < length xs then xs ! i else 0)"

definition downsampled :: "real list \<Rightarrow> real \<Rightarrow> nat \<Rightarrow> real" where
  "downsampled inp ratio i =
     (let start = real i * ratio;
          stop = min (real (length inp)) (start + ratio);
          first = nat \<lfloor>start\<rfloor>;
          final = min (length inp) (nat \<lceil>stop\<rceil>);
          window = map (sample_at inp) [first..<final]
      in if window = [] then 0 else sum_list window / real (length window))"

definition upsampled :: "real list \<Rightarrow> real \<Rightarrow> nat \<Rightarrow> real" where
  "upsampled inp ratio i =
     (let position = real i * ratio;
          left = nat \<lfloor>position\<rfloor>;
          right = min (length inp - 1) (left + 1);
          weight = position - real left
      in sample_at inp left * (1 - weight) + sample_at inp right * weight)"

definition resample :: "real list \<Rightarrow> real \<Rightarrow> real \<Rightarrow> real list result" where
  "resample inp from_rate to_rate =
     (if from_rate = to_rate then Inr inp
      else if inp = [] then Inr []
      else if from_rate \<le> 0 \<or> to_rate \<le> 0 then Inl (JsError ''sample rates must be positive'')
      else (let ratio = from_rate / to_rate;
                n = nat (max 1 (math_round (real (length inp) / ratio)))
            in Inr (map (if ratio > 1 then downsampled inp ratio else upsampled inp ratio) [0..<n])))"

definition encodeForLive :: "real list \<Rightarrow> real \<Rightarrow> string result" where
  "encodeForLive frame captureRate =
     then_do (resample frame captureRate LIVE_INPUT_SAMPLE_RATE) (\<lambda>xs. Inr (pcm16ToBase64 (floatToPcm16 xs)))"

section \<open>Base64 and back\<close>

lemma position_in_nth: "distinct xs \<Longrightarrow> i < length xs \<Longrightarrow> position_in xs (xs ! i) = Some i"
proof (induction xs arbitrary: i)
  case (Cons x xs)
  then show ?case by (cases i) (auto simp: nth_mem)
qed simp

lemma B64_facts: "length B64 = 64" "distinct B64" "CHR ''='' \<notin> set B64"
  "\<forall>c\<in>set B64. c \<notin> set [CHR 0x09, CHR 0x0A, CHR 0x0C, CHR 0x0D, CHR '' '']"
  by (simp_all add: B64_def)

lemma byte_bound: "unat (b :: 8 word) < 256"
proof -
  have "unat b < 2 ^ LENGTH(8)" by (rule unsigned_less)
  then show ?thesis by simp
qed

text \<open>The digits of a number in base 64 and in base 256.\<close>

lemma digits64:
  fixes n :: nat
  shows "n div 64 * 64 + n mod 64 = n" and "n div 4096 * 64 + n div 64 mod 64 = n div 64"
    and "n div 262144 * 64 + n div 4096 mod 64 = n div 4096"
proof -
  have "n div 4096 = n div 64 div 64" "n div 262144 = n div 4096 div 64" by (simp_all add: div_mult2_eq [symmetric])
  then show "n div 4096 * 64 + n div 64 mod 64 = n div 64" "n div 262144 * 64 + n div 4096 mod 64 = n div 4096" by simp_all
qed simp

lemma digits256:
  fixes a b c :: nat
  assumes "b < 256" and "c < 256"
  shows "(a * 65536 + b * 256 + c) div 65536 = a" and "(a * 65536 + b * 256 + c) div 256 mod 256 = b"
    and "(a * 65536 + b * 256 + c) mod 256 = c"
proof -
  show "(a * 65536 + b * 256 + c) div 65536 = a" by (rule div_nat_eqI) (use assms in simp_all)
  have "(a * 65536 + b * 256 + c) div 256 = a * 256 + b" by (rule div_nat_eqI) (use assms in simp_all)
  then show "(a * 65536 + b * 256 + c) div 256 mod 256 = b" using assms by simp
  have "(k * 256 + c) mod 256 = c" for k using assms by simp
  from this [of "a * 256 + b"] show "(a * 65536 + b * 256 + c) mod 256 = c" by (simp add: algebra_simps)
qed

lemma sextets_bound: "d \<in> set (sextets bs) \<Longrightarrow> d < 64"
proof (induction bs rule: sextets.induct)
  case (1 a b c bs)
  have "(unat a * 65536 + unat b * 256 + unat c) div 262144 < 64"
    by (rule less_mult_imp_div_less) (use byte_bound [of a] byte_bound [of b] byte_bound [of c] in linarith)
  then show ?case using 1 by (auto simp: Let_def)
next
  case (2 a b)
  have "(unat a * 1024 + unat b * 4) div 4096 < 64"
    by (rule less_mult_imp_div_less) (use byte_bound [of a] byte_bound [of b] in linarith)
  then show ?case using 2 by (auto simp: Let_def)
next
  case (3 a)
  have "unat a * 16 div 64 < 64" by (rule less_mult_imp_div_less) (use byte_bound [of a] in linarith)
  then show ?case using 3 by (auto simp: Let_def)
qed simp

lemma length_sextets: "length (sextets bs) + (3 - length bs mod 3) mod 3 = 4 * ((length bs + 2) div 3)"
proof (induction bs rule: sextets.induct)
  case (1 a b c bs)
  have "Suc (Suc (Suc n)) mod 3 = n mod 3" for n :: nat by presburger
  then have "length (a # b # c # bs) mod 3 = length bs mod 3" by simp
  moreover have "(length (a # b # c # bs) + 2) div 3 = (length bs + 2) div 3 + 1" by simp
  ultimately show ?case using 1 by (simp add: Let_def)
qed (simp_all add: Let_def)

lemma bytes_sextets: "bytes_of (sextets bs) = bs"
proof (induction bs rule: sextets.induct)
  case (1 a b c bs)
  let ?n = "unat a * 65536 + unat b * 256 + unat c"
  have n: "?n div 262144 * 262144 + ?n div 4096 mod 64 * 4096 + ?n div 64 mod 64 * 64 + ?n mod 64 = ?n"
    using digits64 [of ?n] by linarith
  note bytes = digits256 [OF byte_bound byte_bound, of "unat a" b c]
  have "bytes_of (sextets (a # b # c # bs)) = [of_nat (?n div 65536), of_nat (?n div 256 mod 256), of_nat (?n mod 256)] @ bytes_of (sextets bs)"
    by (simp only: sextets.simps Let_def bytes_of.simps append.simps n)
  then show ?case unfolding bytes using 1 by simp
next
  case (2 a b)
  let ?n = "unat a * 1024 + unat b * 4"
  have n: "?n div 4096 * 4096 + ?n div 64 mod 64 * 64 + ?n mod 64 = ?n" using digits64 [of ?n] by linarith
  have d: "?n div 1024 = unat a" by (rule div_nat_eqI) (use byte_bound [of b] in simp_all)
  have "?n div 4 = unat a * 256 + unat b" by simp
  then have e: "?n div 4 mod 256 = unat b" using byte_bound [of b] by simp
  have "bytes_of (sextets [a, b]) = [of_nat (?n div 1024), of_nat (?n div 4 mod 256)]"
    by (simp only: sextets.simps Let_def bytes_of.simps n)
  then show ?case unfolding d e by simp
next
  case (3 a)
  have n: "unat a * 16 div 64 * 64 + unat a * 16 mod 64 = unat a * 16" by (rule div_mult_mod_eq)
  have "bytes_of (sextets [a]) = [of_nat (unat a * 16 div 16)]" by (simp only: sextets.simps Let_def bytes_of.simps n)
  then show ?case by simp
qed simp

lemma strip_padding_btoa: "strip_padding (btoa bs) = map ((!) B64) (sextets bs)"
proof -
  let ?t = "map ((!) B64) (sextets bs)" and ?k = "(3 - length bs mod 3) mod 3"
  have len: "length (btoa bs) = 4 * ((length bs + 2) div 3)" using length_sextets [of bs] by (simp add: btoa_def)
  have "set ?t \<subseteq> set B64" using sextets_bound [of _ bs] by (auto intro!: nth_mem simp only: B64_facts(1) set_map)
  then have no: "CHR ''='' \<notin> set ?t" using B64_facts(3) by blast
  have "?k < 3" by simp
  then have k: "?k \<in> {0, 1, 2}" by (simp only: insert_iff empty_iff) linarith
  consider (0) "?k = 0" | (1) "?k = 1" | (2) "?k = 2" using k unfolding insert_iff empty_iff by metis
  then show ?thesis
  proof cases
    case 0
    then have b: "btoa bs = ?t" by (simp add: btoa_def)
    have "drop n ?t \<noteq> ''==''" "drop n ?t \<noteq> ''=''" for n
      using no in_set_dropD [of "CHR ''=''" n ?t] by (metis list.set_intros(1))+
    then show ?thesis unfolding b by (simp only: strip_padding_def if_False if_cancel)
  next
    case 1
    then have b: "btoa bs = ?t @ ''=''" by (simp add: btoa_def)
    have "?t \<noteq> []" using len b length_sextets [of bs] by auto
    then obtain ys y where y: "?t = ys @ [y]" by (metis rev_exhaust)
    have "y \<noteq> CHR ''=''" using no y by auto
    have l: "length (btoa bs) = length ys + 2" using b y by simp
    have "drop (length ys) (btoa bs) = [y, CHR ''='']" "drop (length ys + 1) (btoa bs) = ''=''" "take (length ys + 1) (btoa bs) = ?t"
      using b y by simp_all
    moreover have "(length ys + 2) mod 4 = 0" using len unfolding l by simp
    ultimately show ?thesis using \<open>y \<noteq> CHR ''=''\<close> unfolding strip_padding_def l by simp
  next
    case 2
    then have b: "btoa bs = ?t @ ''==''" by (simp add: btoa_def numeral_2_eq_2)
    then have l: "length (btoa bs) = length ?t + 2" by simp
    have "drop (length ?t) (btoa bs) = ''==''" "take (length ?t) (btoa bs) = ?t" using b by simp_all
    moreover have "(length ?t + 2) mod 4 = 0" using len unfolding l by simp
    ultimately show ?thesis unfolding strip_padding_def l by simp
  qed
qed

lemma atob_btoa: "atob (btoa bs) = Some bs"
proof -
  let ?ws = "set [CHR 0x09, CHR 0x0A, CHR 0x0C, CHR 0x0D, CHR '' '']"
  let ?t = "map ((!) B64) (sextets bs)"
  have "c \<notin> ?ws" if "c \<in> set (btoa bs)" for c
  proof -
    have "set (map ((!) B64) (sextets bs)) \<subseteq> set B64"
      using sextets_bound [of _ bs] by (auto intro!: nth_mem simp only: B64_facts(1) set_map)
    then have "c \<in> set B64 \<or> c = CHR ''=''" using that unfolding btoa_def by auto
    then show ?thesis using B64_facts(4) by auto
  qed
  then have "filter (\<lambda>c. c \<notin> ?ws) (btoa bs) = btoa bs" by (simp only: filter_id_conv) blast
  moreover have ds: "map (position_in B64) ?t = map Some (sextets bs)"
    using sextets_bound [of _ bs] by (simp add: position_in_nth B64_facts(1,2))
  moreover have "L + k = 4 * m \<Longrightarrow> k < 3 \<Longrightarrow> L mod 4 \<noteq> 1" for L k m :: nat by presburger
  from this [OF length_sextets [of bs]] have "length ?t mod 4 \<noteq> 1" by simp
  moreover have "map the (map Some (sextets bs)) = sextets bs" by simp
  ultimately show ?thesis unfolding atob_def Let_def by (simp del: map_map add: strip_padding_btoa bytes_sextets image_iff)
qed

section \<open>Samples and their bytes\<close>

fun samples_of :: "8 word list \<Rightarrow> 16 word list" where
  "samples_of (a # b # bs) = int16 a b # samples_of bs"
| "samples_of _ = []"

lemma samples_nth: "samples_of bs = map (\<lambda>i. int16 (bs ! (2 * i)) (bs ! (2 * i + 1))) [0..<length bs div 2]"
proof (induction bs rule: samples_of.induct)
  case (1 a b bs)
  have "[0..<length (a # b # bs) div 2] = 0 # map Suc [0..<length bs div 2]"
    by (simp add: upt_conv_Cons map_Suc_upt)
  then show ?case using 1 by simp
qed simp_all

lemma int16_split: "int16 (ucast w) (ucast (drop_bit 8 w)) = w"
  by (rule bit_word_eqI) (auto simp: int16_def bit_simps not_less)

lemma base64_samples: "base64ToPcm16 (pcm16ToBase64 pcm) = Some pcm"
proof -
  have "samples_of (concat (map (\<lambda>w. [ucast w, ucast (drop_bit 8 w)]) pcm)) = pcm"
    by (induction pcm) (simp_all add: int16_split)
  then show ?thesis by (simp add: base64ToPcm16_def pcm16ToBase64_def atob_btoa samples_nth)
qed

text \<open>The decoder of a stream of chunks.\<close>

definition carried :: "8 word option \<Rightarrow> 8 word list" where
  "carried c = (case c of None \<Rightarrow> [] | Some b \<Rightarrow> [b])"

definition odd_byte :: "8 word list \<Rightarrow> 8 word option" where
  "odd_byte bs = (if odd (length bs) then Some (last bs) else None)"

lemma byte_at_nat: "byte_at bs (int j) = (if j < length bs then bs ! j else 0)"
  by (simp add: byte_at_def)

lemma toPcm16_whole: "toPcm16 bs carry = (samples_of (carried carry @ bs), odd_byte (carried carry @ bs))"
proof (cases carry)
  case None
  have "byte_at bs (2 * int i) = bs ! (2 * i)" "byte_at bs (2 * int i + 1) = bs ! (2 * i + 1)" if "i < length bs div 2" for i
  proof -
    have "2 * i < length bs" "2 * i + 1 < length bs" using that by linarith+
    then show "byte_at bs (2 * int i) = bs ! (2 * i)" "byte_at bs (2 * int i + 1) = bs ! (2 * i + 1)"
      using byte_at_nat [of bs "2 * i"] byte_at_nat [of bs "2 * i + 1"] by (simp_all add: add.commute)
  qed
  then show ?thesis using None
    by (simp add: toPcm16_def carried_def samples_nth odd_byte_def cong: map_cong)
next
  case (Some c)
  have pair: "int16 (if i = 0 then c else byte_at bs (2 * int i - 1)) (byte_at bs (2 * int i)) =
      int16 ((c # bs) ! (2 * i)) ((c # bs) ! (2 * i + 1))" if "i < (length bs + 1) div 2" for i
  proof (cases i)
    case 0
    then have "bs \<noteq> []" using that by auto
    then show ?thesis using 0 byte_at_nat [of bs 0] by simp
  next
    case (Suc k)
    then have "2 * int i - 1 = int (2 * k + 1)" "2 * int i = int (2 * k + 2)" by simp_all
    moreover have "2 * k + 2 < length bs" using that Suc by linarith
    ultimately show ?thesis using Suc by (simp only: byte_at_nat) simp
  qed
  have "map (\<lambda>i. int16 (if i = 0 then c else byte_at bs (2 * int i - 1)) (byte_at bs (2 * int i))) [0..<(length bs + 1) div 2] =
      samples_of (c # bs)"
    unfolding samples_nth using pair by (intro map_cong) simp_all
  then show ?thesis unfolding Some toPcm16_def Let_def option.sel by (auto simp: carried_def odd_byte_def)
qed

fun decode_stream :: "8 word list list \<Rightarrow> 8 word option \<Rightarrow> 16 word list \<times> 8 word option" where
  "decode_stream [] carry = ([], carry)"
| "decode_stream (c # cs) carry =
     (case toPcm16 c carry of (pcm, carry1) \<Rightarrow> (case decode_stream cs carry1 of (rest, carry2) \<Rightarrow> (pcm @ rest, carry2)))"

lemma samples_split: "samples_of (xs @ ys) = samples_of xs @ samples_of (carried (odd_byte xs) @ ys)"
proof (induction xs rule: samples_of.induct)
  case (1 a b bs)
  have "odd_byte (a # b # bs) = odd_byte bs" by (cases bs) (auto simp: odd_byte_def)
  then show ?case using 1 by simp
qed (simp_all add: odd_byte_def carried_def)

lemma odd_byte_split: "odd_byte (carried (odd_byte xs) @ ys) = odd_byte (xs @ ys)"
  by (cases "odd (length xs)"; cases ys) (auto simp: odd_byte_def carried_def)

lemma decode_stream_whole:
  "decode_stream cs carry = (samples_of (carried carry @ concat cs), odd_byte (carried carry @ concat cs))"
proof (induction cs arbitrary: carry)
  case Nil
  show ?case by (cases carry) (simp_all add: carried_def odd_byte_def)
next
  case (Cons c cs)
  show ?case
    using samples_split [of "carried carry @ c" "concat cs"] odd_byte_split [of "carried carry @ c" "concat cs"]
    by (simp add: toPcm16_whole Cons)
qed

section \<open>The range of samples\<close>

lemma truncate_range: "- 32768 \<le> x \<Longrightarrow> x \<le> 32767 \<Longrightarrow> - 32768 \<le> truncate_toward_zero x \<and> truncate_toward_zero x \<le> 32767"
  unfolding truncate_toward_zero_def by (auto simp: le_floor_iff ceiling_le_iff le_ceiling_iff floor_le_iff)

lemma truncate_mono: "x \<le> y \<Longrightarrow> truncate_toward_zero x \<le> truncate_toward_zero y"
  unfolding truncate_toward_zero_def
  by (auto intro: floor_mono ceiling_mono) (meson ceiling_le_zero less_imp_le not_less order_trans zero_le_floor)

definition scaled :: "real \<Rightarrow> real" where
  "scaled x = (let c = max (-1) (min 1 x) in if c < 0 then c * 32768 else c * 32767)"

lemma scaled_range: "- 32768 \<le> scaled x \<and> scaled x \<le> 32767"
  by (auto simp: scaled_def Let_def)

lemma scaled_mono: "x \<le> y \<Longrightarrow> scaled x \<le> scaled y"
  by (auto simp: scaled_def Let_def) 

lemma sint_floatToPcm16:
  assumes "i < length xs"
  shows "sint (floatToPcm16 xs ! i) = truncate_toward_zero (scaled (xs ! i))"
proof -
  have r: "- 32768 \<le> truncate_toward_zero (scaled (xs ! i))" "truncate_toward_zero (scaled (xs ! i)) \<le> 32767"
    using truncate_range scaled_range by blast+
  have "floatToPcm16 xs ! i = word_of_int (truncate_toward_zero (scaled (xs ! i)))"
    using assms by (simp add: floatToPcm16_def scaled_def Let_def)
  moreover have "signed_take_bit 15 k = k" if "- 32768 \<le> k" "k \<le> 32767" for k :: int
    by (rule signed_take_bit_int_eq_self) (use that in simp_all)
  ultimately show ?thesis using r by (simp add: signed_of_int)
qed

section \<open>Resampling\<close>

lemma position_inside:
  assumes "i < nat (max 1 (math_round (real n / ratio)))" and "0 < ratio" and "0 < n"
  shows "real i * ratio < real n"
proof (cases "i = 0")
  case False
  then have "int i < math_round (real n / ratio)" using assms(1) by linarith
  then have "real i + 1 \<le> real n / ratio + 1 / 2" unfolding math_round_def by linarith
  then have "real i < real n / ratio" by linarith
  then show ?thesis using assms(2) by (simp add: pos_less_divide_eq)
qed (use assms in simp)

lemma average_range:
  fixes xs :: "real list"
  assumes "xs \<noteq> []" and "\<forall>x\<in>set xs. lo \<le> x \<and> x \<le> hi"
  shows "lo \<le> sum_list xs / real (length xs) \<and> sum_list xs / real (length xs) \<le> hi"
proof -
  have "real (length xs) * lo \<le> sum_list xs \<and> sum_list xs \<le> real (length xs) * hi"
    using assms(2) by (induction xs) (auto simp: algebra_simps)
  then show ?thesis using assms(1) by (simp add: field_simps)
qed

lemma downsampled_range:
  assumes "1 < ratio" and "real i * ratio < real (length inp)" and "\<forall>x\<in>set inp. lo \<le> x \<and> x \<le> hi"
  shows "lo \<le> downsampled inp ratio i \<and> downsampled inp ratio i \<le> hi"
proof -
  let ?start = "real i * ratio"
  let ?first = "nat \<lfloor>?start\<rfloor>" and ?final = "min (length inp) (nat \<lceil>min (real (length inp)) (?start + ratio)\<rceil>)"
  let ?w = "map (sample_at inp) [?first..<?final]"
  have pos: "0 \<le> ?start" using assms(1) by simp
  have "real ?first \<le> ?start" using pos by simp
  then have "?first < length inp" using assms(2) by linarith
  moreover have "?first < nat \<lceil>min (real (length inp)) (?start + ratio)\<rceil>"
  proof -
    have "real_of_int \<lfloor>?start\<rfloor> \<le> ?start" by simp
    then have "real_of_int \<lfloor>?start\<rfloor> < min (real (length inp)) (?start + ratio)" using assms(1,2) by linarith
    then have "\<lfloor>?start\<rfloor> < \<lceil>min (real (length inp)) (?start + ratio)\<rceil>" by (simp only: less_ceiling_iff)
    moreover have "0 \<le> \<lfloor>?start\<rfloor>" using pos by simp
    moreover have "0 \<le> a \<Longrightarrow> a < b \<Longrightarrow> nat a < nat b" for a b :: int by simp
    ultimately show ?thesis by blast
  qed
  ultimately have "?first < ?final" by (simp only: min_less_iff_conj)
  then have "?w \<noteq> []" unfolding map_is_Nil_conv upt_eq_Nil_conv by linarith
  moreover have "lo \<le> sample_at inp j \<and> sample_at inp j \<le> hi" if "j < ?final" for j
    using assms(3) that unfolding sample_at_def min_less_iff_conj by simp
  then have "\<forall>x\<in>set ?w. lo \<le> x \<and> x \<le> hi" unfolding set_map set_upt by (metis (no_types, lifting) atLeastLessThan_iff imageE)
  ultimately show ?thesis unfolding downsampled_def Let_def using average_range by presburger
qed

lemma upsampled_range:
  assumes "0 < ratio" and "real i * ratio < real (length inp)" and "\<forall>x\<in>set inp. lo \<le> x \<and> x \<le> hi"
  shows "lo \<le> upsampled inp ratio i \<and> upsampled inp ratio i \<le> hi"
proof -
  let ?p = "real i * ratio"
  let ?l = "nat \<lfloor>?p\<rfloor>" and ?r = "min (length inp - 1) (nat \<lfloor>?p\<rfloor> + 1)"
  have pos: "0 \<le> ?p" using assms(1) by simp
  then have w: "0 \<le> ?p - real ?l" "?p - real ?l \<le> 1" by linarith+
  have "real ?l \<le> ?p" using pos by simp
  then have "?l < length inp" "?r < length inp" using assms(2) by linarith+
  then have "lo \<le> sample_at inp ?l" "sample_at inp ?l \<le> hi" "lo \<le> sample_at inp ?r" "sample_at inp ?r \<le> hi"
    using assms(3) by (simp_all add: sample_at_def)
  then have "lo * (1 - (?p - real ?l)) + lo * (?p - real ?l) \<le> upsampled inp ratio i"
      "upsampled inp ratio i \<le> hi * (1 - (?p - real ?l)) + hi * (?p - real ?l)"
    unfolding upsampled_def Let_def using w by (intro add_mono mult_right_mono; simp)+
  then show ?thesis by (simp add: algebra_simps)
qed

lemma resample_range:
  assumes "resample inp f t = Inr ys" and "\<forall>x\<in>set inp. lo \<le> x \<and> x \<le> hi"
  shows "\<forall>y\<in>set ys. lo \<le> y \<and> y \<le> hi"
proof (cases "f = t \<or> inp = []")
  case True
  then show ?thesis using assms by (auto simp: resample_def split: if_splits)
next
  case False
  let ?ratio = "f / t"
  have pos: "0 < f" "0 < t" using assms(1) False by (auto simp: resample_def split: if_splits)
  have ys: "ys = map (if ?ratio > 1 then downsampled inp ?ratio else upsampled inp ?ratio)
      [0..<nat (max 1 (math_round (real (length inp) / ?ratio)))]"
  proof -
    have "\<not> (f \<le> 0 \<or> t \<le> 0)" "f \<noteq> t" "inp \<noteq> []" using pos False by simp_all
    then show ?thesis using assms(1) unfolding resample_def Let_def by (simp only: if_False sum.inject)
  qed
  have inside: "real i * ?ratio < real (length inp)" if "i < nat (max 1 (math_round (real (length inp) / ?ratio)))" for i
    using position_inside [OF that] pos False by simp
  show ?thesis
  proof
    fix y
    assume "y \<in> set ys"
    then obtain i where i: "i < nat (max 1 (math_round (real (length inp) / ?ratio)))"
        "y = (if ?ratio > 1 then downsampled inp ?ratio else upsampled inp ?ratio) i" unfolding ys by auto
    show "lo \<le> y \<and> y \<le> hi"
      using i(2) downsampled_range [OF _ inside [OF i(1)] assms(2)] upsampled_range [OF _ inside [OF i(1)] assms(2)] pos
      by (cases "?ratio > 1") simp_all
  qed
qed

end
