(* ===== verification/VoiceSession.thy ===== *)
theory VoiceSession
  imports RealtimeVoice Playback UtteranceLifecycle LatencyLedger AudioPcm
begin

text \<open>
  \<open>apps/web/lib/voice-session.ts\<close>, the utterances: from an authorization of the server through cached or
  model audio, the deadlines, the end of playback and lost connections to one outcome that is
  reported. The audio graph is the model of the scheduler, the connection that of \<open>RealtimeVoice\<close>. A
  handler reads its clocks once. Objects that the code compares by identity are numbered: connections
  by \<open>vs_conn\<close>, utterances by \<open>vs_serial\<close>. \<open>vs_accepted\<close> records the utterances that were begun. Devices,
  transcripts and the requests to the server are not part of this model; an outcome counts as reported
  when it is queued.
\<close>

section \<open>State\<close>

datatype voice_status = IDLE | CONNECTING | LISTENING | SPEAKING | VOICE_FAILED

record cached_audio =
  ca_head :: string
  ca_rate :: real
  ca_tailFrom :: "nat option"
  ca_totalBytes :: "nat option"

record speech_authorization =
  sa_request :: authorization
  sa_audio :: "cached_audio option"

record moment =
  mo_perf :: real
  mo_wall :: real
  mo_audio :: real
  mo_running :: bool
  mo_latency :: real

record tail_stream =
  tl_from :: nat
  tl_rate :: real
  tl_total :: "nat option"
  tl_carry :: "8 word option"
  tl_received :: nat

datatype voice_error =
    BriefCutOff | AudioCutOff | BriefDidNotPlay | ReplyLost | BriefReconnecting | StalledReconnecting | Lost string

datatype voice_diagnostic = SpeechFailed string "string option" | SpeechCutOff string "string option" | ProviderReconnect voice_error

record voice_session =
  vs_voice :: "voice option"
  vs_conn :: nat
  vs_playback :: "playback option"
  vs_status :: voice_status
  vs_stopping :: bool
  vs_replacing :: bool
  vs_reconnectTimer :: "real option"
  vs_goAwayTimer :: "(real \<times> real) option"
  vs_reconnectAttempts :: nat
  vs_muted :: bool
  vs_pendingSpeech :: "speech_authorization option"
  vs_utterance :: "lifecycle option"
  vs_serial :: nat
  vs_finished :: "string list"
  vs_watchdog :: "(nat \<times> real \<times> string) option"
  vs_speechWaitStartedAt :: real
  vs_emptyTurnAtMs :: "real option"
  vs_pendingFailure :: "string option"
  vs_tail :: "tail_stream option"
  vs_outcomes :: "utterance_report list"
  vs_readyGeneration :: nat
  vs_diagnosticLog :: "voice_diagnostic list"
  vs_errors :: "voice_error list"
  vs_ledger :: voice_ledger
  vs_accepted :: "string list"

definition new_session_voice :: voice_session where
  "new_session_voice = \<lparr>vs_voice = None, vs_conn = 0, vs_playback = None, vs_status = IDLE, vs_stopping = False,
     vs_replacing = False, vs_reconnectTimer = None, vs_goAwayTimer = None, vs_reconnectAttempts = 0, vs_muted = False,
     vs_pendingSpeech = None, vs_utterance = None, vs_serial = 0, vs_finished = [], vs_watchdog = None,
     vs_speechWaitStartedAt = 0, vs_emptyTurnAtMs = None, vs_pendingFailure = None, vs_tail = None, vs_outcomes = [],
     vs_readyGeneration = 0, vs_diagnosticLog = [], vs_errors = [], vs_ledger = new_voice_ledger None, vs_accepted = []\<rparr>"

definition noFirstAudioMs :: real where "noFirstAudioMs = 15000"
definition emptyTurnGraceMs :: real where "emptyTurnGraceMs = 3000"
definition midStreamStallMs :: real where "midStreamStallMs = 5000"
definition drainSlackMs :: real where "drainSlackMs = 3000"
definition providerUnavailableMs :: real where "providerUnavailableMs = 20000"

text \<open>The scheduler as the session makes it: the default leads, over a sink with a gain.\<close>

definition WEB_SINK :: playback_options where
  "WEB_SINK = \<lparr>po_sampleRate = LIVE_OUTPUT_SAMPLE_RATE, po_leadSeconds = 6 / 100, po_runningLeadSeconds = 3 / 100,
     po_hasGain = True\<rparr>"

section \<open>Small parts\<close>

definition setStatus :: "voice_status \<Rightarrow> voice_session \<Rightarrow> voice_session" where
  "setStatus s vs = vs\<lparr>vs_status := s\<rparr>"

definition tell_error :: "voice_error \<Rightarrow> voice_session \<Rightarrow> voice_session" where
  "tell_error e vs = vs\<lparr>vs_errors := vs_errors vs @ [e]\<rparr>"

definition diagnose :: "voice_diagnostic \<Rightarrow> voice_session \<Rightarrow> voice_session" where
  "diagnose d vs = vs\<lparr>vs_diagnosticLog := (let ds = vs_diagnosticLog vs @ [d] in drop (length ds - 50) ds)\<rparr>"

definition on_ledger :: "(voice_ledger \<Rightarrow> voice_ledger) \<Rightarrow> voice_session \<Rightarrow> voice_session" where
  "on_ledger f vs = vs\<lparr>vs_ledger := f (vs_ledger vs)\<rparr>"

definition is_playing :: "voice_session \<Rightarrow> bool" where
  "is_playing vs = (case vs_playback vs of None \<Rightarrow> False | Some p \<Rightarrow> isPlaying p)"

definition unplayed :: "moment \<Rightarrow> voice_session \<Rightarrow> real" where
  "unplayed m vs = (case vs_playback vs of None \<Rightarrow> 0 | Some p \<Rightarrow> queuedSeconds (mo_audio m) p)"

definition stop_audio :: "voice_session \<Rightarrow> voice_session" where
  "stop_audio vs = vs\<lparr>vs_playback := map_option (stop_playback WEB_SINK) (vs_playback vs)\<rparr>"

text \<open>A call of the connection; the only callback it can make at once is the end of a held interruption.\<close>

definition on_voice :: "(voice \<Rightarrow> voice) \<Rightarrow> voice_session \<Rightarrow> voice_session" where
  "on_voice f vs =
     (case vs_voice vs of
        None \<Rightarrow> vs
      | Some v \<Rightarrow>
          (let v1 = f v;
               vs1 = vs\<lparr>vs_voice := Some v1\<rparr>
           in if Called (Provisional False) \<in> set (drop (length (rv_trace v)) (rv_trace v1))
              then vs1\<lparr>vs_playback := map_option (restore_gain WEB_SINK) (vs_playback vs1)\<rparr> else vs1))"

definition postVoiceReady :: "voice_session \<Rightarrow> voice_session" where
  "postVoiceReady vs = vs\<lparr>vs_readyGeneration := vs_readyGeneration vs + 1\<rparr>"

definition firstSampleWallTime :: "moment \<Rightarrow> real \<Rightarrow> real" where
  "firstSampleWallTime m startAt = mo_wall m + (startAt - mo_audio m + mo_latency m) * 1000"

section \<open>Deadlines and the end of an utterance\<close>

definition deadline :: "moment \<Rightarrow> lifecycle \<Rightarrow> voice_session \<Rightarrow> (real \<times> string) option" where
  "deadline m u vs =
     (if \<not> hasAudio u
      then if ul_source u \<noteq> MODEL then None
           else (case vs_emptyTurnAtMs vs of
                   Some t \<Rightarrow> Some (t + emptyTurnGraceMs - mo_perf m, ''EMPTY_RESPONSE'')
                 | None \<Rightarrow>
                     if ul_current u = AUTHORIZED
                     then Some (vs_speechWaitStartedAt vs + providerUnavailableMs - mo_perf m, ''PROVIDER_UNAVAILABLE'')
                     else Some (vs_speechWaitStartedAt vs + noFirstAudioMs - mo_perf m, ''NO_FIRST_AUDIO''))
      else if \<not> ul_sourceComplete u
      then if is_playing vs then None
           else Some (midStreamStallMs, if ul_source u = MODEL then ''MID_STREAM_STALL'' else ''CACHED_TAIL_STALL'')
      else if \<not> is_playing vs then None
      else Some (unplayed m vs * 1000 + drainSlackMs, ''PLAYBACK_STALLED''))"

definition armWatchdog :: "moment \<Rightarrow> voice_session \<Rightarrow> voice_session" where
  "armWatchdog m vs = vs\<lparr>vs_watchdog :=
     (case vs_utterance vs of
        None \<Rightarrow> None
      | Some u \<Rightarrow>
          if is_terminal (ul_current u) \<or> vs_stopping vs then None
          else map_option (\<lambda>(d, why). (vs_serial vs, max 0 d, why)) (deadline m u vs))\<rparr>"

text \<open>The second half of \<open>scheduleReconnect\<close>, after an utterance of the model was given up.\<close>

definition reconnect_later :: "voice_error \<Rightarrow> voice_session \<Rightarrow> voice_session" where
  "reconnect_later e vs =
     (let vs1 = vs\<lparr>vs_pendingSpeech := None\<rparr>;
          cached = (case vs_utterance vs1 of None \<Rightarrow> False | Some u \<Rightarrow> ul_source u = CACHED);
          vs2 = (if cached then vs1 else setStatus CONNECTING vs1);
          vs3 = tell_error e (diagnose (ProviderReconnect e) vs2)
      in vs3\<lparr>vs_reconnectTimer := Some (min 30000 (1000 * 2 ^ min (vs_reconnectAttempts vs3) 5)),
              vs_reconnectAttempts := vs_reconnectAttempts vs3 + 1\<rparr>)"

definition terminal_of :: "utterance_report \<Rightarrow> terminal_report" where
  "terminal_of r = \<lparr>tr_outcome = (case ur_outcome r of COMPLETED \<Rightarrow> ''COMPLETED'' | INTERRUPTED \<Rightarrow> ''INTERRUPTED''
       | FAILED \<Rightarrow> ''FAILED'' | CANCELLED \<Rightarrow> ''CANCELLED''),
     tr_reason = ur_reason r, tr_underruns = ur_underruns r, tr_receivedAudioMs = ur_receivedAudioMs r,
     tr_playedAudioMs = ur_playedAudioMs r\<rparr>"

definition voice_ready :: "voice_session \<Rightarrow> bool" where
  "voice_ready vs = (case vs_voice vs of None \<Rightarrow> False | Some v \<Rightarrow> rv_ready v)"

text \<open>The candidate is told of a failure; a broken provider is connected anew.\<close>

definition after_failure :: "lifecycle \<Rightarrow> utterance_report \<Rightarrow> voice_session \<Rightarrow> voice_session" where
  "after_failure u r vs =
     (let brief = ul_action u = ''DELIVER_BRIEF'';
          broken = ul_source u = MODEL \<and> ur_reason r \<in> {Some ''NO_FIRST_AUDIO'', Some ''MID_STREAM_STALL''};
          vs1 = (if ur_firstAudio r
                 then tell_error (if brief then BriefCutOff else AudioCutOff) (diagnose (SpeechCutOff (ul_id u) (ur_reason r)) vs)
                 else (let d = diagnose (SpeechFailed (ul_id u) (ur_reason r)) vs
                       in if broken then d
                          else (let t = tell_error (if brief then BriefDidNotPlay else ReplyLost) d
                                in if brief \<and> voice_ready t then postVoiceReady t else t)))
      in if broken \<and> \<not> vs_stopping vs1 \<and> vs_reconnectTimer vs1 = None
         then reconnect_later (if brief \<and> \<not> ur_firstAudio r then BriefReconnecting else StalledReconnecting)
                (vs1\<lparr>vs_goAwayTimer := None\<rparr>)
         else vs1)"

text \<open>\<open>finishUtterance\<close>: the resources are released, the outcome is recorded and reported.\<close>

definition release_utterance :: "lifecycle \<Rightarrow> utterance_report \<Rightarrow> voice_session \<Rightarrow> voice_session" where
  "release_utterance u r vs =
     (let vs1 = vs\<lparr>vs_utterance := None, vs_watchdog := None, vs_emptyTurnAtMs := None, vs_pendingFailure := None,
            vs_tail := None,
            vs_pendingSpeech := (case vs_pendingSpeech vs of
               None \<Rightarrow> None
             | Some a \<Rightarrow> if au_utteranceId (sa_request a) = ul_id u then None else Some a)\<rparr>;
          vs2 = (if ur_outcome r \<noteq> COMPLETED then stop_audio vs1 else vs1)
      in on_voice (noteModelPlayback False) (on_voice (noteLocalPlayback False) (on_voice cancelSpeech vs2)))"

definition record_outcome :: "moment \<Rightarrow> lifecycle \<Rightarrow> utterance_report \<Rightarrow> voice_session \<Rightarrow> voice_session" where
  "record_outcome m u r vs =
     (let vs1 = vs\<lparr>vs_finished := (let xs = vs_finished vs @ [ul_id u] in if length xs > 32 then tl xs else xs)\<rparr>;
          vs2 = (if vs_status vs1 = SPEAKING then setStatus LISTENING vs1 else vs1);
          vs3 = on_ledger (terminal (terminal_of r) (mo_wall m)) vs2
      in vs3\<lparr>vs_outcomes := vs_outcomes vs3 @ [r]\<rparr>)"

definition finishUtterance :: "moment \<Rightarrow> lifecycle \<Rightarrow> utterance_report \<Rightarrow> voice_session \<Rightarrow> voice_session" where
  "finishUtterance m u r vs =
     (let vs1 = record_outcome m u r (release_utterance u r vs)
      in if ur_outcome r \<noteq> FAILED then vs1 else after_failure u r vs1)"

definition signal :: "moment \<Rightarrow> utterance_signal \<Rightarrow> voice_session \<Rightarrow> voice_session" where
  "signal m s vs =
     (case vs_utterance vs of
        None \<Rightarrow> vs
      | Some u \<Rightarrow>
          (case apply_signal s (mo_perf m) u of
             (u1, Some r) \<Rightarrow> finishUtterance m u1 r (vs\<lparr>vs_utterance := Some u1\<rparr>)
           | (u1, None) \<Rightarrow> armWatchdog m (vs\<lparr>vs_utterance := Some u1\<rparr>)))"

definition utterance_source :: "voice_session \<Rightarrow> utterance_source option" where
  "utterance_source vs = map_option ul_source (vs_utterance vs)"

text \<open>Audio is cut and the utterance ends as a failure.\<close>

definition fail_now :: "moment \<Rightarrow> string \<Rightarrow> voice_session \<Rightarrow> voice_session" where
  "fail_now m why vs = (let left = unplayed m vs in signal m (Fail why (Some left)) (stop_audio vs))"

definition scheduleReconnect :: "moment \<Rightarrow> voice_error \<Rightarrow> voice_session \<Rightarrow> voice_session" where
  "scheduleReconnect m e vs =
     (if vs_stopping vs \<or> vs_reconnectTimer vs \<noteq> None then vs
      else (let vs1 = vs\<lparr>vs_goAwayTimer := None\<rparr>
            in reconnect_later e (if utterance_source vs1 = Some MODEL then fail_now m ''PROVIDER_DISCONNECTED'' vs1 else vs1)))"

definition onPlaybackProgress :: "moment \<Rightarrow> voice_session \<Rightarrow> voice_session" where
  "onPlaybackProgress m vs =
     (let playing = is_playing vs;
          vs1 = on_voice (noteModelPlayback (utterance_source vs = Some MODEL \<and> playing)) vs
      in if playing \<or> vs_utterance vs1 = None then vs1
         else (case vs_pendingFailure vs1 of
                 Some why \<Rightarrow> signal m (Fail why None) vs1
               | None \<Rightarrow> signal m PlaybackDrained vs1))"

text \<open>The sink reports the end of a source, also of one that was stopped.\<close>

definition source_ended :: "moment \<Rightarrow> nat \<Rightarrow> voice_session \<Rightarrow> voice_session" where
  "source_ended m i vs = onPlaybackProgress m (vs\<lparr>vs_playback := map_option (release_source i) (vs_playback vs)\<rparr>)"

definition watchdog_fires :: "moment \<Rightarrow> voice_session \<Rightarrow> voice_session" where
  "watchdog_fires m vs =
     (case vs_watchdog vs of
        None \<Rightarrow> vs
      | Some (serial, d, why) \<Rightarrow>
          (let vs1 = vs\<lparr>vs_watchdog := None\<rparr>
           in if vs_utterance vs1 = None \<or> serial \<noteq> vs_serial vs1 then vs1
              else if why \<in> {''MID_STREAM_STALL'', ''CACHED_TAIL_STALL''} \<and> is_playing vs1 then armWatchdog m vs1
              else fail_now m why vs1))"

section \<open>Speaking\<close>

definition requestModelSpeech :: "moment \<Rightarrow> speech_authorization \<Rightarrow> voice_session \<Rightarrow> voice_session" where
  "requestModelSpeech m a vs =
     (let asked = (case vs_voice vs of None \<Rightarrow> False | Some v \<Rightarrow> snd (requestSpeech (sa_request a) v));
          vs1 = on_voice (\<lambda>v. fst (requestSpeech (sa_request a) v)) vs
      in if \<not> asked then armWatchdog m (vs1\<lparr>vs_pendingSpeech := Some a\<rparr>)
         else signal m Requested (on_ledger (mark SpeechRequested (mo_wall m)) (vs1\<lparr>vs_speechWaitStartedAt := mo_perf m\<rparr>)))"

definition failAfterDrain :: "moment \<Rightarrow> string \<Rightarrow> voice_session \<Rightarrow> voice_session" where
  "failAfterDrain m why vs =
     (if vs_utterance vs = None then vs
      else if is_playing vs then vs\<lparr>vs_pendingFailure := Some why\<rparr>
      else signal m (Fail why None) vs)"

text \<open>The head of cached audio, if it is whole samples at a rate.\<close>

definition valid_head :: "cached_audio \<Rightarrow> 8 word list option" where
  "valid_head a =
     (case base64ToBytes (ca_head a) of
        None \<Rightarrow> None
      | Some bs \<Rightarrow> if bs = [] \<or> odd (length bs) \<or> \<not> ca_rate a > 0 then None else Some bs)"

definition schedule_audio :: "moment \<Rightarrow> nat \<Rightarrow> real \<Rightarrow> voice_session \<Rightarrow> voice_session \<times> real option" where
  "schedule_audio m n rate vs =
     (case vs_playback vs of
        None \<Rightarrow> (vs, None)
      | Some p \<Rightarrow> (case enqueueAt WEB_SINK n rate (mo_audio m) (mo_running m) p of
                    (p1, t) \<Rightarrow> (vs\<lparr>vs_playback := Some p1\<rparr>, t)))"

definition play_head :: "moment \<Rightarrow> cached_audio \<Rightarrow> 8 word list \<Rightarrow> voice_session \<Rightarrow> voice_session" where
  "play_head m a bs vs =
     (let n = length (fst (toPcm16 bs None));
          (vs1, startAt) = schedule_audio m n (ca_rate a) vs;
          vs2 = signal m PlaybackStarted (signal m (AudioReceived (real n / ca_rate a)) vs1);
          vs3 = on_voice (noteLocalPlayback True) vs2;
          vs4 = on_ledger (firstSamplePlayed (firstSampleWallTime m (the startAt))) (on_ledger (mark FirstAudioByte (mo_wall m)) vs3);
          vs5 = setStatus SPEAKING vs4
      in case ca_tailFrom a of
           Some k \<Rightarrow> on_ledger (mark AudioFetchStarted (mo_wall m))
                       (vs5\<lparr>vs_tail := Some \<lparr>tl_from = k, tl_rate = ca_rate a, tl_total = ca_totalBytes a, tl_carry = None, tl_received = 0\<rparr>\<rparr>)
         | None \<Rightarrow>
             if ca_totalBytes a \<noteq> None \<and> ca_totalBytes a \<noteq> Some (length bs)
             then failAfterDrain m ''CACHED_HEAD_TRUNCATED'' vs5
             else signal m SourceComplete vs5)"

definition speak_model :: "moment \<Rightarrow> speech_authorization \<Rightarrow> voice_session \<Rightarrow> voice_session" where
  "speak_model m a vs =
     (if voice_ready vs then requestModelSpeech m a vs
      else armWatchdog m (vs\<lparr>vs_pendingSpeech := Some a\<rparr>))"

definition to_model :: "voice_session \<Rightarrow> voice_session" where
  "to_model vs = on_ledger (setSource REALTIME_MODEL)
     (vs\<lparr>vs_utterance := map_option (\<lambda>u. fst (switchSource MODEL u)) (vs_utterance vs)\<rparr>)"

definition begin_utterance ::
  "moment \<Rightarrow> speech_authorization \<Rightarrow> (real option \<times> real option \<times> string option) option \<Rightarrow> voice_session \<Rightarrow> voice_session" where
  "begin_utterance m a timing vs =
     (let uid = au_utteranceId (sa_request a);
          act = au_action (sa_request a);
          src = (if sa_audio a \<noteq> None then CACHED else MODEL);
          vs1 = vs\<lparr>vs_utterance := Some (new_lifecycle uid act src (mo_perf m)), vs_serial := vs_serial vs + 1,
                    vs_speechWaitStartedAt := mo_perf m, vs_emptyTurnAtMs := None, vs_pendingFailure := None,
                    vs_accepted := vs_accepted vs @ [uid]\<rparr>;
          vs2 = on_ledger (authorized_utterance uid act (if src = CACHED then CACHED_AUDIO else REALTIME_MODEL) (mo_wall m)) vs1
      in case timing of None \<Rightarrow> vs2 | Some (d, c, s) \<Rightarrow> on_ledger (setServerTiming d c s) vs2)"

definition speak ::
  "moment \<Rightarrow> speech_authorization \<Rightarrow> (real option \<times> real option \<times> string option) option \<Rightarrow> voice_session \<Rightarrow> voice_session" where
  "speak m a timing vs =
     (let uid = au_utteranceId (sa_request a)
      in if map_option ul_id (vs_utterance vs) = Some uid \<or> uid \<in> set (vs_finished vs) then vs
         else (let vs1 = (if vs_utterance vs = None then vs else fail_now m ''SUPERSEDED'' vs);
                   vs2 = begin_utterance m a timing vs1
               in case sa_audio a of
                    None \<Rightarrow> speak_model m a vs2
                  | Some audio \<Rightarrow>
                      if vs_playback vs2 = None then speak_model m a (to_model vs2)
                      else (case valid_head audio of
                              None \<Rightarrow> speak_model m a (to_model vs2)
                            | Some bs \<Rightarrow> play_head m audio bs vs2)))"

section \<open>The tail of cached audio\<close>

text \<open>A tail whose controller was aborted is \<open>None\<close>, so that what still arrives for it is dropped.\<close>

definition tail_headers :: "nat option \<Rightarrow> voice_session \<Rightarrow> voice_session" where
  "tail_headers whole vs = vs\<lparr>vs_tail := map_option (\<lambda>t. t\<lparr>tl_total := (case tl_total t of
     Some n \<Rightarrow> Some n | None \<Rightarrow> (case whole of Some n \<Rightarrow> if n > 0 then Some n else None | None \<Rightarrow> None))\<rparr>) (vs_tail vs)\<rparr>"

definition tail_failed :: "moment \<Rightarrow> string \<Rightarrow> voice_session \<Rightarrow> voice_session" where
  "tail_failed m why vs = (if vs_tail vs = None then vs else (failAfterDrain m why vs)\<lparr>vs_tail := None\<rparr>)"

definition tail_chunk :: "moment \<Rightarrow> 8 word list \<Rightarrow> voice_session \<Rightarrow> voice_session" where
  "tail_chunk m bs vs =
     (case vs_tail vs of
        None \<Rightarrow> vs
      | Some t \<Rightarrow>
          (let (pcm, carry) = toPcm16 bs (tl_carry t);
               vs1 = vs\<lparr>vs_tail := Some (t\<lparr>tl_received := tl_received t + length bs, tl_carry := carry\<rparr>)\<rparr>
           in if pcm = [] then vs1
              else (let vs2 = signal m (AudioReceived (real (length pcm) / tl_rate t)) vs1
                    in on_voice (noteLocalPlayback True) (signal m PlaybackStarted (fst (schedule_audio m (length pcm) (tl_rate t) vs2))))))"

definition tail_done :: "moment \<Rightarrow> voice_session \<Rightarrow> voice_session" where
  "tail_done m vs =
     (case vs_tail vs of
        None \<Rightarrow> vs
      | Some t \<Rightarrow>
          if tl_carry t \<noteq> None \<or> (tl_total t \<noteq> None \<and> tl_total t \<noteq> Some (tl_from t + tl_received t))
          then tail_failed m ''CACHED_TAIL_TRUNCATED'' vs
          else (signal m SourceComplete vs)\<lparr>vs_tail := None\<rparr>)"

section \<open>Callbacks of the connection\<close>

definition current_model :: "nat \<Rightarrow> string option \<Rightarrow> voice_session \<Rightarrow> bool" where
  "current_model c uid vs \<longleftrightarrow> c = vs_conn vs \<and>
     (case vs_utterance vs of None \<Rightarrow> False | Some u \<Rightarrow> ul_source u = MODEL \<and> uid = Some (ul_id u))"

definition onModelAudio :: "moment \<Rightarrow> nat \<Rightarrow> nat \<Rightarrow> string option \<Rightarrow> voice_session \<Rightarrow> voice_session" where
  "onModelAudio m c n uid vs =
     (if \<not> current_model c uid vs \<or> n = 0 then vs
      else (let first = (case vs_utterance vs of None \<Rightarrow> False | Some u \<Rightarrow> \<not> hasAudio u);
                vs1 = signal m (AudioReceived (real n / LIVE_OUTPUT_SAMPLE_RATE)) vs;
                (vs2, startAt) = schedule_audio m n LIVE_OUTPUT_SAMPLE_RATE vs1
            in case startAt of
                 None \<Rightarrow> vs2
               | Some t \<Rightarrow>
                   (let vs3 = setStatus SPEAKING (on_voice (noteModelPlayback True) (signal m PlaybackStarted vs2))
                    in if first then on_ledger (firstSamplePlayed (firstSampleWallTime m t)) (on_ledger (mark FirstAudioByte (mo_wall m)) vs3)
                       else vs3)))"

definition onSpeechComplete :: "moment \<Rightarrow> nat \<Rightarrow> string option \<Rightarrow> bool \<Rightarrow> voice_session \<Rightarrow> voice_session" where
  "onSpeechComplete m c uid had vs =
     (if \<not> current_model c uid vs then vs
      else if had then signal m SourceComplete vs
      else armWatchdog m (vs\<lparr>vs_emptyTurnAtMs := Some (mo_perf m)\<rparr>))"

definition onBargeIn :: "moment \<Rightarrow> nat \<Rightarrow> voice_session \<Rightarrow> voice_session" where
  "onBargeIn m c vs =
     (if c \<noteq> vs_conn vs then vs
      else (let left = unplayed m vs
            in setStatus LISTENING (signal m (Interrupt (Some left)) (stop_audio vs))))"

definition onBargeInProvisional :: "bool \<Rightarrow> voice_session \<Rightarrow> voice_session" where
  "onBargeInProvisional ducked vs =
     vs\<lparr>vs_playback := map_option (if ducked then duck WEB_SINK else restore_gain WEB_SINK) (vs_playback vs)\<rparr>"

definition resume_pending :: "moment \<Rightarrow> voice_session \<Rightarrow> voice_session" where
  "resume_pending m vs =
     (let vs1 = vs\<lparr>vs_pendingSpeech := None\<rparr>
      in case vs_pendingSpeech vs of
           None \<Rightarrow> vs1
         | Some a \<Rightarrow> if map_option ul_id (vs_utterance vs1) = Some (au_utteranceId (sa_request a))
                     then requestModelSpeech m a vs1 else vs1)"

definition onReady :: "moment \<Rightarrow> nat \<Rightarrow> voice_session \<Rightarrow> voice_session" where
  "onReady m c vs =
     (if c \<noteq> vs_conn vs then vs
      else (let vs1 = vs\<lparr>vs_reconnectAttempts := 0\<rparr>;
                vs2 = (if utterance_source vs1 \<noteq> Some CACHED then setStatus LISTENING vs1 else vs1)
            in postVoiceReady (resume_pending m vs2)))"

definition onDisconnected :: "moment \<Rightarrow> voice_session \<Rightarrow> voice_session" where
  "onDisconnected m vs =
     (if vs_stopping vs \<or> vs_replacing vs then vs else scheduleReconnect m (Lost ''Voice connection ended'') vs)"

text \<open>The rotation ahead of a close that the provider announced; the second number is its deadline.\<close>

definition scheduleGoAwayRotation :: "moment \<Rightarrow> real \<Rightarrow> voice_session \<Rightarrow> voice_session" where
  "scheduleGoAwayRotation m left vs =
     (if vs_stopping vs then vs
      else vs\<lparr>vs_goAwayTimer := Some (max 0 (left - 5000), mo_wall m + max 0 left)\<rparr>)"

definition goAway_fires :: "moment \<Rightarrow> voice_session \<Rightarrow> voice_session" where
  "goAway_fires m vs =
     (case vs_goAwayTimer vs of
        None \<Rightarrow> vs
      | Some (d, until) \<Rightarrow>
          (let remaining = until - mo_wall m
           in if utterance_source vs = Some MODEL \<and> remaining > 3000
              then vs\<lparr>vs_goAwayTimer := Some (min 250 (remaining - 3000), until)\<rparr>
              else (let vs1 = vs\<lparr>vs_goAwayTimer := None\<rparr>;
                        vs2 = (if utterance_source vs1 = Some MODEL then fail_now m ''PROVIDER_GOAWAY'' vs1 else vs1)
                    in if utterance_source vs2 \<noteq> Some CACHED then setStatus CONNECTING vs2 else vs2)))"

definition reconnect_fires :: "voice_session \<Rightarrow> voice_session" where
  "reconnect_fires vs = vs\<lparr>vs_reconnectTimer := None\<rparr>"

text \<open>\<open>connectProvider\<close> once the credential is there; an unconstrained credential fails the connection.\<close>

definition connectProvider :: "moment \<Rightarrow> bool \<Rightarrow> voice_options \<Rightarrow> voice_session \<Rightarrow> voice_session" where
  "connectProvider m constrained vo vs =
     (if vs_stopping vs then vs
      else (let vs1 = on_voice (voice_disconnect vo (mo_perf m)) (vs\<lparr>vs_replacing := True\<rparr>);
                v = voice_setMuted vo (mo_perf m) (vs_muted vs1) (new_voice vo);
                w = (if utterance_source vs1 = Some CACHED then noteLocalPlayback True v else v);
                vs2 = vs1\<lparr>vs_replacing := False, vs_voice := Some w, vs_conn := vs_conn vs1 + 1\<rparr>
            in if constrained then vs2 else scheduleReconnect m (Lost ''refusing to connect'') vs2))"

section \<open>Start, mute and stop\<close>

definition start_session :: "voice_session \<Rightarrow> voice_session" where
  "start_session vs = vs\<lparr>vs_stopping := False, vs_status := CONNECTING, vs_playback := Some new_playback\<rparr>"

definition session_setMuted :: "voice_options \<Rightarrow> moment \<Rightarrow> bool \<Rightarrow> voice_session \<Rightarrow> voice_session" where
  "session_setMuted vo m b vs = on_voice (voice_setMuted vo (mo_perf m) b) (vs\<lparr>vs_muted := b\<rparr>)"

definition stop_session :: "voice_options \<Rightarrow> moment \<Rightarrow> voice_session \<Rightarrow> voice_session" where
  "stop_session vo m vs =
     (let vs1 = vs\<lparr>vs_stopping := True, vs_readyGeneration := vs_readyGeneration vs + 1, vs_watchdog := None,
                    vs_reconnectTimer := None, vs_goAwayTimer := None\<rparr>;
          vs2 = on_voice (voice_disconnect vo (mo_perf m)) (signal m (Cancel ''SESSION_STOPPED'') (stop_audio vs1))
      in vs2\<lparr>vs_voice := None, vs_pendingSpeech := None, vs_playback := None, vs_status := IDLE\<rparr>)"

end
