(* ===== verification/VoiceOutcomes.thy ===== *)
theory VoiceOutcomes
  imports VoiceSession
begin

text \<open>
  The laws of the utterances in the browser: each one that was begun ends in one outcome, in order;
  nothing plays without an utterance; and an utterance in flight either plays or has a deadline that
  ends it. The connection may change in any way between the steps.
\<close>

section \<open>Frames\<close>

lemma playing_maps [simp]:
  "isPlaying (restore_gain o1 p) = isPlaying p" "\<not> isPlaying (stop_playback o1 p)" "isPlaying (duck WEB_SINK p) = isPlaying p"
  by (simp_all add: restore_gain_def isPlaying_def stop_playback_def duck_def WEB_SINK_def Let_def)

lemma on_voice_sel [simp]:
  "vs_utterance (on_voice f vs) = vs_utterance vs" "vs_watchdog (on_voice f vs) = vs_watchdog vs"
  "vs_tail (on_voice f vs) = vs_tail vs" "vs_pendingFailure (on_voice f vs) = vs_pendingFailure vs"
  "vs_pendingSpeech (on_voice f vs) = vs_pendingSpeech vs" "vs_outcomes (on_voice f vs) = vs_outcomes vs"
  "vs_accepted (on_voice f vs) = vs_accepted vs" "vs_stopping (on_voice f vs) = vs_stopping vs"
  "vs_serial (on_voice f vs) = vs_serial vs" "vs_status (on_voice f vs) = vs_status vs"
  "vs_reconnectTimer (on_voice f vs) = vs_reconnectTimer vs" "vs_emptyTurnAtMs (on_voice f vs) = vs_emptyTurnAtMs vs"
  "vs_finished (on_voice f vs) = vs_finished vs" "vs_replacing (on_voice f vs) = vs_replacing vs" "vs_conn (on_voice f vs) = vs_conn vs"
  by (simp_all add: on_voice_def Let_def split: option.split)

definition has_output :: "voice_session \<Rightarrow> bool" where
  "has_output vs \<longleftrightarrow> vs_playback vs \<noteq> None"

lemma playing_output: "is_playing vs \<Longrightarrow> has_output vs"
  by (auto simp: is_playing_def has_output_def split: option.splits)

lemma on_voice_playing [simp]: "is_playing (on_voice f vs) = is_playing vs" "has_output (on_voice f vs) = has_output vs"
  by (auto simp: on_voice_def is_playing_def has_output_def Let_def split: option.split)

text \<open>What the laws speak of.\<close>

record outlook =
  ol_utterance :: "lifecycle option"
  ol_watchdog :: "(nat \<times> real \<times> string) option"
  ol_tail :: "tail_stream option"
  ol_pendingFailure :: "string option"
  ol_pendingSpeech :: "speech_authorization option"
  ol_outcomes :: "utterance_report list"
  ol_accepted :: "string list"
  ol_stopping :: bool
  ol_playing :: bool
  ol_serial :: nat
  ol_output :: bool

definition outlook_of :: "voice_session \<Rightarrow> outlook" where
  "outlook_of vs = \<lparr>ol_utterance = vs_utterance vs, ol_watchdog = vs_watchdog vs, ol_tail = vs_tail vs,
     ol_pendingFailure = vs_pendingFailure vs, ol_pendingSpeech = vs_pendingSpeech vs, ol_outcomes = vs_outcomes vs,
     ol_accepted = vs_accepted vs, ol_stopping = vs_stopping vs, ol_playing = is_playing vs, ol_serial = vs_serial vs,
     ol_output = has_output vs\<rparr>"

lemma outlook_on_voice [simp]: "outlook_of (on_voice f vs) = outlook_of vs"
  by (simp add: outlook_of_def)

lemma same_outlook [simp]:
  "outlook_of (setStatus s vs) = outlook_of vs"
  "outlook_of (tell_error e vs) = outlook_of vs" "outlook_of (diagnose d vs) = outlook_of vs"
  "outlook_of (on_ledger g vs) = outlook_of vs" "outlook_of (postVoiceReady vs) = outlook_of vs"
  "outlook_of (vs\<lparr>vs_voice := x1\<rparr>) = outlook_of vs" "outlook_of (vs\<lparr>vs_conn := x2\<rparr>) = outlook_of vs"
  "outlook_of (vs\<lparr>vs_replacing := x3\<rparr>) = outlook_of vs" "outlook_of (vs\<lparr>vs_reconnectTimer := x4\<rparr>) = outlook_of vs"
  "outlook_of (vs\<lparr>vs_goAwayTimer := x5\<rparr>) = outlook_of vs" "outlook_of (vs\<lparr>vs_reconnectAttempts := x6\<rparr>) = outlook_of vs"
  "outlook_of (vs\<lparr>vs_muted := x7\<rparr>) = outlook_of vs" "outlook_of (vs\<lparr>vs_finished := x8\<rparr>) = outlook_of vs"
  "outlook_of (vs\<lparr>vs_speechWaitStartedAt := x9\<rparr>) = outlook_of vs" "outlook_of (vs\<lparr>vs_emptyTurnAtMs := x10\<rparr>) = outlook_of vs"
  "outlook_of (vs\<lparr>vs_readyGeneration := x11\<rparr>) = outlook_of vs"
  "outlook_of (vs\<lparr>vs_status := x13\<rparr>) = outlook_of vs" "outlook_of (vs\<lparr>vs_ledger := x14\<rparr>) = outlook_of vs"
  by (simp_all add: outlook_of_def setStatus_def tell_error_def diagnose_def on_ledger_def postVoiceReady_def is_playing_def has_output_def)

lemma playing_updates [simp]:
  "is_playing (vs\<lparr>vs_utterance := x1\<rparr>) = is_playing vs" "is_playing (vs\<lparr>vs_watchdog := x2\<rparr>) = is_playing vs"
  "is_playing (vs\<lparr>vs_tail := x3\<rparr>) = is_playing vs" "is_playing (vs\<lparr>vs_pendingFailure := x4\<rparr>) = is_playing vs"
  "is_playing (vs\<lparr>vs_pendingSpeech := x5\<rparr>) = is_playing vs" "is_playing (vs\<lparr>vs_outcomes := x6\<rparr>) = is_playing vs"
  "is_playing (vs\<lparr>vs_accepted := x7\<rparr>) = is_playing vs" "is_playing (vs\<lparr>vs_stopping := x8\<rparr>) = is_playing vs"
  "is_playing (vs\<lparr>vs_emptyTurnAtMs := x9\<rparr>) = is_playing vs"
  by (simp_all add: is_playing_def)

lemma output_updates [simp]:
  "has_output (vs\<lparr>vs_utterance := x1\<rparr>) = has_output vs" "has_output (vs\<lparr>vs_watchdog := x2\<rparr>) = has_output vs"
  "has_output (vs\<lparr>vs_tail := x3\<rparr>) = has_output vs" "has_output (vs\<lparr>vs_pendingFailure := x4\<rparr>) = has_output vs"
  "has_output (vs\<lparr>vs_pendingSpeech := x5\<rparr>) = has_output vs" "has_output (vs\<lparr>vs_outcomes := x6\<rparr>) = has_output vs"
  "has_output (vs\<lparr>vs_accepted := x7\<rparr>) = has_output vs" "has_output (vs\<lparr>vs_stopping := x8\<rparr>) = has_output vs"
  "has_output (vs\<lparr>vs_emptyTurnAtMs := x9\<rparr>) = has_output vs"
  "has_output (vs\<lparr>vs_playback := map_option h (vs_playback vs)\<rparr>) = has_output vs"
  by (simp_all add: has_output_def)

lemma playing_same: "is_playing (setStatus s vs) = is_playing vs" "is_playing (on_ledger g vs) = is_playing vs"
  by (simp_all add: is_playing_def setStatus_def on_ledger_def)

lemma stop_audio_sel [simp]:
  "\<not> is_playing (stop_audio vs)" "vs_utterance (stop_audio vs) = vs_utterance vs" "vs_watchdog (stop_audio vs) = vs_watchdog vs"
  "vs_tail (stop_audio vs) = vs_tail vs" "vs_pendingFailure (stop_audio vs) = vs_pendingFailure vs"
  "vs_pendingSpeech (stop_audio vs) = vs_pendingSpeech vs" "vs_outcomes (stop_audio vs) = vs_outcomes vs"
  "has_output (stop_audio vs) = has_output vs" "vs_serial (stop_audio vs) = vs_serial vs" "vs_accepted (stop_audio vs) = vs_accepted vs" "vs_stopping (stop_audio vs) = vs_stopping vs"
  by (auto simp: stop_audio_def is_playing_def has_output_def split: option.split)

section \<open>At rest, and in flight\<close>

definition quiet :: "outlook \<Rightarrow> bool" where
  "quiet k \<longleftrightarrow> ol_utterance k = None \<and> \<not> ol_playing k \<and> ol_watchdog k = None \<and> ol_tail k = None \<and>
     ol_pendingFailure k = None \<and> ol_pendingSpeech k = None \<and> map ur_utteranceId (ol_outcomes k) = ol_accepted k"

text \<open>What holds of an utterance in flight also within a handler.\<close>

definition in_flight :: "outlook \<Rightarrow> lifecycle \<Rightarrow> bool" where
  "in_flight k u \<longleftrightarrow> ol_utterance k = Some u \<and> lifecycle_inv u \<and> \<not> is_terminal (ul_current u) \<and>
     (ul_sourceComplete u \<longrightarrow> ul_playbackActive u) \<and> map ur_utteranceId (ol_outcomes k) @ [ul_id u] = ol_accepted k \<and>
     (\<forall>a. ol_pendingSpeech k = Some a \<longrightarrow> au_utteranceId (sa_request a) = ul_id u) \<and>
     (\<forall>t. ol_tail k = Some t \<longrightarrow> 0 < tl_rate t \<and> ol_output k)"

definition steady :: "outlook \<Rightarrow> lifecycle \<Rightarrow> bool" where
  "steady k u \<longleftrightarrow> in_flight k u \<and> ul_playbackActive u = ol_playing k \<and> (ul_source u = CACHED \<longrightarrow> hasAudio u) \<and>
     (ol_pendingFailure k \<noteq> None \<longrightarrow> ol_playing k) \<and> (ol_stopping k \<or> ol_watchdog k \<noteq> None \<or> ol_playing k) \<and>
     (\<forall>q. ol_watchdog k = Some q \<longrightarrow> fst q = ol_serial k)"

definition voice_session_ok :: "voice_session \<Rightarrow> bool" where
  "voice_session_ok vs \<longleftrightarrow> quiet (outlook_of vs) \<or> (\<exists>u. steady (outlook_of vs) u)"

lemma outlook_sel [simp]:
  "ol_utterance (outlook_of vs) = vs_utterance vs" "ol_watchdog (outlook_of vs) = vs_watchdog vs"
  "ol_tail (outlook_of vs) = vs_tail vs" "ol_pendingFailure (outlook_of vs) = vs_pendingFailure vs"
  "ol_pendingSpeech (outlook_of vs) = vs_pendingSpeech vs" "ol_outcomes (outlook_of vs) = vs_outcomes vs"
  "ol_accepted (outlook_of vs) = vs_accepted vs" "ol_stopping (outlook_of vs) = vs_stopping vs"
  "ol_playing (outlook_of vs) = is_playing vs" "ol_serial (outlook_of vs) = vs_serial vs"
  "ol_output (outlook_of vs) = has_output vs"
  by (simp_all add: outlook_of_def)

lemma outlook_eq:
  "vs_utterance a = vs_utterance b \<Longrightarrow> vs_watchdog a = vs_watchdog b \<Longrightarrow> vs_tail a = vs_tail b \<Longrightarrow>
   vs_pendingFailure a = vs_pendingFailure b \<Longrightarrow> vs_pendingSpeech a = vs_pendingSpeech b \<Longrightarrow> vs_outcomes a = vs_outcomes b \<Longrightarrow>
   vs_accepted a = vs_accepted b \<Longrightarrow> vs_stopping a = vs_stopping b \<Longrightarrow> is_playing a = is_playing b \<Longrightarrow> vs_serial a = vs_serial b \<Longrightarrow>
   has_output a = has_output b \<Longrightarrow> outlook_of a = outlook_of b"
  by (simp add: outlook_of_def)

section \<open>The end of an utterance\<close>

lemma reconnect_later_outlook: "outlook_of (reconnect_later e vs) = (outlook_of vs)\<lparr>ol_pendingSpeech := None\<rparr>"
  by (simp add: reconnect_later_def Let_def outlook_of_def setStatus_def tell_error_def diagnose_def is_playing_def has_output_def)

lemma after_failure_outlook:
  assumes "vs_pendingSpeech vs = None"
  shows "outlook_of (after_failure u r vs) = outlook_of vs"
proof -
  have "(outlook_of vs)\<lparr>ol_pendingSpeech := None\<rparr> = outlook_of vs" using assms by (simp add: outlook_of_def)
  then show ?thesis by (simp add: after_failure_def Let_def reconnect_later_outlook)
qed

lemma release_outlook:
  assumes "in_flight (outlook_of vs) u" and "ul_id u1 = ul_id u"
  shows "outlook_of (release_utterance u1 r (vs\<lparr>vs_utterance := Some u1\<rparr>)) =
    (outlook_of vs)\<lparr>ol_utterance := None, ol_watchdog := None, ol_tail := None, ol_pendingFailure := None, ol_pendingSpeech := None,
       ol_playing := is_playing vs \<and> ur_outcome r = COMPLETED\<rparr>"
proof -
  have "(case vs_pendingSpeech vs of None \<Rightarrow> None
      | Some a \<Rightarrow> if au_utteranceId (sa_request a) = ul_id u1 then None else Some a) = None"
    using assms by (auto simp: in_flight_def split: option.split)
  then show ?thesis unfolding release_utterance_def Let_def by (simp add: outlook_of_def)
qed

lemma record_outlook:
  "outlook_of (record_outcome m u r vs) = (outlook_of vs)\<lparr>ol_outcomes := vs_outcomes vs @ [r]\<rparr>"
proof -
  have upd: "outlook_of (w\<lparr>vs_outcomes := x\<rparr>) = (outlook_of w)\<lparr>ol_outcomes := x\<rparr>" for w x by (simp add: outlook_of_def)
  show ?thesis unfolding record_outcome_def Let_def upd by (simp add: setStatus_def on_ledger_def)
qed

lemma finish_quiet:
  assumes "in_flight (outlook_of vs) u" and "ur_utteranceId r = ul_id u" and "ur_outcome r = COMPLETED \<Longrightarrow> \<not> is_playing vs"
    and "ul_id u1 = ul_id u"
  shows "quiet (outlook_of (finishUtterance m u1 r (vs\<lparr>vs_utterance := Some u1\<rparr>)))"
proof -
  let ?w = "record_outcome m u1 r (release_utterance u1 r (vs\<lparr>vs_utterance := Some u1\<rparr>))"
  have w: "outlook_of ?w = (outlook_of vs)\<lparr>ol_utterance := None, ol_watchdog := None, ol_tail := None, ol_pendingFailure := None,
      ol_pendingSpeech := None, ol_playing := is_playing vs \<and> ur_outcome r = COMPLETED,
      ol_outcomes := vs_outcomes (release_utterance u1 r (vs\<lparr>vs_utterance := Some u1\<rparr>)) @ [r]\<rparr>"
    unfolding record_outlook release_outlook [OF assms(1,4)] by simp
  have "vs_outcomes (release_utterance u1 r (vs\<lparr>vs_utterance := Some u1\<rparr>)) = vs_outcomes vs"
    using release_outlook [OF assms(1,4), of r] by (metis (no_types, lifting) outlook.select_convs(6) outlook.surjective outlook.update_convs outlook_sel(6))
  then have q: "quiet (outlook_of ?w)" unfolding w using assms(1-3) by (auto simp: quiet_def in_flight_def)
  moreover have "vs_pendingSpeech ?w = None" using q by (simp add: quiet_def)
  ultimately show ?thesis using after_failure_outlook by (simp add: finishUtterance_def Let_def)
qed

section \<open>Signals\<close>

lemma apply_signal_id:
  assumes "apply_signal s t u = (u1, r)"
  shows "ul_id u1 = ul_id u" and "ul_source u1 = ul_source u" and "r = Some x \<Longrightarrow> ur_utteranceId x = ul_id u"
  using assms by (cases s; auto simp: apply_signal_def finish_def Let_def split: if_splits)+

text \<open>A signal that does not end the utterance; what it leaves.\<close>

lemma signal_goes_on:
  assumes fl: "in_flight (outlook_of vs) u" and a: "apply_signal s (mo_perf m) u = (u1, None)"
    and play: "ul_playbackActive u1 = is_playing vs" and src: "ul_source u = CACHED \<longrightarrow> hasAudio u1"
    and pend: "vs_pendingFailure vs \<noteq> None \<longrightarrow> is_playing vs"
    and compl: "ul_sourceComplete u1 \<longrightarrow> ul_playbackActive u1"
  shows "steady (outlook_of (signal m s vs)) u1"
proof -
  have u: "vs_utterance vs = Some u" "lifecycle_inv u" "\<not> is_terminal (ul_current u)" using fl by (simp_all add: in_flight_def)
  note ids = apply_signal_id [OF a]
  have inv: "lifecycle_inv u1" using apply_signal_inv [OF u(2), of s "mo_perf m"] a by simp
  have live: "\<not> is_terminal (ul_current u1)"
    using apply_signal_report [OF a u(3)] inv by (auto simp: lifecycle_inv_def split: option.splits if_splits)
  let ?w = "armWatchdog m (vs\<lparr>vs_utterance := Some u1\<rparr>)"
  have w: "signal m s vs = ?w" using u a by (simp add: signal_def)
  have o1: "outlook_of ?w = (outlook_of vs)\<lparr>ol_utterance := Some u1, ol_watchdog := vs_watchdog ?w\<rparr>"
    by (simp add: armWatchdog_def outlook_of_def)
  have "in_flight (outlook_of ?w) u1" using fl ids inv live compl unfolding o1 in_flight_def by simp
  moreover have "vs_stopping vs \<or> vs_watchdog ?w \<noteq> None \<or> is_playing vs"
    using live compl play src ids(2) by (auto simp: armWatchdog_def deadline_def split: option.split) (metis utterance_source.exhaust)+
  moreover have "\<forall>q. vs_watchdog ?w = Some q \<longrightarrow> fst q = vs_serial vs" by (auto simp: armWatchdog_def split: option.splits)
  ultimately show ?thesis unfolding w using play src pend ids(2) unfolding o1 steady_def by simp
qed

text \<open>A signal that ends it.\<close>

lemma signal_ends:
  assumes fl: "in_flight (outlook_of vs) u" and a: "apply_signal s (mo_perf m) u = (u1, Some r)"
    and "ur_outcome r = COMPLETED \<Longrightarrow> \<not> is_playing vs"
  shows "quiet (outlook_of (signal m s vs))"
proof -
  have "vs_utterance vs = Some u" using fl by (simp add: in_flight_def)
  then have "signal m s vs = finishUtterance m u1 r (vs\<lparr>vs_utterance := Some u1\<rparr>)" using a by (simp add: signal_def)
  then show ?thesis using finish_quiet [OF fl _ assms(3)] apply_signal_id [OF a] by simp
qed

lemma signal_none: "vs_utterance vs = None \<Longrightarrow> signal m s vs = vs"
  by (simp add: signal_def)

text \<open>Interruptions, failures and cancellations end whatever is in flight, with an outcome that is no completion.\<close>

fun breaks :: "utterance_signal \<Rightarrow> bool" where
  "breaks (Interrupt x) = True"
| "breaks (Fail s x) = True"
| "breaks (Cancel s) = True"
| "breaks _ = False"

lemma breaks_ends:
  assumes "breaks s" and "\<not> is_terminal (ul_current u)"
  obtains u1 r where "apply_signal s t u = (u1, Some r)" "ur_outcome r \<noteq> COMPLETED"
proof -
  have "\<exists>u1 r. apply_signal s t u = (u1, Some r) \<and> ur_outcome r \<noteq> COMPLETED"
    using assms by (cases s) (auto simp: apply_signal_def finish_def Let_def)
  then show ?thesis using that by blast
qed

lemma break_quiet: "in_flight (outlook_of vs) u \<Longrightarrow> breaks s \<Longrightarrow> quiet (outlook_of (signal m s vs))"
  using breaks_ends signal_ends unfolding in_flight_def by metis

lemma break_session:
  assumes "voice_session_ok vs" and "breaks s"
  shows "quiet (outlook_of (signal m s (stop_audio vs)))"
proof -
  have "outlook_of (stop_audio vs) = (outlook_of vs)\<lparr>ol_playing := False\<rparr>" by (simp add: outlook_of_def)
  then show ?thesis
    using assms break_quiet [of "stop_audio vs" _ s m] signal_none [of "stop_audio vs" m s]
    unfolding voice_session_ok_def quiet_def steady_def in_flight_def by (auto simp: quiet_def in_flight_def)
qed

lemma fail_now_quiet: "voice_session_ok vs \<Longrightarrow> quiet (outlook_of (fail_now m why vs))"
  by (simp add: fail_now_def Let_def break_session)

section \<open>Arming\<close>

text \<open>Steady, but for the deadline.\<close>

definition level :: "outlook \<Rightarrow> lifecycle \<Rightarrow> bool" where
  "level k u \<longleftrightarrow> in_flight k u \<and> ul_playbackActive u = ol_playing k \<and> (ul_source u = CACHED \<longrightarrow> hasAudio u) \<and>
     (ol_pendingFailure k \<noteq> None \<longrightarrow> ol_playing k)"

lemma steady_level: "steady k u \<Longrightarrow> level k u"
  by (simp add: steady_def level_def)

lemma level_in_flight: "level k u \<Longrightarrow> in_flight k u"
  by (simp add: level_def)

lemma arm_outlook: "outlook_of (armWatchdog m vs) = (outlook_of vs)\<lparr>ol_watchdog := vs_watchdog (armWatchdog m vs)\<rparr>"
  by (simp add: armWatchdog_def outlook_of_def)

lemma arm_steady: "level (outlook_of vs) u \<Longrightarrow> steady (outlook_of (armWatchdog m vs)) u"
proof -
  assume l: "level (outlook_of vs) u"
  have "vs_stopping vs \<or> vs_watchdog (armWatchdog m vs) \<noteq> None \<or> is_playing vs"
    using l by (auto simp: level_def in_flight_def armWatchdog_def deadline_def split: option.split) (metis utterance_source.exhaust)+
  moreover have "\<forall>q. vs_watchdog (armWatchdog m vs) = Some q \<longrightarrow> fst q = vs_serial vs"
    by (auto simp: armWatchdog_def split: option.splits)
  ultimately show ?thesis using l unfolding arm_outlook steady_def level_def in_flight_def by auto
qed

lemma arm_quiet: "quiet (outlook_of vs) \<Longrightarrow> quiet (outlook_of (armWatchdog m vs))"
  by (simp add: quiet_def armWatchdog_def)

lemma voice_session_okI: "quiet (outlook_of vs) \<Longrightarrow> voice_session_ok vs" "steady (outlook_of vs) u \<Longrightarrow> voice_session_ok vs"
  by (auto simp: voice_session_ok_def)

lemma voice_session_okE:
  assumes "voice_session_ok vs"
  obtains (quiet) "quiet (outlook_of vs)" | (steady) u where "steady (outlook_of vs) u"
  using assms unfolding voice_session_ok_def by blast

lemma voice_session_ok_same: "outlook_of a = outlook_of b \<Longrightarrow> voice_session_ok a = voice_session_ok b"
  by (simp add: voice_session_ok_def)

lemma voice_session_ok_arm: "voice_session_ok vs \<Longrightarrow> voice_session_ok (armWatchdog m vs)"
  by (erule voice_session_okE) (auto intro: voice_session_okI arm_quiet arm_steady dest: steady_level)

lemma voice_session_ok_idle: "voice_session_ok vs \<Longrightarrow> vs_utterance vs = None \<Longrightarrow> quiet (outlook_of vs)"
  by (erule voice_session_okE) (simp_all add: steady_def in_flight_def)

lemma voice_session_ok_busy:
  assumes "voice_session_ok vs" and "vs_utterance vs = Some u"
  shows "steady (outlook_of vs) u"
  using assms(1) by (rule voice_session_okE) (use assms(2) in \<open>auto simp: quiet_def steady_def in_flight_def\<close>)

section \<open>Signals of the handlers\<close>

lemma level_goes_on:
  assumes "level (outlook_of vs) u" and "apply_signal s (mo_perf m) u = (u1, None)"
    and "ul_playbackActive u1 = is_playing vs" and "ul_sourceComplete u1 \<longrightarrow> ul_playbackActive u1" and "hasAudio u \<longrightarrow> hasAudio u1"
  shows "steady (outlook_of (signal m s vs)) u1"
  using assms signal_goes_on [of vs u s m u1] by (auto simp: level_def)

lemma received_steady: "level (outlook_of vs) u \<Longrightarrow> \<exists>u1. steady (outlook_of (signal m (AudioReceived x) vs)) u1 \<and> ul_id u1 = ul_id u \<and>
    ul_source u1 = ul_source u \<and> (0 < x \<longrightarrow> hasAudio u1)"
proof -
  assume l: "level (outlook_of vs) u"
  have "\<exists>u1. apply_signal (AudioReceived x) (mo_perf m) u = (u1, None)"
    using l by (auto simp: apply_signal_def level_def in_flight_def Let_def)
  then obtain u1 where a: "apply_signal (AudioReceived x) (mo_perf m) u = (u1, None)" by blast
  have live: "\<not> is_terminal (ul_current u)" "0 \<le> ul_receivedSeconds u" using l by (simp_all add: level_def in_flight_def lifecycle_inv_def)
  then have u1: "ul_playbackActive u1 = ul_playbackActive u" "ul_sourceComplete u1 = ul_sourceComplete u" "hasAudio u \<longrightarrow> hasAudio u1"
      "0 < x \<longrightarrow> hasAudio u1"
    using a by (auto simp: apply_signal_def Let_def hasAudio_def split: if_splits)
  have "steady (outlook_of (signal m (AudioReceived x) vs)) u1"
    by (rule level_goes_on [OF l a]) (use u1 l in \<open>auto simp: level_def in_flight_def\<close>)
  then show ?thesis using apply_signal_id [OF a] u1(4) by blast
qed

lemma requested_steady: "level (outlook_of vs) u \<Longrightarrow> voice_session_ok (signal m Requested vs)"
proof -
  assume l: "level (outlook_of vs) u"
  have "\<exists>u1. apply_signal Requested (mo_perf m) u = (u1, None)"
    using l by (auto simp: apply_signal_def level_def in_flight_def)
  then obtain u1 where a: "apply_signal Requested (mo_perf m) u = (u1, None)" by blast
  have "\<not> is_terminal (ul_current u)" using l by (simp add: level_def in_flight_def)
  then have u1: "ul_playbackActive u1 = ul_playbackActive u" "ul_sourceComplete u1 = ul_sourceComplete u" "hasAudio u \<longrightarrow> hasAudio u1"
    using a by (auto simp: apply_signal_def hasAudio_def split: if_splits)
  have "steady (outlook_of (signal m Requested vs)) u1"
    by (rule level_goes_on [OF l a]) (use u1 l in \<open>auto simp: level_def in_flight_def\<close>)
  then show ?thesis by (rule voice_session_okI)
qed

text \<open>Playback has begun: the state is only level once the signal is in.\<close>

lemma started_steady:
  assumes "in_flight (outlook_of vs) u" and "is_playing vs" and "hasAudio u"
  shows "\<exists>u1. steady (outlook_of (signal m PlaybackStarted vs)) u1 \<and> ul_id u1 = ul_id u \<and> hasAudio u1 \<and>
    is_playing (signal m PlaybackStarted vs)"
proof -
  have live: "\<not> is_terminal (ul_current u)" using assms(1) by (simp add: in_flight_def)
  then have a: "apply_signal PlaybackStarted (mo_perf m) u = (u\<lparr>ul_playbackActive := True, ul_current := PLAYING\<rparr>, None)"
    by (simp add: apply_signal_def)
  have "steady (outlook_of (signal m PlaybackStarted vs)) (u\<lparr>ul_playbackActive := True, ul_current := PLAYING\<rparr>)"
    by (rule signal_goes_on [OF assms(1) a]) (use assms in \<open>simp_all add: hasAudio_def\<close>)
  moreover have "is_playing (signal m PlaybackStarted vs)" using calculation by (simp add: steady_def)
  ultimately show ?thesis using assms(3) by (auto simp: hasAudio_def)
qed

lemma complete_ok: "level (outlook_of vs) u \<Longrightarrow> voice_session_ok (signal m SourceComplete vs)"
proof -
  assume l: "level (outlook_of vs) u"
  have live: "\<not> is_terminal (ul_current u)" using l by (simp add: level_def in_flight_def)
  obtain u1 r where a: "apply_signal SourceComplete (mo_perf m) u = (u1, r)" by fastforce
  show ?thesis
  proof (cases r)
    case None
    then have u1: "u1 = u\<lparr>ul_sourceComplete := True\<rparr>" "ul_playbackActive u" "hasAudio u"
      using a live by (auto simp: apply_signal_def Let_def finish_def hasAudio_def split: if_splits)
    have "steady (outlook_of (signal m SourceComplete vs)) u1"
      by (rule level_goes_on [OF l a [unfolded None]]) (use u1 l in \<open>simp_all add: level_def hasAudio_def\<close>)
    then show ?thesis by (rule voice_session_okI)
  next
    case (Some x)
    have "ur_outcome x = COMPLETED \<Longrightarrow> \<not> is_playing vs"
      using a live l Some by (auto simp: apply_signal_def Let_def finish_def level_def split: if_splits)
    then show ?thesis using signal_ends [OF level_in_flight [OF l] a [unfolded Some]] by (simp add: voice_session_okI)
  qed
qed

lemma drained_ok:
  assumes fl: "in_flight (outlook_of vs) u" and "\<not> is_playing vs" and "ul_source u = CACHED \<longrightarrow> hasAudio u" and "vs_pendingFailure vs = None"
  shows "voice_session_ok (signal m PlaybackDrained vs)"
proof -
  have live: "\<not> is_terminal (ul_current u)" using fl by (simp add: in_flight_def)
  obtain u1 r where a: "apply_signal PlaybackDrained (mo_perf m) u = (u1, r)" by fastforce
  show ?thesis
  proof (cases r)
    case None
    then have u1: "\<not> ul_playbackActive u1" "\<not> ul_sourceComplete u1" "hasAudio u1 = hasAudio u"
      using a live fl by (auto simp: apply_signal_def Let_def finish_def hasAudio_def in_flight_def split: if_splits)
    have "steady (outlook_of (signal m PlaybackDrained vs)) u1"
      by (rule signal_goes_on [OF fl a [unfolded None]]) (use u1 assms in simp_all)
    then show ?thesis by (rule voice_session_okI)
  next
    case (Some x)
    show ?thesis using signal_ends [OF fl a [unfolded Some]] assms(2) by (simp add: voice_session_okI)
  qed
qed

section \<open>The handlers\<close>

lemma reconnect_later_ok: "voice_session_ok vs \<Longrightarrow> voice_session_ok (reconnect_later e vs)"
  unfolding voice_session_ok_def reconnect_later_outlook by (auto simp: quiet_def steady_def in_flight_def)

lemma scheduleReconnect_ok: "voice_session_ok vs \<Longrightarrow> voice_session_ok (scheduleReconnect m e vs)"
proof -
  assume ok: "voice_session_ok vs"
  then have "voice_session_ok (vs\<lparr>vs_goAwayTimer := None\<rparr>)" by (simp add: voice_session_ok_def)
  then show ?thesis
    using ok fail_now_quiet voice_session_okI(1) by (auto simp: scheduleReconnect_def Let_def intro!: reconnect_later_ok)
qed

lemma source_ended_ok:
  assumes "voice_session_ok vs"
  shows "voice_session_ok (source_ended m i vs)"
proof -
  let ?w = "vs\<lparr>vs_playback := map_option (release_source i) (vs_playback vs)\<rparr>"
  have play: "is_playing ?w \<Longrightarrow> is_playing vs"
    by (auto simp: is_playing_def isPlaying_def release_source_def Let_def split: option.splits if_splits)
  have w: "outlook_of ?w = (outlook_of vs)\<lparr>ol_playing := is_playing ?w\<rparr>" by (simp add: outlook_of_def)
  let ?w1 = "on_voice (noteModelPlayback (utterance_source ?w = Some MODEL \<and> is_playing ?w)) ?w"
  show ?thesis
  proof (cases "is_playing ?w")
    case True
    then have "outlook_of ?w = outlook_of vs" using play unfolding w by (simp add: outlook_of_def)
    then show ?thesis using assms True by (simp add: source_ended_def onPlaybackProgress_def Let_def voice_session_ok_def)
  next
    case still: False
    from assms show ?thesis
    proof (cases rule: voice_session_okE)
      case quiet
      then have "quiet (outlook_of ?w)" unfolding w using still by (simp add: quiet_def)
      then show ?thesis by (simp add: source_ended_def onPlaybackProgress_def Let_def voice_session_ok_def quiet_def)
    next
      case (steady u)
      then have fl: "in_flight (outlook_of ?w1) u" and src: "ul_source u = CACHED \<longrightarrow> hasAudio u" and u: "vs_utterance vs = Some u"
        using w by (auto simp: steady_def in_flight_def)
      show ?thesis
      proof (cases "vs_pendingFailure vs")
        case None
        have "voice_session_ok (signal m PlaybackDrained ?w1)" by (rule drained_ok [OF fl]) (use still src None in simp_all)
        then show ?thesis using still u None by (simp add: source_ended_def onPlaybackProgress_def Let_def)
      next
        case (Some why)
        have "voice_session_ok (signal m (Fail why None) ?w1)" using break_quiet [OF fl, of "Fail why None" m] by (simp add: voice_session_okI)
        then show ?thesis using still u Some by (simp add: source_ended_def onPlaybackProgress_def Let_def)
      qed
    qed
  qed
qed

lemma watchdog_fires_ok: "voice_session_ok vs \<Longrightarrow> voice_session_ok (watchdog_fires m vs)"
proof (cases "vs_watchdog vs")
  case (Some q)
  assume ok: "voice_session_ok vs"
  obtain serial d why where q: "q = (serial, d, why)" by (cases q)
  let ?w = "vs\<lparr>vs_watchdog := None\<rparr>"
  have w: "outlook_of ?w = (outlook_of vs)\<lparr>ol_watchdog := None\<rparr>" by (simp add: outlook_of_def)
  obtain u where st: "steady (outlook_of vs) u" using ok Some by (auto simp: voice_session_ok_def quiet_def)
  have l: "level (outlook_of ?w) u" unfolding w using st by (auto simp: steady_def level_def in_flight_def)
  have broken: "voice_session_ok (fail_now m why ?w)"
  proof -
    have "in_flight (outlook_of (stop_audio ?w)) u" using level_in_flight [OF l] by (simp add: in_flight_def)
    then show ?thesis unfolding fail_now_def Let_def using break_quiet by (intro voice_session_okI(1)) simp
  qed
  have "vs_utterance ?w = Some u" using level_in_flight [OF l] by (simp add: in_flight_def)
  show ?thesis
  proof (cases "serial = vs_serial vs")
    case True
    have "voice_session_ok (armWatchdog m ?w)" using arm_steady [OF l] by (rule voice_session_okI)
    then show ?thesis using broken Some q True \<open>vs_utterance ?w = Some u\<close> by (simp add: watchdog_fires_def Let_def)
  next
    case False
    then show ?thesis using st Some q by (simp add: steady_def)
  qed
qed (simp add: watchdog_fires_def)

text \<open>Asking the model; the authorization is that of the utterance in flight.\<close>

lemma level_pending:
  assumes "level (outlook_of vs) u" and "au_utteranceId (sa_request a) = ul_id u"
  shows "level (outlook_of (vs\<lparr>vs_pendingSpeech := Some a\<rparr>)) u"
  using assms by (auto simp: level_def in_flight_def)

lemma request_ok:
  assumes l: "level (outlook_of vs) u" and a: "au_utteranceId (sa_request a) = ul_id u"
  shows "voice_session_ok (requestModelSpeech m a vs)"
proof -
  let ?w = "on_voice (\<lambda>v. fst (requestSpeech (sa_request a) v)) vs"
  have w: "level (outlook_of ?w) u" using l by simp
  have "voice_session_ok (armWatchdog m (?w\<lparr>vs_pendingSpeech := Some a\<rparr>))"
    using arm_steady [OF level_pending [OF w a]] by (rule voice_session_okI)
  moreover have "voice_session_ok (signal m Requested (on_ledger (mark SpeechRequested (mo_wall m)) (?w\<lparr>vs_speechWaitStartedAt := mo_perf m\<rparr>)))"
    by (rule requested_steady [of _ u]) (use w in simp)
  ultimately show ?thesis by (simp add: requestModelSpeech_def Let_def)
qed

lemma speak_model_ok:
  assumes l: "level (outlook_of vs) u" and a: "au_utteranceId (sa_request a) = ul_id u"
  shows "voice_session_ok (speak_model m a vs)"
  using request_ok [OF l a] voice_session_okI(2) [OF arm_steady [OF level_pending [OF l a]]] by (simp add: speak_model_def)

lemma fail_after_drain_ok:
  assumes "voice_session_ok vs"
  shows "voice_session_ok (failAfterDrain m why vs)"
proof (cases "vs_utterance vs")
  case (Some u)
  note st = voice_session_ok_busy [OF assms Some]
  have "voice_session_ok (signal m (Fail why None) vs)"
    using break_quiet [of vs u "Fail why None" m] st by (simp add: steady_def voice_session_okI)
  moreover have "voice_session_ok (vs\<lparr>vs_pendingFailure := Some why\<rparr>)" if "is_playing vs"
    using st that by (intro voice_session_okI(2) [of _ u]) (simp add: steady_def in_flight_def)
  ultimately show ?thesis using Some by (simp add: failAfterDrain_def)
qed (simp add: failAfterDrain_def assms)

text \<open>A scheduled chunk plays.\<close>

lemma schedule_outlook:
  assumes "schedule_audio m n rate vs = (w, t)"
  shows "outlook_of w = (outlook_of vs)\<lparr>ol_playing := is_playing w\<rparr>" and "is_playing vs \<Longrightarrow> is_playing w"
    and "0 < n \<Longrightarrow> has_output vs \<Longrightarrow> is_playing w \<and> t \<noteq> None" and "vs_playback vs = None \<Longrightarrow> t = None \<and> w = vs"
    and "t \<noteq> None \<Longrightarrow> is_playing w" and "t = None \<Longrightarrow> w = vs"
  using assms by (auto simp: schedule_audio_def outlook_of_def is_playing_def has_output_def enqueueAt_def isPlaying_def Let_def split: option.splits if_splits)

lemma in_flight_playing: "in_flight (k\<lparr>ol_playing := b\<rparr>) u = in_flight k u"
  by (simp add: in_flight_def)

text \<open>Audio arrives and is scheduled; the result is steady again.\<close>

lemma chunk_steady:
  assumes "level (outlook_of vs) u" and "0 < x" and s: "schedule_audio m n rate (signal m (AudioReceived x) vs) = (w, t)" and "is_playing w"
  shows "\<exists>u1. steady (outlook_of (signal m PlaybackStarted w)) u1 \<and> ul_id u1 = ul_id u \<and> hasAudio u1"
proof -
  obtain u1 where u1: "steady (outlook_of (signal m (AudioReceived x) vs)) u1" "ul_id u1 = ul_id u" "hasAudio u1"
    using received_steady [OF assms(1)] assms(2) by blast
  have "in_flight (outlook_of w) u1" using u1(1) unfolding schedule_outlook(1) [OF s] in_flight_playing by (simp add: steady_def)
  from started_steady [OF this assms(4) u1(3)] u1(2) show ?thesis by metis
qed

lemma playback_signal [simp]: "vs_playback (armWatchdog m vs) = vs_playback vs"
  by (simp add: armWatchdog_def)

lemma received_playback:
  assumes "level (outlook_of vs) u"
  shows "vs_playback (signal m (AudioReceived x) vs) = vs_playback vs"
  using assms by (auto simp: level_def in_flight_def signal_def apply_signal_def Let_def split: prod.split option.split if_splits)

section \<open>Callbacks\<close>

lemma model_audio_ok:
  assumes "voice_session_ok vs"
  shows "voice_session_ok (onModelAudio m c n uid vs)"
proof (cases "\<not> current_model c uid vs \<or> n = 0")
  case False
  then obtain u where u: "vs_utterance vs = Some u" by (auto simp: current_model_def split: option.splits)
  note l = steady_level [OF voice_session_ok_busy [OF assms u]]
  let ?x = "real n / LIVE_OUTPUT_SAMPLE_RATE"
  have x: "0 < ?x" using False by (simp add: LIVE_OUTPUT_SAMPLE_RATE_def)
  obtain w t where s: "schedule_audio m n LIVE_OUTPUT_SAMPLE_RATE (signal m (AudioReceived ?x) vs) = (w, t)" by fastforce
  show ?thesis
  proof (cases t)
    case None
    then have "w = signal m (AudioReceived ?x) vs" using schedule_outlook(6) [OF s] by simp
    then have "voice_session_ok w" using received_steady [OF l] voice_session_okI(2) by metis
    then show ?thesis using False s None by (simp add: onModelAudio_def Let_def)
  next
    case (Some a)
    obtain u1 where "steady (outlook_of (signal m PlaybackStarted w)) u1"
      using chunk_steady [OF l x s] schedule_outlook(5) [OF s] Some by auto
    then have "voice_session_ok (signal m PlaybackStarted w)" by (rule voice_session_okI)
    then show ?thesis using False s Some by (simp add: onModelAudio_def Let_def voice_session_ok_def)
  qed
qed (use assms in \<open>auto simp: onModelAudio_def\<close>)

lemma speech_complete_ok:
  assumes "voice_session_ok vs"
  shows "voice_session_ok (onSpeechComplete m c uid had vs)"
proof (cases "current_model c uid vs")
  case True
  then obtain u where u: "vs_utterance vs = Some u" by (auto simp: current_model_def split: option.splits)
  have "voice_session_ok (signal m SourceComplete vs)" by (rule complete_ok [OF steady_level [OF voice_session_ok_busy [OF assms u]]])
  moreover have "voice_session_ok (armWatchdog m (vs\<lparr>vs_emptyTurnAtMs := Some (mo_perf m)\<rparr>))"
    by (rule voice_session_ok_arm) (use assms in \<open>simp add: voice_session_ok_def\<close>)
  ultimately show ?thesis using True by (simp add: onSpeechComplete_def)
qed (simp add: onSpeechComplete_def assms)

lemma barge_in_ok: "voice_session_ok vs \<Longrightarrow> voice_session_ok (onBargeIn m c vs)"
  using break_session [of vs "Interrupt (Some (unplayed m vs))" m] by (auto simp: onBargeIn_def Let_def voice_session_ok_def)

lemma provisional_ok: "voice_session_ok vs \<Longrightarrow> voice_session_ok (onBargeInProvisional b vs)"
proof -
  have "outlook_of (onBargeInProvisional b vs) = outlook_of vs"
    by (cases b) (auto simp: onBargeInProvisional_def outlook_of_def is_playing_def has_output_def split: option.split)
  then show "voice_session_ok vs \<Longrightarrow> voice_session_ok (onBargeInProvisional b vs)" by (simp add: voice_session_ok_def)
qed

lemma resume_pending_ok:
  assumes "voice_session_ok vs"
  shows "voice_session_ok (resume_pending m vs)"
proof -
  let ?v = "vs\<lparr>vs_pendingSpeech := None\<rparr>"
  have "outlook_of ?v = (outlook_of vs)\<lparr>ol_pendingSpeech := None\<rparr>" by (simp add: outlook_of_def)
  then have ok: "voice_session_ok ?v" using assms unfolding voice_session_ok_def by (auto simp: quiet_def steady_def in_flight_def)
  have "voice_session_ok (requestModelSpeech m a ?v)" if a: "map_option ul_id (vs_utterance ?v) = Some (au_utteranceId (sa_request a))" for a
  proof -
    obtain u where u: "vs_utterance ?v = Some u" "au_utteranceId (sa_request a) = ul_id u" using a by auto
    show ?thesis by (rule request_ok [OF steady_level [OF voice_session_ok_busy [OF ok u(1)]] u(2)])
  qed
  then show ?thesis using ok unfolding resume_pending_def Let_def by (cases "vs_pendingSpeech vs") simp_all
qed

lemma ready_ok: "voice_session_ok vs \<Longrightarrow> voice_session_ok (onReady m c vs)"
proof -
  assume ok: "voice_session_ok vs"
  have "voice_session_ok (resume_pending m (if b then setStatus LISTENING (vs\<lparr>vs_reconnectAttempts := 0\<rparr>) else vs\<lparr>vs_reconnectAttempts := 0\<rparr>))" for b
    by (rule resume_pending_ok) (use ok in \<open>simp add: voice_session_ok_def\<close>)
  then show ?thesis using ok by (simp add: onReady_def Let_def voice_session_ok_def)
qed

lemma disconnected_ok: "voice_session_ok vs \<Longrightarrow> voice_session_ok (onDisconnected m vs)"
  by (simp add: onDisconnected_def scheduleReconnect_ok)

lemma go_away_ok: "voice_session_ok vs \<Longrightarrow> voice_session_ok (scheduleGoAwayRotation m t vs)" "voice_session_ok vs \<Longrightarrow> voice_session_ok (goAway_fires m vs)"
proof -
  show "voice_session_ok vs \<Longrightarrow> voice_session_ok (scheduleGoAwayRotation m t vs)" by (simp add: scheduleGoAwayRotation_def voice_session_ok_def)
  assume ok: "voice_session_ok vs"
  then have "voice_session_ok (vs\<lparr>vs_goAwayTimer := x\<rparr>)" for x by (simp add: voice_session_ok_def)
  then show "voice_session_ok (goAway_fires m vs)"
    using ok fail_now_quiet voice_session_okI(1) by (auto simp: goAway_fires_def Let_def voice_session_ok_def split: option.split)
qed

lemma connect_ok: "voice_session_ok vs \<Longrightarrow> voice_session_ok (connectProvider m constrained vo vs)"
  by (auto simp: connectProvider_def Let_def voice_session_ok_def intro!: scheduleReconnect_ok [unfolded voice_session_ok_def])

section \<open>Speaking\<close>

lemma voice_session_ok_ledger [simp]: "voice_session_ok (on_ledger f vs) = voice_session_ok vs"
  by (simp add: voice_session_ok_def)

lemma voice_session_ok_voice [simp]: "voice_session_ok (on_voice f vs) = voice_session_ok vs"
  by (simp add: voice_session_ok_def)

lemma voice_session_ok_status [simp]: "voice_session_ok (setStatus x vs) = voice_session_ok vs"
  by (simp add: voice_session_ok_def)

lemma tail_none_ok: "voice_session_ok vs \<Longrightarrow> voice_session_ok (vs\<lparr>vs_tail := None\<rparr>)"
proof -
  have "outlook_of (vs\<lparr>vs_tail := None\<rparr>) = (outlook_of vs)\<lparr>ol_tail := None\<rparr>" by (simp add: outlook_of_def)
  then show "voice_session_ok vs \<Longrightarrow> voice_session_ok (vs\<lparr>vs_tail := None\<rparr>)"
    unfolding voice_session_ok_def by (auto simp: quiet_def steady_def in_flight_def)
qed

lemma tail_some: "steady (outlook_of vs) u \<Longrightarrow> 0 < tl_rate t \<Longrightarrow> has_output vs \<Longrightarrow>
    steady (outlook_of (vs\<lparr>vs_tail := Some t\<rparr>)) u"
proof -
  have "outlook_of (vs\<lparr>vs_tail := Some t\<rparr>) = (outlook_of vs)\<lparr>ol_tail := Some t\<rparr>" by (simp add: outlook_of_def)
  then show "steady (outlook_of vs) u \<Longrightarrow> 0 < tl_rate t \<Longrightarrow> has_output vs \<Longrightarrow>
      steady (outlook_of (vs\<lparr>vs_tail := Some t\<rparr>)) u"
    by (auto simp: steady_def in_flight_def)
qed

lemma valid_headD:
  assumes "valid_head a = Some bs"
  shows "0 < ca_rate a" and "0 < length (fst (toPcm16 bs None))"
proof -
  have a: "bs \<noteq> []" "even (length bs)" "0 < ca_rate a" using assms by (auto simp: valid_head_def split: option.splits if_splits)
  have "0 < length bs" using a(1) by simp
  then have "0 < length bs div 2" using a(2) by presburger
  then show "0 < length (fst (toPcm16 bs None))" by (simp add: toPcm16_def Let_def)
  show "0 < ca_rate a" by (rule a(3))
qed

text \<open>The first samples of cached audio, on an utterance that has none yet.\<close>

lemma play_head_ok:
  assumes l: "in_flight (outlook_of vs) u" and idle: "\<not> is_playing vs" "\<not> ul_playbackActive u" "vs_pendingFailure vs = None"
    and pb: "has_output vs" and h: "valid_head a = Some bs"
  shows "voice_session_ok (play_head m a bs vs)"
proof -
  let ?n = "length (fst (toPcm16 bs None))"
  let ?x = "real ?n / ca_rate a"
  note head = valid_headD [OF h]
  have x: "0 < ?x" using head by simp
  obtain w t where s: "schedule_audio m ?n (ca_rate a) vs = (w, t)" by fastforce
  have play: "is_playing w" using schedule_outlook(3) [OF s head(2) pb] by simp
  have fl: "in_flight (outlook_of w) u" using l unfolding schedule_outlook(1) [OF s] in_flight_playing by simp
  have live: "\<not> is_terminal (ul_current u)" "0 \<le> ul_receivedSeconds u" using l by (simp_all add: in_flight_def lifecycle_inv_def)
  have "\<exists>u1. apply_signal (AudioReceived ?x) (mo_perf m) u = (u1, None)"
    using live x by (auto simp: apply_signal_def Let_def)
  then obtain u1 where a1: "apply_signal (AudioReceived ?x) (mo_perf m) u = (u1, None)" by blast
  have u1: "ul_sourceComplete u1 = ul_sourceComplete u" "ul_playbackActive u1 = ul_playbackActive u" "hasAudio u1"
    using a1 live x by (auto simp: apply_signal_def Let_def hasAudio_def split: if_splits)
  let ?r = "signal m (AudioReceived ?x) w"
  have fl1: "in_flight (outlook_of ?r) u1"
  proof -
    have r: "?r = armWatchdog m (w\<lparr>vs_utterance := Some u1\<rparr>)" using fl a1 by (simp add: signal_def in_flight_def)
    have "lifecycle_inv u1" using apply_signal_inv [of u "AudioReceived ?x" "mo_perf m"] a1 fl by (simp add: in_flight_def)
    moreover have "\<not> is_terminal (ul_current u1)" using a1 live by (auto simp: apply_signal_def Let_def split: if_splits)
    ultimately show ?thesis using fl u1 apply_signal_id [OF a1] unfolding r in_flight_def by (simp add: armWatchdog_def)
  qed
  have "is_playing ?r" using play fl a1 by (simp add: signal_def in_flight_def is_playing_def)
  from started_steady [OF fl1 this u1(3), of m] obtain u2 where st: "steady (outlook_of (signal m PlaybackStarted ?r)) u2"
    and pl: "is_playing (signal m PlaybackStarted ?r)" by blast
  define vs5 where "vs5 = setStatus SPEAKING (on_ledger (firstSamplePlayed (firstSampleWallTime m (the t))) (on_ledger (mark FirstAudioByte (mo_wall m))
      (on_voice (noteLocalPlayback True) (signal m PlaybackStarted ?r))))"
  have st5: "steady (outlook_of vs5) u2" using st by (simp add: vs5_def)
  have play5: "is_playing vs5" using pl unfolding vs5_def by (simp add: playing_same)
  have pb5: "has_output vs5" using playing_output play5 by simp
  have "play_head m a bs vs = (case ca_tailFrom a of
           Some k \<Rightarrow> on_ledger (mark AudioFetchStarted (mo_wall m))
                       (vs5\<lparr>vs_tail := Some \<lparr>tl_from = k, tl_rate = ca_rate a, tl_total = ca_totalBytes a, tl_carry = None, tl_received = 0\<rparr>\<rparr>)
         | None \<Rightarrow>
             if ca_totalBytes a \<noteq> None \<and> ca_totalBytes a \<noteq> Some (length bs)
             then failAfterDrain m ''CACHED_HEAD_TRUNCATED'' vs5
             else signal m SourceComplete vs5)"
    unfolding play_head_def Let_def s prod.case vs5_def by (rule refl)
  then show ?thesis
    using voice_session_okI(2) [OF tail_some [OF st5 _ pb5]] head(1) fail_after_drain_ok [OF voice_session_okI(2) [OF st5]]
      complete_ok [OF steady_level [OF st5]] by (auto split: option.split)
qed

lemma begin_outlook:
  fixes m :: moment and a :: speech_authorization
  assumes "quiet (outlook_of vs)"
  defines "u \<equiv> new_lifecycle (au_utteranceId (sa_request a)) (au_action (sa_request a)) (if sa_audio a \<noteq> None then CACHED else MODEL) (mo_perf m)"
  shows "in_flight (outlook_of (begin_utterance m a timing vs)) u" and "\<not> is_playing (begin_utterance m a timing vs)"
    and "vs_pendingFailure (begin_utterance m a timing vs) = None" and "vs_playback (begin_utterance m a timing vs) = vs_playback vs"
proof -
  define w where "w = vs\<lparr>vs_utterance := Some u, vs_serial := vs_serial vs + 1,
      vs_speechWaitStartedAt := mo_perf m, vs_emptyTurnAtMs := None, vs_pendingFailure := None,
      vs_accepted := vs_accepted vs @ [au_utteranceId (sa_request a)]\<rparr>"
  have w: "outlook_of (begin_utterance m a timing vs) = outlook_of w" "vs_playback (begin_utterance m a timing vs) = vs_playback w"
    unfolding begin_utterance_def Let_def w_def u_def
    by (cases timing; simp split: prod.split; simp add: on_ledger_def split: prod.split)+
  have u: "lifecycle_inv u" "ul_current u = AUTHORIZED" "\<not> ul_sourceComplete u" "ul_id u = au_utteranceId (sa_request a)"
    using lifecycle_inv_new by (simp_all add: u_def) (simp_all add: new_lifecycle_def)
  have "is_playing w = is_playing vs" by (simp add: w_def is_playing_def)
  then have k: "in_flight (outlook_of w) u \<and> \<not> is_playing w \<and> vs_pendingFailure w = None"
    using assms(1) u by (simp add: in_flight_def quiet_def) (simp add: w_def)
  then show "in_flight (outlook_of (begin_utterance m a timing vs)) u" by (simp add: w)
  show "\<not> is_playing (begin_utterance m a timing vs)" using k w(1) by (metis outlook_sel(9))
  show "vs_pendingFailure (begin_utterance m a timing vs) = None" using k w(1) by (metis outlook_sel(4))
  show "vs_playback (begin_utterance m a timing vs) = vs_playback vs" using w(2) by (simp add: w_def)
qed

lemma to_model_level:
  assumes "in_flight (outlook_of vs) u" and "\<not> hasAudio u" and "\<not> is_playing vs" and "\<not> ul_playbackActive u" and "vs_pendingFailure vs = None"
  shows "level (outlook_of (to_model vs)) (u\<lparr>ul_source := MODEL\<rparr>)"
proof -
  have "vs_utterance vs = Some u" "\<not> is_terminal (ul_current u)" "lifecycle_inv u" using assms(1) by (simp_all add: in_flight_def)
  moreover have "lifecycle_inv (u\<lparr>ul_source := MODEL\<rparr>)"
    using switchSource_inv [of u MODEL] calculation assms(2) by (simp add: switchSource_def)
  ultimately show ?thesis using assms by (simp add: to_model_def level_def in_flight_def switchSource_def)
qed

lemma speak_ok:
  assumes "voice_session_ok vs"
  shows "voice_session_ok (speak m a timing vs)"
proof (cases "map_option ul_id (vs_utterance vs) = Some (au_utteranceId (sa_request a)) \<or> au_utteranceId (sa_request a) \<in> set (vs_finished vs)")
  case False
  define vs1 where "vs1 = (if vs_utterance vs = None then vs else fail_now m ''SUPERSEDED'' vs)"
  define vs2 where "vs2 = begin_utterance m a timing vs1"
  let ?u = "new_lifecycle (au_utteranceId (sa_request a)) (au_action (sa_request a)) (if sa_audio a \<noteq> None then CACHED else MODEL) (mo_perf m)"
  have q: "quiet (outlook_of vs1)" using assms fail_now_quiet voice_session_ok_idle by (auto simp: vs1_def)
  note b = begin_outlook [OF q, of m a timing, folded vs2_def]
  have u: "\<not> ul_playbackActive ?u" "\<not> hasAudio ?u" "ul_id ?u = au_utteranceId (sa_request a)"
    "ul_source ?u = (if sa_audio a \<noteq> None then CACHED else MODEL)"
    by (simp_all add: new_lifecycle_def hasAudio_def)
  have model: "voice_session_ok (speak_model m a (to_model vs2))"
    by (rule speak_model_ok [OF to_model_level [OF b(1) u(2) b(2) u(1) b(3)]]) (simp add: new_lifecycle_def)
  have direct: "voice_session_ok (speak_model m a vs2)" if "sa_audio a = None"
  proof (rule speak_model_ok)
    show "level (outlook_of vs2) ?u" using b u that by (simp add: level_def)
  qed (simp add: new_lifecycle_def)
  have head: "voice_session_ok (play_head m audio bs vs2)" if "valid_head audio = Some bs" "vs_playback vs2 \<noteq> None" for audio bs
    by (rule play_head_ok [OF b(1) b(2) u(1) b(3) _ that(1)]) (use that(2) in \<open>simp add: has_output_def\<close>)
  have "speak m a timing vs = (case sa_audio a of
                    None \<Rightarrow> speak_model m a vs2
                  | Some audio \<Rightarrow>
                      if vs_playback vs2 = None then speak_model m a (to_model vs2)
                      else (case valid_head audio of
                              None \<Rightarrow> speak_model m a (to_model vs2)
                            | Some bs \<Rightarrow> play_head m audio bs vs2))"
    using False unfolding speak_def Let_def vs2_def vs1_def by (simp only: if_False)
  then show ?thesis using model direct head by (auto split: option.split)
qed (use assms in \<open>auto simp: speak_def Let_def\<close>)

section \<open>The tail, the microphone switch and the stop\<close>

lemma tail_headers_ok: "voice_session_ok vs \<Longrightarrow> voice_session_ok (tail_headers n vs)"
proof -
  let ?t = "map_option (\<lambda>t. t\<lparr>tl_total := (case tl_total t of
     Some k \<Rightarrow> Some k | None \<Rightarrow> (case n of Some k \<Rightarrow> if k > 0 then Some k else None | None \<Rightarrow> None))\<rparr>) (vs_tail vs)"
  have "outlook_of (tail_headers n vs) = (outlook_of vs)\<lparr>ol_tail := ?t\<rparr>" by (simp add: tail_headers_def outlook_of_def)
  then show "voice_session_ok vs \<Longrightarrow> voice_session_ok (tail_headers n vs)"
    unfolding voice_session_ok_def by (auto simp: quiet_def steady_def in_flight_def)
qed

lemma tail_failed_ok: "voice_session_ok vs \<Longrightarrow> voice_session_ok (tail_failed m why vs)"
  using fail_after_drain_ok tail_none_ok by (simp add: tail_failed_def)

lemma busy_tail:
  assumes "voice_session_ok vs" and "vs_tail vs = Some t"
  obtains u where "steady (outlook_of vs) u"
  using assms by (auto simp: voice_session_ok_def quiet_def)

lemma tail_done_ok:
  assumes "voice_session_ok vs"
  shows "voice_session_ok (tail_done m vs)"
proof (cases "vs_tail vs")
  case (Some t)
  obtain u where "steady (outlook_of vs) u" using busy_tail [OF assms Some] .
  from complete_ok [OF steady_level [OF this]] have "voice_session_ok (signal m SourceComplete vs)" .
  then show ?thesis using Some tail_failed_ok [OF assms] tail_none_ok by (simp add: tail_done_def)
qed (simp add: tail_done_def assms)

lemma tail_chunk_ok:
  assumes "voice_session_ok vs"
  shows "voice_session_ok (tail_chunk m bs vs)"
proof (cases "vs_tail vs")
  case (Some t)
  obtain u where st: "steady (outlook_of vs) u" using busy_tail [OF assms Some] .
  obtain pcm carry where dec: "toPcm16 bs (tl_carry t) = (pcm, carry)" by fastforce
  have rate: "0 < tl_rate t" and pb: "has_output vs" using st Some by (auto simp: steady_def in_flight_def)
  let ?v = "vs\<lparr>vs_tail := Some (t\<lparr>tl_received := tl_received t + length bs, tl_carry := carry\<rparr>)\<rparr>"
  have v: "steady (outlook_of ?v) u" by (rule tail_some [OF st]) (simp_all add: rate pb)
  show ?thesis
  proof (cases "pcm = []")
    case True
    then show ?thesis using Some dec voice_session_okI(2) [OF v] by (simp add: tail_chunk_def)
  next
    case False
    let ?x = "real (length pcm) / tl_rate t"
    have x: "0 < ?x" using False rate by simp
    let ?r = "signal m (AudioReceived ?x) ?v"
    obtain w a where s: "schedule_audio m (length pcm) (tl_rate t) ?r = (w, a)" by fastforce
    have "has_output ?r" using received_playback [OF steady_level [OF v]] pb by (simp add: has_output_def)
    then have "is_playing w" using schedule_outlook(3) [OF s] False by simp
    from chunk_steady [OF steady_level [OF v] x s this] have "voice_session_ok (signal m PlaybackStarted w)"
      using voice_session_okI(2) by blast
    moreover have "tail_chunk m bs vs = on_voice (noteLocalPlayback True) (signal m PlaybackStarted w)"
      unfolding tail_chunk_def Some option.case dec Let_def prod.case s fst_conv using False by (simp only: if_False)
    ultimately show ?thesis by simp
  qed
qed (use assms in \<open>simp add: tail_chunk_def\<close>)

lemma stopping_ok:
  assumes k: "outlook_of w = (outlook_of vs)\<lparr>ol_stopping := True, ol_watchdog := None\<rparr>" and ok: "voice_session_ok vs"
  shows "voice_session_ok w"
  using ok
proof (cases rule: voice_session_okE)
  case quiet
  then have "quiet (outlook_of w)" unfolding k by (simp add: quiet_def)
  then show ?thesis by (rule voice_session_okI)
next
  case (steady u)
  have eqs: "ol_utterance (outlook_of w) = ol_utterance (outlook_of vs)" "ol_tail (outlook_of w) = ol_tail (outlook_of vs)"
    "ol_pendingFailure (outlook_of w) = ol_pendingFailure (outlook_of vs)" "ol_pendingSpeech (outlook_of w) = ol_pendingSpeech (outlook_of vs)"
    "ol_outcomes (outlook_of w) = ol_outcomes (outlook_of vs)" "ol_accepted (outlook_of w) = ol_accepted (outlook_of vs)"
    "ol_playing (outlook_of w) = ol_playing (outlook_of vs)" "ol_output (outlook_of w) = ol_output (outlook_of vs)"
    "ol_stopping (outlook_of w) = True" "ol_watchdog (outlook_of w) = None"
    unfolding k by simp_all
  have "steady (outlook_of w) u" using steady unfolding steady_def in_flight_def eqs by blast
  then show ?thesis by (rule voice_session_okI)
qed

lemma stop_ok:
  assumes "voice_session_ok vs"
  shows "quiet (outlook_of (stop_session vo m vs))"
proof -
  let ?v = "vs\<lparr>vs_stopping := True, vs_readyGeneration := vs_readyGeneration vs + 1, vs_watchdog := None,
                    vs_reconnectTimer := None, vs_goAwayTimer := None\<rparr>"
  have "outlook_of ?v = (outlook_of vs)\<lparr>ol_stopping := True, ol_watchdog := None\<rparr>" by (simp add: outlook_of_def is_playing_def has_output_def)
  then have "voice_session_ok ?v" using assms by (rule stopping_ok)
  then have "quiet (outlook_of (signal m (Cancel ''SESSION_STOPPED'') (stop_audio ?v)))" by (rule break_session) simp
  then show ?thesis by (simp add: stop_session_def Let_def quiet_def is_playing_def)
qed

section \<open>A session's life\<close>

text \<open>
  The steps of a session: what the server authorizes, what the connection, the audio clock, the network and
  the timers do, in any order. It is started once; the connection may be any connection at each step.
\<close>

inductive voice_session_step :: "voice_session \<Rightarrow> voice_session \<Rightarrow> bool" where
  speak: "voice_session_step vs (speak m a timing vs)"
| model_audio: "voice_session_step vs (onModelAudio m c n uid vs)"
| model_done: "voice_session_step vs (onSpeechComplete m c uid had vs)"
| barge_in: "voice_session_step vs (onBargeIn m c vs)"
| provisional: "voice_session_step vs (onBargeInProvisional b vs)"
| ready: "voice_session_step vs (onReady m c vs)"
| lost: "voice_session_step vs (scheduleReconnect m e vs)"
| disconnected: "voice_session_step vs (onDisconnected m vs)"
| go_away: "voice_session_step vs (scheduleGoAwayRotation m t vs)"
| rotate: "voice_session_step vs (goAway_fires m vs)"
| reconnect: "voice_session_step vs (reconnect_fires vs)"
| connect: "voice_session_step vs (connectProvider m constrained vo vs)"
| connection: "voice_session_step vs (vs\<lparr>vs_voice := map_option (\<lambda>_. v) (vs_voice vs)\<rparr>)"
| ended: "voice_session_step vs (source_ended m i vs)"
| watchdog: "voice_session_step vs (watchdog_fires m vs)"
| headers: "voice_session_step vs (tail_headers k vs)"
| chunk: "voice_session_step vs (tail_chunk m bs vs)"
| tail_end: "voice_session_step vs (tail_done m vs)"
| tail_error: "voice_session_step vs (tail_failed m ''CACHED_TAIL_FAILED'' vs)"
| mute: "voice_session_step vs (session_setMuted vo m b vs)"
| stop: "voice_session_step vs (stop_session vo m vs)"


lemma connection_ok: "voice_session_ok vs \<Longrightarrow> voice_session_ok (vs\<lparr>vs_voice := x\<rparr>)" "voice_session_ok vs \<Longrightarrow> voice_session_ok (reconnect_fires vs)"
  "voice_session_ok vs \<Longrightarrow> voice_session_ok (session_setMuted vo m b vs)"
  by (simp_all add: reconnect_fires_def session_setMuted_def voice_session_ok_def)

lemmas handlers_ok = speak_ok model_audio_ok speech_complete_ok barge_in_ok provisional_ok ready_ok scheduleReconnect_ok
  disconnected_ok go_away_ok connect_ok connection_ok source_ended_ok watchdog_fires_ok tail_headers_ok tail_chunk_ok
  tail_done_ok tail_failed_ok voice_session_okI(1) [OF stop_ok]

interpretation session_kept: kept_by_steps voice_session_step voice_session_ok
proof unfold_locales
  fix vs w
  assume "voice_session_ok vs" and "voice_session_step vs w"
  from this(2,1) show "voice_session_ok w" by cases (simp_all only: handlers_ok)
qed

lemma voice_session_ok_start: "voice_session_ok (start_session new_session_voice)"
  by (rule voice_session_okI) (simp add: quiet_def start_session_def new_session_voice_def is_playing_def isPlaying_def new_playback_def)

lemma session_reached: "voice_session_step\<^sup>*\<^sup>* (start_session new_session_voice) vs \<Longrightarrow> voice_session_ok vs"
  using session_kept.kept_by_closure voice_session_ok_start by blast

text \<open>What the law says of a session.\<close>

lemma voice_session_ok_book:
  "voice_session_ok vs \<Longrightarrow> map ur_utteranceId (vs_outcomes vs) @ (case vs_utterance vs of None \<Rightarrow> [] | Some u \<Rightarrow> [ul_id u]) = vs_accepted vs"
  by (erule voice_session_okE) (auto simp: quiet_def steady_def in_flight_def)

lemma voice_session_ok_silent:
  "voice_session_ok vs \<Longrightarrow> vs_utterance vs = None \<Longrightarrow>
    \<not> is_playing vs \<and> vs_watchdog vs = None \<and> vs_tail vs = None \<and> vs_pendingFailure vs = None \<and> vs_pendingSpeech vs = None"
  by (drule (1) voice_session_ok_idle) (simp add: quiet_def)

lemma voice_session_ok_moving:
  assumes "voice_session_ok vs" and "vs_utterance vs = Some u" and "\<not> vs_stopping vs"
  shows "is_playing vs \<or> (\<exists>d why. vs_watchdog vs = Some (vs_serial vs, d, why))"
proof -
  have st: "steady (outlook_of vs) u" by (rule voice_session_ok_busy [OF assms(1,2)])
  show ?thesis
  proof (cases "vs_watchdog vs")
    case (Some q)
    then show ?thesis using st by (cases q) (simp add: steady_def)
  qed (use st assms(3) in \<open>simp add: steady_def\<close>)
qed

section \<open>How an utterance ends\<close>

lemma outcomes_frames [simp]:
  "vs_outcomes (after_failure u r vs) = vs_outcomes vs"
  by (simp add: after_failure_def reconnect_later_def Let_def setStatus_def tell_error_def diagnose_def postVoiceReady_def)

lemma finish_outcomes: "vs_outcomes (finishUtterance m u r vs) = vs_outcomes vs @ [r]"
proof -
  have rel: "vs_outcomes (release_utterance u r vs) = vs_outcomes vs" unfolding release_utterance_def Let_def by simp
  have "vs_outcomes (record_outcome m u r w) = vs_outcomes w @ [r]" for w
    unfolding record_outcome_def Let_def by (simp add: setStatus_def on_ledger_def)
  then show ?thesis using rel unfolding finishUtterance_def Let_def by simp
qed

lemma finished_none: "in_flight (outlook_of vs) u \<Longrightarrow> breaks s \<Longrightarrow> vs_utterance (signal m s vs) = None"
  using break_quiet by (fastforce simp: quiet_def)

lemma fail_outcome:
  assumes "in_flight (outlook_of vs) u"
  shows "\<exists>r. vs_outcomes (fail_now m why vs) = vs_outcomes vs @ [r] \<and> ur_utteranceId r = ul_id u \<and> ur_outcome r = FAILED \<and>
    ur_reason r = the_reason (Some why)"
proof -
  have u: "vs_utterance vs = Some u" "\<not> is_terminal (ul_current u)" using assms by (simp_all add: in_flight_def)
  then have "vs_utterance (stop_audio vs) = Some u" by simp
  moreover have "\<exists>u1 r. apply_signal (Fail why (Some (unplayed m vs))) (mo_perf m) u = (u1, Some r) \<and> ur_outcome r = FAILED \<and>
      ur_utteranceId r = ul_id u \<and> ur_reason r = the_reason (Some why)"
    using u(2) by (auto simp: apply_signal_def finish_def Let_def)
  ultimately show ?thesis unfolding fail_now_def Let_def signal_def by (auto simp: finish_outcomes)
qed


text \<open>A deadline that passes ends the utterance as a failure, unless it was about a stall that has passed.\<close>

lemma watchdog_ends:
  assumes ok: "voice_session_ok vs" and w: "vs_watchdog vs = Some (serial, d, why)"
    and "\<not> (why \<in> {''MID_STREAM_STALL'', ''CACHED_TAIL_STALL''} \<and> is_playing vs)"
  shows "\<exists>u r. vs_utterance vs = Some u \<and> vs_utterance (watchdog_fires m vs) = None \<and> \<not> is_playing (watchdog_fires m vs) \<and>
    vs_outcomes (watchdog_fires m vs) = vs_outcomes vs @ [r] \<and> ur_utteranceId r = ul_id u \<and> ur_outcome r = FAILED \<and>
    ur_reason r = the_reason (Some why)"
proof -
  let ?v = "vs\<lparr>vs_watchdog := None\<rparr>"
  obtain u where st: "steady (outlook_of vs) u" using ok w by (auto simp: voice_session_ok_def quiet_def)
  have fl: "in_flight (outlook_of ?v) u" and u: "vs_utterance vs = Some u" and "serial = vs_serial vs"
    using st w by (auto simp: steady_def in_flight_def)
  then have f: "watchdog_fires m vs = fail_now m why ?v"
    unfolding watchdog_fires_def w option.case prod.case Let_def using assms(3) by auto
  have "in_flight (outlook_of (stop_audio ?v)) u" using fl by (simp add: in_flight_def)
  then have "quiet (outlook_of (fail_now m why ?v))" unfolding fail_now_def Let_def by (rule break_quiet) simp
  then have "vs_utterance (fail_now m why ?v) = None \<and> \<not> is_playing (fail_now m why ?v)" by (simp add: quiet_def)
  then show ?thesis using fail_outcome [OF fl, of m why] u unfolding f by auto
qed

text \<open>The last source of an utterance whose audio is all here completes it.\<close>

lemma drained_completes:
  assumes ok: "voice_session_ok vs" and u: "vs_utterance vs = Some u" "ul_sourceComplete u" and "vs_pendingFailure vs = None"
    and still: "\<not> is_playing (vs\<lparr>vs_playback := map_option (release_source i) (vs_playback vs)\<rparr>)"
  shows "\<exists>r. vs_utterance (source_ended m i vs) = None \<and> vs_outcomes (source_ended m i vs) = vs_outcomes vs @ [r] \<and>
    ur_utteranceId r = ul_id u \<and> ur_outcome r = COMPLETED"
proof -
  have st: "steady (outlook_of vs) u" by (rule voice_session_ok_busy [OF ok u(1)])
  let ?v = "vs\<lparr>vs_playback := map_option (release_source i) (vs_playback vs)\<rparr>"
  let ?w = "on_voice (noteModelPlayback (utterance_source ?v = Some MODEL \<and> is_playing ?v)) ?v"
  have live: "\<not> is_terminal (ul_current u)" "ul_playbackActive u" using st u(2) unfolding steady_def in_flight_def by blast+
  then obtain u1 r where a: "apply_signal PlaybackDrained (mo_perf m) u = (u1, Some r)" and r: "ur_outcome r = COMPLETED" "ur_utteranceId r = ul_id u"
    using u(2) by (auto simp: apply_signal_def Let_def finish_def)
  have e: "source_ended m i vs = finishUtterance m u1 r (?w\<lparr>vs_utterance := Some u1\<rparr>)"
    unfolding source_ended_def onPlaybackProgress_def Let_def using still u(1) assms(4) a by (simp add: signal_def)
  have "outlook_of ?w = (outlook_of vs)\<lparr>ol_playing := is_playing ?v\<rparr>" by (simp add: outlook_of_def)
  then have fl: "in_flight (outlook_of ?w) u" using st by (simp only: in_flight_playing steady_def)
  have "quiet (outlook_of (source_ended m i vs))" unfolding e
    by (rule finish_quiet [OF fl]) (use r still apply_signal_id [OF a] in simp_all)
  moreover have "vs_outcomes (source_ended m i vs) = vs_outcomes vs @ [r]" unfolding e finish_outcomes by simp
  ultimately show ?thesis using r by (auto simp: quiet_def)
qed

section \<open>The close of a connection that was replaced\<close>

text \<open>
  A socket reports its close after the call that closed it has returned, when \<open>replacingVoice\<close> is false
  again, and the callback does not ask which connection it belongs to. The close of a connection that was
  replaced while it was open therefore counts as the loss of the new one: the model's utterance fails, and
  the reconnection that is scheduled replaces an open connection again.
\<close>

lemma reconnect_timer_set:
  assumes "\<not> vs_stopping vs" and "vs_reconnectTimer vs = None"
  shows "vs_reconnectTimer (scheduleReconnect m e vs) \<noteq> None"
  using assms by (simp add: scheduleReconnect_def reconnect_later_def Let_def)

lemma connected_idle:
  assumes "\<not> vs_stopping vs"
  shows "\<not> vs_stopping (connectProvider m True vo vs) \<and> \<not> vs_replacing (connectProvider m True vo vs) \<and>
    vs_reconnectTimer (connectProvider m True vo vs) = vs_reconnectTimer vs"
  using assms by (simp add: connectProvider_def Let_def)

lemma late_close_reconnects:
  assumes "\<not> vs_stopping vs" and "vs_reconnectTimer vs = None"
  shows "vs_reconnectTimer (onDisconnected m1 (connectProvider m True vo vs)) \<noteq> None"
  using connected_idle [OF assms(1), of m vo] assms(2) reconnect_timer_set by (simp add: onDisconnected_def)

end
