(* ===== verification/VoiceExample.thy ===== *)
theory VoiceExample
  imports VoiceOutcomes
begin

text \<open>A session whose model speaks one utterance, of a tenth of a second, to its end.\<close>

definition at_ms :: "real \<Rightarrow> moment" where
  "at_ms t = \<lparr>mo_perf = t, mo_wall = t, mo_audio = t / 1000, mo_running = True, mo_latency = 0\<rparr>"

definition demo_speech :: speech_authorization where
  "demo_speech = \<lparr>sa_request = \<lparr>au_action = ''DELIVER_BRIEF'', au_utteranceId = ''u''\<rparr>, sa_audio = None\<rparr>"

definition demo_asked :: voice_session where
  "demo_asked = speak (at_ms 0) demo_speech None (start_session new_session_voice)"

definition demo_heard :: voice_session where
  "demo_heard = onModelAudio (at_ms 10) 0 2400 (Some ''u'') demo_asked"

definition demo_sent :: voice_session where
  "demo_sent = onSpeechComplete (at_ms 20) 0 (Some ''u'') True demo_heard"

definition demo_lifecycle :: lifecycle where
  "demo_lifecycle = new_lifecycle ''u'' ''DELIVER_BRIEF'' MODEL 0"

lemma demo_lifecycle_sel:
  "ul_id demo_lifecycle = ''u''" "ul_source demo_lifecycle = MODEL" "ul_current demo_lifecycle = AUTHORIZED"
  "\<not> hasAudio demo_lifecycle" "ul_receivedSeconds demo_lifecycle = 0" "\<not> ul_sourceComplete demo_lifecycle"
  by (simp_all add: demo_lifecycle_def new_lifecycle_def hasAudio_def)

lemma demo_asked_facts:
  "vs_utterance demo_asked = Some demo_lifecycle" "vs_conn demo_asked = 0" "vs_playback demo_asked = Some new_playback"
  "\<not> vs_stopping demo_asked" "vs_outcomes demo_asked = []" "vs_accepted demo_asked = [''u'']" "vs_voice demo_asked = None"
  "vs_watchdog demo_asked = Some (1, 20000, ''PROVIDER_UNAVAILABLE'')" "vs_pendingFailure demo_asked = None" "vs_serial demo_asked = 1"
proof -
  have asked: "demo_asked =
      speak_model (at_ms 0) demo_speech (begin_utterance (at_ms 0) demo_speech None (start_session new_session_voice))"
    by (simp add: demo_asked_def speak_def demo_speech_def start_session_def new_session_voice_def)
  show "vs_utterance demo_asked = Some demo_lifecycle" "vs_conn demo_asked = 0" "vs_playback demo_asked = Some new_playback"
    "\<not> vs_stopping demo_asked" "vs_outcomes demo_asked = []" "vs_accepted demo_asked = [''u'']" "vs_voice demo_asked = None"
    "vs_watchdog demo_asked = Some (1, 20000, ''PROVIDER_UNAVAILABLE'')" "vs_pendingFailure demo_asked = None" "vs_serial demo_asked = 1"
    unfolding asked
    by (simp_all add: speak_model_def Let_def voice_ready_def begin_utterance_def on_ledger_def start_session_def new_session_voice_def
        armWatchdog_def deadline_def demo_speech_def demo_lifecycle_def new_lifecycle_def hasAudio_def at_ms_def providerUnavailableMs_def)
qed

lemma demo_asked_reached: "voice_session_step\<^sup>*\<^sup>* (start_session new_session_voice) demo_asked"
  unfolding demo_asked_def by (rule r_into_rtranclp) (rule voice_session_step.speak)

lemma demo_sent_reached: "voice_session_step\<^sup>*\<^sup>* (start_session new_session_voice) demo_sent"
proof -
  have "voice_session_step demo_asked demo_heard" unfolding demo_heard_def by (rule voice_session_step.model_audio)
  moreover have "voice_session_step demo_heard demo_sent" unfolding demo_sent_def by (rule voice_session_step.model_done)
  ultimately show ?thesis using demo_asked_reached by (meson rtranclp.rtrancl_into_rtrancl)
qed

definition demo_playing :: lifecycle where
  "demo_playing = demo_lifecycle\<lparr>ul_receivedSeconds := 1 / 10, ul_playbackActive := True, ul_current := PLAYING\<rparr>"

definition demo_output :: playback where
  "demo_output = fst (enqueueAt WEB_SINK 2400 24000 (1 / 100) True new_playback)"

lemma demo_heard_facts:
  "vs_utterance demo_heard = Some demo_playing" "vs_playback demo_heard = Some demo_output" "vs_conn demo_heard = 0"
  "\<not> vs_stopping demo_heard" "vs_outcomes demo_heard = []" "vs_accepted demo_heard = [''u'']" "vs_pendingFailure demo_heard = None"
proof -
  let ?u = "demo_lifecycle\<lparr>ul_receivedSeconds := 1 / 10, ul_current := FIRST_AUDIO\<rparr>"
  let ?m = "at_ms 10"
  let ?a = "armWatchdog ?m (demo_asked\<lparr>vs_utterance := Some ?u\<rparr>)"
  let ?b = "?a\<lparr>vs_playback := Some demo_output\<rparr>"
  let ?c = "armWatchdog ?m (?b\<lparr>vs_utterance := Some demo_playing\<rparr>)"
  have cur: "current_model 0 (Some ''u'') demo_asked" by (simp add: current_model_def demo_asked_facts demo_lifecycle_sel)
  have a: "signal ?m (AudioReceived (real 2400 / LIVE_OUTPUT_SAMPLE_RATE)) demo_asked = ?a"
    by (simp add: signal_def demo_asked_facts apply_signal_def demo_lifecycle_sel LIVE_OUTPUT_SAMPLE_RATE_def Let_def)
  have pb: "vs_playback ?a = Some new_playback" by (simp add: armWatchdog_def demo_asked_facts)
  obtain t where t: "enqueueAt WEB_SINK 2400 24000 (1 / 100) True new_playback = (demo_output, Some t)"
    unfolding demo_output_def by (simp add: enqueueAt_def Let_def)
  have now: "mo_audio ?m = 1 / 100" "mo_running ?m = True" by (simp_all add: at_ms_def)
  have b: "schedule_audio ?m 2400 LIVE_OUTPUT_SAMPLE_RATE ?a = (?b, Some t)"
    unfolding schedule_audio_def LIVE_OUTPUT_SAMPLE_RATE_def pb option.case now t prod.case by (rule refl)
  have "vs_utterance ?b = Some ?u" by (simp add: armWatchdog_def)
  then have c: "signal ?m PlaybackStarted ?b = ?c" by (simp add: signal_def apply_signal_def demo_playing_def)
  have heard: "demo_heard = on_ledger (firstSamplePlayed (firstSampleWallTime ?m t)) (on_ledger (mark FirstAudioByte (mo_wall ?m))
      (setStatus SPEAKING (on_voice (noteModelPlayback True) ?c)))"
    unfolding demo_heard_def onModelAudio_def using cur
    by (simp add: a b c demo_asked_facts demo_lifecycle_sel del: of_nat_numeral)
  show "vs_utterance demo_heard = Some demo_playing" "vs_playback demo_heard = Some demo_output" "vs_conn demo_heard = 0"
    "\<not> vs_stopping demo_heard" "vs_outcomes demo_heard = []" "vs_accepted demo_heard = [''u'']" "vs_pendingFailure demo_heard = None"
    unfolding heard by (simp_all add: setStatus_def on_ledger_def on_voice_def armWatchdog_def demo_asked_facts)
qed

lemma demo_sent_facts:
  "vs_utterance demo_sent = Some (demo_playing\<lparr>ul_sourceComplete := True\<rparr>)" "vs_playback demo_sent = Some demo_output"
  "\<not> vs_stopping demo_sent" "vs_outcomes demo_sent = []" "vs_accepted demo_sent = [''u'']" "vs_pendingFailure demo_sent = None"
proof -
  have "current_model 0 (Some ''u'') demo_heard"
    by (simp add: current_model_def demo_heard_facts demo_playing_def demo_lifecycle_sel)
  moreover have "apply_signal SourceComplete (mo_perf (at_ms 20)) demo_playing = (demo_playing\<lparr>ul_sourceComplete := True\<rparr>, None)"
    by (simp add: apply_signal_def demo_playing_def hasAudio_def Let_def)
  ultimately have sent: "demo_sent = armWatchdog (at_ms 20) (demo_heard\<lparr>vs_utterance := Some (demo_playing\<lparr>ul_sourceComplete := True\<rparr>)\<rparr>)"
    by (simp add: demo_sent_def onSpeechComplete_def signal_def demo_heard_facts)
  show "vs_utterance demo_sent = Some (demo_playing\<lparr>ul_sourceComplete := True\<rparr>)" "vs_playback demo_sent = Some demo_output"
    "\<not> vs_stopping demo_sent" "vs_outcomes demo_sent = []" "vs_accepted demo_sent = [''u'']" "vs_pendingFailure demo_sent = None"
    unfolding sent by (simp_all add: armWatchdog_def demo_heard_facts)
qed

lemma demo_output_ends: "\<not> isPlaying (release_source 0 demo_output)"
  by (simp add: demo_output_def enqueueAt_def release_source_def isPlaying_def new_playback_def sink_call_def Let_def)

lemma demo_output_plays: "isPlaying demo_output"
  by (simp add: demo_output_def enqueueAt_def isPlaying_def new_playback_def sink_call_def Let_def)

end
