(* ===== verification/BriefRequest.thy ===== *)
theory BriefRequest
  imports JsRegex
begin

text \<open>
  \<open>orchestrator/brief-request.ts\<close>: does a turn ask to hear the problem again?
\<close>

text \<open>The text \<open>$1s\<close> of the replacement: the first capture followed by \<open>s\<close>.\<close>

definition group1_s :: "string \<Rightarrow> string \<Rightarrow> mstate \<Rightarrow> string" where
  "group1_s whole m st = (case capture whole st 1 of Some g \<Rightarrow> g | None \<Rightarrow> []) @ ''s''"

definition brief_text :: "string \<Rightarrow> string" where
  "brief_text s =
     (let t1 = to_lower s;
          t2 = replace_all False (rx ''%bwha%s+t%b'') (\<lambda>_ _. ''what'') t1;
          t3 = replace_all False (rx ''%b(problem|question|task|challenge)%s+s%b'') (group1_s t2) t2
      in trim (squeeze_white t3))"

definition isBriefRequest :: "string \<Rightarrow> bool" where
  "isBriefRequest s =
     (let text = brief_text s in
      if re_test False (rx ''%b(?:with|in) (?:my|the|this|that|our|your) (?:code|solution|approach|algorithm|implementation)%b'') text
      then False
      else
        re_test False (rx ''%b(say that again|repeat (that|the (question|problem))|hear that again|didn'?t (quite )?catch|missed that)%b'') text
        \<or> re_test True (rx ''%bwhat(?:'s| (?:is|are)) (?:the |our |my |this |these )?(?:coding )?(?:problems?|questions?|tasks?|challenges?)(?=%s*(?:[?.!]|$|that%b|we%b|today%b|for (?:today|this interview)%b))'') text
        \<or> re_test True (rx ''%b(?:tell|read|repeat|restate|explain|describe) (?:me |to me )?(?:what (?:the |our )?)?(?:the |our )?(?:coding )?(?:problem|question|task|challenge)(?:s| statement)?(?=%s*(?:[?.!]|$|is%b|are%b|again%b|please%b))'') text)"

end
