(* ===== verification/Classifier.thy ===== *)
theory Classifier
  imports Contracts BriefRequest
begin

text \<open>
  \<open>orchestrator/classifier.ts\<close>: the deterministic turn classifier, and the rule that a transcript
  ending on a connective is not a finished thought. The interface \<open>IntentClassifier\<close> is a locale:
  the runtime may be handed another implementation (a model), and what the runtime relies on is
  stated there and interpreted on the rule-based one.
\<close>

record turn_classification =
  cl_intent :: turn_intent
  intentProbabilities :: "(turn_intent \<times> real) list"
  cl_endProbability :: real
  classifierId :: string

definition INTENT_RULES :: "(turn_intent \<times> re) list" where
  "INTENT_RULES =
     [(HINT_REQUEST, rx ''%b(hint|nudge|point me|help me out|give me a clue|i'?m stuck|any suggestions?)%b''),
      (COMPLEXITY_CLAIM, rx ''%b(o%s*%(|big[- ]?o|linear time|constant (time|space)|quadratic|logarithmic|n log n|amortized)%b''),
      (DONE_SIGNAL, rx ''%b(i think that'?s it|that should (work|do it)|i'?m done|that'?s my solution|finished|ready for)%b''),
      (TEST_PLAN, rx ''%b(let me test|i'?ll test|edge case|test (it |this )?with|try it with|what if the input)%b''),
      (CONFUSION, rx ''%b(i'?m not sure|i'?m confused|no idea|i don'?t (know|follow|understand)|lost me)%b''),
      (SOCIAL_SMALL_TALK, rx ''%b(how are you|nice to meet|good morning|thanks(!| a lot)?$|sorry about|can you hear me)%b''),
      (APPROACH_COMMITMENT, rx ''%b(i'?ll use|i'?m going to use|let'?s go with|my approach (is|will be)|i'?ll implement)%b'')]"

definition CLARIFICATION_VOCAB :: re where
  "CLARIFICATION_VOCAB = rx ''%b(input|inputs|duplicates?|sorted|order(ing|ed)?|empty|null|none|negative|range|bounds?|size|length|constraints?|assume|guaranteed|mutate|in[- ]?place|return|tie|ties|case[- ]?sensitive|unicode|overflow)%b''"

definition INTERROGATIVE_OPENER :: re where
  "INTERROGATIVE_OPENER = rx ''^%s*(can|could|should|would|will|is|are|am|do|does|did|what|how|why|when|where|which|if|any)%b''"

definition TRAILING_CONTINUATION :: re where
  "TRAILING_CONTINUATION = rx ''%b(so|and|but|or|because|then|which|that|if|when|the|a|an|to|of|for|with|maybe|like|um|uh|erm|actually|basically|i|we|it)%s*$''"

definition endsMidThought :: "string \<Rightarrow> bool" where
  "endsMidThought s \<longleftrightarrow> re_test True TRAILING_CONTINUATION (trim s)"

definition MID_THOUGHT_CEILING :: real where
  "MID_THOUGHT_CEILING = 1/5"

definition intentOf :: "string \<Rightarrow> turn_intent" where
  "intentOf s =
     (if s = [] then THINK_ALOUD
      else if isBriefRequest s then EXPLICIT_QUESTION
      else (case List.find (\<lambda>rule. re_test True (snd rule) s) INTENT_RULES of
              Some rule \<Rightarrow> fst rule
            | None \<Rightarrow>
                (let looksLikeQuestion = ends_with s ''?'' \<or> re_test True INTERROGATIVE_OPENER s
                 in if looksLikeQuestion
                    then (if re_test True CLARIFICATION_VOCAB s then CLARIFICATION_REQUEST else EXPLICIT_QUESTION)
                    else THINK_ALOUD)))"

definition endProbability :: "string \<Rightarrow> bool \<Rightarrow> real" where
  "endProbability s final =
     (if \<not> final then 0
      else if s = [] then 0
      else if re_test True TRAILING_CONTINUATION s then 1/5
      else if isBriefRequest s then 19/20
      else if ends_with s ''?'' then 19/20
      else if re_test False (rx ''[.!]$'') s then 17/20
      else 11/20)"

definition classify :: "string \<Rightarrow> bool \<Rightarrow> turn_classification" where
  "classify input_transcript final =
     (let s = trim input_transcript; i = intentOf s in
      \<lparr>cl_intent = i, intentProbabilities = [(i, 1)], cl_endProbability = endProbability s final,
       classifierId = ''stub-rules-v1''\<rparr>)"

section \<open>The interface \<open>IntentClassifier\<close>\<close>

text \<open>
  What the runtime relies on: the end probability is a probability, a transcript that is still
  streaming never reads as finished, and one that ends on a connective stays under the veto.
\<close>

locale intent_classifier =
  fixes run_classifier :: "string \<Rightarrow> bool \<Rightarrow> turn_classification"
  assumes probability_range:
      "0 \<le> cl_endProbability (run_classifier s final) \<and> cl_endProbability (run_classifier s final) \<le> 1"
    and streaming_is_open: "cl_endProbability (run_classifier s False) = 0"
    and mid_thought_held: "endsMidThought s \<Longrightarrow> cl_endProbability (run_classifier s final) \<le> MID_THOUGHT_CEILING"
begin

lemma below_threshold_when_open:
  "0 < threshold \<Longrightarrow> cl_endProbability (run_classifier s False) < threshold"
  by (simp add: streaming_is_open)

lemma below_threshold_when_mid_thought:
  assumes "endsMidThought s" and "MID_THOUGHT_CEILING < threshold"
  shows "cl_endProbability (run_classifier s final) < threshold"
  using mid_thought_held [OF assms(1), of final] assms(2) by linarith

end

lemma endProbability_range: "0 \<le> endProbability s final \<and> endProbability s final \<le> 1"
  by (simp add: endProbability_def)

lemma trim_idem [simp]: "trim (trim s) = trim s"
proof -
  let ?d = "dropWhile is_white"
  have d: "?d (?d x) = ?d x" for x by (simp add: dropWhile_idem)
  have head: "?d (rev (?d (rev (?d s)))) = rev (?d (rev (?d s)))"
  proof (cases "rev (?d (rev (?d s)))")
    case (Cons c cs)
    have suffix: "\<exists>zs. ?d s = rev (?d (rev (?d s))) @ zs"
      by (metis rev_append rev_rev_ident takeWhile_dropWhile_id)
    with Cons obtain zs where "?d s = c # cs @ zs" by auto
    then have "\<not> is_white c" by (metis dropWhile_eq_Cons_conv)
    with Cons show ?thesis by simp
  next
    case Nil
    show ?thesis unfolding Nil by simp
  qed
  show ?thesis unfolding trim_def by (simp add: head d)
qed

interpretation rules: intent_classifier classify
proof unfold_locales
  fix s final
  show "0 \<le> cl_endProbability (classify s final) \<and> cl_endProbability (classify s final) \<le> 1"
    by (simp add: classify_def Let_def endProbability_range)
  show "cl_endProbability (classify s False) = 0"
    by (simp add: classify_def Let_def endProbability_def)
  assume "endsMidThought s"
  then show "cl_endProbability (classify s final) \<le> MID_THOUGHT_CEILING"
    by (simp add: classify_def Let_def endProbability_def endsMidThought_def MID_THOUGHT_CEILING_def)
qed

text \<open>
  No unpunctuated statement reaches the threshold of any mode; only a question mark, a request for
  the brief, or a closing full stop can.
\<close>

lemma endProbability_unpunctuated:
  assumes "\<not> ends_with s ''?''" and "\<not> isBriefRequest s" and "\<not> re_test False (rx ''[.!]$'') s"
  shows "endProbability s final \<le> 11/20"
  using assms by (simp add: endProbability_def)

lemma classify_hint_first:
  assumes "trim s \<noteq> []" and "\<not> isBriefRequest (trim s)"
    and "re_test True (rx ''%b(hint|nudge|point me|help me out|give me a clue|i'?m stuck|any suggestions?)%b'') (trim s)"
  shows "cl_intent (classify s final) = HINT_REQUEST"
  using assms by (simp add: classify_def Let_def intentOf_def INTENT_RULES_def)

end
