(* ===== verification/VoiceTranscript.thy ===== *)
theory VoiceTranscript
  imports LatencyLedger Classifier Step_Closure
begin

text \<open>
  \<open>apps/web/lib/voice-session.ts\<close>, the candidate's words and the reports: the pieces of a transcript that
  the provider sends are collected until the candidate is silent, and handed on as one final transcript; and
  the bounded retries of the reports to the server. \<open>vt_received\<close> and \<open>vt_batches\<close> record the final pieces
  that came and those of each final transcript. Instants are the wall clock in milliseconds.
\<close>

section \<open>Assembling\<close>

definition add_chunk :: "string \<Rightarrow> string \<Rightarrow> string" where
  "add_chunk assembled chunk =
     (let new = trim chunk
      in if new = [] then assembled
         else if assembled \<noteq> [] \<and> starts_with new assembled then new
         else if \<not> ends_with assembled new then (if assembled = [] then new else assembled @ '' '' @ new)
         else assembled)"

definition last_part :: "nat \<Rightarrow> 'a list \<Rightarrow> 'a list" where
  "last_part n xs = drop (length xs - n) xs"

definition assembleTranscript :: "string list \<Rightarrow> string" where
  "assembleTranscript chunks = last_part 800 (foldl add_chunk [] chunks)"

section \<open>Collecting\<close>

record voice_transcript =
  vt_speechOpen :: bool
  vt_awaiting :: bool
  vt_interim :: string
  vt_chunks :: "string list"
  vt_timer :: "real option"
  vt_notBefore :: real
  vt_preStopInterim :: "real option"
  vt_preStopFinal :: "real option"
  vt_preStopChunks :: nat
  vt_waiters :: nat
  vt_ledger :: voice_ledger
  vt_sent :: "(string \<times> bool) list"
  vt_boundaries :: "(bool \<times> real \<times> string option) list"
  vt_received :: "string list"
  vt_batches :: "string list list"

definition new_transcript :: voice_transcript where
  "new_transcript = \<lparr>vt_speechOpen = False, vt_awaiting = False, vt_interim = [], vt_chunks = [], vt_timer = None, vt_notBefore = 0,
     vt_preStopInterim = None, vt_preStopFinal = None, vt_preStopChunks = 0, vt_waiters = 0, vt_ledger = new_voice_ledger None,
     vt_sent = [], vt_boundaries = [], vt_received = [], vt_batches = []\<rparr>"

definition transcript_marks :: "(voice_ledger \<Rightarrow> voice_ledger) \<Rightarrow> voice_transcript \<Rightarrow> voice_transcript" where
  "transcript_marks f vt = vt\<lparr>vt_ledger := f (vt_ledger vt)\<rparr>"

text \<open>\<open>coalesce\<close> is the switch of the build.\<close>

definition scheduleFinalTranscriptFlush :: "bool \<Rightarrow> real \<Rightarrow> real \<Rightarrow> voice_transcript \<Rightarrow> voice_transcript" where
  "scheduleFinalTranscriptFlush coalesce now afterMs vt =
     (if \<not> coalesce then vt else vt\<lparr>vt_timer := Some (now + max afterMs (vt_notBefore vt - now))\<rparr>)"

definition flushFinalTranscript :: "voice_transcript \<Rightarrow> voice_transcript" where
  "flushFinalTranscript vt =
     (if vt_speechOpen vt \<or> vt_chunks vt = [] then vt
      else (let words = assembleTranscript (vt_chunks vt);
                vt1 = vt\<lparr>vt_chunks := [], vt_batches := vt_batches vt @ [vt_chunks vt]\<rparr>
            in if words = [] then vt1
               else vt1\<lparr>vt_awaiting := False, vt_sent := vt_sent vt1 @ [(words, True)], vt_waiters := 0\<rparr>))"

definition timer_fires :: "voice_transcript \<Rightarrow> voice_transcript" where
  "timer_fires vt = (if vt_timer vt = None then vt else flushFinalTranscript (vt\<lparr>vt_timer := None\<rparr>))"

definition speech_started :: "real \<Rightarrow> voice_transcript \<Rightarrow> voice_transcript" where
  "speech_started atMs vt =
     vt\<lparr>vt_speechOpen := True, vt_awaiting := True, vt_interim := [], vt_preStopInterim := None, vt_preStopFinal := None,
        vt_preStopChunks := 0, vt_timer := None, vt_boundaries := vt_boundaries vt @ [(True, atMs, None)]\<rparr>"

definition stop_marks :: "real \<Rightarrow> real \<Rightarrow> voice_transcript \<Rightarrow> voice_ledger" where
  "stop_marks now atMs vt =
     (let l1 = mark ActivityEndSent now (mark VadEndDetected now (mark QuietOnset atMs (vt_ledger vt)));
          l2 = (case vt_preStopInterim vt of None \<Rightarrow> l1 | Some t \<Rightarrow> mark FirstInterimTranscript t l1)
      in case vt_preStopFinal vt of None \<Rightarrow> l2 | Some t \<Rightarrow> (mark TranscriptFinal t ^^ vt_preStopChunks vt) l2)"

definition speech_stopped :: "bool \<Rightarrow> real \<Rightarrow> real \<Rightarrow> voice_transcript \<Rightarrow> voice_transcript" where
  "speech_stopped coalesce now atMs vt =
     (let vt1 = scheduleFinalTranscriptFlush coalesce now 250
            (vt\<lparr>vt_speechOpen := False, vt_awaiting := True, vt_ledger := stop_marks now atMs vt, vt_notBefore := now + 250\<rparr>);
          words = (if vt_chunks vt1 \<noteq> [] then assembleTranscript (vt_chunks vt1) else vt_interim vt1)
      in vt1\<lparr>vt_boundaries := vt_boundaries vt1 @ [(False, atMs, if words = [] then None else Some (take 400 words))]\<rparr>)"

definition final_piece :: "bool \<Rightarrow> real \<Rightarrow> string \<Rightarrow> voice_transcript \<Rightarrow> voice_transcript" where
  "final_piece coalesce now words vt =
     (let vt1 = (if vt_speechOpen vt then vt\<lparr>vt_preStopFinal := Some now, vt_preStopChunks := vt_preStopChunks vt + 1\<rparr>
                 else transcript_marks (mark TranscriptFinal now) vt)
      in if \<not> coalesce then vt1\<lparr>vt_awaiting := False, vt_waiters := 0, vt_sent := vt_sent vt1 @ [(words, True)]\<rparr>
         else (let vt2 = vt1\<lparr>vt_chunks := vt_chunks vt1 @ [words], vt_received := vt_received vt1 @ [words]\<rparr>;
                   vt3 = vt2\<lparr>vt_sent := vt_sent vt2 @ [(assembleTranscript (vt_chunks vt2), False)]\<rparr>
               in if vt_speechOpen vt3 then vt3 else scheduleFinalTranscriptFlush coalesce now 120 vt3))"

definition interim_piece :: "real \<Rightarrow> string \<Rightarrow> voice_transcript \<Rightarrow> voice_transcript" where
  "interim_piece now words vt =
     (let vt1 = (if vt_speechOpen vt
                 then vt\<lparr>vt_preStopInterim := (case vt_preStopInterim vt of None \<Rightarrow> Some now | Some t \<Rightarrow> Some t)\<rparr>
                 else transcript_marks (mark FirstInterimTranscript now) vt)
      in vt1\<lparr>vt_interim := take 400 (trim words), vt_sent := vt_sent vt1 @ [(words, False)]\<rparr>)"

text \<open>\<open>onDisconnected\<close>, as far as the words go; \<open>finishInput\<close> up to its race, and the end of the race.\<close>

definition transcript_disconnected :: "voice_transcript \<Rightarrow> voice_transcript" where
  "transcript_disconnected vt = (if vt_speechOpen vt then vt else flushFinalTranscript vt)"

definition finishInput :: "voice_transcript \<Rightarrow> bool \<times> voice_transcript" where
  "finishInput vt =
     (if \<not> vt_speechOpen vt \<and> \<not> vt_awaiting vt then (False, vt) else (True, vt\<lparr>vt_waiters := vt_waiters vt + 1\<rparr>))"

definition finish_times_out :: "voice_transcript \<Rightarrow> voice_transcript" where
  "finish_times_out vt = vt\<lparr>vt_waiters := vt_waiters vt - 1\<rparr>"

definition stop_transcript :: "voice_transcript \<Rightarrow> voice_transcript" where
  "stop_transcript vt = vt\<lparr>vt_timer := None, vt_chunks := [], vt_waiters := 0, vt_speechOpen := False, vt_awaiting := False\<rparr>"

section \<open>Reports with retries\<close>

datatype post_reply = ReplyOk | ReplyStatus nat | ReplyLost1

text \<open>\<open>reportOutcome\<close>: the posts that were made with the waits after them, and whether the report was given up.\<close>

definition report_settled :: "post_reply \<Rightarrow> bool" where
  "report_settled r = (case r of ReplyOk \<Rightarrow> True | ReplyStatus s \<Rightarrow> s < 500 \<and> s \<noteq> 429 | ReplyLost1 \<Rightarrow> False)"

fun report_attempts :: "nat \<Rightarrow> nat \<Rightarrow> (nat \<Rightarrow> post_reply) \<Rightarrow> nat list \<times> bool" where
  "report_attempts 0 attempt reply = ([], True)"
| "report_attempts (Suc n) attempt reply =
     (if report_settled (reply attempt) then ([0], False)
      else (case report_attempts n (Suc attempt) reply of (ws, lost) \<Rightarrow> (300 * 3 ^ attempt # ws, lost)))"

definition reportOutcome :: "(nat \<Rightarrow> post_reply) \<Rightarrow> nat list \<times> bool" where
  "reportOutcome reply = report_attempts 3 0 reply"

text \<open>\<open>postVoiceReady\<close>; \<open>current k\<close> says that the session still runs and the generation is the latest at attempt \<open>k\<close>.\<close>

datatype ready_outcome = ReadyDone | ReadySuperseded | ReadyFailed

definition ready_settled :: "post_reply \<Rightarrow> bool" where
  "ready_settled r = (case r of ReplyOk \<Rightarrow> True | ReplyStatus s \<Rightarrow> s = 404 \<or> s = 409 | ReplyLost1 \<Rightarrow> False)"

fun ready_attempts :: "nat \<Rightarrow> nat \<Rightarrow> (nat \<Rightarrow> bool) \<Rightarrow> (nat \<Rightarrow> post_reply) \<Rightarrow> nat list \<times> ready_outcome" where
  "ready_attempts 0 attempt current reply = ([], if current attempt then ReadyFailed else ReadySuperseded)"
| "ready_attempts (Suc n) attempt current reply =
     (if \<not> current attempt then ([], ReadySuperseded)
      else if ready_settled (reply attempt) then ([0], ReadyDone)
      else (case ready_attempts n (Suc attempt) current reply of (ws, r) \<Rightarrow> (500 * 2 ^ attempt # ws, r)))"

definition postVoiceReady_run :: "(nat \<Rightarrow> bool) \<Rightarrow> (nat \<Rightarrow> post_reply) \<Rightarrow> nat list \<times> ready_outcome" where
  "postVoiceReady_run current reply = ready_attempts 4 0 current reply"

section \<open>No word of the candidate is lost on the way\<close>

text \<open>Each piece is in what is assembled, unless that is longer than the limit.\<close>

definition has_part :: "'a list \<Rightarrow> 'a list \<Rightarrow> bool" where
  "has_part xs p \<longleftrightarrow> (\<exists>a b. xs = a @ p @ b)"

lemma has_part_refl [simp]: "has_part xs xs"
  unfolding has_part_def by (metis append.right_neutral append_Nil)

lemma has_part_Nil [simp]: "has_part xs []"
  unfolding has_part_def by (metis append_Nil)

lemma has_part_more: "has_part xs p \<Longrightarrow> has_part (a @ xs @ b) p"
proof -
  assume "has_part xs p"
  then obtain x y where "xs = x @ p @ y" unfolding has_part_def by blast
  then have "a @ xs @ b = (a @ x) @ p @ (y @ b)" by simp
  then show "has_part (a @ xs @ b) p" unfolding has_part_def by blast
qed

lemma add_chunk_keeps: "has_part s p \<Longrightarrow> has_part (add_chunk s c) p"
proof -
  assume p: "has_part s p"
  have "has_part (trim c) p" if e: "starts_with (trim c) s"
  proof -
    obtain t where "trim c = s @ t" using e starts_with_append by blast
    then show ?thesis using has_part_more [OF p, of "[]" t] by simp
  qed
  moreover have "has_part (s @ '' '' @ trim c) p" using has_part_more [OF p, of "[]" "'' '' @ trim c"] by simp
  moreover have "p = []" if "s = []" using p that by (simp add: has_part_def)
  then have "has_part (trim c) p" if "s = []" using that by simp
  ultimately show ?thesis using p by (auto simp: add_chunk_def Let_def)
qed

lemma add_chunk_has: "has_part (add_chunk s c) (trim c)"
proof -
  have "has_part s (trim c)" if e: "ends_with s (trim c)"
  proof -
    obtain t where "rev s = rev (trim c) @ t" using e unfolding ends_with_def starts_with_append by blast
    then have "s = rev t @ trim c" by (metis rev_append rev_rev_ident)
    then show ?thesis unfolding has_part_def by (metis append.right_neutral)
  qed
  moreover have "has_part (s @ '' '' @ trim c) (trim c)" using has_part_more [OF has_part_refl, of "s @ '' ''" "trim c" "[]"] by simp
  ultimately show ?thesis by (auto simp: add_chunk_def Let_def)
qed

lemma assembled_has: "c \<in> set chunks \<Longrightarrow> has_part (foldl add_chunk s chunks) (trim c)"
proof (induction chunks arbitrary: s)
  case (Cons d chunks)
  have keep: "has_part s p \<Longrightarrow> has_part (foldl add_chunk s ds) p" for s p ds
    by (induction ds arbitrary: s) (auto intro: add_chunk_keeps)
  show ?case
  proof (cases "c = d")
    case True
    then show ?thesis using keep [OF add_chunk_has] by simp
  qed (use Cons in simp)
qed simp

lemma assembleTranscript_has:
  assumes "c \<in> set chunks" and "length (foldl add_chunk [] chunks) \<le> 800"
  shows "has_part (assembleTranscript chunks) (trim c)"
  using assembled_has [OF assms(1), of "[]"] assms(2) by (simp add: assembleTranscript_def last_part_def)

lemma assembleTranscript_length: "length (assembleTranscript chunks) \<le> 800"
  by (simp add: assembleTranscript_def last_part_def)

text \<open>
  What holds between the steps, until the session is stopped: every final piece is in one final transcript or
  waits for one, in order; and what waits has a timer, or the candidate is speaking.
\<close>

definition transcript_ok :: "voice_transcript \<Rightarrow> bool" where
  "transcript_ok vt \<longleftrightarrow> concat (vt_batches vt) @ vt_chunks vt = vt_received vt \<and>
     (vt_chunks vt \<noteq> [] \<longrightarrow> vt_speechOpen vt \<or> vt_timer vt \<noteq> None) \<and>
     map fst (filter snd (vt_sent vt)) = filter (\<lambda>t. t \<noteq> []) (map assembleTranscript (vt_batches vt))"

inductive transcript_step :: "voice_transcript \<Rightarrow> voice_transcript \<Rightarrow> bool" where
  started: "transcript_step vt (speech_started atMs vt)"
| stopped: "transcript_step vt (speech_stopped True now atMs vt)"
| final: "transcript_step vt (final_piece True now words vt)"
| interim: "transcript_step vt (interim_piece now words vt)"
| timer: "transcript_step vt (timer_fires vt)"
| lost: "transcript_step vt (transcript_disconnected vt)"
| finish: "transcript_step vt (snd (finishInput vt))"
| timeout: "transcript_step vt (finish_times_out vt)"

lemma flush_ok:
  assumes "concat (vt_batches vt) @ vt_chunks vt = vt_received vt"
    and "map fst (filter snd (vt_sent vt)) = filter (\<lambda>t. t \<noteq> []) (map assembleTranscript (vt_batches vt))"
    and "vt_speechOpen vt \<longrightarrow> vt_chunks vt \<noteq> [] \<longrightarrow> transcript_ok vt"
  shows "transcript_ok (flushFinalTranscript vt)"
  using assms by (auto simp: flushFinalTranscript_def transcript_ok_def Let_def)

interpretation transcript_kept: kept_by_steps transcript_step transcript_ok
proof unfold_locales
  fix vt w
  assume ok: "transcript_ok vt" and "transcript_step vt w"
  from this(2) show "transcript_ok w"
  proof cases
    case timer
    show ?thesis unfolding timer timer_fires_def
    proof (cases "vt_timer vt = None")
      case False
      have "transcript_ok (flushFinalTranscript (vt\<lparr>vt_timer := None\<rparr>))"
        by (rule flush_ok) (use ok in \<open>simp_all add: transcript_ok_def\<close>)
      then show "transcript_ok (if vt_timer vt = None then vt else flushFinalTranscript (vt\<lparr>vt_timer := None\<rparr>))" using False by auto
    qed (use ok in simp)
  next
    case lost
    show ?thesis unfolding lost transcript_disconnected_def using ok flush_ok [of vt] by (auto simp: transcript_ok_def)
  qed (use ok in \<open>auto simp: transcript_ok_def speech_started_def speech_stopped_def final_piece_def interim_piece_def
      scheduleFinalTranscriptFlush_def transcript_marks_def finishInput_def finish_times_out_def Let_def\<close>)
qed

lemma transcript_ok_new: "transcript_ok new_transcript"
  by (simp add: transcript_ok_def new_transcript_def)

lemma flush_received [simp]: "vt_received (flushFinalTranscript vt) = vt_received vt"
  by (simp add: flushFinalTranscript_def Let_def)

lemma flush_empties: "\<not> vt_speechOpen vt \<Longrightarrow> vt_chunks (flushFinalTranscript vt) = []"
  by (simp add: flushFinalTranscript_def Let_def)

lemma final_piece_silent:
  assumes "\<not> vt_speechOpen vt"
  shows "vt_received (final_piece True now words vt) = vt_received vt @ [words]" and "\<not> vt_speechOpen (final_piece True now words vt)"
    and "vt_timer (final_piece True now words vt) \<noteq> None"
  using assms by (simp_all add: final_piece_def scheduleFinalTranscriptFlush_def transcript_marks_def Let_def)

section \<open>The retries are bounded\<close>

lemma report_attempts_bound: "length (fst (report_attempts n k reply)) \<le> n"
  by (induction n arbitrary: k) (auto split: prod.split dest: le_SucI, metis fst_conv)

lemma report_attempts_lost: "snd (report_attempts n k reply) \<longleftrightarrow> (\<forall>i. k \<le> i \<and> i < k + n \<longrightarrow> \<not> report_settled (reply i))"
proof (induction n arbitrary: k)
  case (Suc n)
  have "(\<forall>i. k \<le> i \<and> i < k + Suc n \<longrightarrow> \<not> report_settled (reply i)) \<longleftrightarrow>
      \<not> report_settled (reply k) \<and> (\<forall>i. Suc k \<le> i \<and> i < Suc k + n \<longrightarrow> \<not> report_settled (reply i))"
    by (metis Suc_leI add_Suc add_Suc_right le_eq_less_or_eq less_add_Suc1 Suc_le_lessD less_imp_le)
  then show ?case using Suc [of "Suc k"] by (auto split: prod.split)
qed auto

end
