(* ===== verification/Policy.thy ===== *)
theory Policy
  imports Contracts
begin

text \<open>
  \<open>orchestrator/policy.ts\<close>: the three interviewer policies, and the guards that decide on the
  state of the candidate's hands whether the interviewer may start something.
\<close>

definition POLICIES :: "interview_mode \<Rightarrow> interview_policy" where
  "POLICIES m = (case m of
     LEARNING \<Rightarrow> \<lparr>
       mode = LEARNING,
       maxHintLevel = 4,
       hintBudget = 6,
       stallThreshold = 1/2,
       minSecondsBetweenProbes = 30,
       acknowledgeSmallTalk = True,
       endOfTurnThreshold = 3/4,
       minTurnEndSilenceMs = 1200,
       settledTurnEndSilenceMs = 2400,
       minTurnEndSilenceMsConfident = Some 250,
       settledTurnEndSilenceMsConfident = Some 600,
       minTurnEndSilenceMsPatient = Some 1800,
       settledTurnEndSilenceMsPatient = Some 3200,
       interruptQuietSeconds = 3,
       stallSeconds = 60,
       maxCodeStalenessSeconds = 20,
       wrapUpSeconds = 180,
       followUpMinSeconds = 420,
       policyExpectedMinutes = 45\<rparr>
   | MOCK \<Rightarrow> \<lparr>
       mode = MOCK,
       maxHintLevel = 2,
       hintBudget = 3,
       stallThreshold = 7/10,
       minSecondsBetweenProbes = 45,
       acknowledgeSmallTalk = False,
       endOfTurnThreshold = 4/5,
       minTurnEndSilenceMs = 1500,
       settledTurnEndSilenceMs = 2800,
       minTurnEndSilenceMsConfident = Some 300,
       settledTurnEndSilenceMsConfident = Some 700,
       minTurnEndSilenceMsPatient = Some 2200,
       settledTurnEndSilenceMsPatient = Some 3800,
       interruptQuietSeconds = 4,
       stallSeconds = 90,
       maxCodeStalenessSeconds = 20,
       wrapUpSeconds = 120,
       followUpMinSeconds = 360,
       policyExpectedMinutes = 40\<rparr>
   | STRICT \<Rightarrow> \<lparr>
       mode = STRICT,
       maxHintLevel = 1,
       hintBudget = 1,
       stallThreshold = 17/20,
       minSecondsBetweenProbes = 90,
       acknowledgeSmallTalk = False,
       endOfTurnThreshold = 22/25,
       minTurnEndSilenceMs = 2200,
       settledTurnEndSilenceMs = 4000,
       minTurnEndSilenceMsConfident = Some 500,
       settledTurnEndSilenceMsConfident = Some 1200,
       minTurnEndSilenceMsPatient = Some 3000,
       settledTurnEndSilenceMsPatient = Some 5200,
       interruptQuietSeconds = 6,
       stallSeconds = 150,
       maxCodeStalenessSeconds = 15,
       wrapUpSeconds = 120,
       followUpMinSeconds = 300,
       policyExpectedMinutes = 40\<rparr>)"

definition policyFor :: "interview_mode \<Rightarrow> interview_policy" where
  "policyFor m = POLICIES m"

definition canHintNow :: "interview_policy \<Rightarrow> real \<Rightarrow> nat \<Rightarrow> bool" where
  "canHintNow p stuck used =
     (if maxHintLevel p = 0 then False
      else if used \<ge> hintBudget p then False
      else stuck > stallThreshold p)"

definition stallPressure :: "interview_policy \<Rightarrow> real \<Rightarrow> real \<Rightarrow> real" where
  "stallPressure p secondsQuiet progress =
     (if progress \<le> 0 then 0
      else if secondsQuiet \<le> stallSeconds p then 0
      else (let span = stallSeconds p;
                over = secondsQuiet - stallSeconds p
            in min 1 (over / span)))"

definition canInterruptNow :: "interview_policy \<Rightarrow> real \<Rightarrow> bool" where
  "canInterruptNow p secondsQuiet \<longleftrightarrow> secondsQuiet \<ge> interruptQuietSeconds p"

text \<open>The bounds the schema of a policy states (\<open>InterviewPolicySchema\<close>).\<close>

definition policy_ok :: "interview_policy \<Rightarrow> bool" where
  "policy_ok p \<longleftrightarrow> maxHintLevel p \<le> 4 \<and> 0 \<le> stallThreshold p \<and> stallThreshold p \<le> 1 \<and>
     0 \<le> minSecondsBetweenProbes p \<and> 0 \<le> endOfTurnThreshold p \<and> endOfTurnThreshold p \<le> 1 \<and>
     0 \<le> minTurnEndSilenceMs p \<and> 0 \<le> settledTurnEndSilenceMs p \<and> 0 \<le> interruptQuietSeconds p \<and>
     1 \<le> stallSeconds p \<and> 1 \<le> maxCodeStalenessSeconds p \<and> 0 \<le> wrapUpSeconds p \<and> 0 \<le> followUpMinSeconds p"

lemma policyFor_ok: "policy_ok (policyFor m)"
  by (cases m) (simp_all add: policy_ok_def policyFor_def POLICIES_def)

lemma policyFor_mode: "mode (policyFor m) = m"
  by (cases m) (simp_all add: policyFor_def POLICIES_def)

section \<open>Stall pressure\<close>

lemma stallPressure_range: "0 \<le> stallSeconds p \<Longrightarrow> 0 \<le> stallPressure p q x \<and> stallPressure p q x \<le> 1"
  by (auto simp: stallPressure_def Let_def)

lemma stallPressure_not_started [simp]: "x \<le> 0 \<Longrightarrow> stallPressure p q x = 0"
  by (simp add: stallPressure_def)

lemma stallPressure_mono:
  assumes "0 < stallSeconds p" and "q \<le> q'"
  shows "stallPressure p q x \<le> stallPressure p q' x"
  using assms by (auto simp: stallPressure_def Let_def min_def divide_right_mono field_simps)

text \<open>
  The ramp of the comment: no pressure up to \<open>stallSeconds\<close>, full pressure from twice that on.
\<close>

lemma stallPressure_full:
  "0 < stallSeconds p \<Longrightarrow> 0 < x \<Longrightarrow> 2 * stallSeconds p \<le> q \<Longrightarrow> stallPressure p q x = 1"
  by (simp add: stallPressure_def Let_def)

lemma canHintNowD: "canHintNow p stuck used \<Longrightarrow> used < hintBudget p \<and> stallThreshold p < stuck"
  by (auto simp: canHintNow_def split: if_splits)

end
