(* ===== verification/TurnCompletion.thy ===== *)
theory TurnCompletion
  imports Policy Classifier
begin

text \<open>
  \<open>orchestrator/turn-completion.ts\<close>: how sure the interviewer may be that the candidate has
  finished, from the words, the elapsed silence and the voice. The estimator only ever lowers the
  probability the words gave; silence raises what is permitted along a ramp, and the voice moves
  the window of the ramp.
\<close>

definition HELD_FLOOR_CEILING :: real where
  "HELD_FLOOR_CEILING = 7/20"

definition FLOOR_YIELDED_INTENTS :: "turn_intent list" where
  "FLOOR_YIELDED_INTENTS = [EXPLICIT_QUESTION, CLARIFICATION_REQUEST, HINT_REQUEST]"

text \<open>
  \<open>prosodyPull\<close>: the voice as one number between \<open>-1\<close> and \<open>1\<close>.
\<close>

definition prosodyPull :: "prosodic_evidence option \<Rightarrow> real" where
  "prosodyPull ps = (case ps of
     None \<Rightarrow> 0
   | Some e \<Rightarrow>
       (let conf = clamp01 (ps_confidence e) in
        if conf \<le> 0 then 0
        else (let prob = clamp01 (ps_probability e) in conf * (2 * prob - 1))))"

definition lerp :: "real \<Rightarrow> real \<Rightarrow> real \<Rightarrow> real" where
  "lerp x y t = x + (y - x) * clamp01 t"

record end_window =
  w_min :: real
  w_settled :: real
  w_pull :: real

definition turnEndWindow :: "interview_policy \<Rightarrow> prosodic_evidence option \<Rightarrow> end_window" where
  "turnEndWindow p ps =
     (let lo = minTurnEndSilenceMs p;
          hi = settledTurnEndSilenceMs p;
          pull = prosodyPull ps
      in if pull = 0 then \<lparr>w_min = lo, w_settled = hi, w_pull = pull\<rparr>
         else if pull > 0 then
           (case (minTurnEndSilenceMsConfident p, settledTurnEndSilenceMsConfident p) of
              (Some fastMin, Some fastSettled) \<Rightarrow>
                \<lparr>w_min = lerp lo fastMin pull, w_settled = lerp hi fastSettled pull, w_pull = pull\<rparr>
            | _ \<Rightarrow> \<lparr>w_min = lo, w_settled = hi, w_pull = 0\<rparr>)
         else
           (case (minTurnEndSilenceMsPatient p, settledTurnEndSilenceMsPatient p) of
              (Some slowMin, Some slowSettled) \<Rightarrow>
                \<lparr>w_min = lerp lo slowMin (- pull), w_settled = lerp hi slowSettled (- pull), w_pull = pull\<rparr>
            | _ \<Rightarrow> \<lparr>w_min = lo, w_settled = hi, w_pull = 0\<rparr>))"

definition silenceCeiling :: "real \<Rightarrow> interview_policy \<Rightarrow> prosodic_evidence option \<Rightarrow> real" where
  "silenceCeiling silenceMs p ps =
     (let w = turnEndWindow p ps in
      if silenceMs \<le> w_min w then HELD_FLOOR_CEILING
      else if silenceMs \<ge> w_settled w then 1
      else (let t = (silenceMs - w_min w) / (w_settled w - w_min w)
            in HELD_FLOOR_CEILING + t * (1 - HELD_FLOOR_CEILING)))"

text \<open>\<open>silenceRequiredFor\<close>; \<open>None\<close> stands for \<open>Number.POSITIVE_INFINITY\<close>.\<close>

definition silenceRequiredFor ::
  "real \<Rightarrow> interview_policy \<Rightarrow> prosodic_evidence option \<Rightarrow> real option" where
  "silenceRequiredFor threshold p ps =
     (let w = turnEndWindow p ps in
      if threshold \<le> HELD_FLOOR_CEILING then Some (w_min w)
      else if threshold > 1 then None
      else (let span = w_settled w - w_min w in
            if span \<le> 0 then Some (w_settled w)
            else (let t = (threshold - HELD_FLOOR_CEILING) / (1 - HELD_FLOOR_CEILING)
                  in Some (w_min w + t * span))))"

datatype completion_reason =
    MidThoughtVeto
  | FloorYielded turn_intent
  | NoTiming
  | HeldBySilence real real real real "prosodic_evidence option"
  | WithinSilence real real real "prosodic_evidence option"

record turn_completion =
  tc_endProbability :: real
  tc_textEndProbability :: real
  tc_silenceMs :: "real option"
  tc_prosody :: "prosodic_evidence option"
  tc_prosodyPull :: "real option"
  tc_reason :: completion_reason

text \<open>
  \<open>normalizeSilence\<close>: an unknown duration stays unknown, a negative one is zero.
\<close>

definition normalizeSilence :: "real option \<Rightarrow> real option" where
  "normalizeSilence s = map_option (max 0) s"

definition estimateTurnCompletion ::
  "string \<Rightarrow> turn_intent \<Rightarrow> real \<Rightarrow> prosodic_evidence option \<Rightarrow> real option \<Rightarrow> interview_policy \<Rightarrow> turn_completion" where
  "estimateTurnCompletion tr i textEnd ps silence p =
     (let text_p = clamp01 textEnd;
          silenceMs = normalizeSilence silence;
          result = (\<lambda>pr why. \<lparr>tc_endProbability = pr, tc_textEndProbability = text_p, tc_silenceMs = silenceMs,
                      tc_prosody = ps, tc_prosodyPull = map_option (\<lambda>_. prosodyPull ps) ps, tc_reason = why\<rparr>)
      in if endsMidThought tr \<and> text_p > MID_THOUGHT_CEILING then result MID_THOUGHT_CEILING MidThoughtVeto
         else if i \<in> set FLOOR_YIELDED_INTENTS then result text_p (FloorYielded i)
         else (case silenceMs of
                 None \<Rightarrow> result text_p NoTiming
               | Some ms \<Rightarrow>
                   (let window = turnEndWindow p ps; ceil = silenceCeiling ms p ps in
                    if text_p > ceil then result ceil (HeldBySilence ms ceil text_p (w_settled window) ps)
                    else result text_p (WithinSilence text_p ms (w_pull window) ps))))"

section \<open>The voice and the window\<close>

lemma prosodyPull_range: "\<bar>prosodyPull ps\<bar> \<le> 1"
proof (cases ps)
  case None
  then show ?thesis by (simp add: prosodyPull_def)
next
  case (Some e)
  let ?c = "clamp01 (ps_confidence e)" and ?q = "2 * clamp01 (ps_probability e) - 1"
  have "\<bar>?q\<bar> \<le> 1" using clamp01_range [of "ps_probability e"] by linarith
  then have "\<bar>?c * ?q\<bar> \<le> 1 * 1"
    unfolding abs_mult by (intro mult_mono) (use clamp01_range [of "ps_confidence e"] in auto)
  with Some show ?thesis by (simp add: prosodyPull_def Let_def)
qed

lemma prosodyPull_no_confidence: "ps_confidence e \<le> 0 \<Longrightarrow> prosodyPull (Some e) = 0"
  by (simp add: prosodyPull_def clamp01_def)

lemma window_without_pull [simp]:
  "prosodyPull ps = 0 \<Longrightarrow>
     turnEndWindow p ps = \<lparr>w_min = minTurnEndSilenceMs p, w_settled = settledTurnEndSilenceMs p, w_pull = 0\<rparr>"
  by (simp add: turnEndWindow_def Let_def)

lemma window_None [simp]:
  "turnEndWindow p None = \<lparr>w_min = minTurnEndSilenceMs p, w_settled = settledTurnEndSilenceMs p, w_pull = 0\<rparr>"
  by (simp add: prosodyPull_def)

lemma lerp_between: "min x y \<le> lerp x y t \<and> lerp x y t \<le> max x y"
proof -
  let ?c = "clamp01 t"
  have eq: "lerp x y t = (1 - ?c) * x + ?c * y" by (simp add: lerp_def algebra_simps)
  have "(1 - ?c) * min x y + ?c * min x y \<le> lerp x y t"
    unfolding eq by (intro add_mono mult_left_mono) auto
  moreover have "lerp x y t \<le> (1 - ?c) * max x y + ?c * max x y"
    unfolding eq by (intro add_mono mult_left_mono) auto
  ultimately show ?thesis by (simp add: algebra_simps)
qed

lemma lerp_le_lerp: "a \<le> b \<Longrightarrow> c \<le> d \<Longrightarrow> lerp a c t \<le> lerp b d t"
proof -
  assume le: "a \<le> b" "c \<le> d"
  have "(1 - clamp01 t) * a + clamp01 t * c \<le> (1 - clamp01 t) * b + clamp01 t * d"
    using le by (intro add_mono mult_left_mono) auto
  then show ?thesis by (simp add: lerp_def algebra_simps)
qed

text \<open>
  A policy orders its windows when each pair is ordered and the voice moves both bounds the way
  the comments of the source say: confidence shortens, continuation lengthens.
\<close>

definition windows_ordered :: "interview_policy \<Rightarrow> bool" where
  "windows_ordered p \<longleftrightarrow>
     minTurnEndSilenceMs p \<le> settledTurnEndSilenceMs p \<and>
     (\<forall>a b. minTurnEndSilenceMsConfident p = Some a \<longrightarrow> settledTurnEndSilenceMsConfident p = Some b \<longrightarrow>
        a \<le> b \<and> a \<le> minTurnEndSilenceMs p \<and> b \<le> settledTurnEndSilenceMs p) \<and>
     (\<forall>a b. minTurnEndSilenceMsPatient p = Some a \<longrightarrow> settledTurnEndSilenceMsPatient p = Some b \<longrightarrow>
        a \<le> b \<and> minTurnEndSilenceMs p \<le> a \<and> settledTurnEndSilenceMs p \<le> b)"

lemma policyFor_windows_ordered: "windows_ordered (policyFor m)"
  by (cases m) (simp_all add: windows_ordered_def policyFor_def POLICIES_def)

lemma window_ordered: "windows_ordered p \<Longrightarrow> w_min (turnEndWindow p ps) \<le> w_settled (turnEndWindow p ps)"
  by (auto simp: turnEndWindow_def Let_def windows_ordered_def lerp_le_lerp split: option.splits)

text \<open>In the three shipped policies the window never collapses, whatever the voice does to it.\<close>

lemma lerp_less_lerp: "x < x' \<Longrightarrow> y < y' \<Longrightarrow> lerp x y t < lerp x' y' t"
proof -
  assume lt: "x < x'" "y < y'"
  let ?c = "clamp01 t"
  have eq: "lerp x y t = (1 - ?c) * x + ?c * y" for x y by (simp add: lerp_def algebra_simps)
  show ?thesis
  proof (cases "?c = 0")
    case True
    with lt show ?thesis by (simp add: eq)
  next
    case False
    with clamp01_range(1) [of t] have "0 < ?c" by linarith
    then have "?c * y < ?c * y'" using lt by simp
    moreover have "(1 - ?c) * x \<le> (1 - ?c) * x'" using lt by (intro mult_left_mono) simp_all
    ultimately show ?thesis by (simp add: eq)
  qed
qed

lemma policyFor_window_strict:
  "w_min (turnEndWindow (policyFor m) ps) < w_settled (turnEndWindow (policyFor m) ps)"
  by (cases m) (simp_all add: turnEndWindow_def Let_def policyFor_def POLICIES_def lerp_less_lerp)

lemma lerp_le_start: "y \<le> x \<Longrightarrow> lerp x y t \<le> x"
  using lerp_between [of x y t] by simp

lemma lerp_ge_start: "x \<le> y \<Longrightarrow> x \<le> lerp x y t"
  using lerp_between [of x y t] by simp

lemma window_shortened:
  assumes "windows_ordered p" and "prosodyPull ps > 0"
  shows "w_min (turnEndWindow p ps) \<le> minTurnEndSilenceMs p"
  using assms by (auto simp: turnEndWindow_def Let_def windows_ordered_def lerp_le_start split: option.splits)

lemma window_lengthened:
  assumes "windows_ordered p" and "prosodyPull ps < 0"
  shows "minTurnEndSilenceMs p \<le> w_min (turnEndWindow p ps)"
  using assms by (auto simp: turnEndWindow_def Let_def windows_ordered_def lerp_ge_start split: option.splits)

section \<open>The ramp\<close>

lemma silenceCeiling_range: "HELD_FLOOR_CEILING \<le> silenceCeiling s p ps \<and> silenceCeiling s p ps \<le> 1"
proof -
  let ?w = "turnEndWindow p ps"
  define t where "t = (s - w_min ?w) / (w_settled ?w - w_min ?w)"
  show ?thesis
  proof (cases "s \<le> w_min ?w \<or> s \<ge> w_settled ?w")
    case True
    then show ?thesis by (auto simp: silenceCeiling_def Let_def HELD_FLOOR_CEILING_def)
  next
    case False
    then have "0 \<le> t" "t \<le> 1" by (simp_all add: t_def)
    with False show ?thesis
      by (simp add: silenceCeiling_def Let_def HELD_FLOOR_CEILING_def flip: t_def)
  qed
qed

lemma silenceCeiling_mono:
  assumes "s \<le> s'"
  shows "silenceCeiling s p ps \<le> silenceCeiling s' p ps"
proof -
  let ?w = "turnEndWindow p ps"
  consider "s \<le> w_min ?w" | "s' \<ge> w_settled ?w" "s' > w_min ?w" | "w_min ?w < s" "s' < w_settled ?w"
    using assms by linarith
  then show ?thesis
  proof cases
    case 1
    then have "silenceCeiling s p ps = HELD_FLOOR_CEILING" by (simp add: silenceCeiling_def Let_def)
    then show ?thesis using silenceCeiling_range [of s' p ps] by simp
  next
    case 2
    then have "silenceCeiling s' p ps = 1" by (simp add: silenceCeiling_def Let_def)
    then show ?thesis using silenceCeiling_range [of s p ps] by simp
  next
    case 3
    then have "(s - w_min ?w) / (w_settled ?w - w_min ?w) \<le> (s' - w_min ?w) / (w_settled ?w - w_min ?w)"
      using assms by (intro divide_right_mono) auto
    then have "(s - w_min ?w) / (w_settled ?w - w_min ?w) * (1 - HELD_FLOOR_CEILING)
        \<le> (s' - w_min ?w) / (w_settled ?w - w_min ?w) * (1 - HELD_FLOOR_CEILING)"
      by (rule mult_right_mono) (simp add: HELD_FLOOR_CEILING_def)
    with 3 assms show ?thesis by (simp add: silenceCeiling_def Let_def)
  qed
qed

lemma silenceCeiling_held: "s \<le> w_min (turnEndWindow p ps) \<Longrightarrow> silenceCeiling s p ps = HELD_FLOOR_CEILING"
  by (simp add: silenceCeiling_def Let_def)

section \<open>\<open>silenceRequiredFor\<close> inverts the ramp\<close>

lemma silenceRequired_exact:
  assumes w: "w_min (turnEndWindow p ps) < w_settled (turnEndWindow p ps)"
    and th: "HELD_FLOOR_CEILING < threshold" "threshold \<le> 1"
    and r: "silenceRequiredFor threshold p ps = Some required"
  shows "silenceCeiling required p ps = threshold"
proof -
  let ?lo = "w_min (turnEndWindow p ps)" and ?hi = "w_settled (turnEndWindow p ps)"
  define t where "t = (threshold - HELD_FLOOR_CEILING) / (1 - HELD_FLOOR_CEILING)"
  have h: "HELD_FLOOR_CEILING < 1" by (simp add: HELD_FLOOR_CEILING_def)
  have t: "0 < t" "t \<le> 1" using th h by (simp_all add: t_def)
  have req: "required = ?lo + t * (?hi - ?lo)"
    using w th r by (simp add: silenceRequiredFor_def Let_def t_def)
  have inverse: "HELD_FLOOR_CEILING + t * (1 - HELD_FLOOR_CEILING) = threshold"
    using h by (simp add: t_def)
  have above: "?lo < required" using t w by (simp add: req)
  show ?thesis
  proof (cases "t = 1")
    case True
    with inverse have "threshold = 1" by simp
    moreover have "required = ?hi" using True req by simp
    ultimately show ?thesis using w by (simp add: silenceCeiling_def Let_def)
  next
    case False
    with t have "t < 1" by simp
    then have "t * (?hi - ?lo) < 1 * (?hi - ?lo)" using w by (intro mult_strict_right_mono) auto
    then have below: "required < ?hi" by (simp add: req)
    have "(required - ?lo) / (?hi - ?lo) = t" using w by (simp add: req)
    with above below inverse show ?thesis by (simp add: silenceCeiling_def Let_def)
  qed
qed

lemma silenceRequired_least:
  assumes w: "w_min (turnEndWindow p ps) < w_settled (turnEndWindow p ps)"
    and th: "HELD_FLOOR_CEILING < threshold" "threshold \<le> 1"
    and r: "silenceRequiredFor threshold p ps = Some required"
    and s: "s < required"
  shows "silenceCeiling s p ps < threshold"
proof -
  let ?lo = "w_min (turnEndWindow p ps)" and ?hi = "w_settled (turnEndWindow p ps)"
  define t where "t = (threshold - HELD_FLOOR_CEILING) / (1 - HELD_FLOOR_CEILING)"
  have h: "HELD_FLOOR_CEILING < 1" by (simp add: HELD_FLOOR_CEILING_def)
  have req: "required = ?lo + t * (?hi - ?lo)"
    using w th r by (simp add: silenceRequiredFor_def Let_def t_def)
  show ?thesis
  proof (cases "s \<le> ?lo")
    case True
    with th show ?thesis by (simp add: silenceCeiling_held)
  next
    case False
    have "t \<le> 1" using th h by (simp add: t_def)
    then have "t * (?hi - ?lo) \<le> 1 * (?hi - ?lo)" using w by (intro mult_right_mono) auto
    with s req have below: "s < ?hi" by simp
    have "(s - ?lo) / (?hi - ?lo) < t" using s w by (simp add: req divide_less_eq algebra_simps)
    then have "(s - ?lo) / (?hi - ?lo) * (1 - HELD_FLOOR_CEILING) < t * (1 - HELD_FLOOR_CEILING)"
      using h by (intro mult_strict_right_mono) auto
    also have "t * (1 - HELD_FLOOR_CEILING) = threshold - HELD_FLOOR_CEILING" using h by (simp add: t_def)
    finally show ?thesis using False below by (simp add: silenceCeiling_def Let_def)
  qed
qed

section \<open>The estimator\<close>

lemmas estimate_defs = estimateTurnCompletion_def Let_def normalizeSilence_def

lemma estimate_text [simp]:
  "tc_textEndProbability (estimateTurnCompletion tr i e ps s p) = clamp01 e"
  by (simp add: estimate_defs split: option.splits)

lemma estimate_range:
  "0 \<le> tc_endProbability (estimateTurnCompletion tr i e ps s p) \<and>
   tc_endProbability (estimateTurnCompletion tr i e ps s p) \<le> 1"
proof -
  have "0 \<le> silenceCeiling x p ps" for x
    using silenceCeiling_range [of x p ps] by (simp add: HELD_FLOOR_CEILING_def)
  moreover have "silenceCeiling x p ps \<le> 1" for x using silenceCeiling_range [of x p ps] by simp
  ultimately show ?thesis
    by (auto simp: estimate_defs MID_THOUGHT_CEILING_def split: option.splits)
qed

lemma estimate_le_text: "tc_endProbability (estimateTurnCompletion tr i e ps s p) \<le> clamp01 e"
  by (auto simp: estimate_defs split: option.splits)

lemma estimate_mid_thought:
  "endsMidThought tr \<Longrightarrow> tc_endProbability (estimateTurnCompletion tr i e ps s p) \<le> MID_THOUGHT_CEILING"
proof -
  assume mid: "endsMidThought tr"
  have "tc_endProbability (estimateTurnCompletion tr i e ps s p) \<le> clamp01 e" by (rule estimate_le_text)
  with mid show ?thesis
    by (cases "clamp01 e > MID_THOUGHT_CEILING") (simp_all add: estimate_defs)
qed

lemma estimate_le_ceiling:
  assumes "i \<notin> set FLOOR_YIELDED_INTENTS"
  shows "tc_endProbability (estimateTurnCompletion tr i e ps (Some s) p) \<le> silenceCeiling (max 0 s) p ps"
proof -
  have "MID_THOUGHT_CEILING \<le> silenceCeiling (max 0 s) p ps"
    using silenceCeiling_range [of "max 0 s" p ps] by (simp add: HELD_FLOOR_CEILING_def MID_THOUGHT_CEILING_def)
  with assms show ?thesis by (simp add: estimate_defs)
qed

lemma estimate_mono_silence:
  assumes "s \<le> s'"
  shows "tc_endProbability (estimateTurnCompletion tr i e ps (Some s) p)
       \<le> tc_endProbability (estimateTurnCompletion tr i e ps (Some s') p)"
proof -
  have "max 0 s \<le> max 0 s'" using assms by simp
  then have "silenceCeiling (max 0 s) p ps \<le> silenceCeiling (max 0 s') p ps" by (rule silenceCeiling_mono)
  then show ?thesis by (auto simp: estimate_defs)
qed

end
