(* ===== verification/TurnPredictor.thy ===== *)
theory TurnPredictor
  imports TurnCompletion Vad AudioPcm
begin

text \<open>
  \<open>apps/web/lib/turn-predictor.ts\<close>: what the voice says at a pause. Frames of the microphone become a
  level and a pitch; the tail that ended at the pause becomes a pitch contour, a lengthening and an energy
  slope; these become one probability and a confidence, which the server turns into the silence it waits
  for. Numbers are reals, so that the rounding of single precision is left out.
\<close>

section \<open>Constants and features\<close>

definition TAIL_MS :: real where "TAIL_MS = 800"
definition MIN_VOICED_TAIL_FRAMES :: nat where "MIN_VOICED_TAIL_FRAMES = 8"
definition MIN_F0_HZ :: real where "MIN_F0_HZ = 70"
definition MAX_F0_HZ :: real where "MAX_F0_HZ = 400"
definition VOICING_THRESHOLD :: real where "VOICING_THRESHOLD = 32 / 100"
definition ANALYSIS_RATE_HZ :: real where "ANALYSIS_RATE_HZ = 8000"

record prosody_weights =
  pw_fallingPitch :: real
  pw_risingPitch :: real
  pw_levelPitch :: real
  pw_finalLengthening :: real
  pw_energyDecay :: real
  pw_abruptStop :: real
  pw_sharpness :: real

definition PROSODY_WEIGHTS :: prosody_weights where
  "PROSODY_WEIGHTS = \<lparr>pw_fallingPitch = 9 / 10, pw_risingPitch = 7 / 10, pw_levelPitch = -1, pw_finalLengthening = 8 / 10,
     pw_energyDecay = 6 / 10, pw_abruptStop = - 7 / 10, pw_sharpness = 16 / 10\<rparr>"

record prosody_features =
  pf_pitchSlope :: "real option"
  pf_lengthening :: "real option"
  pf_energySlope :: "real option"
  pf_voicedTailFrames :: nat

datatype cue = FallingPitch real | RisingPitch real | LevelPitch real | FinalLengthening real | TrailingOff real | FullEnergy real

datatype prosody_reason = NoUsableProsody | PredictionDisabled | OnlyVoiced nat | Cues "cue list"

record turn_end_estimate =
  te_probability :: real
  te_confidence :: real
  te_features :: prosody_features
  te_reason :: prosody_reason

definition NO_EVIDENCE :: turn_end_estimate where
  "NO_EVIDENCE = \<lparr>te_probability = 1 / 2, te_confidence = 0,
     te_features = \<lparr>pf_pitchSlope = None, pf_lengthening = None, pf_energySlope = None, pf_voicedTailFrames = 0\<rparr>,
     te_reason = NoUsableProsody\<rparr>"

definition null_estimate :: "real \<Rightarrow> turn_end_estimate" where
  "null_estimate t = NO_EVIDENCE\<lparr>te_reason := PredictionDisabled\<rparr>"

section \<open>The pitch of a frame\<close>

definition decimate :: "real list \<Rightarrow> nat \<Rightarrow> nat \<Rightarrow> real list" where
  "decimate frame factor n =
     map (\<lambda>i. sum_list (map (\<lambda>k. sample_at frame (i * factor + k)) [0..<factor]) / real factor) [0..<n]"

definition centered :: "real list \<Rightarrow> real list" where
  "centered xs = (let mean = sum_list xs / real (length xs) in map (\<lambda>x. x - mean) xs)"

definition energy_of :: "real list \<Rightarrow> real" where
  "energy_of xs = sum_list (map (\<lambda>v. v * v) xs)"

definition correlation :: "real list \<Rightarrow> nat \<Rightarrow> real" where
  "correlation x lag = sum_list (map2 (*) x (drop lag x))"

definition normalized :: "real list \<Rightarrow> nat \<Rightarrow> real" where
  "normalized x lag = correlation x lag / sqrt (energy_of x * energy_of (drop lag x))"

definition try_lag :: "real list \<Rightarrow> nat option \<times> real \<Rightarrow> nat \<Rightarrow> nat option \<times> real" where
  "try_lag x best lag =
     (if energy_of (drop lag x) \<le> 1 / 10 ^ 9 then best
      else if normalized x lag > snd best then (Some lag, normalized x lag) else best)"

definition best_lag :: "real list \<Rightarrow> nat \<Rightarrow> nat \<Rightarrow> nat option \<times> real" where
  "best_lag x minLag maxLag = foldl (try_lag x) (None, 0) [minLag..<maxLag + 1]"

definition pitch_of_decimated :: "real list \<Rightarrow> real \<Rightarrow> real option" where
  "pitch_of_decimated x rate =
     (if energy_of x \<le> 1 / 10 ^ 9 then None
      else (let minLag = nat (max 2 \<lfloor>rate / MAX_F0_HZ\<rfloor>);
                maxLag = nat (min (int (length x) - 1) \<lceil>rate / MIN_F0_HZ\<rceil>)
            in if maxLag \<le> minLag then None
               else (case best_lag x minLag maxLag of
                       (None, s) \<Rightarrow> None
                     | (Some lag, s) \<Rightarrow> if s < VOICING_THRESHOLD then None else Some (rate / real lag))))"

definition pitchOf :: "real list \<Rightarrow> real \<Rightarrow> real option" where
  "pitchOf frame sampleRate =
     (let factor = nat (max 1 (math_round (sampleRate / ANALYSIS_RATE_HZ)));
          n = length frame div factor
      in if n < 64 then None else pitch_of_decimated (centered (decimate frame factor n)) (sampleRate / real factor))"

section \<open>The features of a tail\<close>

record frame_feature =
  ff_atMs :: real
  ff_db :: real
  ff_f0 :: "real option"

definition leastSquaresSlope :: "(real \<times> real) list \<Rightarrow> real option" where
  "leastSquaresSlope ps =
     (let n = length ps
      in if n < 2 then None
         else (let mx = sum_list (map fst ps) / real n;
                   my = sum_list (map snd ps) / real n;
                   num = sum_list (map (\<lambda>(x, y). (x - mx) * (y - my)) ps);
                   den = sum_list (map (\<lambda>(x, y). (x - mx) * (x - mx)) ps)
               in if den \<le> 1 / 10 ^ 9 then None else Some (num / den)))"

text \<open>The frames that have a pitch, with it.\<close>

definition voiced_frames :: "frame_feature list \<Rightarrow> (real \<times> real) list" where
  "voiced_frames tail = [(ff_atMs f, hz). f \<leftarrow> tail, hz \<leftarrow> (case ff_f0 f of None \<Rightarrow> [] | Some hz \<Rightarrow> [hz])]"

definition pitchSlope :: "(real \<times> real) list \<Rightarrow> real option" where
  "pitchSlope voiced =
     (if length voiced < 3 then None else leastSquaresSlope (map (\<lambda>(t, hz). (t / 1000, 12 * log 2 hz)) voiced))"

definition energySlope :: "frame_feature list \<Rightarrow> real option" where
  "energySlope tail =
     (if length tail < 3 then None else leastSquaresSlope (map (\<lambda>f. (ff_atMs f / 1000, ff_db f)) tail))"

text \<open>The lengths of the voiced runs, in order; the loop keeps the start of the run and the last voiced instant.\<close>

fun voiced_runs :: "frame_feature list \<Rightarrow> real option \<Rightarrow> real \<Rightarrow> real list" where
  "voiced_runs [] start lastAt = (case start of None \<Rightarrow> [] | Some s \<Rightarrow> [lastAt - s])"
| "voiced_runs (f # fs) start lastAt =
     (if ff_f0 f \<noteq> None then voiced_runs fs (Some (case start of None \<Rightarrow> ff_atMs f | Some s \<Rightarrow> s)) (ff_atMs f)
      else (case start of
              None \<Rightarrow> voiced_runs fs None lastAt
            | Some s \<Rightarrow> (lastAt - s) # voiced_runs fs None lastAt))"

definition lengthening :: "frame_feature list \<Rightarrow> real option" where
  "lengthening tail =
     (let runs = filter (\<lambda>r. r > 0) (voiced_runs tail None 0)
      in if length runs < 2 then None
         else (let median = sort runs ! (length runs div 2)
               in if median \<le> 0 then None else Some (last runs / median)))"

section \<open>The score\<close>

definition pitch_term :: "prosody_weights \<Rightarrow> real \<Rightarrow> real \<times> cue" where
  "pitch_term w slope =
     (if slope \<le> -2 then (pw_fallingPitch w * min 1 (- slope / 6), FallingPitch slope)
      else if slope \<ge> 3 then (pw_risingPitch w * min 1 (slope / 8), RisingPitch slope)
      else (pw_levelPitch w * (1 - min 1 (\<bar>slope\<bar> / 3)), LevelPitch slope))"

definition lengthening_term :: "prosody_weights \<Rightarrow> real \<Rightarrow> (real \<times> cue) option" where
  "lengthening_term w ratio =
     (if ratio > 115 / 100 then Some (pw_finalLengthening w * min 1 ((ratio - 115 / 100) / (85 / 100)), FinalLengthening ratio)
      else None)"

definition energy_term :: "prosody_weights \<Rightarrow> real \<Rightarrow> (real \<times> cue) option" where
  "energy_term w decay =
     (if decay \<le> -6 then Some (pw_energyDecay w * min 1 (- decay / 25), TrailingOff decay)
      else if decay \<ge> -1 then Some (pw_abruptStop w, FullEnergy decay)
      else None)"

definition score_terms :: "prosody_weights \<Rightarrow> prosody_features \<Rightarrow> (real \<times> cue) list" where
  "score_terms w f =
     (case pf_pitchSlope f of None \<Rightarrow> [] | Some s \<Rightarrow> [pitch_term w s]) @
     (case pf_lengthening f of None \<Rightarrow> [] | Some r \<Rightarrow> (case lengthening_term w r of None \<Rightarrow> [] | Some x \<Rightarrow> [x])) @
     (case pf_energySlope f of None \<Rightarrow> [] | Some d \<Rightarrow> (case energy_term w d of None \<Rightarrow> [] | Some x \<Rightarrow> [x]))"

definition score :: "prosody_weights \<Rightarrow> prosody_features \<Rightarrow> real" where
  "score w f = sum_list (map fst (score_terms w f))"

definition sigmoid :: "real \<Rightarrow> real" where
  "sigmoid x = 1 / (1 + exp (- x))"

section \<open>The predictor\<close>

record turn_predictor =
  tp_weights :: prosody_weights
  tp_tailMs :: real
  tp_frames :: "frame_feature list"

definition new_predictor :: "prosody_weights option \<Rightarrow> real option \<Rightarrow> turn_predictor" where
  "new_predictor w t = \<lparr>tp_weights = (case w of None \<Rightarrow> PROSODY_WEIGHTS | Some v \<Rightarrow> v),
     tp_tailMs = (case t of None \<Rightarrow> TAIL_MS | Some v \<Rightarrow> v), tp_frames = []\<rparr>"

definition frame_level :: "real list \<Rightarrow> real" where
  "frame_level frame =
     (let rms = sqrt (sum_list (map (\<lambda>x. x * x) frame) / real (length frame))
      in if rms \<le> 1 / 10 ^ 10 then -200 else 20 * log 10 rms)"

definition feature_of :: "real list \<Rightarrow> real \<Rightarrow> real \<Rightarrow> frame_feature" where
  "feature_of frame sampleRate atMs = \<lparr>ff_atMs = atMs, ff_db = frame_level frame, ff_f0 = pitchOf frame sampleRate\<rparr>"

definition push_frame :: "real list \<Rightarrow> real \<Rightarrow> real \<Rightarrow> turn_predictor \<Rightarrow> turn_predictor" where
  "push_frame frame sampleRate atMs tp =
     (if frame = [] then tp
      else tp\<lparr>tp_frames := dropWhile (\<lambda>f. ff_atMs f < atMs - tp_tailMs tp * 3)
             (tp_frames tp @ [feature_of frame sampleRate atMs])\<rparr>)"

definition reset_predictor :: "turn_predictor \<Rightarrow> turn_predictor" where
  "reset_predictor tp = tp\<lparr>tp_frames := []\<rparr>"

definition features_of :: "frame_feature list \<Rightarrow> prosody_features" where
  "features_of tail = \<lparr>pf_pitchSlope = pitchSlope (voiced_frames tail), pf_lengthening = lengthening tail,
     pf_energySlope = energySlope tail, pf_voicedTailFrames = length (voiced_frames tail)\<rparr>"

definition estimate_of :: "prosody_weights \<Rightarrow> prosody_features \<Rightarrow> turn_end_estimate" where
  "estimate_of w f =
     (let n = pf_voicedTailFrames f
      in if n < MIN_VOICED_TAIL_FRAMES then NO_EVIDENCE\<lparr>te_features := f, te_reason := OnlyVoiced n\<rparr>
         else \<lparr>te_probability = sigmoid (pw_sharpness w * score w f),
               te_confidence = clamp01 ((real n - real MIN_VOICED_TAIL_FRAMES) / real MIN_VOICED_TAIL_FRAMES),
               te_features = f, te_reason = Cues (map snd (score_terms w f))\<rparr>)"

definition tail_of :: "real \<Rightarrow> real \<Rightarrow> frame_feature list \<Rightarrow> frame_feature list" where
  "tail_of len atMs fs = filter (\<lambda>f. ff_atMs f \<le> atMs \<and> ff_atMs f \<ge> atMs - len) fs"

definition estimate :: "real \<Rightarrow> turn_predictor \<Rightarrow> turn_end_estimate" where
  "estimate atMs tp = estimate_of (tp_weights tp) (features_of (tail_of (tp_tailMs tp) atMs (tp_frames tp)))"

text \<open>What the server is told of it, and the predictor as the detector of boundaries uses it.\<close>

definition evidence_of :: "(prosody_reason \<Rightarrow> string) \<Rightarrow> turn_end_estimate \<Rightarrow> prosodic_evidence" where
  "evidence_of show_reason e = \<lparr>ps_probability = te_probability e, ps_confidence = te_confidence e,
     ps_reason = Some (take 200 (show_reason (te_reason e)))\<rparr>"


section \<open>Probability and confidence\<close>

lemma sigmoid_range: "0 < sigmoid x" "sigmoid x < 1"
  using exp_gt_zero [of "- x"] by (simp_all add: sigmoid_def field_simps add_pos_pos)

lemma sigmoid_half: "2 * sigmoid x - 1 > 0 \<longleftrightarrow> x > 0" "2 * sigmoid x - 1 < 0 \<longleftrightarrow> x < 0"
proof -
  have pos: "0 < 1 + exp (- x)" using exp_gt_zero [of "- x"] by linarith
  have "2 * sigmoid x - 1 = (1 - exp (- x)) / (1 + exp (- x))" using pos by (simp add: sigmoid_def field_simps)
  then show "2 * sigmoid x - 1 > 0 \<longleftrightarrow> x > 0" "2 * sigmoid x - 1 < 0 \<longleftrightarrow> x < 0"
    using pos by (simp_all add: zero_less_divide_iff divide_less_0_iff)
qed

lemma pos_times: "0 < (c :: real) \<Longrightarrow> (0 < c * d) = (0 < d)" "0 < (c :: real) \<Longrightarrow> (c * d < 0) = (d < 0)"
  by (simp_all add: zero_less_mult_iff mult_less_0_iff)

lemma estimate_of_range:
  "0 < te_probability (estimate_of w f) \<and> te_probability (estimate_of w f) < 1 \<and>
   0 \<le> te_confidence (estimate_of w f) \<and> te_confidence (estimate_of w f) \<le> 1"
  by (simp add: estimate_of_def NO_EVIDENCE_def Let_def sigmoid_range)

lemma estimate_of_confident: "te_confidence (estimate_of w f) > 0 \<longleftrightarrow> pf_voicedTailFrames f > MIN_VOICED_TAIL_FRAMES"
  by (auto simp: estimate_of_def NO_EVIDENCE_def Let_def MIN_VOICED_TAIL_FRAMES_def clamp01_def min_def max_def)

text \<open>What the server makes of it: the sign of the score moves the window, and little voice leaves it alone.\<close>

lemma estimate_of_pull:
  "prosodyPull (Some (evidence_of sh (estimate_of w f))) =
    te_confidence (estimate_of w f) * (2 * te_probability (estimate_of w f) - 1)"
proof -
  have r: "0 < te_probability (estimate_of w f)" "te_probability (estimate_of w f) < 1"
    "0 \<le> te_confidence (estimate_of w f)" "te_confidence (estimate_of w f) \<le> 1"
    using estimate_of_range by blast+
  then have "clamp01 (te_probability (estimate_of w f)) = te_probability (estimate_of w f)"
    "clamp01 (te_confidence (estimate_of w f)) = te_confidence (estimate_of w f)" by (simp_all add: clamp01_def)
  then show ?thesis using r by (simp add: prosodyPull_def evidence_of_def Let_def)
qed

lemma estimate_of_pull_sign:
  assumes "MIN_VOICED_TAIL_FRAMES < pf_voicedTailFrames f"
  shows "prosodyPull (Some (evidence_of sh (estimate_of w f))) > 0 \<longleftrightarrow> pw_sharpness w * score w f > 0"
    and "prosodyPull (Some (evidence_of sh (estimate_of w f))) < 0 \<longleftrightarrow> pw_sharpness w * score w f < 0"
proof -
  have c: "te_confidence (estimate_of w f) > 0" using estimate_of_confident assms by blast
  have p: "te_probability (estimate_of w f) = sigmoid (pw_sharpness w * score w f)" using assms by (simp add: estimate_of_def Let_def)
  show "prosodyPull (Some (evidence_of sh (estimate_of w f))) > 0 \<longleftrightarrow> pw_sharpness w * score w f > 0"
    unfolding estimate_of_pull pos_times(1) [OF c] p sigmoid_half(1) by (rule refl)
  show "prosodyPull (Some (evidence_of sh (estimate_of w f))) < 0 \<longleftrightarrow> pw_sharpness w * score w f < 0"
    unfolding estimate_of_pull pos_times(2) [OF c] p sigmoid_half(2) by (rule refl)
qed

lemma little_voice_changes_nothing:
  assumes "pf_voicedTailFrames f \<le> MIN_VOICED_TAIL_FRAMES"
  shows "turnEndWindow p (Some (evidence_of sh (estimate_of w f))) = turnEndWindow p None"
proof -
  have "te_confidence (estimate_of w f) = 0"
    using estimate_of_confident [of w f] estimate_of_range [of w f] assms by linarith
  then show ?thesis by (simp add: estimate_of_pull)
qed

section \<open>The score\<close>

lemma pitch_term_default:
  "fst (pitch_term PROSODY_WEIGHTS s) \<le> 9 / 10" "-1 \<le> fst (pitch_term PROSODY_WEIGHTS s)"
  "s \<le> -2 \<Longrightarrow> 3 / 10 \<le> fst (pitch_term PROSODY_WEIGHTS s)" "3 \<le> s \<Longrightarrow> 21 / 80 \<le> fst (pitch_term PROSODY_WEIGHTS s)"
  "-2 < s \<Longrightarrow> s < 3 \<Longrightarrow> fst (pitch_term PROSODY_WEIGHTS s) < 0"
  by (auto simp: pitch_term_def PROSODY_WEIGHTS_def min_def abs_if)

text \<open>What each cue can add, and with it the bounds of the score.\<close>

definition cue_sum :: "(real \<times> cue) option \<Rightarrow> real" where
  "cue_sum x = (case x of None \<Rightarrow> 0 | Some y \<Rightarrow> fst y)"

lemma score_sum:
  "score w f = cue_sum (map_option (pitch_term w) (pf_pitchSlope f)) + cue_sum (Option.bind (pf_lengthening f) (lengthening_term w)) +
    cue_sum (Option.bind (pf_energySlope f) (energy_term w))"
  by (auto simp: score_def score_terms_def cue_sum_def Option.bind_def split: option.splits)

lemma lengthening_default:
  "0 \<le> cue_sum (Option.bind x (lengthening_term PROSODY_WEIGHTS))" "cue_sum (Option.bind x (lengthening_term PROSODY_WEIGHTS)) \<le> 8 / 10"
  by (auto simp: cue_sum_def lengthening_term_def PROSODY_WEIGHTS_def min_def split: option.splits bind_splits)

lemma energy_default:
  "- 7 / 10 \<le> cue_sum (Option.bind x (energy_term PROSODY_WEIGHTS))" "cue_sum (Option.bind x (energy_term PROSODY_WEIGHTS)) \<le> 6 / 10"
  by (auto simp: cue_sum_def energy_term_def PROSODY_WEIGHTS_def min_def split: option.splits bind_splits)

lemma pitch_default:
  "-1 \<le> cue_sum (map_option (pitch_term PROSODY_WEIGHTS) x)" "cue_sum (map_option (pitch_term PROSODY_WEIGHTS) x) \<le> 9 / 10"
  using pitch_term_default(1,2) by (cases x; simp add: cue_sum_def)+

lemma score_default_range: "- 17 / 10 \<le> score PROSODY_WEIGHTS f \<and> score PROSODY_WEIGHTS f \<le> 23 / 10"
  unfolding score_sum using pitch_default [of "pf_pitchSlope f"] lengthening_default [of "pf_lengthening f"]
    energy_default [of "pf_energySlope f"] by simp


section \<open>What is kept of the frames\<close>

text \<open>
  The frames are cut to three tails before the latest one. A predictor that kept every frame would give the
  same estimate, as long as it is asked about an instant at most two tails before the latest frame.
\<close>

fun push_frames :: "(real list \<times> real \<times> real) list \<Rightarrow> turn_predictor \<Rightarrow> turn_predictor" where
  "push_frames [] tp = tp"
| "push_frames ((frame, rate, t) # fs) tp = push_frames fs (push_frame frame rate t tp)"

definition all_features :: "(real list \<times> real \<times> real) list \<Rightarrow> frame_feature list" where
  "all_features fs = map (\<lambda>(frame, rate, t). feature_of frame rate t) (filter (\<lambda>(frame, rate, t). frame \<noteq> []) fs)"

lemma push_frame_sel [simp]:
  "tp_tailMs (push_frame frame rate t tp) = tp_tailMs tp" "tp_weights (push_frame frame rate t tp) = tp_weights tp"
  by (simp_all add: push_frame_def)

lemma push_frames_sel [simp]:
  "tp_tailMs (push_frames fs tp) = tp_tailMs tp" "tp_weights (push_frames fs tp) = tp_weights tp"
  by (induction fs tp rule: push_frames.induct) simp_all

lemma dropWhile_cut: "\<exists>gone. xs = gone @ dropWhile P xs \<and> (\<forall>x\<in>set gone. P x)"
  by (metis set_takeWhileD takeWhile_dropWhile_id)

lemma push_frames_cut:
  assumes "\<forall>(frame, rate, t)\<in>set fs. t \<le> last_at"
  shows "\<exists>gone. tp_frames tp @ all_features fs = gone @ tp_frames (push_frames fs tp) \<and>
    (\<forall>f\<in>set gone. ff_atMs f < last_at - tp_tailMs tp * 3)"
  using assms
proof (induction fs tp rule: push_frames.induct)
  case (2 frame rate t fs tp)
  show ?case
  proof (cases "frame = []")
    case True
    then have "push_frame frame rate t tp = tp" "all_features ((frame, rate, t) # fs) = all_features fs"
      by (simp_all add: push_frame_def all_features_def)
    then show ?thesis using 2 by simp
  next
    case False
    let ?xs = "tp_frames tp @ [feature_of frame rate t]"
    obtain g1 where g1: "?xs = g1 @ tp_frames (push_frame frame rate t tp)" "\<forall>f\<in>set g1. ff_atMs f < t - tp_tailMs tp * 3"
      using dropWhile_cut [of ?xs "\<lambda>f. ff_atMs f < t - tp_tailMs tp * 3"] False by (auto simp: push_frame_def)
    obtain g2 where g2: "tp_frames (push_frame frame rate t tp) @ all_features fs = g2 @ tp_frames (push_frames fs (push_frame frame rate t tp))"
        "\<forall>f\<in>set g2. ff_atMs f < last_at - tp_tailMs tp * 3"
      using 2 by auto
    have "t \<le> last_at" using 2(2) by simp
    then have "\<forall>f\<in>set (g1 @ g2). ff_atMs f < last_at - tp_tailMs tp * 3" using g1(2) g2(2) by fastforce
    moreover have "all_features ((frame, rate, t) # fs) = feature_of frame rate t # all_features fs" using False by (simp add: all_features_def)
    then have "tp_frames tp @ all_features ((frame, rate, t) # fs) = (g1 @ g2) @ tp_frames (push_frames ((frame, rate, t) # fs) tp)"
      using g1(1) g2(1) by (metis append.assoc append_Cons append_Nil push_frames.simps(2))
    ultimately show ?thesis by blast
  qed
qed (simp add: all_features_def)

lemma estimate_of_all_frames:
  assumes "\<forall>(frame, rate, t)\<in>set fs. t \<le> last_at" and "tp_frames tp = []" and "last_at - 2 * tp_tailMs tp \<le> atMs"
  shows "estimate atMs (push_frames fs tp) =
    estimate_of (tp_weights tp) (features_of (tail_of (tp_tailMs tp) atMs (all_features fs)))"
proof -
  obtain gone where g: "all_features fs = gone @ tp_frames (push_frames fs tp)"
      "\<forall>f\<in>set gone. ff_atMs f < last_at - tp_tailMs tp * 3"
    using push_frames_cut [OF assms(1), of tp] assms(2) by auto
  have "tail_of (tp_tailMs tp) atMs gone = []" using g(2) assms(3) by (fastforce simp: tail_of_def filter_empty_conv)
  then have "tail_of (tp_tailMs tp) atMs (all_features fs) = tail_of (tp_tailMs tp) atMs (tp_frames (push_frames fs tp))"
    unfolding g(1) by (simp add: tail_of_def)
  then show ?thesis by (simp add: estimate_def)
qed

section \<open>The contour does not depend on the voice\<close>

lemma sum_list_add_const: "sum_list (map (\<lambda>p. g p + (c :: real)) ps) = sum_list (map g ps) + real (length ps) * c"
  by (induction ps) (simp_all add: algebra_simps)

lemma leastSquaresSlope_shift: "leastSquaresSlope (map (\<lambda>(x, y). (x + a, y + b)) ps) = leastSquaresSlope ps"
proof (cases "length ps < 2")
  case False
  then have n: "real (length ps) \<noteq> 0" by auto
  have sx: "sum_list (map fst (map (\<lambda>(x, y). (x + a, y + b)) ps)) / real (length ps) = sum_list (map fst ps) / real (length ps) + a"
    using sum_list_add_const [of fst a ps] n by (simp add: comp_def case_prod_beta add_divide_distrib)
  have sy: "sum_list (map snd (map (\<lambda>(x, y). (x + a, y + b)) ps)) / real (length ps) = sum_list (map snd ps) / real (length ps) + b"
    using sum_list_add_const [of snd b ps] n by (simp add: comp_def case_prod_beta add_divide_distrib)
  have num: "map (\<lambda>(x, y). (x - (mx + a)) * (y - (my + b))) (map (\<lambda>(x, y). (x + a, y + b)) ps) = map (\<lambda>(x, y). (x - mx) * (y - my)) ps"
    and den: "map (\<lambda>(x, y). (x - (mx + a)) * (x - (mx + a))) (map (\<lambda>(x, y). (x + a, y + b)) ps) = map (\<lambda>(x, y). (x - mx) * (x - mx)) ps"
    for mx my by auto
  show ?thesis unfolding leastSquaresSlope_def Let_def length_map sx sy num den by (rule refl)
qed (simp add: leastSquaresSlope_def)

text \<open>The same contour an interval higher, or later, has the same slope.\<close>

lemma pitchSlope_transposed:
  assumes "0 < c" and "\<forall>(t, hz)\<in>set voiced. 0 < hz"
  shows "pitchSlope (map (\<lambda>(t, hz). (t + d, c * hz)) voiced) = pitchSlope voiced"
proof -
  have "map (\<lambda>(t, hz). (t / 1000, 12 * log 2 hz)) (map (\<lambda>(t, hz). (t + d, c * hz)) voiced) =
      map (\<lambda>(x, y). (x + d / 1000, y + 12 * log 2 c)) (map (\<lambda>(t, hz). (t / 1000, 12 * log 2 hz)) voiced)"
    using assms by (auto simp: log_mult add_divide_distrib)
  then show ?thesis unfolding pitchSlope_def length_map by (simp only: leastSquaresSlope_shift)
qed


section \<open>The pitch\<close>

text \<open>The normalized correlation of a lag is a cosine.\<close>

lemma energy_nonneg: "0 \<le> energy_of xs"
  by (induction xs) (simp_all add: energy_of_def)

lemma energy_append: "energy_of (xs @ ys) = energy_of xs + energy_of ys"
  by (simp add: energy_of_def)

lemma cauchy_schwarz_lists: "(sum_list (map2 (*) xs ys))\<^sup>2 \<le> energy_of xs * energy_of ys"
proof (induction xs ys rule: list_induct2')
  case (4 a xs b ys)
  let ?c = "sum_list (map2 (*) xs ys)" and ?A = "energy_of xs" and ?B = "energy_of ys"
  have pos: "0 \<le> ?A" "0 \<le> ?B" by (rule energy_nonneg)+
  have sq: "(2 * ?c * (a * b))\<^sup>2 \<le> (?A * b\<^sup>2 + ?B * a\<^sup>2)\<^sup>2"
  proof -
    have "(2 * ?c * (a * b))\<^sup>2 = 4 * ?c\<^sup>2 * (a\<^sup>2 * b\<^sup>2)" by (simp add: power_mult_distrib)
    also have "\<dots> \<le> 4 * (?A * ?B) * (a\<^sup>2 * b\<^sup>2)" using 4 by (intro mult_right_mono mult_left_mono) simp_all
    also have "\<dots> \<le> (?A * b\<^sup>2 + ?B * a\<^sup>2)\<^sup>2"
      using zero_le_power2 [of "?A * b\<^sup>2 - ?B * a\<^sup>2"] by (simp add: power2_eq_square algebra_simps)
    finally show ?thesis .
  qed
  have "2 * ?c * (a * b) \<le> ?A * b\<^sup>2 + ?B * a\<^sup>2"
    using power2_le_imp_le [OF sq] pos by simp
  then have "?c\<^sup>2 + 2 * ?c * (a * b) + (a * b)\<^sup>2 \<le> ?A * ?B + (?A * b\<^sup>2 + ?B * a\<^sup>2) + (a * b)\<^sup>2" using 4 by linarith
  then show ?case by (simp add: energy_of_def power2_eq_square algebra_simps)
qed (simp_all add: energy_of_def)

lemma energy_drop_le: "energy_of (drop n xs) \<le> energy_of xs"
  using energy_append [of "take n xs" "drop n xs"] energy_nonneg [of "take n xs"] by simp

lemma normalized_range:
  assumes "0 < energy_of (drop lag x)"
  shows "\<bar>normalized x lag\<bar> \<le> 1"
proof -
  have pos: "0 < energy_of x * energy_of (drop lag x)" using assms energy_drop_le [of lag x] by simp
  have "\<bar>correlation x lag\<bar> \<le> sqrt (energy_of x * energy_of (drop lag x))"
    using cauchy_schwarz_lists [of x "drop lag x"] by (intro real_le_rsqrt) (simp add: correlation_def)
  then show ?thesis using pos by (simp add: normalized_def abs_divide)
qed

text \<open>A louder or a quieter frame has the same correlations.\<close>

lemma normalized_gain:
  assumes "c \<noteq> 0"
  shows "normalized (map ((*) c) x) lag = normalized x lag"
proof -
  have e: "energy_of (map ((*) c) y) = c\<^sup>2 * energy_of y" for y
    by (induction y) (simp_all add: energy_of_def power2_eq_square algebra_simps)
  have "sum_list (map2 (*) (map ((*) c) y) (map ((*) c) z)) = c\<^sup>2 * sum_list (map2 (*) y z)" for y z
    by (induction y z rule: list_induct2') (simp_all add: power2_eq_square algebra_simps)
  then have k: "correlation (map ((*) c) x) lag = c\<^sup>2 * correlation x lag" by (simp add: correlation_def drop_map)
  have "sqrt (c\<^sup>2 * energy_of x * (c\<^sup>2 * energy_of (drop lag x))) = c\<^sup>2 * sqrt (energy_of x * energy_of (drop lag x))"
    by (simp add: real_sqrt_mult power2_eq_square)
  then show ?thesis using assms by (simp add: normalized_def k e drop_map)
qed

lemma best_lag_range:
  assumes "foldl (try_lag x) (b0, s0) lags = (Some lag, s)" and "b0 = None \<or> (\<exists>l\<in>L. b0 = Some l \<and> s0 \<le> 1)" and "set lags \<subseteq> L"
  shows "lag \<in> L \<and> s \<le> 1"
  using assms
proof (induction lags arbitrary: b0 s0)
  case (Cons l lags)
  obtain b1 s1 where b1: "try_lag x (b0, s0) l = (b1, s1)" by fastforce
  have "normalized x l \<le> 1" if "\<not> energy_of (drop l x) \<le> 1 / 10 ^ 9"
  proof -
    have "0 < energy_of (drop l x)" using that by (smt (verit) divide_nonneg_nonneg zero_le_power)
    then show ?thesis using normalized_range [of l x] by linarith
  qed
  then have "b1 = None \<or> (\<exists>l\<in>L. b1 = Some l \<and> s1 \<le> 1)" using b1 Cons.prems(2,3) by (auto simp: try_lag_def split: if_splits)
  with Cons show ?case by (simp add: b1)
qed auto

text \<open>A pitch is that of a lag between the bounds.\<close>

lemma pitch_of_decimated_range:
  assumes "pitch_of_decimated x rate = Some f0"
  shows "\<exists>lag. f0 = rate / real lag \<and> 2 \<le> lag \<and> \<lfloor>rate / MAX_F0_HZ\<rfloor> \<le> int lag \<and> int lag \<le> \<lceil>rate / MIN_F0_HZ\<rceil> \<and> lag < length x"
proof -
  let ?lo = "nat (max 2 \<lfloor>rate / MAX_F0_HZ\<rfloor>)" and ?hi = "nat (min (int (length x) - 1) \<lceil>rate / MIN_F0_HZ\<rceil>)"
  obtain lag s where b: "best_lag x ?lo ?hi = (Some lag, s)" and f0: "f0 = rate / real lag" and hi: "\<not> ?hi \<le> ?lo"
    using assms by (auto simp: pitch_of_decimated_def Let_def split: if_splits option.splits prod.splits)
  have "set [?lo..<?hi + 1] \<subseteq> {?lo..?hi}" unfolding set_upt by (rule subsetI) (simp only: atLeastLessThan_iff atLeastAtMost_iff less_Suc_eq_le Suc_eq_plus1 [symmetric])
  then have "lag \<in> {?lo..?hi}" using best_lag_range [OF b [unfolded best_lag_def] disjI1 [OF refl], of "{?lo..?hi}"] by blast
  then have "?lo \<le> lag" "lag \<le> ?hi" by simp_all
  moreover have "0 < ?hi" using hi by linarith
  ultimately have "2 \<le> lag \<and> \<lfloor>rate / MAX_F0_HZ\<rfloor> \<le> int lag \<and> int lag \<le> \<lceil>rate / MIN_F0_HZ\<rceil> \<and> lag < length x" by linarith
  then show ?thesis using f0 by blast
qed


lemma pitchOf_range:
  assumes "pitchOf frame sampleRate = Some f0" and "0 < sampleRate"
  shows "\<exists>rate lag. 0 < rate \<and> f0 = rate / real lag \<and> 2 \<le> lag \<and> \<lfloor>rate / MAX_F0_HZ\<rfloor> \<le> int lag \<and> int lag \<le> \<lceil>rate / MIN_F0_HZ\<rceil>"
proof -
  let ?factor = "nat (max 1 (math_round (sampleRate / ANALYSIS_RATE_HZ)))"
  let ?x = "centered (decimate frame ?factor (length frame div ?factor))" and ?rate = "sampleRate / real ?factor"
  have "pitch_of_decimated ?x ?rate = Some f0"
    using assms(1) by (simp add: pitchOf_def Let_def split: if_splits)
  moreover have "0 < ?rate" using assms(2) by simp
  ultimately show ?thesis using pitch_of_decimated_range [of ?x ?rate f0] by blast
qed

lemma pitchOf_positive: "pitchOf frame sampleRate = Some f0 \<Longrightarrow> 0 < sampleRate \<Longrightarrow> 0 < f0"
  using pitchOf_range [of frame sampleRate f0] by auto

end
