(* ===== verification/EventLog.thy ===== *)
theory EventLog
  imports Contracts Keyed_Maps Step_Closure "HOL-Library.Sublist"
begin

text \<open>
  \<open>session/event-log.ts\<close> and the redaction of \<open>privacy/deletion.ts\<close>: the append-only log of the
  sessions, idempotent on the key of a request and numbered by the server. The interface
  \<open>append_only_log\<close> states what its users rely on; the in-memory log is interpreted in it. Session
  ids are UUIDs made by the server, hence hold no colon. The collation of \<open>localeCompare\<close> and the
  digest (\<open>JSON.stringify\<close>, then SHA-256) are parameters. A number of the browser is an integer here:
  the schema of the client's envelope lets no fraction through.
\<close>

section \<open>Requests and the canonical form of a payload\<close>

record log_request =
  rq_session :: string
  rq_type :: event_type
  rq_actor :: event_actor
  rq_scenario :: string
  rq_payload :: payload
  rq_trace :: string
  rq_key :: string
  rq_occurredAt :: "instant option"
  rq_clientSeq :: "int option"

record hashing =
  collation :: "string \<Rightarrow> real"
  sha256_hex :: "string \<times> event_type \<times> event_actor \<times> json \<Rightarrow> string"

text \<open>\<open>sortKeys\<close>: the entries of every object in the order of their keys.\<close>

fun sortKeys :: "(string \<Rightarrow> real) \<Rightarrow> json \<Rightarrow> json" where
  "sortKeys col (JArr xs) = JArr (map (sortKeys col) xs)"
| "sortKeys col (JObj kvs) =
     JObj (map (\<lambda>kv. (fst kv, sortKeys col (snd kv))) (sort_key (\<lambda>kv. col (fst kv)) kvs))"
| "sortKeys col j = j"

definition evidence_hash :: "hashing \<Rightarrow> log_request \<Rightarrow> string" where
  "evidence_hash h r = ''sha256:'' @
     sha256_hex h (rq_session r, rq_type r, rq_actor r, sortKeys (collation h) (JObj (rq_payload r)))"

section \<open>The log\<close>

record event_log =
  el_events :: "(string \<times> session_event list) list"
  el_byKey :: "(string \<times> session_event) list"
  el_clientSeqs :: "(string \<times> (int \<times> session_event) list) list"
  el_redacted :: "string list"

definition empty_log :: event_log where
  "empty_log = \<lparr>el_events = [], el_byKey = [], el_clientSeqs = [], el_redacted = []\<rparr>"

definition or_empty :: "'a list option \<Rightarrow> 'a list" where
  "or_empty v = (case v of None \<Rightarrow> [] | Some xs \<Rightarrow> xs)"

lemma or_empty_simps [simp]: "or_empty None = []" "or_empty (Some xs) = xs"
  by (simp_all add: or_empty_def)

definition session_events :: "event_log \<Rightarrow> string \<Rightarrow> session_event list" where
  "session_events l s = or_empty (get_key (el_events l) s)"

definition client_numbers :: "event_log \<Rightarrow> string \<Rightarrow> int list" where
  "client_numbers l s = map fst (or_empty (get_key (el_clientSeqs l) s))"

definition dedupe_key :: "string \<Rightarrow> string \<Rightarrow> string" where
  "dedupe_key s k = s @ '':'' @ k"

definition MAX_SAFE_INTEGER :: int where
  "MAX_SAFE_INTEGER = 9007199254740991"

definition client_seq_error :: "event_log \<Rightarrow> log_request \<Rightarrow> js_error option" where
  "client_seq_error l r = (case rq_clientSeq r of
     None \<Rightarrow> None
   | Some n \<Rightarrow>
       if n > MAX_SAFE_INTEGER \<or> n < 0 then Some (JsError ''INVALID_CLIENT_SEQUENCE'')
       else if n \<in> set (client_numbers l (rq_session r)) then Some (JsError ''CLIENT_SEQUENCE_CONFLICT'')
       else None)"

definition new_event :: "hashing \<Rightarrow> instant \<Rightarrow> log_request \<Rightarrow> event_log \<Rightarrow> session_event" where
  "new_event h now r l = \<lparr>
     sessionId = rq_session r,
     seq = length (session_events l (rq_session r)),
     occurredAt = (case rq_occurredAt r of Some t \<Rightarrow> t | None \<Rightarrow> now),
     etype = rq_type r,
     actor = rq_actor r,
     scenarioVersionId = rq_scenario r,
     payload = rq_payload r,
     evidenceHash = evidence_hash h r,
     traceId = rq_trace r\<rparr>"

definition insert_event :: "log_request \<Rightarrow> session_event \<Rightarrow> event_log \<Rightarrow> event_log" where
  "insert_event r e l =
     (let s = rq_session r;
          l1 = l\<lparr>el_events := set_key (el_events l) s (session_events l s @ [e]),
                 el_byKey := set_key (el_byKey l) (dedupe_key s (rq_key r)) e\<rparr>
      in case rq_clientSeq r of
           None \<Rightarrow> l1
         | Some n \<Rightarrow> l1\<lparr>el_clientSeqs := set_key (el_clientSeqs l) s
                         (set_key (or_empty (get_key (el_clientSeqs l) s)) n e)\<rparr>)"

definition append_log ::
  "hashing \<Rightarrow> instant \<Rightarrow> log_request \<Rightarrow> event_log \<Rightarrow> (event_log \<times> session_event \<times> bool) result" where
  "append_log h now r l =
     (if rq_session r \<in> set (el_redacted l) then Inl (JsError ''SESSION_DELETED'')
      else (case get_key (el_byKey l) (dedupe_key (rq_session r) (rq_key r)) of
              Some e \<Rightarrow> Inr (l, e, True)
            | None \<Rightarrow>
                (case client_seq_error l r of
                   Some err \<Rightarrow> Inl err
                 | None \<Rightarrow> (let e = new_event h now r l in Inr (insert_event r e l, e, False)))))"

definition read_log :: "event_log \<Rightarrow> string \<Rightarrow> nat \<Rightarrow> session_event list" where
  "read_log l s from_seq = filter (\<lambda>e. from_seq \<le> seq e) (session_events l s)"

definition latestSeq :: "event_log \<Rightarrow> string \<Rightarrow> int" where
  "latestSeq l s = (if session_events l s \<noteq> [] then int (length (session_events l s)) - 1 else -1)"

definition latestClientSeq :: "event_log \<Rightarrow> string \<Rightarrow> int" where
  "latestClientSeq l s = fold max (client_numbers l s) (-1)"

section \<open>Redaction\<close>

definition IDENTIFYING_FIELDS :: "string list" where
  "IDENTIFYING_FIELDS =
     [''transcript'', ''interimTranscript'', ''text'', ''stdout'', ''stderr'', ''source'', ''notes'', ''input'',
      ''audioUrl'', ''utterance'', ''prosody'', ''prosodyProbability'', ''prosodyConfidence'', ''prosodyPull'',
      ''turnEndReason'']"

definition REDACTED :: string where
  "REDACTED = ''[redacted]''"

definition redactEvent :: "session_event \<Rightarrow> session_event" where
  "redactEvent e = e\<lparr>payload :=
     set_key (map (\<lambda>(k, v). (k, if k \<in> set IDENTIFYING_FIELDS then JStr REDACTED else v)) (payload e))
       ''redacted'' (JBool True)\<rparr>"

definition FULLY_REDACTED :: "event_type list" where
  "FULLY_REDACTED =
     [SPEECH_FINAL, CLARIFICATION_ANSWERED, PROBE_ASKED, HINT_GIVEN, FOLLOW_UP_PRESENTED, BRIEF_DELIVERED,
      NOTE_DELTA, CODE_DELTA, RUNTIME_CHECKPOINT]"

definition redactionFor :: "session_event \<Rightarrow> session_event" where
  "redactionFor e =
     (if etype e \<in> set FULLY_REDACTED then e\<lparr>payload := [(''redacted'', JBool True)]\<rparr> else redactEvent e)"

definition redact_log :: "string \<Rightarrow> event_log \<Rightarrow> event_log \<times> nat" where
  "redact_log s l =
     (let l1 = l\<lparr>el_redacted := (if s \<in> set (el_redacted l) then el_redacted l else el_redacted l @ [s])\<rparr>
      in case get_key (el_events l) s of
           None \<Rightarrow> (l1, 0)
         | Some es \<Rightarrow>
             (l1\<lparr>el_events := set_key (el_events l) s (map redactionFor es),
                 el_byKey := filter (\<lambda>kv. sessionId (snd kv) \<noteq> s) (el_byKey l)\<rparr>, length es))"

section \<open>What an append does\<close>

lemma session_events_insert [simp]:
  "session_events (insert_event r e l) s =
     (if s = rq_session r then session_events l s @ [e] else session_events l s)"
  by (auto simp: session_events_def insert_event_def Let_def split: option.splits)

lemma byKey_insert [simp]:
  "el_byKey (insert_event r e l) = set_key (el_byKey l) (dedupe_key (rq_session r) (rq_key r)) e"
  by (simp add: insert_event_def Let_def split: option.splits)

lemma redacted_insert [simp]: "el_redacted (insert_event r e l) = el_redacted l"
  by (simp add: insert_event_def Let_def split: option.splits)

lemma client_numbers_insert:
  "set (client_numbers (insert_event r e l) s) =
     set (client_numbers l s) \<union> (if s = rq_session r then set_option (rq_clientSeq r) else {})"
proof -
  have "set (map fst (set_key m k v)) = insert k (set (map fst m))" for m :: "(int \<times> session_event) list" and k v
    by (induction m k v rule: set_key.induct) auto
  then show ?thesis
    by (auto simp: client_numbers_def insert_event_def Let_def split: option.splits)
qed

lemma new_event_sel [simp]:
  "sessionId (new_event h now r l) = rq_session r"
  "seq (new_event h now r l) = length (session_events l (rq_session r))"
  by (simp_all add: new_event_def)

lemma append_log_cases:
  assumes "append_log h now r l = Inr (l', e, d)"
  obtains (stored) "l' = l" "d" "get_key (el_byKey l) (dedupe_key (rq_session r) (rq_key r)) = Some e"
      "rq_session r \<notin> set (el_redacted l)"
  | (fresh) "\<not> d" "e = new_event h now r l" "l' = insert_event r e l"
      "rq_session r \<notin> set (el_redacted l)" "client_seq_error l r = None"
      "get_key (el_byKey l) (dedupe_key (rq_session r) (rq_key r)) = None"
  using assms by (auto simp: append_log_def Let_def split: if_splits option.splits)

section \<open>Well-formed logs\<close>

definition uuid_like :: "string \<Rightarrow> bool" where
  "uuid_like s \<longleftrightarrow> CHR '':'' \<notin> set s"

lemma dedupe_key_inj:
  assumes "uuid_like s" and "uuid_like s'" and "dedupe_key s k = dedupe_key s' k'"
  shows "s = s' \<and> k = k'"
proof -
  have "takeWhile (\<lambda>c. c \<noteq> CHR '':'') (dedupe_key s k) = s" if "uuid_like s" for s k
    using that by (induction s) (auto simp: uuid_like_def dedupe_key_def)
  with assms have "s = s'" by metis
  with assms(3) show ?thesis by (simp add: dedupe_key_def)
qed

definition log_wf :: "event_log \<Rightarrow> bool" where
  "log_wf l \<longleftrightarrow> distinct (map fst (el_byKey l)) \<and>
     (\<forall>s. map seq (session_events l s) = [0..<length (session_events l s)]) \<and>
     (\<forall>s. \<forall>e\<in>set (session_events l s). sessionId e = s) \<and>
     (\<forall>k e. get_key (el_byKey l) k = Some e \<longrightarrow>
        uuid_like (sessionId e) \<and> (\<exists>key. k = dedupe_key (sessionId e) key) \<and>
        e \<in> set (session_events l (sessionId e)))"

lemma log_wf_empty: "log_wf empty_log"
  by (simp add: log_wf_def empty_log_def session_events_def)

lemma log_wf_numbered:
  assumes "log_wf l" and "i < length (session_events l s)"
  shows "seq (session_events l s ! i) = i"
proof -
  have "seq (session_events l s ! i) = map seq (session_events l s) ! i" using assms(2) by simp
  also have "\<dots> = i" using assms by (simp add: log_wf_def)
  finally show ?thesis .
qed

lemma log_wf_insert:
  assumes "log_wf l" and "uuid_like (rq_session r)" and "e = new_event h now r l"
  shows "log_wf (insert_event r e l)"
  using assms by (auto simp: log_wf_def) metis

lemma log_wf_append:
  assumes "log_wf l" and "uuid_like (rq_session r)" and "append_log h now r l = Inr (l', e, d)"
  shows "log_wf l'"
  using assms(3) by (cases rule: append_log_cases) (auto intro: assms log_wf_insert)

lemma stored_in_own_session:
  assumes "log_wf l" and "uuid_like s" and "get_key (el_byKey l) (dedupe_key s k) = Some e"
  shows "sessionId e = s" and "e \<in> set (session_events l s)"
  using assms unfolding log_wf_def by (metis dedupe_key_inj)+

section \<open>The interface of an append-only log\<close>

text \<open>
  What the channel, the runtime and the audit rely on: numbering from zero without a gap, a fresh
  append goes to the end of its own session only, and a key that is stored is answered with the
  stored event and changes nothing, for ever.
\<close>

locale append_only_log =
  fixes append :: "'req \<Rightarrow> 'log \<Rightarrow> ('log \<times> 'e \<times> bool) option"
    and events :: "'log \<Rightarrow> 'sid \<Rightarrow> 'e list"
    and number :: "'e \<Rightarrow> nat"
    and stored :: "'log \<Rightarrow> 'key \<Rightarrow> 'e option"
    and session_of :: "'req \<Rightarrow> 'sid" and key_of :: "'req \<Rightarrow> 'key"
    and ok :: "'req \<Rightarrow> bool" and wf :: "'log \<Rightarrow> bool"
  assumes wf_append: "wf l \<Longrightarrow> ok r \<Longrightarrow> append r l = Some (l', e, d) \<Longrightarrow> wf l'"
    and numbered: "wf l \<Longrightarrow> i < length (events l s) \<Longrightarrow> number (events l s ! i) = i"
    and fresh: "wf l \<Longrightarrow> ok r \<Longrightarrow> append r l = Some (l', e, False) \<Longrightarrow>
      events l' s = (if s = session_of r then events l s @ [e] else events l s)"
    and duplicate: "wf l \<Longrightarrow> ok r \<Longrightarrow> append r l = Some (l', e, True) \<Longrightarrow>
      l' = l \<and> e \<in> set (events l (session_of r))"
    and remembered: "append r l = Some (l', e, d) \<Longrightarrow> stored l' (key_of r) = Some e"
    and kept: "append r l = Some (l', e, d) \<Longrightarrow> stored l k = Some e' \<Longrightarrow> stored l' k = Some e'"
    and answered: "append r l = Some (l', e, d) \<Longrightarrow> stored l (key_of r) = Some e' \<Longrightarrow> l' = l \<and> e = e' \<and> d"
begin

lemma append_prefix:
  assumes "wf l" and "ok r" and "append r l = Some (l', e, d)"
  shows "prefix (events l s) (events l' s)"
  using assms fresh [of l r l' e s] duplicate [of l r l' e] by (cases d) auto

fun append_all :: "'req list \<Rightarrow> 'log \<Rightarrow> 'log option" where
  "append_all [] l = Some l"
| "append_all (r # rs) l = (case append r l of None \<Rightarrow> None | Some (l', _, _) \<Rightarrow> append_all rs l')"

lemma append_all_kept:
  "append_all rs l = Some l' \<Longrightarrow> stored l k = Some e \<Longrightarrow> stored l' k = Some e"
  by (induction rs arbitrary: l) (auto split: option.splits dest: kept)

lemma append_all_remembers:
  "append_all rs l = Some l' \<Longrightarrow> r \<in> set rs \<Longrightarrow> \<exists>e. stored l' (key_of r) = Some e"
  by (induction rs arbitrary: l) (auto split: option.splits dest: remembered append_all_kept)

lemma append_all_wf: "append_all rs l = Some l' \<Longrightarrow> wf l \<Longrightarrow> \<forall>r\<in>set rs. ok r \<Longrightarrow> wf l'"
  by (induction rs arbitrary: l) (auto split: option.splits dest: wf_append)

lemma append_all_prefix:
  "append_all rs l = Some l' \<Longrightarrow> wf l \<Longrightarrow> \<forall>r\<in>set rs. ok r \<Longrightarrow> prefix (events l s) (events l' s)"
proof (induction rs arbitrary: l)
  case (Cons r rs)
  then obtain m e d where m: "append r l = Some (m, e, d)" "append_all rs m = Some l'"
    by (auto split: option.splits)
  have "prefix (events l s) (events m s)" using append_prefix [OF _ _ m(1)] Cons.prems by auto
  moreover have "prefix (events m s) (events l' s)"
    using Cons.IH [OF m(2)] wf_append [OF _ _ m(1)] Cons.prems by auto
  ultimately show ?case by (rule prefix_order.trans)
qed simp

text \<open>Retrying any of the earlier requests, in any order and any number of times, changes nothing.\<close>

lemma replay_changes_nothing:
  "append_all qs l = Some l' \<Longrightarrow> \<forall>q\<in>set qs. \<exists>e. stored l (key_of q) = Some e \<Longrightarrow> l' = l"
  by (induction qs arbitrary: l) (auto split: option.splits dest!: answered)

lemma retry_is_free:
  assumes "append_all rs l = Some m" and "set qs \<subseteq> set rs" and "append_all qs m = Some l'"
  shows "l' = m"
  using replay_changes_nothing [OF assms(3)] append_all_remembers [OF assms(1)] assms(2) by blast

end


section \<open>The in-memory log satisfies the interface\<close>

type_synonym timed_request = "instant \<times> log_request"

definition try_append :: "hashing \<Rightarrow> timed_request \<Rightarrow> event_log \<Rightarrow> (event_log \<times> session_event \<times> bool) option" where
  "try_append h q l = (case append_log h (fst q) (snd q) l of Inl _ \<Rightarrow> None | Inr x \<Rightarrow> Some x)"

definition stored_event :: "event_log \<Rightarrow> string \<times> string \<Rightarrow> session_event option" where
  "stored_event l k = get_key (el_byKey l) (dedupe_key (fst k) (snd k))"

definition request_key :: "timed_request \<Rightarrow> string \<times> string" where
  "request_key q = (rq_session (snd q), rq_key (snd q))"

lemma try_append_iff: "try_append h q l = Some x \<longleftrightarrow> append_log h (fst q) (snd q) l = Inr x"
  by (simp add: try_append_def split: sum.splits)

interpretation memory_log: append_only_log "try_append h" session_events seq stored_event
    "\<lambda>q. rq_session (snd q)" request_key "\<lambda>q. uuid_like (rq_session (snd q))" log_wf
  for h
proof unfold_locales
  fix q l l' e e' d k
  assume "try_append h q l = Some (l', e, d)" and old: "stored_event l k = Some e'"
  then show "stored_event l' k = Some e'"
    by (auto simp: try_append_iff stored_event_def dedupe_key_def elim!: append_log_cases)
qed (auto simp: try_append_iff stored_event_def request_key_def log_wf_numbered
       intro: log_wf_insert dest: stored_in_own_session elim!: append_log_cases)

section \<open>What a redaction does\<close>

definition redacted_payload :: "payload \<Rightarrow> bool" where
  "redacted_payload p \<longleftrightarrow> get_key p ''redacted'' = Some (JBool True) \<and>
     (\<forall>k\<in>set IDENTIFYING_FIELDS. \<forall>v. get_key p k = Some v \<longrightarrow> v = JStr REDACTED)"

lemma redactEvent_payload:
  "get_key (payload (redactEvent e)) k =
     (if k = ''redacted'' then Some (JBool True)
      else if k \<in> set IDENTIFYING_FIELDS then map_option (\<lambda>_. JStr REDACTED) (get_key (payload e) k)
      else get_key (payload e) k)"
  by (cases "get_key (payload e) k") (auto simp: redactEvent_def get_key_map_value)

lemma redactionFor_payload: "redacted_payload (payload (redactionFor e))"
  by (auto simp: redacted_payload_def redactionFor_def redactEvent_payload IDENTIFYING_FIELDS_def)

text \<open>What survives: everything of the event but its payload.\<close>

definition event_shape :: "session_event \<Rightarrow> session_event" where
  "event_shape e = e\<lparr>payload := []\<rparr>"

lemma redactionFor_shape [simp]: "event_shape (redactionFor e) = event_shape e"
  by (simp add: redactionFor_def redactEvent_def event_shape_def)

lemma event_shape_sel [simp]:
  "seq (event_shape e) = seq e" "sessionId (event_shape e) = sessionId e" "etype (event_shape e) = etype e"
  by (simp_all add: event_shape_def)

lemma redactionFor_sel [simp]: "seq (redactionFor e) = seq e" "sessionId (redactionFor e) = sessionId e"
  by (metis event_shape_sel redactionFor_shape)+

lemma session_events_redact:
  "session_events (fst (redact_log s l)) t =
     (if t = s then map redactionFor (session_events l s) else session_events l t)"
  by (auto simp: redact_log_def Let_def session_events_def split: option.splits)

lemma redact_log_count: "snd (redact_log s l) = length (session_events l s)"
  by (auto simp: redact_log_def Let_def session_events_def split: option.splits)

lemma redact_log_tombstone: "set (el_redacted (fst (redact_log s l))) = insert s (set (el_redacted l))"
  by (auto simp: redact_log_def Let_def split: option.splits)

lemma redact_log_refuses: "append_log h now r (fst (redact_log (rq_session r) l)) = Inl (JsError ''SESSION_DELETED'')"
  by (simp add: append_log_def redact_log_tombstone)

lemma log_wf_redact:
  assumes "log_wf l"
  shows "log_wf (fst (redact_log s l))"
proof -
  have keys: "get_key (el_byKey (fst (redact_log s l))) k = Some e \<Longrightarrow>
      get_key (el_byKey l) k = Some e \<and> sessionId e \<noteq> s" for k e
  proof (cases "get_key (el_events l) s")
    case None
    assume k: "get_key (el_byKey (fst (redact_log s l))) k = Some e"
    then have "get_key (el_byKey l) k = Some e" using None by (simp add: redact_log_def Let_def)
    moreover from this have "e \<in> set (session_events l (sessionId e))" using assms by (simp add: log_wf_def)
    then have "sessionId e \<noteq> s" using None by (auto simp: session_events_def)
    ultimately show ?thesis by simp
  next
    case (Some es)
    assume "get_key (el_byKey (fst (redact_log s l))) k = Some e"
    then show ?thesis using Some assms get_key_filter_value [of "el_byKey l" "\<lambda>e. sessionId e \<noteq> s" k e]
      by (auto simp: redact_log_def Let_def log_wf_def)
  qed
  have "distinct (map fst (el_byKey (fst (redact_log s l))))"
    using assms by (auto simp: redact_log_def Let_def log_wf_def split: option.splits)
  moreover have "seq \<circ> redactionFor = seq" by (simp add: fun_eq_iff)
  ultimately show ?thesis
    using assms keys by (auto simp: log_wf_def session_events_redact) (metis keys)+
qed

text \<open>The shape of the log only grows, appends and redactions alike.\<close>

inductive log_step :: "hashing \<Rightarrow> event_log \<Rightarrow> event_log \<Rightarrow> bool" for h where
  append: "uuid_like (rq_session r) \<Longrightarrow> append_log h now r l = Inr (l', e, d) \<Longrightarrow> log_step h l l'"
| redact: "log_step h l (fst (redact_log s l))"

definition shape_grows :: "event_log \<Rightarrow> event_log \<Rightarrow> bool" where
  "shape_grows l l' \<longleftrightarrow>
     (\<forall>s. prefix (map event_shape (session_events l s)) (map event_shape (session_events l' s))) \<and>
     set (el_redacted l) \<subseteq> set (el_redacted l')"

lemma shape_grows_append:
  assumes "append_log h now r l = Inr (l', e, d)"
  shows "shape_grows l l'"
  using assms by (cases rule: append_log_cases) (auto simp: shape_grows_def)

lemma shape_grows_redact: "shape_grows l (fst (redact_log s l))"
proof -
  have "event_shape \<circ> redactionFor = event_shape" by (simp add: fun_eq_iff)
  then show ?thesis by (auto simp: shape_grows_def session_events_redact redact_log_tombstone)
qed

interpretation log_wf_kept: kept_by_steps "log_step h" log_wf for h
  by unfold_locales (auto elim!: log_step.cases intro: log_wf_append log_wf_redact)

interpretation log_shape: grown_by_steps "log_step h" shape_grows for h
proof unfold_locales
  fix l m n
  show "shape_grows l l" by (simp add: shape_grows_def)
  show "shape_grows l m \<Longrightarrow> shape_grows m n \<Longrightarrow> shape_grows l n"
    unfolding shape_grows_def by (blast intro: prefix_order.trans)
  show "log_step h l m \<Longrightarrow> shape_grows l m"
    by (auto elim!: log_step.cases intro: shape_grows_append shape_grows_redact)
qed

text \<open>Once a session is redacted, every event it holds is redacted, whatever follows.\<close>

definition tombstones_clean :: "event_log \<Rightarrow> bool" where
  "tombstones_clean l \<longleftrightarrow>
     (\<forall>s\<in>set (el_redacted l). \<forall>e\<in>set (session_events l s). redacted_payload (payload e))"

interpretation tombstones: kept_by_steps "log_step h" tombstones_clean for h
proof unfold_locales
  fix l l'
  assume clean: "tombstones_clean l" and "log_step h l l'"
  from this(2) show "tombstones_clean l'"
  proof cases
    case (append r now e d)
    from append(2) show ?thesis using clean by (cases rule: append_log_cases) (auto simp: tombstones_clean_def)
  next
    case (redact s)
    then show ?thesis using clean
      by (auto simp: tombstones_clean_def redact_log_tombstone session_events_redact redactionFor_payload)
  qed
qed

section \<open>Sequences of requests\<close>

fun append_requests :: "hashing \<Rightarrow> timed_request list \<Rightarrow> event_log \<Rightarrow> event_log option" where
  "append_requests h [] l = Some l"
| "append_requests h (q # qs) l = (case try_append h q l of None \<Rightarrow> None | Some (l', _, _) \<Rightarrow> append_requests h qs l')"

lemma append_requests_all: "append_requests h qs l = memory_log.append_all h qs l"
  by (induction qs arbitrary: l) (simp_all split: option.split)

lemma append_requests_steps:
  "append_requests h qs l = Some l' \<Longrightarrow> \<forall>q\<in>set qs. uuid_like (rq_session (snd q)) \<Longrightarrow> (log_step h)\<^sup>*\<^sup>* l l'"
proof (induction qs arbitrary: l)
  case (Cons q qs)
  then obtain m e d where m: "append_log h (fst q) (snd q) l = Inr (m, e, d)" "append_requests h qs m = Some l'"
    by (auto simp: try_append_iff split: option.splits)
  have "log_step h l m" using Cons.prems(2) m(1) by (auto intro: log_step.append)
  moreover have "(log_step h)\<^sup>*\<^sup>* m l'" using Cons m(2) by auto
  ultimately show ?case by (rule converse_rtranclp_into_rtranclp)
qed simp

text \<open>A stored key is answered, unless the session was deleted.\<close>

lemma answered_when_stored:
  assumes "stored_event l (request_key q) = Some e" and "rq_session (snd q) \<notin> set (el_redacted l)"
  shows "try_append h q l = Some (l, e, True)"
  using assms by (simp add: try_append_iff stored_event_def request_key_def append_log_def)

lemma append_requests_redacted: "append_requests h qs l = Some l' \<Longrightarrow> el_redacted l' = el_redacted l"
  by (induction qs arbitrary: l) (auto simp: try_append_iff split: option.splits elim!: append_log_cases)

lemma append_requests_open:
  "append_requests h qs l = Some l' \<Longrightarrow> q \<in> set qs \<Longrightarrow> rq_session (snd q) \<notin> set (el_redacted l)"
proof (induction qs arbitrary: l)
  case (Cons a qs)
  then obtain m e d where m: "append_log h (fst a) (snd a) l = Inr (m, e, d)" "append_requests h qs m = Some l'"
    by (auto simp: try_append_iff split: option.splits)
  then have "rq_session (snd a) \<notin> set (el_redacted l)" "el_redacted m = el_redacted l"
    by (auto elim!: append_log_cases)
  then show ?case using Cons.IH [OF m(2)] Cons.prems(2) by (cases "q = a") simp_all
qed simp

text \<open>A retry of requests already accepted, whatever else they now carry, is answered and changes nothing.\<close>

lemma retries_accepted:
  assumes "append_requests h rs l = Some m" and "request_key ` set qs \<subseteq> request_key ` set rs"
  shows "append_requests h qs m = Some m"
  using assms(2)
proof (induction qs)
  case (Cons q qs)
  then obtain r where r: "r \<in> set rs" "request_key r = request_key q" by fastforce
  obtain e where e: "stored_event m (request_key r) = Some e"
    using memory_log.append_all_remembers assms(1) r(1) unfolding append_requests_all by blast
  have "rq_session (snd q) \<notin> set (el_redacted m)"
    using append_requests_open [OF assms(1) r(1)] append_requests_redacted [OF assms(1)] r(2)
    by (simp add: request_key_def)
  then have "try_append h q m = Some (m, e, True)" using answered_when_stored e r(2) by metis
  then show ?case using Cons by simp
qed simp

end
