(* ===== verification/StateMachine.thy ===== *)
theory StateMachine
  imports Contracts
begin

text \<open>
  \<open>orchestrator/state-machine.ts\<close>: the interview state machine as a function of state and event.
\<close>

record transition_result =
  sm_state :: interview_state
  allowedActions :: "interview_action list"
  changed :: bool

definition settle :: "interview_state \<Rightarrow> transition_result" where
  "settle s = \<lparr>sm_state = s, allowedActions = ALLOWED_ACTIONS s, changed = True\<rparr>"

definition applyEvent ::
  "interview_state \<Rightarrow> event_type \<Rightarrow> interview_state option \<Rightarrow> transition_result result" where
  "applyEvent s eventType requestedState =
     (if eventType = SESSION_ENDED then Inr (settle EVALUATION)
      else if eventType \<noteq> STATE_TRANSITIONED
        then Inr \<lparr>sm_state = s, allowedActions = ALLOWED_ACTIONS s, changed = False\<rparr>
      else (case requestedState of
              None \<Rightarrow> Inl MissingRequestedState
            | Some to_state \<Rightarrow>
                if \<not> isTransitionAllowed s to_state
                then Inl (ForbiddenTransition (stage_index s) (stage_index to_state))
                else Inr (settle to_state)))"

definition INITIAL_STATE :: interview_state where
  "INITIAL_STATE = ORAL_PROBLEM_DELIVERY"

definition isTerminal :: "interview_state \<Rightarrow> bool" where
  "isTerminal s \<longleftrightarrow> s = EVALUATION"

definition canSpeakIn :: "interview_state \<Rightarrow> bool" where
  "canSpeakIn s \<longleftrightarrow> (\<exists>a\<in>set (ALLOWED_ACTIONS s). a \<noteq> STAY_SILENT)"

section \<open>The machine as a step relation\<close>

inductive stage_step :: "interview_state \<Rightarrow> interview_state \<Rightarrow> bool" where
  event: "applyEvent s e r = Inr res \<Longrightarrow> stage_step s (sm_state res)"

inductive_cases stage_stepE: "stage_step s t"

inductive reachable_from :: "interview_state \<Rightarrow> interview_state \<Rightarrow> bool" for start where
  start: "reachable_from start start"
| step: "reachable_from start s \<Longrightarrow> stage_step s t \<Longrightarrow> reachable_from start t"

lemma applyEvent_state:
  "applyEvent s e r = Inr res \<Longrightarrow>
     sm_state res = s \<or> sm_state res = EVALUATION \<or> isTransitionAllowed s (sm_state res)"
  by (auto simp: applyEvent_def settle_def split: if_splits option.splits)

lemma applyEvent_actions: "applyEvent s e r = Inr res \<Longrightarrow> allowedActions res = ALLOWED_ACTIONS (sm_state res)"
  by (auto simp: applyEvent_def settle_def split: if_splits option.splits)

lemma le_evaluation [simp]: "(s::interview_state) \<le> EVALUATION"
  by (simp add: stage_order)

lemma applyEvent_forward: "applyEvent s e r = Inr res \<Longrightarrow> s \<le> sm_state res"
  by (auto dest!: applyEvent_state transition_forward)

lemma stage_step_forward: "stage_step s t \<Longrightarrow> s \<le> t"
  by (auto elim!: stage_stepE dest: applyEvent_forward)

lemma reachable_forward: "reachable_from a b \<Longrightarrow> a \<le> b"
  by (induction rule: reachable_from.induct) (auto dest: stage_step_forward)

text \<open>An event only errs when it asks for a transition the table does not list, or names none.\<close>

lemma applyEvent_error_iff:
  "(\<exists>e. applyEvent s ev r = Inl e) \<longleftrightarrow>
     ev = STATE_TRANSITIONED \<and> (case r of None \<Rightarrow> True | Some to_state \<Rightarrow> \<not> isTransitionAllowed s to_state)"
  by (auto simp: applyEvent_def split: option.splits)

lemma canSpeakIn_iff: "canSpeakIn s \<longleftrightarrow> \<not> isTerminal s"
  by (cases s) (simp_all add: canSpeakIn_def isTerminal_def)

end
