(* ===== verification/SessionStore.thy ===== *)
theory SessionStore
  imports Contracts Policy StateMachine Keyed_Maps Step_Closure
begin

text \<open>
  \<open>session/session-store.ts\<close>: the in-memory store of the sessions. The random ids and the clock are
  arguments of the operations; the key of an idempotent create is the pair of user and key, which
  \<open>JSON.stringify\<close> keeps apart. A clone of a scenario is the scenario.
\<close>

datatype interviewer_tone = EXTRA_NICE | NORMAL | MEAN

record loaded_scenario =
  ls_version :: scenario_version
  ls_hash :: string

record interview_session =
  is_id :: string
  is_userId :: string
  is_scenarioVersionId :: string
  is_scenarioHash :: string
  is_mode :: interview_mode
  is_policy :: interview_policy
  is_state :: interview_state
  is_language :: string
  is_tone :: interviewer_tone
  is_traceId :: string
  is_createdAt :: instant
  is_startedAt :: "instant option"
  is_endedAt :: "instant option"
  is_expectedSeconds :: real
  is_pausedSeconds :: int

record create_request =
  cr_userId :: string
  cr_scenario :: loaded_scenario
  cr_mode :: interview_mode
  cr_language :: "string option"
  cr_tone :: "interviewer_tone option"
  cr_expectedSeconds :: "real option"
  cr_key :: string

record session_store =
  ss_sessions :: "(string \<times> interview_session) list"
  ss_scenarios :: "(string \<times> loaded_scenario) list"
  ss_byKey :: "((string \<times> string) \<times> string) list"
  ss_tombstones :: "(string \<times> instant) list"

definition empty_store :: session_store where
  "empty_store = \<lparr>ss_sessions = [], ss_scenarios = [], ss_byKey = [], ss_tombstones = []\<rparr>"

definition DEFAULT_INTERVIEW_SECONDS :: real where
  "DEFAULT_INTERVIEW_SECONDS = 2700"

definition or_default :: "'a option \<Rightarrow> 'a \<Rightarrow> 'a" where
  "or_default v d = (case v of None \<Rightarrow> d | Some x \<Rightarrow> x)"

lemma or_default_simps [simp]: "or_default None d = d" "or_default (Some x) d = x"
  by (simp_all add: or_default_def)

definition new_session :: "create_request \<Rightarrow> string \<Rightarrow> string \<Rightarrow> instant \<Rightarrow> interview_session" where
  "new_session r sid trace now = \<lparr>
     is_id = sid,
     is_userId = cr_userId r,
     is_scenarioVersionId = version_id (ls_version (cr_scenario r)),
     is_scenarioHash = ls_hash (cr_scenario r),
     is_mode = cr_mode r,
     is_policy = policyFor (cr_mode r),
     is_state = INITIAL_STATE,
     is_language = or_default (cr_language r) ''python'',
     is_tone = or_default (cr_tone r) NORMAL,
     is_traceId = trace,
     is_createdAt = now,
     is_startedAt = None,
     is_endedAt = None,
     is_expectedSeconds =
       or_default (cr_expectedSeconds r) (real (expectedMinutes (ls_version (cr_scenario r))) * 60),
     is_pausedSeconds = 0\<rparr>"

definition deleted :: "session_store \<Rightarrow> string \<Rightarrow> bool" where
  "deleted st sid \<longleftrightarrow> has_key (ss_tombstones st) sid"

definition store_create ::
  "create_request \<Rightarrow> string \<Rightarrow> string \<Rightarrow> instant \<Rightarrow> session_store \<Rightarrow> (session_store \<times> interview_session) result" where
  "store_create r sid trace now st =
     (let key = (cr_userId r, cr_key r);
          insert_new =
            (if status (ls_version (cr_scenario r)) \<noteq> ACTIVE then Inl (JsError ''only ACTIVE versions may start a session'')
             else (let s = new_session r sid trace now
                   in Inr (st\<lparr>ss_sessions := set_key (ss_sessions st) sid s,
                              ss_scenarios := set_key (ss_scenarios st) sid (cr_scenario r),
                              ss_byKey := set_key (ss_byKey st) key sid\<rparr>, s)))
      in case get_key (ss_byKey st) key of
           None \<Rightarrow> insert_new
         | Some old \<Rightarrow>
             if deleted st old then Inl (JsError ''SESSION_DELETED'')
             else (case get_key (ss_sessions st) old of Some s \<Rightarrow> Inr (st, s) | None \<Rightarrow> insert_new))"

definition store_get :: "session_store \<Rightarrow> string \<Rightarrow> interview_session option" where
  "store_get st sid = (if deleted st sid then None else get_key (ss_sessions st) sid)"

definition findByIdempotencyKey :: "session_store \<Rightarrow> string \<Rightarrow> string \<Rightarrow> interview_session option" where
  "findByIdempotencyKey st user key =
     (case get_key (ss_byKey st) (user, key) of None \<Rightarrow> None | Some sid \<Rightarrow> store_get st sid)"

definition pinnedScenario :: "session_store \<Rightarrow> string \<Rightarrow> loaded_scenario option" where
  "pinnedScenario st sid = (if deleted st sid then None else get_key (ss_scenarios st) sid)"

definition require :: "session_store \<Rightarrow> string \<Rightarrow> interview_session result" where
  "require st sid = (case store_get st sid of None \<Rightarrow> Inl (JsError ''SessionNotFoundError'') | Some s \<Rightarrow> Inr s)"

definition put_session :: "session_store \<Rightarrow> string \<Rightarrow> interview_session \<Rightarrow> session_store" where
  "put_session st sid s = st\<lparr>ss_sessions := set_key (ss_sessions st) sid s\<rparr>"

definition store_end :: "string \<Rightarrow> instant \<Rightarrow> session_store \<Rightarrow> (session_store \<times> interview_session) result" where
  "store_end sid now st = then_do (require st sid) (\<lambda>s.
     if is_endedAt s \<noteq> None then Inr (st, s)
     else (let e = s\<lparr>is_endedAt := Some now, is_state := EVALUATION\<rparr> in Inr (put_session st sid e, e)))"

definition store_transition ::
  "string \<Rightarrow> interview_state \<Rightarrow> instant \<Rightarrow> session_store \<Rightarrow> (session_store \<times> interview_session) result" where
  "store_transition sid to_state now st = then_do (require st sid) (\<lambda>s.
     if is_endedAt s \<noteq> None then Inr (st, s)
     else (let u = s\<lparr>is_state := to_state, is_startedAt := Some (or_default (is_startedAt s) now)\<rparr>
           in Inr (put_session st sid u, u)))"

definition MAX_PAUSE :: int where
  "MAX_PAUSE = 9007199254740991"

definition addPause :: "string \<Rightarrow> int \<Rightarrow> session_store \<Rightarrow> (session_store \<times> interview_session) result" where
  "addPause sid seconds st =
     (if seconds > MAX_PAUSE \<or> seconds < 0 then Inl (JsError ''INVALID_PAUSE'')
      else then_do (require st sid) (\<lambda>s.
        if is_endedAt s \<noteq> None then Inr (st, s)
        else (let u = s\<lparr>is_pausedSeconds := is_pausedSeconds s + seconds\<rparr> in Inr (put_session st sid u, u))))"

definition tombstone :: "string \<Rightarrow> instant \<Rightarrow> session_store \<Rightarrow> (session_store \<times> bool) result" where
  "tombstone sid now st =
     (if deleted st sid then Inr (st, False)
      else if \<not> has_key (ss_sessions st) sid then Inl (JsError ''SessionNotFoundError'')
      else Inr (st\<lparr>ss_tombstones := set_key (ss_tombstones st) sid now\<rparr>, True))"

section \<open>The clock of a session\<close>

text \<open>\<open>remainingSeconds\<close>; \<open>None\<close> is \<open>NaN\<close>, which only an unreadable \<open>startedAt\<close> gives.\<close>

definition session_remaining :: "interview_session \<Rightarrow> real \<Rightarrow> real option" where
  "session_remaining s now =
     (case is_startedAt s of
        None \<Rightarrow> Some (is_expectedSeconds s)
      | Some started \<Rightarrow>
          if is_endedAt s \<noteq> None then Some 0
          else (case started of
                  None \<Rightarrow> None
                | Some t \<Rightarrow>
                    (let elapsed = (now - t) / 1000 - of_int (is_pausedSeconds s)
                     in Some (max 0 (of_int (math_round (is_expectedSeconds s - elapsed)))))))"

definition visible :: "session_store \<Rightarrow> interview_session list" where
  "visible st = filter (\<lambda>s. \<not> deleted st (is_id s)) (map snd (ss_sessions st))"

definition dueForCompletion :: "session_store \<Rightarrow> real \<Rightarrow> nat \<Rightarrow> interview_session list" where
  "dueForCompletion st now limit = take limit (filter (\<lambda>s. is_endedAt s = None \<and> is_startedAt s \<noteq> None \<and>
     session_remaining s now = Some 0) (visible st))"

definition idsForUser :: "session_store \<Rightarrow> string \<Rightarrow> string list" where
  "idsForUser st user = map is_id (filter (\<lambda>s. is_userId s = user) (visible st))"

definition scenarioVersionIdsForUser :: "session_store \<Rightarrow> string \<Rightarrow> string list" where
  "scenarioVersionIdsForUser st user = uniq (map is_scenarioVersionId (filter (\<lambda>s. is_userId s = user) (visible st)))"

section \<open>Well-formed stores\<close>

text \<open>
  Sessions are stored under their own id, ended ones rest in the last stage, every session has the
  scenario it was pinned to, and the idempotency index points at sessions of its own user.
\<close>

definition session_ok :: "(string \<times> loaded_scenario) list \<Rightarrow> string \<Rightarrow> interview_session \<Rightarrow> bool" where
  "session_ok pins sid s \<longleftrightarrow>
     is_id s = sid \<and> (is_endedAt s \<noteq> None \<longrightarrow> is_state s = EVALUATION) \<and> 0 \<le> is_pausedSeconds s \<and>
     is_policy s = policyFor (is_mode s) \<and>
     (case get_key pins sid of
        None \<Rightarrow> False
      | Some sc \<Rightarrow> version_id (ls_version sc) = is_scenarioVersionId s \<and> ls_hash sc = is_scenarioHash s)"

definition store_wf :: "session_store \<Rightarrow> bool" where
  "store_wf st \<longleftrightarrow>
     (\<forall>sid s. get_key (ss_sessions st) sid = Some s \<longrightarrow> session_ok (ss_scenarios st) sid s) \<and>
     (\<forall>user key sid. get_key (ss_byKey st) (user, key) = Some sid \<longrightarrow>
        (\<exists>s. get_key (ss_sessions st) sid = Some s \<and> is_userId s = user))"

lemma store_wf_empty: "store_wf empty_store"
  by (simp add: store_wf_def empty_store_def)

lemma store_wfD: "store_wf st \<Longrightarrow> get_key (ss_sessions st) sid = Some s \<Longrightarrow> session_ok (ss_scenarios st) sid s"
  by (simp add: store_wf_def)

lemma store_wf_keyD:
  assumes "store_wf st" and "get_key (ss_byKey st) (user, key) = Some sid"
  obtains s where "get_key (ss_sessions st) sid = Some s" "is_userId s = user"
  using assms unfolding store_wf_def by blast

text \<open>What an operation may do to a session: never to its pins, and nothing once it has ended.\<close>

definition session_pins :: "interview_session \<Rightarrow> interview_session" where
  "session_pins s = s\<lparr>is_state := INITIAL_STATE, is_startedAt := None, is_endedAt := None, is_pausedSeconds := 0\<rparr>"

definition session_le :: "interview_session \<Rightarrow> interview_session \<Rightarrow> bool" where
  "session_le s t \<longleftrightarrow> session_pins s = session_pins t \<and> is_pausedSeconds s \<le> is_pausedSeconds t \<and>
     (is_startedAt s \<noteq> None \<longrightarrow> is_startedAt t = is_startedAt s) \<and> (is_endedAt s \<noteq> None \<longrightarrow> t = s)"

definition store_le :: "session_store \<Rightarrow> session_store \<Rightarrow> bool" where
  "store_le a b \<longleftrightarrow>
     (\<forall>sid s. get_key (ss_sessions a) sid = Some s \<longrightarrow>
        (\<exists>t. get_key (ss_sessions b) sid = Some t \<and> session_le s t) \<and>
        get_key (ss_scenarios b) sid = get_key (ss_scenarios a) sid) \<and>
     (\<forall>k sid. get_key (ss_byKey a) k = Some sid \<longrightarrow> get_key (ss_byKey b) k = Some sid) \<and>
     (\<forall>sid. deleted a sid \<longrightarrow> deleted b sid)"

lemma session_le_refl [simp]: "session_le s s"
  by (simp add: session_le_def)

lemma session_le_trans: "session_le s t \<Longrightarrow> session_le t u \<Longrightarrow> session_le s u"
  by (auto simp: session_le_def)

lemma store_le_refl [simp]: "store_le st st"
  by (simp add: store_le_def)

lemma store_le_trans: "store_le a b \<Longrightarrow> store_le b c \<Longrightarrow> store_le a c"
  by (clarsimp simp: store_le_def) (metis session_le_trans)

lemma session_pins_sel:
  "is_id (session_pins s) = is_id s" "is_userId (session_pins s) = is_userId s"
  "is_policy (session_pins s) = is_policy s" "is_mode (session_pins s) = is_mode s"
  "is_scenarioVersionId (session_pins s) = is_scenarioVersionId s"
  "is_scenarioHash (session_pins s) = is_scenarioHash s"
  "is_expectedSeconds (session_pins s) = is_expectedSeconds s"
  by (simp_all add: session_pins_def)

lemma session_pins_update [simp]:
  "session_pins (s\<lparr>is_endedAt := e, is_state := q\<rparr>) = session_pins s"
  "session_pins (s\<lparr>is_state := q, is_startedAt := b\<rparr>) = session_pins s"
  "session_pins (s\<lparr>is_pausedSeconds := p\<rparr>) = session_pins s"
  by (simp_all add: session_pins_def)

lemma require_iff: "require st sid = Inr s \<longleftrightarrow> \<not> deleted st sid \<and> get_key (ss_sessions st) sid = Some s"
  by (auto simp: require_def store_get_def split: option.splits)

lemma put_session_le:
  assumes "get_key (ss_sessions st) sid = Some s" and "session_le s t"
  shows "store_le st (put_session st sid t)"
  using assms by (auto simp: store_le_def put_session_def deleted_def)

lemma put_session_wf:
  assumes "store_wf st" and "get_key (ss_sessions st) sid = Some s" and "session_le s t"
    and "is_endedAt t \<noteq> None \<longrightarrow> is_state t = EVALUATION"
  shows "store_wf (put_session st sid t)"
proof -
  have pins: "is_id t = is_id s \<and> is_userId t = is_userId s \<and> is_policy t = is_policy s \<and> is_mode t = is_mode s \<and>
      is_scenarioVersionId t = is_scenarioVersionId s \<and> is_scenarioHash t = is_scenarioHash s"
    using assms(3) unfolding session_le_def by (metis session_pins_sel)
  have "is_pausedSeconds s \<le> is_pausedSeconds t" using assms(3) by (simp add: session_le_def)
  then have ok: "session_ok (ss_scenarios st) sid t"
    using assms(4) pins store_wfD [OF assms(1,2)] by (simp add: session_ok_def split: option.splits)
  show ?thesis
    unfolding store_wf_def put_session_def
  proof (intro conjI allI impI)
    fix x u
    assume "get_key (ss_sessions (st\<lparr>ss_sessions := set_key (ss_sessions st) sid t\<rparr>)) x = Some u"
    then show "session_ok (ss_scenarios (st\<lparr>ss_sessions := set_key (ss_sessions st) sid t\<rparr>)) x u"
      using ok store_wfD [OF assms(1)] by (auto split: if_splits)
  next
    fix user key x
    assume "get_key (ss_byKey (st\<lparr>ss_sessions := set_key (ss_sessions st) sid t\<rparr>)) (user, key) = Some x"
    then have "get_key (ss_byKey st) (user, key) = Some x" by simp
    then obtain u where "get_key (ss_sessions st) x = Some u" "is_userId u = user"
      by (rule store_wf_keyD [OF assms(1)])
    then show "\<exists>v. get_key (ss_sessions (st\<lparr>ss_sessions := set_key (ss_sessions st) sid t\<rparr>)) x = Some v \<and> is_userId v = user"
      using assms(2) pins by auto
  qed
qed

text \<open>Every operation as a step; a create draws an id that no session has.\<close>

inductive store_step :: "session_store \<Rightarrow> session_store \<Rightarrow> bool" where
  create: "\<not> has_key (ss_sessions st) sid \<Longrightarrow> \<not> deleted st sid \<Longrightarrow>
    store_create r sid trace now st = Inr (st', s) \<Longrightarrow> store_step st st'"
| finish: "store_end sid now st = Inr (st', s) \<Longrightarrow> store_step st st'"
| transition: "store_transition sid to_state now st = Inr (st', s) \<Longrightarrow> store_step st st'"
| pause: "addPause sid n st = Inr (st', s) \<Longrightarrow> store_step st st'"
| delete: "tombstone sid now st = Inr (st', b) \<Longrightarrow> store_step st st'"

lemma store_create_cases:
  assumes "store_create r sid trace now st = Inr (st', s)" and "store_wf st"
  obtains (replayed) old where "st' = st" "get_key (ss_byKey st) (cr_userId r, cr_key r) = Some old"
      "get_key (ss_sessions st) old = Some s" "\<not> deleted st old"
  | (fresh) "s = new_session r sid trace now" "get_key (ss_byKey st) (cr_userId r, cr_key r) = None"
      "st' = st\<lparr>ss_sessions := set_key (ss_sessions st) sid s,
                ss_scenarios := set_key (ss_scenarios st) sid (cr_scenario r),
                ss_byKey := set_key (ss_byKey st) (cr_userId r, cr_key r) sid\<rparr>"
      "status (ls_version (cr_scenario r)) = ACTIVE"
proof (cases "get_key (ss_byKey st) (cr_userId r, cr_key r)")
  case None
  then show ?thesis using assms(1) by (auto simp: store_create_def Let_def split: if_splits intro: fresh)
next
  case (Some old)
  then obtain s' where s': "get_key (ss_sessions st) old = Some s'" using store_wf_keyD [OF assms(2)] by metis
  then show ?thesis using Some assms(1) replayed by (auto simp: store_create_def Let_def split: if_splits)
qed

text \<open>The operations on one existing session, in one rule.\<close>

lemma session_op_cases:
  assumes "store_end sid now st = Inr (st', s) \<or> store_transition sid q now st = Inr (st', s) \<or>
      addPause sid n st = Inr (st', s)" and "store_wf st"
  obtains (same) "st' = st"
  | (put) old where "st' = put_session st sid s" "get_key (ss_sessions st) sid = Some old" "session_le old s"
      "is_endedAt s \<noteq> None \<longrightarrow> is_state s = EVALUATION"
  using assms
  by (fastforce simp: store_end_def store_transition_def addPause_def require_iff Let_def session_le_def
      split: if_splits)

lemma store_create_wf:
  assumes "store_create r sid trace now st = Inr (st', s)" and "store_wf st" and "\<not> has_key (ss_sessions st) sid"
  shows "store_wf st'"
  using assms(1,2)
proof (cases rule: store_create_cases)
  case replayed
  then show ?thesis using assms(2) by simp
next
  case fresh
  have "session_ok (ss_scenarios st') sid s"
    using fresh by (simp add: session_ok_def new_session_def)
  moreover have "session_ok (ss_scenarios st') x u"
    if "get_key (ss_sessions st) x = Some u" for x u
    using store_wfD [OF assms(2) that] that fresh assms(3) by (auto simp: session_ok_def has_key_def)
  moreover have "is_userId s = cr_userId r" using fresh by (simp add: new_session_def)
  ultimately show ?thesis
    using fresh store_wf_keyD [OF assms(2)] assms(3)
    by (simp add: store_wf_def has_key_def) (metis option.distinct(1))
qed

lemma store_create_le:
  assumes "store_create r sid trace now st = Inr (st', s)" and "store_wf st" and "\<not> has_key (ss_sessions st) sid"
  shows "store_le st st'"
  using assms(1,2)
  by (cases rule: store_create_cases) (use assms(3) in \<open>auto simp: store_le_def has_key_def deleted_def\<close>)

lemma tombstone_le: "tombstone sid now st = Inr (st', b) \<Longrightarrow> store_le st st'"
  by (auto simp: tombstone_def store_le_def deleted_def split: if_splits)

lemma tombstone_wf: "tombstone sid now st = Inr (st', b) \<Longrightarrow> store_wf st \<Longrightarrow> store_wf st'"
  by (auto simp: tombstone_def store_wf_def split: if_splits)

lemma session_op_wf:
  assumes "store_end sid now st = Inr (st', s) \<or> store_transition sid q now st = Inr (st', s) \<or>
      addPause sid n st = Inr (st', s)" and "store_wf st"
  shows "store_wf st'"
  using assms by (cases rule: session_op_cases) (auto intro: assms(2) put_session_wf [OF assms(2)])

lemma session_op_le:
  assumes "store_end sid now st = Inr (st', s) \<or> store_transition sid q now st = Inr (st', s) \<or>
      addPause sid n st = Inr (st', s)" and "store_wf st"
  shows "store_le st st'"
  using assms by (cases rule: session_op_cases) (auto intro: put_session_le)

lemma store_step_wf: "store_step st st' \<Longrightarrow> store_wf st \<Longrightarrow> store_wf st'"
proof (induction rule: store_step.induct)
  case (create st sid r trace now st' s)
  then show ?case using store_create_wf by blast
next
  case (delete sid now st st' b)
  then show ?case using tombstone_wf by blast
qed (use session_op_wf in blast)+

lemma store_step_le: "store_step st st' \<Longrightarrow> store_wf st \<Longrightarrow> store_le st st'"
proof (induction rule: store_step.induct)
  case (create st sid r trace now st' s)
  then show ?case using store_create_le by blast
next
  case (delete sid now st st' b)
  then show ?case using tombstone_le by blast
qed (use session_op_le in blast)+

interpretation store_kept: kept_by_steps store_step store_wf
  by unfold_locales (rule store_step_wf)

interpretation store_grows: grown_by_steps "\<lambda>a b. store_wf a \<and> store_step a b" store_le
  by unfold_locales (auto intro: store_step_le store_le_trans)

lemma store_run_le:
  assumes "store_step\<^sup>*\<^sup>* a b" and "store_wf a"
  shows "store_le a b"
proof -
  have "(\<lambda>a b. store_wf a \<and> store_step a b)\<^sup>*\<^sup>* a b"
    using assms
  proof (induction rule: rtranclp_induct)
    case (step y z)
    have "store_wf y" using store_kept.kept_by_closure [OF step.hyps(1) step.prems] .
    with step show ?case by (auto intro: rtranclp.rtrancl_into_rtrancl)
  qed simp
  then show ?thesis by (rule store_grows.grown_by_closure)
qed

end
