(* ===== verification/SessionChannel.thy ===== *)
theory SessionChannel
  imports EventLog SessionStore
begin

text \<open>
  \<open>session/channel.ts\<close>: what happens to one event of the browser. The raw frame is \<open>None\<close> when it
  does not have the shape of \<open>ClientEventSchema\<close>; the checks of the schema on values are written out.
  The messages are those of \<open>ServerMessageSchema\<close> that the session modules build.
\<close>

section \<open>Client events and server messages\<close>

record client_event =
  ce_sessionId :: string
  ce_clientSeq :: int
  ce_key :: string
  ce_type :: event_type
  ce_occurredAt :: instant
  ce_payload :: payload

definition client_event_ok :: "client_event \<Rightarrow> bool" where
  "client_event_ok e \<longleftrightarrow> uuid_like (ce_sessionId e) \<and> 0 \<le> ce_clientSeq e \<and> ce_key e \<noteq> [] \<and>
     ce_type e \<in> set CLIENT_EVENT_TYPES \<and> ce_occurredAt e \<noteq> None"

datatype server_message =
    ACK int nat
  | STATE interview_state "real option" string
  | ERROR string string
  | REPLAY_FROM int

text \<open>The bounds of \<open>ServerMessageSchema\<close>.\<close>

fun server_message_ok :: "server_message \<Rightarrow> bool" where
  "server_message_ok (ACK c n) \<longleftrightarrow> 0 \<le> c"
| "server_message_ok (STATE q r i) \<longleftrightarrow> (\<exists>n::nat. r = Some (real n)) \<and> i \<in> {''LISTENING'', ''WAITING'', ''SPEAKING''}"
| "server_message_ok (ERROR c m) \<longleftrightarrow> True"
| "server_message_ok (REPLAY_FROM n) \<longleftrightarrow> 0 \<le> n"

record handle_result =
  hr_messages :: "server_message list"
  hr_accepted :: bool
  hr_event :: "session_event option"

definition rejected :: "server_message \<Rightarrow> handle_result" where
  "rejected m = \<lparr>hr_messages = [m], hr_accepted = False, hr_event = None\<rparr>"

section \<open>The channel\<close>

text \<open>The highest contiguous number per session, for the sessions this process has seen.\<close>

type_synonym channel = "(string \<times> int) list"

definition watermark :: "channel \<Rightarrow> event_log \<Rightarrow> string \<Rightarrow> int" where
  "watermark ch l s = (case get_key ch s of Some n \<Rightarrow> n | None \<Rightarrow> latestClientSeq l s)"

definition log_request_of :: "interview_session \<Rightarrow> client_event \<Rightarrow> log_request" where
  "log_request_of s e = \<lparr>
     rq_session = ce_sessionId e,
     rq_type = ce_type e,
     rq_actor = CANDIDATE,
     rq_scenario = is_scenarioVersionId s,
     rq_payload = ce_payload e,
     rq_trace = is_traceId s,
     rq_key = ce_key e,
     rq_occurredAt = Some (ce_occurredAt e),
     rq_clientSeq = Some (ce_clientSeq e)\<rparr>"

definition append_client ::
  "hashing \<Rightarrow> instant \<Rightarrow> interview_session \<Rightarrow> client_event \<Rightarrow> int \<Rightarrow> event_log \<Rightarrow> channel \<Rightarrow>
   (event_log \<times> channel \<times> handle_result) result" where
  "append_client h now s e expected l ch =
     (case append_log h now (log_request_of s e) l of
        Inl err \<Rightarrow>
          if err = JsError ''CLIENT_SEQUENCE_CONFLICT'' then
            (let durable = latestClientSeq l (ce_sessionId e)
             in Inr (l, set_key ch (ce_sessionId e) durable, rejected (REPLAY_FROM (durable + 1))))
          else if err = JsError ''SESSION_ENDED'' then
            Inr (l, ch, rejected (ERROR ''SESSION_ENDED'' (ce_sessionId e)))
          else Inl err
      | Inr (l', ev, duplicate) \<Rightarrow>
          Inr (l',
               (if ce_clientSeq e \<ge> expected then set_key ch (ce_sessionId e) (ce_clientSeq e) else ch),
               \<lparr>hr_messages = [ACK (ce_clientSeq e) (seq ev)], hr_accepted = \<not> duplicate,
                hr_event = (if duplicate then None else Some ev)\<rparr>))"

definition handleClientEvent ::
  "hashing \<Rightarrow> instant \<Rightarrow> client_event option \<Rightarrow> session_store \<Rightarrow> event_log \<Rightarrow> channel \<Rightarrow>
   (event_log \<times> channel \<times> handle_result) result" where
  "handleClientEvent h now raw st l ch =
     (case raw of
        None \<Rightarrow> Inr (l, ch, rejected (ERROR ''INVALID_EVENT'' []))
      | Some e \<Rightarrow>
          if \<not> client_event_ok e then Inr (l, ch, rejected (ERROR ''INVALID_EVENT'' []))
          else (case store_get st (ce_sessionId e) of
                  None \<Rightarrow> Inr (l, ch, rejected (ERROR ''UNKNOWN_SESSION'' (ce_sessionId e)))
                | Some s \<Rightarrow>
                    if is_endedAt s \<noteq> None then Inr (l, ch, rejected (ERROR ''SESSION_ENDED'' (ce_sessionId e)))
                    else (let last = watermark ch l (ce_sessionId e);
                              ch1 = set_key ch (ce_sessionId e) last;
                              expected = last + 1
                          in if ce_clientSeq e > expected then Inr (l, ch1, rejected (REPLAY_FROM expected))
                             else append_client h now s e expected l ch1)))"

definition channel_resume ::
  "session_store \<Rightarrow> event_log \<Rightarrow> string \<Rightarrow> int \<Rightarrow> real \<Rightarrow> handle_result" where
  "channel_resume st l sid lastAcked now =
     (case store_get st sid of
        None \<Rightarrow> rejected (ERROR ''UNKNOWN_SESSION'' sid)
      | Some s \<Rightarrow>
          \<lparr>hr_messages = map (\<lambda>e. ACK (-1) (seq e)) (read_log l sid (nat (lastAcked + 1))) @
             [STATE (is_state s) (session_remaining s now) ''LISTENING''],
           hr_accepted = True, hr_event = None\<rparr>)"

definition forget :: "channel \<Rightarrow> string \<Rightarrow> channel" where
  "forget ch sid = del_key ch sid"

section \<open>Numbers of the browser without a gap\<close>

text \<open>
  A browser is honest when its idempotency keys are its own (no server key) and each stands for one
  number. The server appends without a number.
\<close>

record honesty =
  own_key :: "string \<Rightarrow> string \<Rightarrow> bool"
  number_of :: "string \<Rightarrow> string \<Rightarrow> int"

definition honest :: "honesty \<Rightarrow> client_event \<Rightarrow> bool" where
  "honest hc e \<longleftrightarrow> own_key hc (ce_sessionId e) (ce_key e) \<and> ce_clientSeq e = number_of hc (ce_sessionId e) (ce_key e)"

inductive channel_step ::
  "honesty \<Rightarrow> hashing \<Rightarrow> (event_log \<times> channel) \<Rightarrow> (event_log \<times> channel) \<Rightarrow> bool" for hc h where
  client: "(\<And>e. raw = Some e \<Longrightarrow> honest hc e) \<Longrightarrow> handleClientEvent h now raw st l ch = Inr (l', ch', res) \<Longrightarrow>
    channel_step hc h (l, ch) (l', ch')"
| server: "uuid_like (rq_session r) \<Longrightarrow> rq_clientSeq r = None \<Longrightarrow> \<not> own_key hc (rq_session r) (rq_key r) \<Longrightarrow>
    append_log h now r l = Inr (l', ev, d) \<Longrightarrow> channel_step hc h (l, ch) (l', ch)"
| forget: "channel_step hc h (l, ch) (l, forget ch sid)"

definition numbers_upto :: "int list \<Rightarrow> bool" where
  "numbers_upto ns \<longleftrightarrow> ns = map int [0..<length ns]"

definition channel_inv :: "honesty \<Rightarrow> event_log \<times> channel \<Rightarrow> bool" where
  "channel_inv hc = (\<lambda>(l, ch). log_wf l \<and>
     (\<forall>s. numbers_upto (client_numbers l s)) \<and>
     (\<forall>s k. stored_event l (s, k) \<noteq> None \<longrightarrow> uuid_like s \<longrightarrow> own_key hc s k \<longrightarrow>
        number_of hc s k \<in> set (client_numbers l s)) \<and>
     (\<forall>s n. get_key ch s = Some n \<longrightarrow> n = latestClientSeq l s))"

lemma latest_of_numbers_upto: "numbers_upto ns \<Longrightarrow> fold max ns (-1) = int (length ns) - 1"
proof -
  have "fold max (map int [0..<n]) (-1) = int n - 1" for n by (induction n) auto
  then show "numbers_upto ns \<Longrightarrow> ?thesis" unfolding numbers_upto_def by metis
qed

lemma numbers_upto_set: "numbers_upto ns \<Longrightarrow> n \<in> set ns \<longleftrightarrow> 0 \<le> n \<and> n < int (length ns)"
proof -
  have "n \<in> set (map int [0..<m]) \<longleftrightarrow> 0 \<le> n \<and> n < int m" for m by (auto simp: image_iff intro: zero_le_imp_eq_int [elim_format])
  then show "numbers_upto ns \<Longrightarrow> ?thesis" unfolding numbers_upto_def by metis
qed

lemma numbers_upto_snoc: "numbers_upto ns \<Longrightarrow> numbers_upto (ns @ [int (length ns)])"
  unfolding numbers_upto_def by simp

lemma client_numbers_append:
  assumes "client_seq_error l r = None"
  shows "client_numbers (insert_event r e l) s =
    (if s = rq_session r then client_numbers l s @ (case rq_clientSeq r of None \<Rightarrow> [] | Some n \<Rightarrow> [n])
     else client_numbers l s)"
proof (cases "rq_clientSeq r")
  case (Some n)
  then have "n \<notin> fst ` set (or_empty (get_key (el_clientSeqs l) (rq_session r)))"
    using assms by (auto simp: client_seq_error_def client_numbers_def split: if_splits)
  then show ?thesis using Some
    by (simp add: client_numbers_def insert_event_def Let_def set_key_new)
qed (simp add: client_numbers_def insert_event_def Let_def)

lemma stored_event_insert:
  assumes "uuid_like s" and "uuid_like (rq_session r)"
  shows "stored_event (insert_event r e l) (s, k) =
    (if s = rq_session r \<and> k = rq_key r then Some e else stored_event l (s, k))"
  using dedupe_key_inj [OF assms] by (auto simp: stored_event_def)

lemma latestClientSeq_upto:
  assumes "numbers_upto (client_numbers l s)"
  shows "latestClientSeq l s = int (length (client_numbers l s)) - 1"
  using latest_of_numbers_upto [OF assms] by (simp add: latestClientSeq_def)

lemma channel_inv_parts:
  assumes "channel_inv hc (l, ch)"
  shows "log_wf l" and "numbers_upto (client_numbers l s)"
    and "stored_event l (s, k) = Some e \<Longrightarrow> uuid_like s \<Longrightarrow> own_key hc s k \<Longrightarrow>
      number_of hc s k \<in> set (client_numbers l s)"
    and "get_key ch s = Some n \<Longrightarrow> n = latestClientSeq l s"
  using assms by (auto simp: channel_inv_def)

lemma watermark_is_latest: "channel_inv hc (l, ch) \<Longrightarrow> watermark ch l s = latestClientSeq l s"
  by (auto simp: watermark_def channel_inv_def split: option.splits)

lemma channel_inv_set_latest:
  "channel_inv hc (l, ch) \<Longrightarrow> channel_inv hc (l, set_key ch s (latestClientSeq l s))"
  by (auto simp: channel_inv_def)

text \<open>A fresh append of the next number of a session.\<close>

lemma channel_inv_fresh:
  assumes inv: "channel_inv hc (l, ch)" and r: "uuid_like (rq_session r)" "client_seq_error l r = None"
    and num: "rq_clientSeq r = Some n" "n \<le> latestClientSeq l (rq_session r) + 1" "0 \<le> n"
    and key: "own_key hc (rq_session r) (rq_key r)" "n = number_of hc (rq_session r) (rq_key r)"
    and e: "e = new_event h now r l"
  shows "channel_inv hc (insert_event r e l, set_key ch (rq_session r) n)"
    and "n = latestClientSeq l (rq_session r) + 1"
proof -
  let ?s = "rq_session r"
  have upto: "numbers_upto (client_numbers l t)" for t using channel_inv_parts(2) [OF inv] .
  have "n \<notin> set (client_numbers l ?s)" using r(2) num(1) by (auto simp: client_seq_error_def split: if_splits)
  then have n: "n = int (length (client_numbers l ?s))"
    using num(2,3) numbers_upto_set [OF upto] latestClientSeq_upto [OF upto] by fastforce
  then show "n = latestClientSeq l ?s + 1" using latestClientSeq_upto [OF upto] by simp
  have nums: "client_numbers (insert_event r e l) t =
      (if t = ?s then client_numbers l t @ [n] else client_numbers l t)" for t
    using client_numbers_append [OF r(2)] num(1) by simp
  have upto': "numbers_upto (client_numbers (insert_event r e l) t)" for t
    using upto nums n numbers_upto_snoc by auto
  have "log_wf (insert_event r e l)" using log_wf_insert [OF channel_inv_parts(1) [OF inv] r(1) e] .
  moreover have "number_of hc s k \<in> set (client_numbers (insert_event r e l) s)"
    if "stored_event (insert_event r e l) (s, k) \<noteq> None" "uuid_like s" "own_key hc s k" for s k
    using that stored_event_insert [OF that(2) r(1)] channel_inv_parts(3) [OF inv] nums key by (auto split: if_splits)
  moreover have "m = latestClientSeq (insert_event r e l) s"
    if "get_key (set_key ch ?s n) s = Some m" for s m
    using that channel_inv_parts(4) [OF inv] n nums latestClientSeq_upto [OF upto'] latestClientSeq_upto [OF upto]
    by (auto split: if_splits)
  ultimately show "channel_inv hc (insert_event r e l, set_key ch ?s n)"
    using upto' by (auto simp: channel_inv_def)
qed

lemma channel_inv_server:
  assumes inv: "channel_inv hc (l, ch)" and r: "uuid_like (rq_session r)" "rq_clientSeq r = None"
      "\<not> own_key hc (rq_session r) (rq_key r)"
    and app: "append_log h now r l = Inr (l', ev, d)"
  shows "channel_inv hc (l', ch)"
  using app
proof (cases rule: append_log_cases)
  case stored
  then show ?thesis using inv by simp
next
  case fresh
  have nums: "client_numbers l' t = client_numbers l t" for t
    using client_numbers_append [OF fresh(5)] fresh(3) r(2) by simp
  have "log_wf l'" using log_wf_append [OF channel_inv_parts(1) [OF inv] r(1) app] .
  moreover have "number_of hc s k \<in> set (client_numbers l' s)"
    if "stored_event l' (s, k) \<noteq> None" "uuid_like s" "own_key hc s k" for s k
    using that stored_event_insert [OF that(2) r(1)] channel_inv_parts(3) [OF inv] nums fresh(3) r(3)
    by (auto split: if_splits)
  ultimately show ?thesis
    using inv by (auto simp: channel_inv_def nums latestClientSeq_def)
qed

lemma channel_inv_client:
  assumes inv: "channel_inv hc (l, ch)" and ok: "client_event_ok e" and hon: "honest hc e"
    and top: "ce_clientSeq e \<le> latestClientSeq l (ce_sessionId e) + 1"
    and app: "append_client h now s e (latestClientSeq l (ce_sessionId e) + 1) l ch = Inr (l', ch', res)"
  shows "channel_inv hc (l', ch')"
proof (cases "append_log h now (log_request_of s e) l")
  case (Inl err)
  then show ?thesis
    using app inv channel_inv_set_latest [OF inv] by (auto simp: append_client_def Let_def split: if_splits)
next
  case (Inr x)
  obtain m ev d where x: "x = (m, ev, d)" by (cases x)
  let ?r = "log_request_of s e"
  have r: "rq_session ?r = ce_sessionId e" "rq_key ?r = ce_key e" "rq_clientSeq ?r = Some (ce_clientSeq e)"
    by (simp_all add: log_request_of_def)
  have app': "append_log h now ?r l = Inr (m, ev, d)" using Inr x by simp
  from app' show ?thesis
  proof (cases rule: append_log_cases)
    case stored
    then have "stored_event l (ce_sessionId e, ce_key e) = Some ev" by (simp add: stored_event_def r)
    then have "ce_clientSeq e \<in> set (client_numbers l (ce_sessionId e))"
      using channel_inv_parts(3) [OF inv] ok hon by (auto simp: client_event_ok_def honest_def)
    then have "ce_clientSeq e \<le> latestClientSeq l (ce_sessionId e)"
      using numbers_upto_set latestClientSeq_upto channel_inv_parts(2) [OF inv] by fastforce
    then show ?thesis using app app' stored inv by (auto simp: append_client_def)
  next
    case fresh
    note c = channel_inv_fresh [OF inv _ fresh(5) r(3) _ _ _ _ fresh(2), unfolded r]
    have "channel_inv hc (m, set_key ch (ce_sessionId e) (ce_clientSeq e))"
      and "ce_clientSeq e = latestClientSeq l (ce_sessionId e) + 1"
      using c top ok hon fresh(3) by (auto simp: client_event_ok_def honest_def)
    then show ?thesis using app app' by (auto simp: append_client_def)
  qed
qed

lemma channel_inv_handle:
  assumes inv: "channel_inv hc (l, ch)" and hon: "\<And>e. raw = Some e \<Longrightarrow> honest hc e"
    and h: "handleClientEvent h now raw st l ch = Inr (l', ch', res)"
  shows "channel_inv hc (l', ch')"
proof (cases "\<exists>e s. raw = Some e \<and> client_event_ok e \<and> store_get st (ce_sessionId e) = Some s \<and> is_endedAt s = None")
  case True
  then obtain e s where e: "raw = Some e" "client_event_ok e" "store_get st (ce_sessionId e) = Some s" "is_endedAt s = None"
    by blast
  have w: "watermark ch l (ce_sessionId e) = latestClientSeq l (ce_sessionId e)" using watermark_is_latest [OF inv] .
  note inv1 = channel_inv_set_latest [OF inv, of "ce_sessionId e"]
  show ?thesis
  proof (cases "ce_clientSeq e > latestClientSeq l (ce_sessionId e) + 1")
    case True
    then show ?thesis using h e w inv1 by (auto simp: handleClientEvent_def Let_def)
  next
    case False
    then have "append_client h now s e (latestClientSeq l (ce_sessionId e) + 1) l
        (set_key ch (ce_sessionId e) (latestClientSeq l (ce_sessionId e))) = Inr (l', ch', res)"
      using h e w by (simp add: handleClientEvent_def Let_def)
    then show ?thesis using channel_inv_client [OF inv1 e(2) hon [OF e(1)]] False by simp
  qed
next
  case False
  then show ?thesis using h inv
    by (auto simp: handleClientEvent_def Let_def split: option.splits if_splits)
qed

interpretation channel_kept: kept_by_steps "channel_step hc h" "channel_inv hc" for hc h
proof unfold_locales
  fix x y
  assume inv: "channel_inv hc x" and "channel_step hc h x y"
  from this(2) show "channel_inv hc y"
  proof cases
    case (client raw now st l ch l' ch' res)
    then show ?thesis using channel_inv_handle inv by blast
  next
    case (server r now l l' ev d ch)
    then show ?thesis using channel_inv_server inv by blast
  next
    case (forget l ch sid)
    then show ?thesis using inv by (auto simp: channel_inv_def SessionChannel.forget_def)
  qed
qed

lemma channel_inv_empty: "channel_inv hc (empty_log, [])"
proof -
  have "client_numbers empty_log s = []" "stored_event empty_log k = None" for s k
    by (simp_all add: client_numbers_def stored_event_def empty_log_def)
  then show ?thesis by (simp add: channel_inv_def log_wf_empty numbers_upto_def)
qed

section \<open>What a reply means\<close>

text \<open>An acknowledgement names an event that is in the log; a handed-over event is the new last one.\<close>

lemma handle_ack:
  assumes "handleClientEvent h now (Some e) st l ch = Inr (l', ch', res)" and "log_wf l"
    and "ACK c n \<in> set (hr_messages res)"
  shows "c = ce_clientSeq e" and "\<exists>ev\<in>set (session_events l' (ce_sessionId e)). seq ev = n"
proof -
  have r: "rq_session (log_request_of s e) = ce_sessionId e" "rq_key (log_request_of s e) = ce_key e" for s
    by (simp_all add: log_request_of_def)
  obtain s ex ch1 ev d where app: "append_log h now (log_request_of s e) l = Inr (l', ev, d)"
    and ok: "client_event_ok e" and res: "hr_messages res = [ACK (ce_clientSeq e) (seq ev)]"
    using assms(1,3) by (auto simp: handleClientEvent_def append_client_def rejected_def Let_def
        split: option.splits if_splits sum.splits prod.splits)
  show "c = ce_clientSeq e" using res assms(3) by simp
  have u: "uuid_like (ce_sessionId e)" using ok by (simp add: client_event_ok_def)
  have "ev \<in> set (session_events l' (ce_sessionId e))"
    by (rule append_log_cases [OF app]) (use u stored_in_own_session(2) [OF assms(2)] r in auto)
  then show "\<exists>ev\<in>set (session_events l' (ce_sessionId e)). seq ev = n" using res assms(3) by auto
qed

lemma handle_ended:
  assumes "handleClientEvent h now raw st l ch = Inr (l', ch', res)"
    and "\<forall>e s. raw = Some e \<longrightarrow> store_get st (ce_sessionId e) = Some s \<longrightarrow> is_endedAt s \<noteq> None"
  shows "l' = l" and "\<not> hr_accepted res"
  using assms by (auto simp: handleClientEvent_def rejected_def Let_def split: option.splits if_splits)

lemma handle_event_is_new:
  assumes "handleClientEvent h now raw st l ch = Inr (l', ch', res)" and "hr_event res = Some ev"
  shows "hr_accepted res \<and> session_events l' (sessionId ev) = session_events l (sessionId ev) @ [ev]"
  using assms by (auto simp: handleClientEvent_def append_client_def rejected_def Let_def
      split: option.splits if_splits sum.splits elim!: append_log_cases)

end
