(* ===== verification/SessionLifecycle.thy ===== *)
theory SessionLifecycle
  imports SessionChannel
begin

text \<open>
  \<open>session/lifecycle.ts\<close>: the three changes of a session that also write the log, over the in-memory
  store and log. A step that throws keeps what was done before it, so the state is returned beside
  the result. The queue of report jobs is the list of what was enqueued.
\<close>

record life =
  lc_store :: session_store
  lc_log :: event_log
  lc_reports :: "(string \<times> string) list"

type_synonym 'a life_outcome = "life \<times> 'a result"

fun mode_name :: "interview_mode \<Rightarrow> string" where
  "mode_name LEARNING = ''LEARNING''" | "mode_name MOCK = ''MOCK''" | "mode_name STRICT = ''STRICT''"

fun tone_name :: "interviewer_tone \<Rightarrow> string" where
  "tone_name EXTRA_NICE = ''EXTRA_NICE''" | "tone_name NORMAL = ''NORMAL''" | "tone_name MEAN = ''MEAN''"

definition system_request :: "interview_session \<Rightarrow> event_type \<Rightarrow> payload \<Rightarrow> string \<Rightarrow> log_request" where
  "system_request s ty p k = \<lparr>
     rq_session = is_id s,
     rq_type = ty,
     rq_actor = SYSTEM,
     rq_scenario = is_scenarioVersionId s,
     rq_payload = p,
     rq_trace = is_traceId s,
     rq_key = k,
     rq_occurredAt = None,
     rq_clientSeq = None\<rparr>"

definition started_payload :: "interview_session \<Rightarrow> payload" where
  "started_payload s =
     [(''mode'', JStr (mode_name (is_mode s))), (''language'', JStr (is_language s)),
      (''scenarioHash'', JStr (is_scenarioHash s)), (''interviewerTone'', JStr (tone_name (is_tone s))),
      (''expectedSeconds'', JNum (is_expectedSeconds s))]"

definition write_event ::
  "hashing \<Rightarrow> instant \<Rightarrow> interview_session \<Rightarrow> event_type \<Rightarrow> payload \<Rightarrow> string \<Rightarrow> life \<Rightarrow> unit life_outcome" where
  "write_event h now s ty p k lc =
     (case append_log h now (system_request s ty p k) (lc_log lc) of
        Inl e \<Rightarrow> (lc, Inl e)
      | Inr (l', _, _) \<Rightarrow> (lc\<lparr>lc_log := l'\<rparr>, Inr ()))"

definition life_then :: "'a life_outcome \<Rightarrow> ('a \<Rightarrow> life \<Rightarrow> 'b life_outcome) \<Rightarrow> 'b life_outcome" where
  "life_then o1 f = (case o1 of (lc, Inl e) \<Rightarrow> (lc, Inl e) | (lc, Inr a) \<Rightarrow> f a lc)"

definition in_store ::
  "(session_store \<Rightarrow> (session_store \<times> interview_session) result) \<Rightarrow> life \<Rightarrow> interview_session life_outcome" where
  "in_store f lc = (case f (lc_store lc) of Inl e \<Rightarrow> (lc, Inl e) | Inr (st', s) \<Rightarrow> (lc\<lparr>lc_store := st'\<rparr>, Inr s))"

definition createStarted ::
  "hashing \<Rightarrow> instant \<Rightarrow> create_request \<Rightarrow> string \<Rightarrow> string \<Rightarrow> life \<Rightarrow> interview_session life_outcome" where
  "createStarted h now r sid trace lc =
     life_then (in_store (store_create r sid trace now) lc) (\<lambda>s lc1.
     life_then (write_event h now s SESSION_STARTED (started_payload s) (''session-started:'' @ is_id s) lc1) (\<lambda>_ lc2.
       (lc2, Inr s)))"

definition endWithReport ::
  "hashing \<Rightarrow> instant \<Rightarrow> string \<Rightarrow> string \<Rightarrow> instant option \<Rightarrow> int \<Rightarrow> life \<Rightarrow> interview_session life_outcome" where
  "endWithReport h now sid rubric at_time expected lc =
     (let durable = latestClientSeq (lc_log lc) sid
      in if durable < expected then (lc, Inl (JsError ''FinalInputsPendingError''))
         else life_then (in_store (store_end sid (or_default at_time now)) lc) (\<lambda>s lc1.
              life_then (write_event h now s SESSION_ENDED [(''sealedClientSeq'', JNum (of_int durable))]
                           (''session-ended:'' @ is_id s) lc1) (\<lambda>_ lc2.
                (lc2\<lparr>lc_reports := lc_reports lc2 @ [(is_id s, rubric)]\<rparr>, Inr s))))"

definition transitionWithEvent ::
  "hashing \<Rightarrow> instant \<Rightarrow> string \<Rightarrow> interview_state \<Rightarrow> interview_state \<Rightarrow> string \<Rightarrow> life \<Rightarrow> interview_session life_outcome" where
  "transitionWithEvent h now sid from_state to_state why lc =
     (case store_get (lc_store lc) sid of
        None \<Rightarrow> (lc, Inl (JsError ''STALE_SESSION_STATE''))
      | Some cur \<Rightarrow>
          if is_state cur \<noteq> from_state then (lc, Inl (JsError ''STALE_SESSION_STATE''))
          else life_then (in_store (store_transition sid to_state now) lc) (\<lambda>s lc1.
               life_then (write_event h now s STATE_TRANSITIONED
                  [(''from'', JStr (state_name from_state)), (''to'', JStr (state_name to_state)), (''reason'', JStr why)]
                  (''stage:'' @ state_name to_state) lc1) (\<lambda>_ lc2. (lc2, Inr s))))"

section \<open>Steps\<close>

lemma system_request_sel [simp]:
  "rq_session (system_request s ty p k) = is_id s" "rq_key (system_request s ty p k) = k"
  "rq_clientSeq (system_request s ty p k) = None" "rq_type (system_request s ty p k) = ty"
  "rq_payload (system_request s ty p k) = p"
  by (simp_all add: system_request_def)

lemma write_event_cases:
  assumes "write_event h now s ty p k lc = (lc', r)"
  obtains (thrown) e where "lc' = lc" "r = Inl e"
  | (written) l' ev d where "append_log h now (system_request s ty p k) (lc_log lc) = Inr (l', ev, d)"
      "lc' = lc\<lparr>lc_log := l'\<rparr>" "r = Inr ()"
  using assms by (auto simp: write_event_def split: sum.splits prod.splits)

lemma in_store_cases:
  assumes "in_store f lc = (lc', r)"
  obtains (thrown) e where "lc' = lc" "r = Inl e" "f (lc_store lc) = Inl e"
  | (changed) st' s where "f (lc_store lc) = Inr (st', s)" "lc' = lc\<lparr>lc_store := st'\<rparr>" "r = Inr s"
  using assms by (auto simp: in_store_def split: sum.splits prod.splits)

text \<open>An append without a browser number leaves the browser's numbers alone.\<close>

lemma append_server_numbers:
  assumes "append_log h now r l = Inr (l', ev, d)" and "rq_clientSeq r = None"
  shows "client_numbers l' s = client_numbers l s"
  using assms(1) by (cases rule: append_log_cases) (simp_all add: client_numbers_append assms(2))

lemma append_server_latest:
  assumes "append_log h now r l = Inr (l', ev, d)" and "rq_clientSeq r = None"
  shows "latestClientSeq l' s = latestClientSeq l s"
  by (simp add: latestClientSeq_def append_server_numbers [OF assms])

section \<open>The seal\<close>

text \<open>A session is sealed when its log says so, with the last number of the browser.\<close>

definition seals :: "session_event \<Rightarrow> int \<Rightarrow> bool" where
  "seals e n \<longleftrightarrow> etype e = SESSION_ENDED \<and> get_key (payload e) ''sealedClientSeq'' = Some (JNum (of_int n))"

lemma endWithReport_ended:
  assumes "endWithReport h now sid rubric at_time expected lc = (lc', Inr s)" and "store_wf (lc_store lc)"
  shows "store_get (lc_store lc') sid = Some s \<and> is_endedAt s \<noteq> None \<and> is_id s = sid \<and>
    expected \<le> latestClientSeq (lc_log lc') sid \<and> latestClientSeq (lc_log lc') sid = latestClientSeq (lc_log lc) sid \<and>
    last (lc_reports lc') = (sid, rubric)"
proof -
  obtain st' l' ev d where e: "store_end sid (or_default at_time now) (lc_store lc) = Inr (st', s)"
    and a: "append_log h now (system_request s SESSION_ENDED
        [(''sealedClientSeq'', JNum (of_int (latestClientSeq (lc_log lc) sid)))] (''session-ended:'' @ is_id s)) (lc_log lc) =
        Inr (l', ev, d)"
    and lc': "lc' = lc\<lparr>lc_store := st', lc_log := l', lc_reports := lc_reports lc @ [(is_id s, rubric)]\<rparr>"
    and ex: "expected \<le> latestClientSeq (lc_log lc) sid"
    using assms(1)
    by (auto simp: endWithReport_def Let_def life_then_def in_store_def write_event_def
        split: if_splits sum.splits prod.splits)
  have s: "store_get st' sid = Some s" "is_endedAt s \<noteq> None"
    using e by (auto simp: store_end_def require_iff Let_def put_session_def store_get_def deleted_def split: if_splits)
  then have "get_key (ss_sessions st') sid = Some s" by (simp add: store_get_def split: if_splits)
  moreover have "store_wf st'" using session_op_wf e assms(2) by blast
  ultimately have "is_id s = sid" using store_wfD by (auto simp: session_ok_def)
  then show ?thesis using s lc' ex append_server_latest [OF a] by simp
qed

lemma endWithReport_seals:
  assumes "endWithReport h now sid rubric at_time expected lc = (lc', Inr s)" and "store_wf (lc_store lc)"
    and "stored_event (lc_log lc) (sid, ''session-ended:'' @ sid) = None"
  shows "\<exists>e\<in>set (session_events (lc_log lc') sid). seals e (latestClientSeq (lc_log lc') sid)"
proof -
  have sid: "is_id s = sid" and latest: "latestClientSeq (lc_log lc') sid = latestClientSeq (lc_log lc) sid"
    using endWithReport_ended [OF assms(1,2)] by auto
  obtain st' l' ev d where a: "append_log h now (system_request s SESSION_ENDED
        [(''sealedClientSeq'', JNum (of_int (latestClientSeq (lc_log lc) sid)))] (''session-ended:'' @ is_id s)) (lc_log lc) =
        Inr (l', ev, d)"
    and lc': "lc_log lc' = l'"
    using assms(1)
    by (auto simp: endWithReport_def Let_def life_then_def in_store_def write_event_def
        split: if_splits sum.splits prod.splits)
  from a show ?thesis
  proof (cases rule: append_log_cases)
    case stored
    then show ?thesis using assms(3) sid by (simp add: stored_event_def)
  next
    case fresh
    then have "ev \<in> set (session_events l' sid)" "seals ev (latestClientSeq (lc_log lc) sid)"
      by (simp_all add: sid seals_def new_event_def)
    then show ?thesis using latest lc' by auto
  qed
qed

text \<open>An append of the server's own is refused for a deleted session only, so nothing else stops the end.\<close>

lemma append_server_succeeds:
  assumes "rq_session r \<notin> set (el_redacted l)" and "rq_clientSeq r = None"
  shows "\<exists>l' ev d. append_log h now r l = Inr (l', ev, d)"
  using assms by (auto simp: append_log_def client_seq_error_def Let_def split: option.split)

lemma endWithReport_succeeds:
  assumes "store_end sid (or_default t now) (lc_store lc) = Inr (st', s)" and "expected \<le> latestClientSeq (lc_log lc) sid"
    and "is_id s \<notin> set (el_redacted (lc_log lc))"
  shows "\<exists>lc'. endWithReport h now sid rubric t expected lc = (lc', Inr s)"
proof -
  obtain l' ev d where "append_log h now (system_request s SESSION_ENDED
      [(''sealedClientSeq'', JNum (of_int (latestClientSeq (lc_log lc) sid)))] (''session-ended:'' @ is_id s)) (lc_log lc) =
      Inr (l', ev, d)"
    using append_server_succeeds [of "system_request s _ _ _"] assms(3) by (metis system_request_sel(1,3))
  then show ?thesis
    using assms by (simp add: endWithReport_def Let_def life_then_def in_store_def write_event_def)
qed

text \<open>
  The keys of the server and of the browser share one namespace: an event that a browser stored under
  the key of the end is taken for it, and the session ends without an event that says so.
\<close>

lemma end_swallowed:
  assumes "endWithReport h now sid rubric t expected lc = (lc', Inr s)" and "store_wf (lc_store lc)"
    and "stored_event (lc_log lc) (sid, ''session-ended:'' @ sid) = Some ev"
  shows "lc_log lc' = lc_log lc"
proof -
  have sid: "is_id s = sid" using endWithReport_ended [OF assms(1,2)] by simp
  obtain l' ev' d where a: "append_log h now (system_request s SESSION_ENDED
        [(''sealedClientSeq'', JNum (of_int (latestClientSeq (lc_log lc) sid)))] (''session-ended:'' @ is_id s)) (lc_log lc) =
        Inr (l', ev', d)"
    and lc': "lc_log lc' = l'"
    using assms(1)
    by (auto simp: endWithReport_def Let_def life_then_def in_store_def write_event_def
        split: if_splits sum.splits prod.splits)
  from a show ?thesis by (cases rule: append_log_cases) (use assms(3) sid lc' in \<open>auto simp: stored_event_def\<close>)
qed

text \<open>Ending twice is ending once, but for a second report job.\<close>

lemma endWithReport_idempotent:
  assumes "endWithReport h now sid rubric at_time expected lc = (lc', Inr s)" and "store_wf (lc_store lc)"
    and "expected' \<le> latestClientSeq (lc_log lc') sid" and "uuid_like sid"
  shows "\<exists>lc''. endWithReport h later sid rubric at_time' expected' lc' = (lc'', Inr s) \<and>
    lc_store lc'' = lc_store lc' \<and> lc_log lc'' = lc_log lc'"
proof -
  note e = endWithReport_ended [OF assms(1,2)]
  obtain st' l' ev d where a: "append_log h now (system_request s SESSION_ENDED
        [(''sealedClientSeq'', JNum (of_int (latestClientSeq (lc_log lc) sid)))] (''session-ended:'' @ is_id s)) (lc_log lc) =
        Inr (l', ev, d)"
    and lc': "lc_log lc' = l'"
    using assms(1)
    by (auto simp: endWithReport_def Let_def life_then_def in_store_def write_event_def
        split: if_splits sum.splits prod.splits)
  have "stored_event l' (sid, ''session-ended:'' @ sid) = Some ev" and "sid \<notin> set (el_redacted l')"
    using a e by (auto simp: stored_event_def elim!: append_log_cases)
  then have "append_log h later (system_request s SESSION_ENDED p (''session-ended:'' @ sid)) l' = Inr (l', ev, True)" for p
    using e by (simp add: append_log_def stored_event_def)
  moreover have "store_end sid t (lc_store lc') = Inr (lc_store lc', s)" for t
    using e by (auto simp: store_end_def require_def)
  ultimately show ?thesis
    using assms(3) e lc' by (simp add: endWithReport_def Let_def life_then_def in_store_def write_event_def)
qed

end
