(* ===== verification/UtteranceAudio.thy ===== *)
theory UtteranceAudio
  imports SessionLifecycle Classifier AudioPcm Step_Closure
begin

text \<open>
  \<open>realtime/utterance-audio.ts\<close> and \<open>realtime/tts.ts\<close>: everything a scenario permits the interviewer to
  say, rendered ahead of time, and the cache of it in memory and on disk. The digests, the answers of the
  synthesis and of the transcription and what the disk does are inputs. \<open>ac_passed\<close> records the words, the tone, the samples and what was heard of
  each render that passed the comparison. The end of a render, from its answer to its files, is one step. The instant of creation in the metadata is left out, as nothing reads it.
\<close>

section \<open>What may be said\<close>

definition add_line :: "string list \<Rightarrow> string \<Rightarrow> string list" where
  "add_line out1 words = (let t = trim words in if words = [] \<or> t = [] \<or> t \<in> set out1 then out1 else out1 @ [t])"

definition authoredUtterances :: "scenario_version \<Rightarrow> string list" where
  "authoredUtterances sc =
     foldl add_line [] (openingScript sc # repeatVariants sc @ concat (map authoredVariants (probes sc)) @
       map fact_value (facts sc) @ map hint_text (hintLadder sc) @ map oralDelta (followUps sc))"

section \<open>Silence and words\<close>

definition SILENCE_THRESHOLD :: int where "SILENCE_THRESHOLD = 184"

definition readInt16LE :: "8 word list \<Rightarrow> nat \<Rightarrow> int" where
  "readInt16LE pcm i = sint (int16 (pcm ! (2 * i)) (pcm ! (2 * i + 1)))"

definition is_voiced :: "8 word list \<Rightarrow> nat \<Rightarrow> bool" where
  "is_voiced pcm i \<longleftrightarrow> \<bar>readInt16LE pcm i\<bar> \<ge> SILENCE_THRESHOLD"

definition trimSilence :: "8 word list \<Rightarrow> int \<Rightarrow> 8 word list" where
  "trimSilence pcm rate =
     (let leadIn = \<lceil>real_of_int rate * (20 / 1000)\<rceil>;
          trail = \<lceil>real_of_int rate * (80 / 1000)\<rceil>;
          n = length pcm div 2
      in case List.find (is_voiced pcm) [0..<n] of
           None \<Rightarrow> pcm
         | Some first \<Rightarrow>
             (let final = (case List.find (is_voiced pcm) (rev [first..<n]) of None \<Rightarrow> first | Some i \<Rightarrow> i);
                  start = max 0 (int first - leadIn);
                  stop = min (int n) (int final + 1 + trail)
              in take (2 * nat stop - 2 * nat start) (drop (2 * nat start) pcm)))"

definition is_plain :: "char \<Rightarrow> bool" where
  "is_plain c \<longleftrightarrow> c \<in> set lower_letters \<or> c \<in> set digit_chars \<or> is_white c"

definition normalizeWords :: "string \<Rightarrow> string" where
  "normalizeWords s = squeeze_white (trim (map (\<lambda>c. if is_plain c then c else CHR '' '') (to_lower s)))"

definition wordsMatch :: "string \<Rightarrow> string \<Rightarrow> bool" where
  "wordsMatch authored1 heard \<longleftrightarrow> normalizeWords authored1 = normalizeWords heard"

section \<open>The synthesis\<close>

datatype tts_kind = TTS_TIMEOUT | RATE_LIMITED | TTS_HTTP | MALFORMED | NO_KEY

record rendered_speech =
  rs_pcm :: "8 word list"
  rs_sampleRate :: int
  rs_voiceId :: string
  rs_model :: string

definition TTS_SAMPLE_RATE :: int where "TTS_SAMPLE_RATE = 24000"

fun tone_direction :: "interviewer_tone \<Rightarrow> string" where
  "tone_direction EXTRA_NICE = ''(Speak in a warm, encouraging tone.)'' @ [CHR 0x0A]"
| "tone_direction MEAN = ''(Speak in a cold, terse tone.)'' @ [CHR 0x0A]"
| "tone_direction NORMAL = []"

definition parse_digits :: "string \<Rightarrow> int" where
  "parse_digits ds = foldl (\<lambda>n c. n * 10 + (of_char c - 48)) 0 ds"

text \<open>The first \<open>rate=\<close> that digits follow, in any case.\<close>

fun rate_digits :: "string \<Rightarrow> string option" where
  "rate_digits [] = None"
| "rate_digits (c # s) =
     (let ds = takeWhile (\<lambda>d. d \<in> set digit_chars) (drop 5 (c # s))
      in if starts_with (to_lower (c # s)) ''rate='' \<and> ds \<noteq> [] then Some ds else rate_digits s)"

definition sampleRateFromMime :: "string \<Rightarrow> int" where
  "sampleRateFromMime mime =
     (case rate_digits mime of None \<Rightarrow> TTS_SAMPLE_RATE | Some ds \<Rightarrow> if parse_digits ds > 0 then parse_digits ds else TTS_SAMPLE_RATE)"

text \<open>A part of the answer: its data and its type, in either of the two spellings.\<close>

record inline_part =
  ip_camel :: "(string option \<times> string option) option"
  ip_snake :: "(string option \<times> string option) option"

definition extractInlineAudio :: "inline_part list \<Rightarrow> (string \<times> string) option" where
  "extractInlineAudio parts =
     map_option (\<lambda>p.
         (the (case Option.bind (ip_camel p) fst of Some d \<Rightarrow> Some d | None \<Rightarrow> Option.bind (ip_snake p) fst),
          (case Option.bind (ip_camel p) snd of Some m \<Rightarrow> m
           | None \<Rightarrow> (case Option.bind (ip_snake p) snd of Some m \<Rightarrow> m | None \<Rightarrow> []))))
       (List.find (\<lambda>p. case (case Option.bind (ip_camel p) fst of Some d \<Rightarrow> Some d | None \<Rightarrow> Option.bind (ip_snake p) fst) of
            None \<Rightarrow> False | Some d \<Rightarrow> d \<noteq> []) parts)"

datatype tts_response = RequestTimedOut | RequestFailed | Answered nat | NotJson | Blocked | Parts "inline_part list"

definition tts_prompt :: "string \<Rightarrow> interviewer_tone option \<Rightarrow> string" where
  "tts_prompt words tone = tone_direction (case tone of None \<Rightarrow> NORMAL | Some t \<Rightarrow> t) @ words"

text \<open>\<open>Answered\<close> is an answer whose status is not one of success; \<open>decode\<close> is \<open>Buffer.from\<close> of base64.\<close>

definition tts_render ::
  "bool \<Rightarrow> string \<Rightarrow> string \<Rightarrow> (string \<Rightarrow> 8 word list) \<Rightarrow> string \<Rightarrow> tts_response \<Rightarrow> tts_kind + rendered_speech" where
  "tts_render hasKey voiceId model decode words response =
     (if \<not> hasKey then Inl NO_KEY
      else if trim words = [] then Inl MALFORMED
      else case response of
        RequestTimedOut \<Rightarrow> Inl TTS_TIMEOUT
      | RequestFailed \<Rightarrow> Inl TTS_HTTP
      | Answered s \<Rightarrow> Inl (if s = 429 then RATE_LIMITED else TTS_HTTP)
      | NotJson \<Rightarrow> Inl MALFORMED
      | Blocked \<Rightarrow> Inl MALFORMED
      | Parts parts \<Rightarrow>
          (case extractInlineAudio parts of
             None \<Rightarrow> Inl MALFORMED
           | Some (d, mime) \<Rightarrow>
               if decode d = [] then Inl MALFORMED
               else Inr \<lparr>rs_pcm = decode d, rs_sampleRate = sampleRateFromMime mime, rs_voiceId = voiceId, rs_model = model\<rparr>))"

section \<open>The cache\<close>

record digests =
  dg_text :: "string \<Rightarrow> string"
  dg_bytes :: "8 word list \<Rightarrow> string"

record cached_render = rendered_speech +
  cr_textHash :: string

record audio_config =
  ao_digests :: digests
  ao_rendererId :: string
  ao_voiceId :: string
  ao_concurrency :: nat
  ao_disk :: bool
  ao_verifies :: bool

record audio_cache =
  ac_entries :: "string \<rightharpoonup> cached_render"
  ac_inFlight :: "string list"
  ac_pcm :: "string \<rightharpoonup> 8 word list"
  ac_metadata :: "string \<rightharpoonup> payload"
  ac_renders :: "string list"
  ac_rejected :: "(string \<times> interviewer_tone) list"
  ac_passed :: "(string \<times> interviewer_tone \<times> 8 word list \<times> string) list"

definition new_cache :: audio_cache where
  "new_cache = \<lparr>ac_entries = Map.empty, ac_inFlight = [], ac_pcm = Map.empty, ac_metadata = Map.empty, ac_renders = [],
     ac_rejected = [], ac_passed = []\<rparr>"

definition hashText :: "digests \<Rightarrow> string \<Rightarrow> string" where
  "hashText dg words = dg_text dg (trim words)"

definition the_tone :: "interviewer_tone option \<Rightarrow> interviewer_tone" where
  "the_tone t = (case t of None \<Rightarrow> NORMAL | Some x \<Rightarrow> x)"

definition keyFor :: "audio_config \<Rightarrow> string \<Rightarrow> interviewer_tone option \<Rightarrow> string" where
  "keyFor ao words tone = ao_rendererId ao @ ''::'' @ tone_name (the_tone tone) @ ''::'' @ hashText (ao_digests ao) words"

text \<open>The two files of a key share their name up to the extension.\<close>

definition diskPath :: "audio_config \<Rightarrow> string \<Rightarrow> string option" where
  "diskPath ao key = (if ao_disk ao then Some (hashText (ao_digests ao) key) else None)"

definition whole_rate :: "json option \<Rightarrow> int option" where
  "whole_rate v = (case v of Some (JNum x) \<Rightarrow>
       (if of_int \<lfloor>x\<rfloor> = x \<and> 8000 \<le> x \<and> x \<le> 192000 then Some \<lfloor>x\<rfloor> else None) | _ \<Rightarrow> None)"

definition readDisk :: "audio_config \<Rightarrow> string \<Rightarrow> string \<Rightarrow> interviewer_tone option \<Rightarrow> audio_cache \<Rightarrow> cached_render option" where
  "readDisk ao key words tone ac =
     (case diskPath ao key of
        None \<Rightarrow> None
      | Some path \<Rightarrow>
          (case ac_metadata ac path of
             None \<Rightarrow> None
           | Some md \<Rightarrow>
               (case (whole_rate (field md ''sampleRate''), stringOf (field md ''model'')) of
                  (Some rate, Some model) \<Rightarrow>
                    if field md ''key'' \<noteq> Some (JStr key) \<or> field md ''verified'' \<noteq> Some (JBool True) \<or>
                       field md ''textHash'' \<noteq> Some (JStr (hashText (ao_digests ao) words)) \<or>
                       field md ''tone'' \<noteq> Some (JStr (tone_name (the_tone tone))) \<or>
                       field md ''voiceId'' \<noteq> Some (JStr (ao_voiceId ao)) then None
                    else (case ac_pcm ac path of
                            None \<Rightarrow> None
                          | Some pcm \<Rightarrow>
                              if pcm = [] \<or> odd (length pcm) \<or>
                                 field md ''pcmSha256'' \<noteq> Some (JStr (dg_bytes (ao_digests ao) pcm)) then None
                              else Some \<lparr>rs_pcm = pcm, rs_sampleRate = rate, rs_voiceId = ao_voiceId ao, rs_model = model,
                                cr_textHash = hashText (ao_digests ao) words\<rparr>)
                | _ \<Rightarrow> None)))"

definition cache_get :: "audio_config \<Rightarrow> string \<Rightarrow> interviewer_tone option \<Rightarrow> audio_cache \<Rightarrow> cached_render option \<times> audio_cache" where
  "cache_get ao words tone ac =
     (let key = keyFor ao words tone
      in case ac_entries ac key of
           Some e \<Rightarrow> (Some e, ac)
         | None \<Rightarrow> (case readDisk ao key words tone ac of
                      None \<Rightarrow> (None, ac)
                    | Some e \<Rightarrow> (Some e, ac\<lparr>ac_entries := (ac_entries ac)(key \<mapsto> e)\<rparr>)))"

text \<open>How far the writes to the disk get: nothing, the samples alone, or both files.\<close>

datatype disk_outcome = NothingWritten | SamplesWritten | BothWritten

definition metadata_of :: "audio_config \<Rightarrow> string \<Rightarrow> cached_render \<Rightarrow> interviewer_tone option \<Rightarrow> payload" where
  "metadata_of ao key e tone =
     [(''key'', JStr key), (''textHash'', JStr (cr_textHash e)), (''tone'', JStr (tone_name (the_tone tone))), (''verified'', JBool True),
      (''sampleRate'', JNum (of_int (rs_sampleRate e))), (''model'', JStr (rs_model e)), (''voiceId'', JStr (rs_voiceId e)),
      (''pcmSha256'', JStr (dg_bytes (ao_digests ao) (rs_pcm e)))]"

definition persist ::
  "audio_config \<Rightarrow> string \<Rightarrow> cached_render \<Rightarrow> interviewer_tone option \<Rightarrow> disk_outcome \<Rightarrow> audio_cache \<Rightarrow> audio_cache" where
  "persist ao key e tone d ac =
     (case diskPath ao key of
        None \<Rightarrow> ac
      | Some path \<Rightarrow>
          if \<not> ao_verifies ao \<or> d = NothingWritten then ac
          else (let ac1 = ac\<lparr>ac_pcm := (ac_pcm ac)(path \<mapsto> rs_pcm e)\<rparr>
                in if d = SamplesWritten then ac1
                   else ac1\<lparr>ac_metadata := (ac_metadata ac1)(path \<mapsto> metadata_of ao key e tone)\<rparr>))"

text \<open>\<open>ensure\<close> up to the call of the renderer: audio that is there, a render that is joined, or a new one.\<close>

datatype ensure_result = Present cached_render | Joined | Started

definition ensure_begin :: "audio_config \<Rightarrow> string \<Rightarrow> interviewer_tone option \<Rightarrow> audio_cache \<Rightarrow> ensure_result \<times> audio_cache" where
  "ensure_begin ao words tone ac =
     (let key = keyFor ao words tone; (found, ac1) = cache_get ao words tone ac
      in case found of
           Some e \<Rightarrow> (Present e, ac1)
         | None \<Rightarrow> if key \<in> set (ac_inFlight ac1) then (Joined, ac1)
                   else (Started, ac1\<lparr>ac_inFlight := ac_inFlight ac1 @ [key], ac_renders := ac_renders ac1 @ [key]\<rparr>))"

text \<open>The answers of the renderer and of the transcription; \<open>Inl\<close> is a failure of either.\<close>

definition ensure_end ::
  "audio_config \<Rightarrow> string \<Rightarrow> interviewer_tone option \<Rightarrow> tts_kind + rendered_speech \<Rightarrow> tts_kind + string \<Rightarrow> disk_outcome \<Rightarrow> audio_cache \<Rightarrow>
    cached_render option \<times> audio_cache" where
  "ensure_end ao words tone speech heard d ac =
     (let key = keyFor ao words tone;
          settled = (\<lambda>c. c\<lparr>ac_inFlight := removeAll key (ac_inFlight c)\<rparr>)
      in case speech of
           Inl err \<Rightarrow> (None, settled ac)
         | Inr s \<Rightarrow>
             (let trimmed = trimSilence (rs_pcm s) (rs_sampleRate s);
                  e = \<lparr>rs_pcm = trimmed, rs_sampleRate = rs_sampleRate s, rs_voiceId = rs_voiceId s, rs_model = rs_model s,
                       cr_textHash = hashText (ao_digests ao) words\<rparr>;
                  keep = (\<lambda>c. persist ao key e tone d (c\<lparr>ac_entries := (ac_entries c)(key \<mapsto> e)\<rparr>))
              in if \<not> ao_verifies ao then (Some e, settled (keep ac))
                 else (case heard of
                         Inl err \<Rightarrow> (None, settled ac)
                       | Inr h \<Rightarrow>
                           if wordsMatch words h then (Some e, settled (keep (ac\<lparr>ac_passed := ac_passed ac @ [(words, the_tone tone, trimmed, h)]\<rparr>)))
                           else (None, settled (ac\<lparr>ac_rejected := ac_rejected ac @ [(hashText (ao_digests ao) words, the_tone tone)]\<rparr>)))))"

definition present_lines :: "audio_config \<Rightarrow> interviewer_tone option \<Rightarrow> string list \<Rightarrow> audio_cache \<Rightarrow> string list" where
  "present_lines ao tone ls ac = filter (\<lambda>l. fst (cache_get ao l tone ac) \<noteq> None) ls"

definition coverage :: "audio_config \<Rightarrow> scenario_version \<Rightarrow> interviewer_tone option \<Rightarrow> audio_cache \<Rightarrow> real" where
  "coverage ao sc tone ac =
     (let ls = authoredUtterances sc
      in if ls = [] then 1 else real (length (present_lines ao tone ls ac)) / real (length ls))"


section \<open>The lines\<close>

lemma add_line_set: "set (add_line out1 w) = set out1 \<union> ({trim w} - {[]})"
proof -
  have "trim [] = []" by (simp add: trim_def)
  then show ?thesis by (auto simp: add_line_def Let_def)
qed

lemma add_line_distinct: "distinct out1 \<Longrightarrow> distinct (add_line out1 w)"
  by (simp add: add_line_def Let_def)

lemma add_lines:
  "set (foldl add_line out1 ws) = set out1 \<union> (trim ` set ws - {[]})" "distinct out1 \<Longrightarrow> distinct (foldl add_line out1 ws)"
  by (induction ws arbitrary: out1) (auto simp: add_line_set add_line_distinct)

section \<open>Words\<close>

definition plain_char :: "char \<Rightarrow> char" where
  "plain_char c = (if is_plain (lower_char c) then lower_char c else CHR '' '')"

lemma white_stays: "is_white c \<Longrightarrow> is_white (plain_char c)"
proof -
  assume w: "is_white c"
  then have "lower_char c = c" by (auto simp: is_white_def white_chars_def lower_char_def Let_def)
  then show ?thesis using w by (simp add: plain_char_def is_plain_def)
qed

lemma dropWhile_map_white: "dropWhile is_white (map plain_char (dropWhile is_white s)) = dropWhile is_white (map plain_char s)"
  by (induction s) (auto simp: white_stays)

text \<open>Both ends are trimmed in any order.\<close>

definition strip_end :: "string \<Rightarrow> string" where
  "strip_end s = rev (dropWhile is_white (rev s))"

lemma strip_end_simps [simp]:
  "strip_end [] = []" "strip_end (c # s) = (if strip_end s = [] \<and> is_white c then [] else c # strip_end s)"
  by (auto simp: strip_end_def dropWhile_append dropWhile_eq_Nil_conv)

lemma strip_end_start: "strip_end (dropWhile is_white s) = dropWhile is_white (strip_end s)"
  by (induction s) auto

lemma trim_strip: "trim s = strip_end (dropWhile is_white s)"
  by (simp add: trim_def strip_end_def)

lemma strip_end_map: "strip_end (map plain_char (strip_end s)) = strip_end (map plain_char s)"
  unfolding strip_end_def rev_map rev_rev_ident dropWhile_map_white by (rule refl)

lemma trim_plain: "trim (map plain_char (trim s)) = trim (map plain_char s)"
proof -
  have swap: "trim t = dropWhile is_white (strip_end t)" for t by (simp only: trim_strip strip_end_start)
  have "trim (map plain_char (trim s)) = dropWhile is_white (strip_end (map plain_char (dropWhile is_white s)))"
    unfolding trim_strip [of s] swap [of "map plain_char (strip_end (dropWhile is_white s))"] strip_end_map by (rule refl)
  also have "\<dots> = strip_end (dropWhile is_white (map plain_char s))"
    unfolding strip_end_start [symmetric] dropWhile_map_white by (rule refl)
  finally show ?thesis by (simp only: trim_strip)
qed

lemma normalize_trim: "normalizeWords (trim s) = normalizeWords s"
proof -
  have "(\<lambda>c. if is_plain (lower_char c) then lower_char c else CHR '' '') = plain_char" by (simp add: plain_char_def fun_eq_iff)
  then have "normalizeWords t = squeeze_white (trim (map plain_char t))" for t
    by (simp add: normalizeWords_def to_lower_def comp_def)
  then show ?thesis by (simp add: trim_plain)
qed

lemma same_line_matches: "trim a = trim b \<Longrightarrow> wordsMatch a h = wordsMatch b h"
  by (metis normalize_trim wordsMatch_def)

section \<open>Silence\<close>

lemma find_upt_least:
  assumes "List.find P [a..<n] = Some i"
  shows "a \<le> i \<and> i < n \<and> P i \<and> (\<forall>j. a \<le> j \<and> j < i \<longrightarrow> \<not> P j)"
proof -
  obtain k where k: "k < length [a..<n]" "P ([a..<n] ! k)" "i = [a..<n] ! k" "\<forall>j<k. \<not> P ([a..<n] ! j)"
    using assms unfolding find_Some_iff by blast
  then have i: "i = a + k" "i < n" by auto
  have "\<not> P j" if "a \<le> j" "j < i" for j
  proof -
    have "j - a < k" "[a..<n] ! (j - a) = j" using that i by auto
    then show ?thesis using k(4) by metis
  qed
  then show ?thesis using k i by auto
qed

lemma find_rev_upt_greatest:
  assumes "List.find P (rev [a..<n]) = Some i"
  shows "a \<le> i \<and> i < n \<and> P i \<and> (\<forall>j. i < j \<and> j < n \<longrightarrow> \<not> P j)"
proof -
  obtain k where k: "k < length (rev [a..<n])" "P (rev [a..<n] ! k)" "i = rev [a..<n] ! k" "\<forall>j<k. \<not> P (rev [a..<n] ! j)"
    using assms unfolding find_Some_iff by blast
  have nth: "rev [a..<n] ! j = n - 1 - j" if "j < n - a" for j using that by (simp add: rev_nth)
  have i: "i = n - 1 - k" "k < n - a" using k(1,3) nth [of k] by auto
  have "\<not> P j" if "i < j" "j < n" for j
  proof -
    have "n - 1 - j < k" "n - 1 - j < n - a" "n - 1 - (n - 1 - j) = j" using that i by auto
    then show ?thesis using k(4) nth [of "n - 1 - j"] by metis
  qed
  then show ?thesis using k(2,3) i nth [of k] by auto
qed

text \<open>What is cut is silence, and the rest stays as it was.\<close>

lemma trimSilence_cut:
  assumes "0 \<le> rate"
  shows "\<exists>i j. trimSilence pcm rate = take (length pcm - i - j) (drop i pcm) \<and> i + j \<le> length pcm \<and> even i \<and>
    (\<forall>k < length pcm div 2. is_voiced pcm k \<longrightarrow> i \<le> 2 * k \<and> 2 * k + 2 \<le> length pcm - j)"
proof (cases "List.find (is_voiced pcm) [0..<length pcm div 2]")
  case None
  then have "trimSilence pcm rate = take (length pcm - 0 - 0) (drop 0 pcm)" by (simp add: trimSilence_def Let_def)
  moreover have "\<forall>k < length pcm div 2. is_voiced pcm k \<longrightarrow> 2 * k + 2 \<le> length pcm"
    by (intro allI impI) linarith
  ultimately show ?thesis by (intro exI [of _ 0]) simp
next
  case (Some first)
  let ?n = "length pcm div 2"
  let ?lead = "\<lceil>real_of_int rate * (20 / 1000)\<rceil>" and ?trail = "\<lceil>real_of_int rate * (80 / 1000)\<rceil>"
  note f = find_upt_least [OF Some]
  define final where "final = (case List.find (is_voiced pcm) (rev [first..<?n]) of None \<Rightarrow> first | Some i \<Rightarrow> i)"
  have g: "first \<le> final \<and> final < ?n \<and> (\<forall>j. final < j \<and> j < ?n \<longrightarrow> \<not> is_voiced pcm j)"
  proof (cases "List.find (is_voiced pcm) (rev [first..<?n])")
    case None
    then have "\<forall>x\<in>set (rev [first..<?n]). \<not> is_voiced pcm x" unfolding find_None_iff' .
    then show ?thesis using f by auto
  next
    case (Some i)
    then show ?thesis using find_rev_upt_greatest [OF Some] by (simp add: final_def)
  qed
  define a where "a = nat (max 0 (int first - ?lead))"
  define b where "b = nat (min (int ?n) (int final + 1 + ?trail))"
  have pos: "0 \<le> ?lead" "0 \<le> ?trail" using assms by simp_all
  then have ab: "a \<le> first" "final + 1 \<le> b" "b \<le> ?n" using g unfolding a_def b_def by linarith+
  have "trimSilence pcm rate = take (2 * b - 2 * a) (drop (2 * a) pcm)"
    by (simp add: trimSilence_def Let_def Some a_def b_def final_def)
  then have "trimSilence pcm rate = take (length pcm - 2 * a - (length pcm - 2 * b)) (drop (2 * a) pcm)"
    using ab by simp
  moreover have "2 * a + (length pcm - 2 * b) \<le> length pcm" using ab g by linarith
  moreover have "2 * a \<le> 2 * k \<and> 2 * k + 2 \<le> length pcm - (length pcm - 2 * b)" if "k < ?n" "is_voiced pcm k" for k
  proof -
    have "first \<le> k" using f that by (metis linorder_not_less zero_le)
    moreover have "k \<le> final" using g that by (metis linorder_not_less)
    ultimately show ?thesis using ab by linarith
  qed
  ultimately show ?thesis by (intro exI [of _ "2 * a"] exI [of _ "length pcm - 2 * b"]) simp
qed

end
