(* ===== verification/UtteranceCache.thy ===== *)
theory UtteranceCache
  imports UtteranceAudio
begin

text \<open>
  The laws of the rendered audio: with a transcriber, whatever the cache gives out was heard to say the words
  it is asked for, whatever happens to the files of samples; a line is rendered once at a time; and the
  workers of the prewarm try every line once and end.
\<close>

section \<open>Keys\<close>

lemma tone_name_sep: "tone_name t @ CHR '':'' # x = tone_name u @ CHR '':'' # y \<Longrightarrow> t = u \<and> x = y"
  by (cases t; cases u) simp_all

lemma keyFor_inj:
  assumes "inj (dg_text (ao_digests ao))" and "keyFor ao a t = keyFor ao b u"
  shows "trim a = trim b \<and> the_tone t = the_tone u"
proof -
  have "tone_name (the_tone t) @ CHR '':'' # CHR '':'' # hashText (ao_digests ao) a =
      tone_name (the_tone u) @ CHR '':'' # CHR '':'' # hashText (ao_digests ao) b"
    using assms(2) by (simp add: keyFor_def)
  from tone_name_sep [OF this] show ?thesis using assms(1) by (simp add: hashText_def inj_eq)
qed

lemma keyFor_trim: "trim a = trim b \<Longrightarrow> the_tone t = the_tone u \<Longrightarrow> keyFor ao a t = keyFor ao b u"
  by (simp add: keyFor_def hashText_def)

section \<open>What happens to a cache\<close>

text \<open>
  The operations in any order, what other processes with the same directory write, a restart, and whatever
  happens to the files of samples and to the existence of the others.
\<close>

inductive audio_step :: "audio_config \<Rightarrow> audio_cache \<Rightarrow> audio_cache \<Rightarrow> bool" for ao where
  get: "audio_step ao ac (snd (cache_get ao words tone ac))"
| begin1: "audio_step ao ac (snd (ensure_begin ao words tone ac))"
| end1: "audio_step ao ac (snd (ensure_end ao words tone speech heard d ac))"
| peer: "audio_step ao ac (let c = snd (ensure_end ao words tone speech heard d ac)
    in ac\<lparr>ac_pcm := ac_pcm c, ac_metadata := ac_metadata c, ac_passed := ac_passed c\<rparr>)"
| samples_damaged: "audio_step ao ac (ac\<lparr>ac_pcm := files\<rparr>)"
| metadata_lost: "audio_step ao ac (ac\<lparr>ac_metadata := (ac_metadata ac)(path := None)\<rparr>)"
| restart: "audio_step ao ac (ac\<lparr>ac_entries := Map.empty, ac_inFlight := []\<rparr>)"

definition passed_as :: "audio_config \<Rightarrow> audio_cache \<Rightarrow> string \<Rightarrow> 8 word list \<Rightarrow> bool" where
  "passed_as ao ac key pcm \<longleftrightarrow> (\<exists>w t h. (w, t, pcm, h) \<in> set (ac_passed ac) \<and> key = keyFor ao w (Some t))"

definition audio_ok :: "audio_config \<Rightarrow> audio_cache \<Rightarrow> bool" where
  "audio_ok ao ac \<longleftrightarrow>
     (\<forall>(w, t, pcm, h)\<in>set (ac_passed ac). wordsMatch w h) \<and>
     (\<forall>key e. ac_entries ac key = Some e \<longrightarrow> passed_as ao ac key (rs_pcm e)) \<and>
     (\<forall>path md. ac_metadata ac path = Some md \<longrightarrow>
        (\<exists>key pcm. field md ''key'' = Some (JStr key) \<and> field md ''pcmSha256'' = Some (JStr (dg_bytes (ao_digests ao) pcm)) \<and>
           passed_as ao ac key pcm))"

text \<open>The files of samples do not matter to it.\<close>

lemma audio_ok_samples: "audio_ok ao (ac\<lparr>ac_pcm := files\<rparr>) = audio_ok ao ac"
  by (simp add: audio_ok_def passed_as_def)

lemma audio_ok_new: "audio_ok ao new_cache"
  by (simp add: audio_ok_def new_cache_def)

lemma readDisk_passed:
  assumes "audio_ok ao ac" and "inj (dg_bytes (ao_digests ao))" and r: "readDisk ao key words tone ac = Some e"
  shows "passed_as ao ac key (rs_pcm e)"
proof -
  obtain path md where md: "ac_metadata ac path = Some md" "field md ''key'' = Some (JStr key)"
      "field md ''pcmSha256'' = Some (JStr (dg_bytes (ao_digests ao) (rs_pcm e)))"
    using r by (auto simp: readDisk_def split: option.splits if_splits)
  then obtain key' pcm where "field md ''key'' = Some (JStr key')" "field md ''pcmSha256'' = Some (JStr (dg_bytes (ao_digests ao) pcm))"
      "passed_as ao ac key' pcm" using assms(1) unfolding audio_ok_def by blast
  then show ?thesis using md assms(2) by (simp add: inj_eq)
qed

lemma cache_get_passed:
  assumes "audio_ok ao ac" and "inj (dg_bytes (ao_digests ao))" and "cache_get ao words tone ac = (Some e, ac')"
  shows "passed_as ao ac (keyFor ao words tone) (rs_pcm e)"
proof (cases "ac_entries ac (keyFor ao words tone)")
  case (Some x)
  then show ?thesis using assms(1,3) by (simp add: cache_get_def Let_def audio_ok_def)
next
  case None
  then have "readDisk ao (keyFor ao words tone) words tone ac = Some e"
    using assms(3) by (auto simp: cache_get_def Let_def split: option.splits)
  then show ?thesis by (rule readDisk_passed [OF assms(1,2)])
qed

text \<open>What the operations leave alone.\<close>

lemma cache_get_effect:
  "snd (cache_get ao words tone ac) = ac \<or>
   (\<exists>e. fst (cache_get ao words tone ac) = Some e \<and> readDisk ao (keyFor ao words tone) words tone ac = Some e \<and>
      snd (cache_get ao words tone ac) = ac\<lparr>ac_entries := (ac_entries ac)(keyFor ao words tone \<mapsto> e)\<rparr>)"
  by (auto simp: cache_get_def Let_def split: option.split)

lemma audio_ok_entry:
  "audio_ok ao ac \<Longrightarrow> passed_as ao ac key (rs_pcm e) \<Longrightarrow> audio_ok ao (ac\<lparr>ac_entries := (ac_entries ac)(key \<mapsto> e)\<rparr>)"
  by (auto simp: audio_ok_def passed_as_def)

lemma audio_ok_get: "audio_ok ao ac \<Longrightarrow> inj (dg_bytes (ao_digests ao)) \<Longrightarrow> audio_ok ao (snd (cache_get ao words tone ac))"
  using cache_get_effect [of ao words tone ac] audio_ok_entry readDisk_passed by metis

lemma audio_ok_frame:
  "audio_ok ao (ac\<lparr>ac_inFlight := x\<rparr>) = audio_ok ao ac" "audio_ok ao (ac\<lparr>ac_renders := y\<rparr>) = audio_ok ao ac"
  "audio_ok ao (ac\<lparr>ac_rejected := z\<rparr>) = audio_ok ao ac"
  by (simp_all add: audio_ok_def passed_as_def)

lemma audio_ok_begin:
  assumes "audio_ok ao ac" and "inj (dg_bytes (ao_digests ao))"
  shows "audio_ok ao (snd (ensure_begin ao words tone ac))"
proof -
  obtain found c where g: "cache_get ao words tone ac = (found, c)" by fastforce
  have "audio_ok ao c" using audio_ok_get [OF assms, of words tone] g by simp
  then have "audio_ok ao (c\<lparr>ac_inFlight := x, ac_renders := y\<rparr>)" for x y by (simp add: audio_ok_frame)
  then show ?thesis using \<open>audio_ok ao c\<close> by (auto simp: ensure_begin_def g Let_def split: option.split)
qed

lemma audio_ok_passed:
  assumes "audio_ok ao ac" and "wordsMatch w h"
  shows "audio_ok ao (ac\<lparr>ac_passed := ac_passed ac @ [(w, t, pcm, h)]\<rparr>)"
proof -
  have "passed_as ao ac key p \<Longrightarrow> passed_as ao (ac\<lparr>ac_passed := ac_passed ac @ [(w, t, pcm, h)]\<rparr>) key p" for key p
    by (auto simp: passed_as_def)
  then show ?thesis using assms unfolding audio_ok_def by (simp, blast)
qed

lemma metadata_fields:
  "field (metadata_of ao key e tone) ''key'' = Some (JStr key)"
  "field (metadata_of ao key e tone) ''pcmSha256'' = Some (JStr (dg_bytes (ao_digests ao) (rs_pcm e)))"
  by (simp_all add: field_def metadata_of_def)

lemma audio_ok_persist:
  assumes ok: "audio_ok ao ac" and passed: "passed_as ao ac key (rs_pcm e)"
  shows "audio_ok ao (persist ao key e tone d ac)"
proof -
  have "audio_ok ao (ac\<lparr>ac_metadata := (ac_metadata ac)(path \<mapsto> metadata_of ao key e tone)\<rparr>)" for path
  proof -
    have "passed_as ao (ac\<lparr>ac_metadata := (ac_metadata ac)(path \<mapsto> metadata_of ao key e tone)\<rparr>) k p = passed_as ao ac k p" for k p
      by (simp add: passed_as_def)
    then show ?thesis using ok passed metadata_fields [of ao key e tone] unfolding audio_ok_def by simp blast
  qed
  moreover have "ac\<lparr>ac_pcm := f, ac_metadata := g\<rparr> = ac\<lparr>ac_metadata := g\<rparr>\<lparr>ac_pcm := f\<rparr>" for f g by simp
  ultimately have "audio_ok ao (ac\<lparr>ac_pcm := f, ac_metadata := (ac_metadata ac)(path \<mapsto> metadata_of ao key e tone)\<rparr>)" for path f
    by (metis audio_ok_samples)
  then show ?thesis using ok by (simp add: persist_def Let_def audio_ok_samples split: option.split)
qed

lemma audio_ok_end:
  assumes ok: "audio_ok ao ac" and v: "ao_verifies ao"
  shows "audio_ok ao (snd (ensure_end ao words tone speech heard d ac))"
proof (cases speech)
  case (Inr s)
  let ?key = "keyFor ao words tone"
  define e where "e = \<lparr>rs_pcm = trimSilence (rs_pcm s) (rs_sampleRate s), rs_sampleRate = rs_sampleRate s, rs_voiceId = rs_voiceId s,
      rs_model = rs_model s, cr_textHash = hashText (ao_digests ao) words\<rparr>"
  show ?thesis
  proof (cases heard)
    case (Inl err)
    then show ?thesis using ok v Inr by (simp add: ensure_end_def Let_def audio_ok_frame)
  next
    case h: (Inr h)
    show ?thesis
    proof (cases "wordsMatch words h")
      case False
      then have "audio_ok ao (ac\<lparr>ac_rejected := r, ac_inFlight := x\<rparr>)" for r x
        using ok by (simp add: audio_ok_frame)
      then show ?thesis using v Inr h False by (simp add: ensure_end_def Let_def)
    next
      case True
      let ?c = "ac\<lparr>ac_passed := ac_passed ac @ [(words, the_tone tone, rs_pcm e, h)]\<rparr>"
      have c: "audio_ok ao ?c" by (rule audio_ok_passed [OF ok True])
      have k: "?key = keyFor ao words (Some (the_tone tone))" by (simp add: keyFor_def the_tone_def)
      have p: "passed_as ao ?c ?key (rs_pcm e)" unfolding passed_as_def using k by auto
      let ?d = "?c\<lparr>ac_entries := (ac_entries ?c)(?key \<mapsto> e)\<rparr>"
      have "audio_ok ao ?d" by (rule audio_ok_entry [OF c p])
      moreover have "passed_as ao ?d ?key (rs_pcm e)" using p by (simp add: passed_as_def)
      ultimately have "audio_ok ao (persist ao ?key e tone d ?d)" by (rule audio_ok_persist)
      moreover have "snd (ensure_end ao words tone speech heard d ac) =
          (persist ao ?key e tone d ?d)\<lparr>ac_inFlight := removeAll ?key (ac_inFlight (persist ao ?key e tone d ?d))\<rparr>"
        using v Inr h True by (simp add: ensure_end_def Let_def e_def)
      ultimately show ?thesis by (simp add: audio_ok_frame)
    qed
  qed
qed (use ok in \<open>simp add: ensure_end_def Let_def audio_ok_frame\<close>)

lemma audio_ok_peer:
  assumes "audio_ok ao ac" and "audio_ok ao c" and "set (ac_passed ac) \<subseteq> set (ac_passed c)"
  shows "audio_ok ao (ac\<lparr>ac_pcm := ac_pcm c, ac_metadata := ac_metadata c, ac_passed := ac_passed c\<rparr>)"
proof -
  have p: "passed_as ao (ac\<lparr>ac_pcm := ac_pcm c, ac_metadata := ac_metadata c, ac_passed := ac_passed c\<rparr>) k p = passed_as ao c k p" for k p
    by (simp add: passed_as_def)
  have "passed_as ao ac k p \<Longrightarrow> passed_as ao c k p" for k p using assms(3) unfolding passed_as_def by blast
  then show ?thesis using assms(1,2) unfolding audio_ok_def p by simp
qed

lemma persist_sel [simp]:
  "ac_passed (persist ao key e tone d ac) = ac_passed ac" "ac_entries (persist ao key e tone d ac) = ac_entries ac"
  "ac_inFlight (persist ao key e tone d ac) = ac_inFlight ac" "ac_renders (persist ao key e tone d ac) = ac_renders ac"
  by (simp_all add: persist_def Let_def split: option.split)

lemma ensure_end_grows: "set (ac_passed ac) \<subseteq> set (ac_passed (snd (ensure_end ao words tone speech heard d ac)))"
  by (auto simp: ensure_end_def Let_def split: sum.split)

interpretation audio_kept: kept_by_steps "audio_step ao" "\<lambda>ac. ao_verifies ao \<and> inj (dg_bytes (ao_digests ao)) \<and> audio_ok ao ac" for ao
proof unfold_locales
  fix ac c
  assume a: "ao_verifies ao \<and> inj (dg_bytes (ao_digests ao)) \<and> audio_ok ao ac" and s: "audio_step ao ac c"
  from s have "audio_ok ao c"
  proof cases
    case (peer words tone speech heard d)
    then show ?thesis using a audio_ok_peer [OF _ audio_ok_end ensure_end_grows] by (simp add: Let_def)
  next
    case (metadata_lost path)
    then show ?thesis using a by (simp add: audio_ok_def passed_as_def)
  next
    case restart
    then show ?thesis using a by (simp add: audio_ok_def passed_as_def)
  qed (use a audio_ok_get audio_ok_begin audio_ok_end audio_ok_samples in \<open>simp_all\<close>)
  then show "ao_verifies ao \<and> inj (dg_bytes (ao_digests ao)) \<and> audio_ok ao c" using a by blast
qed

lemma served_audio_was_heard:
  assumes "(audio_step ao)\<^sup>*\<^sup>* new_cache ac" and "ao_verifies ao" and "inj (dg_text (ao_digests ao))" and "inj (dg_bytes (ao_digests ao))"
    and "cache_get ao words tone ac = (Some e, ac')"
  shows "\<exists>h. (\<exists>w. trim w = trim words \<and> (w, the_tone tone, rs_pcm e, h) \<in> set (ac_passed ac)) \<and> wordsMatch words h"
proof -
  have ok: "audio_ok ao ac" using audio_kept.kept_by_closure [OF assms(1)] assms(2,4) audio_ok_new by blast
  obtain w t h where p: "(w, t, rs_pcm e, h) \<in> set (ac_passed ac)" "keyFor ao words tone = keyFor ao w (Some t)"
    using cache_get_passed [OF ok assms(4,5)] unfolding passed_as_def by blast
  have "trim words = trim w \<and> the_tone tone = t" using keyFor_inj [OF assms(3) p(2)] by (simp add: the_tone_def)
  moreover have "wordsMatch w h" using ok p(1) unfolding audio_ok_def by fastforce
  ultimately show ?thesis using p(1) same_line_matches [of words w h] by auto
qed


section \<open>The workers of the prewarm\<close>

text \<open>
  \<open>prewarm\<close> over \<open>n\<close> lines: a worker that is free takes the next line, which is there already or is rendered.
  \<open>pw_busy\<close> holds the lines that are being rendered, one for each busy worker.
\<close>

record prewarm =
  pw_cursor :: nat
  pw_busy :: "nat list"
  pw_rendered :: nat
  pw_failed :: nat
  pw_cached :: nat

definition new_prewarm :: prewarm where
  "new_prewarm = \<lparr>pw_cursor = 0, pw_busy = [], pw_rendered = 0, pw_failed = 0, pw_cached = 0\<rparr>"

definition take_line :: "bool \<Rightarrow> prewarm \<Rightarrow> prewarm" where
  "take_line present p = (if present then p\<lparr>pw_cursor := pw_cursor p + 1, pw_cached := pw_cached p + 1\<rparr>
     else p\<lparr>pw_cursor := pw_cursor p + 1, pw_busy := pw_busy p @ [pw_cursor p]\<rparr>)"

definition settle_line :: "nat \<Rightarrow> bool \<Rightarrow> prewarm \<Rightarrow> prewarm" where
  "settle_line i ok p = (let q = p\<lparr>pw_busy := remove1 i (pw_busy p)\<rparr>
     in if ok then q\<lparr>pw_rendered := pw_rendered q + 1\<rparr> else q\<lparr>pw_failed := pw_failed q + 1\<rparr>)"

definition prewarm_workers :: "audio_config \<Rightarrow> nat \<Rightarrow> nat" where
  "prewarm_workers ao n = min (max 1 (ao_concurrency ao)) n"

inductive prewarm_step :: "nat \<Rightarrow> nat \<Rightarrow> prewarm \<Rightarrow> prewarm \<Rightarrow> bool" for n k where
  take: "pw_cursor p < n \<Longrightarrow> length (pw_busy p) < k \<Longrightarrow> prewarm_step n k p (take_line present p)"
| settle: "i \<in> set (pw_busy p) \<Longrightarrow> prewarm_step n k p (settle_line i ok p)"

definition prewarm_ok :: "nat \<Rightarrow> nat \<Rightarrow> prewarm \<Rightarrow> bool" where
  "prewarm_ok n k p \<longleftrightarrow> pw_cursor p \<le> n \<and> length (pw_busy p) \<le> k \<and> distinct (pw_busy p) \<and> (\<forall>i\<in>set (pw_busy p). i < pw_cursor p) \<and>
     pw_cached p + pw_rendered p + pw_failed p + length (pw_busy p) = pw_cursor p"

interpretation prewarm_kept: kept_by_steps "prewarm_step n k" "prewarm_ok n k" for n k
proof unfold_locales
  fix p q
  assume "prewarm_ok n k p" and "prewarm_step n k p q"
  from this(2,1) show "prewarm_ok n k q"
  proof cases
    case (take present)
    assume "prewarm_ok n k p"
    then show ?thesis using take by (cases present) (auto simp: prewarm_ok_def take_line_def)
  next
    case (settle i ok)
    assume p: "prewarm_ok n k p"
    have len: "length (pw_busy p) = Suc (length (remove1 i (pw_busy p)))"
      using settle(2) length_pos_if_in_set [OF settle(2)] by (simp add: length_remove1)
    have "set (remove1 i (pw_busy p)) \<subseteq> set (pw_busy p)" by (rule set_remove1_subset)
    then show ?thesis using settle(1) p len by (cases ok) (auto simp: prewarm_ok_def settle_line_def Let_def)
  qed
qed

text \<open>Each step comes closer to the end, and while it is not reached there is a step.\<close>

definition prewarm_left :: "nat \<Rightarrow> prewarm \<Rightarrow> nat" where
  "prewarm_left n p = 2 * (n - pw_cursor p) + length (pw_busy p)"

lemma prewarm_step_closer: "prewarm_step n k p q \<Longrightarrow> prewarm_left n q < prewarm_left n p"
proof (induction rule: prewarm_step.induct)
  case (take p present)
  then show ?case by (cases present) (simp_all add: prewarm_left_def take_line_def)
next
  case (settle i p ok)
  then have "0 < length (pw_busy p)" by (cases "pw_busy p") simp_all
  then show ?case using settle by (cases ok) (simp_all add: prewarm_left_def settle_line_def Let_def length_remove1)
qed

lemma prewarm_terminates: "wfp (\<lambda>q p. prewarm_step n k p q)"
  by (rule wfp_if_convertible_to_nat [of _ "prewarm_left n"]) (rule prewarm_step_closer)

lemma prewarm_stuck:
  assumes "\<nexists>q. prewarm_step n k p q" and "0 < k" and "prewarm_ok n k p"
  shows "pw_busy p = [] \<and> pw_cursor p = n \<and> pw_cached p + pw_rendered p + pw_failed p = n"
proof -
  have "pw_busy p = []" using assms(1) prewarm_step.settle [of _ p n k True] by (metis list.set_intros(1) neq_Nil_conv)
  moreover have "\<not> pw_cursor p < n" using assms(1,2) calculation prewarm_step.take [of p n k True] by auto
  ultimately show ?thesis using assms(3) by (auto simp: prewarm_ok_def)
qed

lemma prewarm_ok_new: "prewarm_ok n k new_prewarm"
  by (simp add: prewarm_ok_def new_prewarm_def)

section \<open>One render at a time\<close>

text \<open>The renders of a key that were started and did not settle: none, or the one in flight.\<close>

lemma ensure_begin_single:
  assumes "fst (ensure_begin ao words tone ac) = Started"
  shows "keyFor ao words tone \<notin> set (ac_inFlight ac)" and "keyFor ao words tone \<in> set (ac_inFlight (snd (ensure_begin ao words tone ac)))"
    and "ac_entries ac (keyFor ao words tone) = None"
  using assms cache_get_effect [of ao words tone ac]
  by (auto simp: ensure_begin_def cache_get_def Let_def split: option.splits if_splits)

lemma ensure_begin_repeats:
  assumes "fst (ensure_begin ao words tone ac) = Started" and "trim w = trim words" and "the_tone t = the_tone tone"
  shows "fst (ensure_begin ao w t (snd (ensure_begin ao words tone ac))) = Joined"
proof -
  have k: "keyFor ao w t = keyFor ao words tone" using assms(2,3) by (rule keyFor_trim)
  have g: "cache_get ao words tone ac = (None, ac)"
    using assms(1) by (auto simp: ensure_begin_def cache_get_def Let_def split: option.splits if_splits)
  have "hashText (ao_digests ao) w = hashText (ao_digests ao) words" using assms(2) by (simp add: hashText_def)
  then have "readDisk ao key w t c = readDisk ao key words tone c" for key c by (simp only: readDisk_def assms(3))
  then have "cache_get ao w t c = cache_get ao words tone c" for c by (simp only: cache_get_def k)
  moreover have "cache_get ao words tone (ac\<lparr>ac_inFlight := x, ac_renders := y\<rparr>) = (None, ac\<lparr>ac_inFlight := x, ac_renders := y\<rparr>)" for x y
    using g by (auto simp: cache_get_def readDisk_def Let_def split: option.splits if_splits)
  moreover have "keyFor ao words tone \<notin> set (ac_inFlight ac)" by (rule ensure_begin_single [OF assms(1)])
  ultimately show ?thesis by (simp add: ensure_begin_def g k Let_def)
qed

end
