(* ===== verification/Triggers.thy ===== *)
theory Triggers
  imports Contracts JsRegex
begin

text \<open>
  \<open>scenario/triggers.ts\<close>: the conjunctions of predicates by which scenario authors say when a probe
  or a follow-up is justified.
\<close>

section \<open>Values of the trigger language\<close>

datatype js_number = Num real | PosInf | NegInf | NaN

datatype trigger_value = VNull | VStr string | VNum js_number

definition pow10 :: "int \<Rightarrow> real" where
  "pow10 k = (if 0 \<le> k then 10 ^ nat k else 1 / 10 ^ nat (- k))"

definition hex_digit :: "char \<Rightarrow> nat option" where
  "hex_digit c = (let n = of_char c :: nat in
     if 48 \<le> n \<and> n \<le> 57 then Some (n - 48)
     else if 97 \<le> n \<and> n \<le> 102 then Some (n - 87)
     else if 65 \<le> n \<and> n \<le> 70 then Some (n - 55) else None)"

fun radix_digits :: "nat \<Rightarrow> nat \<Rightarrow> string \<Rightarrow> nat option" where
  "radix_digits b acc [] = Some acc"
| "radix_digits b acc (c # cs) =
     (case hex_digit c of Some d \<Rightarrow> if d < b then radix_digits b (acc * b + d) cs else None | None \<Rightarrow> None)"

definition radix_number :: "nat \<Rightarrow> string \<Rightarrow> js_number" where
  "radix_number b cs = (if cs = [] then NaN
     else (case radix_digits b 0 cs of Some n \<Rightarrow> Num (real n) | None \<Rightarrow> NaN))"

definition decimal_literal :: re where
  "decimal_literal = rx ''^([+-]?)(%d*)(?:%.(%d*))?(?:[eE]([+-]?)(%d+))?$''"

definition opt_text :: "string option \<Rightarrow> string" where
  "opt_text s = (case s of Some t \<Rightarrow> t | None \<Rightarrow> [])"

text \<open>\<open>Number(s)\<close> on a string.\<close>

definition js_Number :: "string \<Rightarrow> js_number" where
  "js_Number s =
     (let t = trim s; two = take 2 t in
      if t = [] then Num 0
      else if t = ''Infinity'' \<or> t = ''+Infinity'' then PosInf
      else if t = ''-Infinity'' then NegInf
      else if two = ''0x'' \<or> two = ''0X'' then radix_number 16 (drop 2 t)
      else if two = ''0b'' \<or> two = ''0B'' then radix_number 2 (drop 2 t)
      else if two = ''0o'' \<or> two = ''0O'' then radix_number 8 (drop 2 t)
      else (case exec_groups False decimal_literal t of
              None \<Rightarrow> NaN
            | Some g \<Rightarrow>
                (let whole = opt_text (g 2); frac = opt_text (g 3);
                     ex = int (read_nat (opt_text (g 5)));
                     mag = (real (read_nat (whole @ frac)) / 10 ^ length frac)
                           * pow10 (if g 4 = Some ''-'' then - ex else ex)
                 in if whole = [] \<and> frac = [] then NaN
                    else Num (if g 1 = Some ''-'' then - mag else mag))))"

definition strict_eq :: "trigger_value \<Rightarrow> trigger_value \<Rightarrow> bool" where
  "strict_eq a b \<longleftrightarrow> a \<noteq> VNum NaN \<and> a = b"

fun js_ge :: "js_number \<Rightarrow> js_number \<Rightarrow> bool" where
  "js_ge NaN b = False"
| "js_ge a NaN = False"
| "js_ge PosInf b = True"
| "js_ge NegInf b = (b = NegInf)"
| "js_ge (Num x) PosInf = False"
| "js_ge (Num x) NegInf = True"
| "js_ge (Num x) (Num y) = (x \<ge> y)"

section \<open>Contexts\<close>

record trigger_context =
  tr_scenario :: scenario_version
  tr_candidate :: candidate_state
  tr_state :: interview_state
  remainingMinutes :: real
  followUpsUsed :: "string list"
  solvedOptimally :: bool

section \<open>Evaluation\<close>

definition CALL :: re where
  "CALL = rx ''^(%w+)%(([%w-]+)%)$''"

definition COMPARISON :: re where
  "COMPARISON = rx ''^([%w.]+)%s*(==|!=|>=|<=)%s*([%w.-]+)$''"

definition PRESENT :: re where
  "PRESENT = rx ''^([%w]+)%.present$''"

definition INCLUDES :: re where
  "INCLUDES = rx ''^([%w]+)%.includes%(([%w-]+)%)$''"

definition opt_value :: "string option \<Rightarrow> trigger_value" where
  "opt_value s = (case s of None \<Rightarrow> VNull | Some t \<Rightarrow> VStr t)"

definition detected_family :: "trigger_context \<Rightarrow> solution_family option" where
  "detected_family ctx =
     List.find (\<lambda>f. Some (family_id f) = detectedSolutionFamilyId (tr_candidate ctx))
       (solutionFamilies (tr_scenario ctx))"

definition resolve :: "string \<Rightarrow> 'a trigger_context_scheme \<Rightarrow> trigger_value" where
  "resolve token ctx =
     (let cs = tr_candidate ctx in
      if token = ''state'' then VStr (state_name (tr_state ctx))
      else if token = ''remainingMinutes'' then VNum (Num (remainingMinutes ctx))
      else if token = ''claimedTime'' then opt_value (claimedTime cs)
      else if token = ''claimedSpace'' then opt_value (claimedSpace cs)
      else if token = ''detectedFamily'' then opt_value (detectedSolutionFamilyId cs)
      else if token = ''stuckScore'' then VNum (Num (stuckScore cs))
      else if token = ''implementationProgress'' then VNum (Num (implementationProgress cs))
      else if token = ''detectedFamily.timeComplexity''
        then opt_value (map_option timeComplexity (detected_family (trigger_context.truncate ctx)))
      else if token = ''detectedFamily.spaceComplexity''
        then opt_value (map_option spaceComplexity (detected_family (trigger_context.truncate ctx)))
      else (case js_Number token of NaN \<Rightarrow> VStr token | n \<Rightarrow> VNum n))"

definition numeric :: "trigger_value \<Rightarrow> js_number" where
  "numeric v = (case v of VNum n \<Rightarrow> n | VNull \<Rightarrow> NaN | VStr s \<Rightarrow> js_Number s)"

definition strip_complexity :: "string \<Rightarrow> string" where
  "strip_complexity s = filter (\<lambda>c. \<not> is_white c \<and> c \<noteq> CHR 0x5E) (to_lower s)"

definition normalizeComplexityValue :: "trigger_value \<Rightarrow> trigger_value" where
  "normalizeComplexityValue v = (case v of VStr s \<Rightarrow> VStr (strip_complexity s) | _ \<Rightarrow> v)"

definition compare_values :: "string \<Rightarrow> string \<Rightarrow> string \<Rightarrow> 'a trigger_context_scheme \<Rightarrow> bool" where
  "compare_values left op right ctx =
     (let l = resolve left ctx; r = resolve right ctx;
          norm = (left = ''claimedTime'' \<or> left = ''claimedSpace'' \<or> has_sub right ''Complexity'');
          c0 = (if norm then normalizeComplexityValue l else l);
          c1 = (if norm then normalizeComplexityValue r else r)
      in if op = ''=='' then strict_eq c0 c1
         else if op = ''!='' then (if l = VNull \<or> r = VNull then False else \<not> strict_eq c0 c1)
         else if op = ''>='' then js_ge (numeric l) (numeric r)
         else js_ge (numeric r) (numeric l))"

definition evaluateTerm :: "string \<Rightarrow> 'a trigger_context_scheme \<Rightarrow> bool result" where
  "evaluateTerm t ctx =
     (let cs = tr_candidate ctx in
      if t = ''solvedOptimally'' then Inr (solvedOptimally ctx)
      else (case exec_groups False CALL t of
        Some g \<Rightarrow>
          (let fn = opt_text (g 1); arg = opt_text (g 2) in
           if fn = ''milestone'' then Inr (arg \<in> set (map milestone_name (milestonesReached cs)))
           else if fn = ''usedFollowUp'' then Inr (arg \<in> set (followUpsUsed ctx))
           else if fn = ''usedProbe'' then Inr (arg \<in> set (probeHistory cs))
           else Inl (UnknownPredicate t))
      | None \<Rightarrow> (case exec_groups False INCLUDES t of
        Some g \<Rightarrow>
          (let fld = opt_text (g 1); arg = opt_text (g 2) in
           if fld = ''understoodConstraints'' then Inr (arg \<in> set (understoodConstraints cs))
           else if fld = ''alternativesMentioned'' then Inr (arg \<in> set (alternativesMentioned cs))
           else if fld = ''probeHistory'' then Inr (arg \<in> set (probeHistory cs))
           else Inl (UnknownPredicate t))
      | None \<Rightarrow> (case exec_groups False PRESENT t of
        Some g \<Rightarrow>
          (let fld = opt_text (g 1) in
           if fld = ''claimedTime'' then Inr (claimedTime cs \<noteq> None)
           else if fld = ''claimedSpace'' then Inr (claimedSpace cs \<noteq> None)
           else if fld = ''currentApproach'' then Inr (currentApproach cs \<noteq> None)
           else if fld = ''detectedFamily'' then Inr (detectedSolutionFamilyId cs \<noteq> None)
           else Inl (UnknownPredicate t))
      | None \<Rightarrow> (case exec_groups False COMPARISON t of
        Some g \<Rightarrow> Inr (compare_values (opt_text (g 1)) (opt_text (g 2)) (opt_text (g 3)) ctx)
      | None \<Rightarrow> Inl (UnknownPredicate t))))))"

definition trigger_terms :: "string \<Rightarrow> string list" where
  "trigger_terms e = filter (\<lambda>t. t \<noteq> []) (map trim (split_two (CHR ''&'') (CHR ''&'') e))"

definition evaluateSignedTerm :: "string \<Rightarrow> 'a trigger_context_scheme \<Rightarrow> bool result" where
  "evaluateSignedTerm t ctx =
     (let negated = starts_with t ''!'';
          body = (if negated then trim (tl t) else t)
      in then_do (evaluateTerm body ctx) (\<lambda>v. Inr (if negated then \<not> v else v)))"

definition evaluateTrigger :: "string \<Rightarrow> 'a trigger_context_scheme \<Rightarrow> bool result" where
  "evaluateTrigger e ctx =
     (let terms = trigger_terms e in
      if terms = [] then Inr False else every_res (\<lambda>t. evaluateSignedTerm t ctx) terms)"

text \<open>\<open>validateScenarioTriggers\<close>: the ids of the probes and follow-ups whose trigger throws on a sample.\<close>

definition validateScenarioTriggers :: "scenario_version \<Rightarrow> 'a trigger_context_scheme \<Rightarrow> (string \<times> js_error) list" where
  "validateScenarioTriggers sc sample =
     concat (map (\<lambda>p. case evaluateTrigger (probe_trigger p) sample of Inl e \<Rightarrow> [(probe_id p, e)] | Inr _ \<Rightarrow> []) (probes sc))
     @ concat (map (\<lambda>f. case evaluateTrigger (followup_trigger f) sample of Inl e \<Rightarrow> [(followup_id f, e)] | Inr _ \<Rightarrow> []) (followUps sc))"

section \<open>Which triggers can throw\<close>

text \<open>
  A term is known when the grammar covers it. That is a fact about the text alone: whether a term
  throws does not depend on the session.
\<close>

definition term_known :: "string \<Rightarrow> bool" where
  "term_known t \<longleftrightarrow>
     t = ''solvedOptimally'' \<or>
     (case exec_groups False CALL t of
        Some g \<Rightarrow> opt_text (g 1) \<in> {''milestone'', ''usedFollowUp'', ''usedProbe''}
      | None \<Rightarrow> (case exec_groups False INCLUDES t of
        Some g \<Rightarrow> opt_text (g 1) \<in> {''understoodConstraints'', ''alternativesMentioned'', ''probeHistory''}
      | None \<Rightarrow> (case exec_groups False PRESENT t of
        Some g \<Rightarrow> opt_text (g 1) \<in> {''claimedTime'', ''claimedSpace'', ''currentApproach'', ''detectedFamily''}
      | None \<Rightarrow> exec_groups False COMPARISON t \<noteq> None)))"

definition signed_body :: "string \<Rightarrow> string" where
  "signed_body t = (if starts_with t ''!'' then trim (tl t) else t)"

definition trigger_known :: "string \<Rightarrow> bool" where
  "trigger_known e \<longleftrightarrow> (\<forall>t\<in>set (trigger_terms e). term_known (signed_body t))"

lemma evaluateTerm_known: "(\<exists>b. evaluateTerm t ctx = Inr b) \<longleftrightarrow> term_known t"
  unfolding evaluateTerm_def term_known_def Let_def by (simp split: option.splits)

lemma evaluateTerm_error: "evaluateTerm t ctx = Inl e \<Longrightarrow> e = UnknownPredicate t"
  unfolding evaluateTerm_def Let_def by (simp split: option.splits if_splits)

lemma evaluateSignedTerm_known: "(\<exists>b. evaluateSignedTerm t ctx = Inr b) \<longleftrightarrow> term_known (signed_body t)"
  by (cases "evaluateTerm (signed_body t) ctx")
     (use evaluateTerm_known [of "signed_body t" ctx] in \<open>auto simp: evaluateSignedTerm_def signed_body_def Let_def\<close>)

lemma trigger_known_total: "trigger_known e \<Longrightarrow> \<exists>b. evaluateTrigger e ctx = Inr b"
  unfolding evaluateTrigger_def Let_def trigger_known_def
  by (auto intro!: every_res_total simp: evaluateSignedTerm_known)

lemma evaluateTrigger_True:
  "evaluateTrigger e ctx = Inr True \<longleftrightarrow>
     trigger_terms e \<noteq> [] \<and> (\<forall>t\<in>set (trigger_terms e). evaluateSignedTerm t ctx = Inr True)"
  by (simp add: evaluateTrigger_def Let_def every_res_True)

lemma validate_Nil_iff:
  "validateScenarioTriggers sc sample = [] \<longleftrightarrow>
     (\<forall>p\<in>set (probes sc). \<exists>b. evaluateTrigger (probe_trigger p) sample = Inr b) \<and>
     (\<forall>f\<in>set (followUps sc). \<exists>b. evaluateTrigger (followup_trigger f) sample = Inr b)"
proof -
  have *: "(case r of Inl e \<Rightarrow> [(i, e)] | Inr _ \<Rightarrow> []) = [] \<longleftrightarrow> (\<exists>b. r = Inr b)" for r :: "bool result" and i :: string
    by (cases r) auto
  show ?thesis by (simp add: validateScenarioTriggers_def *)
qed

text \<open>An absent claim never counts as a wrong one.\<close>

lemma absent_claim_no_mismatch:
  assumes "resolve left ctx = VNull \<or> resolve right ctx = VNull"
  shows "\<not> compare_values left ''!='' right ctx"
  using assms by (auto simp: compare_values_def Let_def)

end
