(* ===== verification/Probes.thy ===== *)
theory Probes
  imports Triggers Policy "HOL-Library.Product_Lexorder" "HOL-Library.Multiset"
begin

text \<open>
  \<open>scenario/probes.ts\<close>: which authored probes, hints and follow-ups are eligible, in which order, and
  under which budget.
\<close>

record probe_context = trigger_context +
  pc_policy :: interview_policy
  probeUseCounts :: "(string \<times> nat) list"
  pc_secondsSinceSpoke :: real

section \<open>Probes\<close>

definition probe_eligible :: "probe_context \<Rightarrow> probe \<Rightarrow> bool result" where
  "probe_eligible ctx p =
     (let used = count_of (probeUseCounts ctx) (probe_id p) in
      if used \<ge> maxUses p then Inr False else evaluateTrigger (probe_trigger p) ctx)"

definition eligibleProbes :: "scenario_version \<Rightarrow> probe_context \<Rightarrow> probe list result" where
  "eligibleProbes sc ctx =
     then_do (filter_res (probe_eligible ctx) (probes sc)) (\<lambda>ps. Inr (sort_key (\<lambda>p. - priority p) ps))"

definition highestPriorityEligibleProbe :: "scenario_version \<Rightarrow> probe_context \<Rightarrow> probe option result" where
  "highestPriorityEligibleProbe sc ctx = then_do (eligibleProbes sc ctx) (\<lambda>ps. Inr (first_of ps))"

definition probeRelevance :: "probe \<Rightarrow> probe_context \<Rightarrow> int" where
  "probeRelevance p ctx =
     (let cs = tr_candidate ctx; t = probe_trigger p;
          add = (\<lambda>b w. if b then w else (0::int))
      in priority p * 10
         + add (has_sub t ''COMPLEXITY_CLAIM_MISMATCH'') 50
         + add (has_sub t ''claimedTime'' \<and> truthy (claimedTime cs) \<and> truthy (detectedSolutionFamilyId cs)
                \<and> complexityConfidence cs \<ge> 7/10) 45
         + add (has_sub t ''REPEATED_SAME_FAILURE'') 40
         + add (has_sub t ''detectedFamily'' \<and> truthy (detectedSolutionFamilyId cs)) 30
         + add (has_sub t ''BASE_TESTS_PASS'') 25
         + add (has_sub t ''currentApproach'' \<and> truthy (currentApproach cs)) 20
         + add (has_sub t (''state == '' @ state_name (tr_state ctx))) 15
         - int (count_of (probeUseCounts ctx) (probe_id p)) * 20)"

definition rerankEligibleProbes :: "scenario_version \<Rightarrow> probe_context \<Rightarrow> probe list result" where
  "rerankEligibleProbes sc ctx =
     then_do (eligibleProbes sc ctx) (\<lambda>ps.
       Inr (map fst (sort_key (\<lambda>(p, index). (- probeRelevance p ctx, index)) (zip ps [0..<length ps]))))"

definition selectRelevantProbe :: "scenario_version \<Rightarrow> probe_context \<Rightarrow> probe option result" where
  "selectRelevantProbe sc ctx = then_do (rerankEligibleProbes sc ctx) (\<lambda>ps. Inr (first_of ps))"

definition canProbeNow :: "probe_context \<Rightarrow> bool" where
  "canProbeNow ctx \<longleftrightarrow> pc_secondsSinceSpoke ctx \<ge> minSecondsBetweenProbes (pc_policy ctx)"

definition selectProbeWording :: "probe \<Rightarrow> nat \<Rightarrow> string result" where
  "selectProbeWording p useCount =
     (let variants = authoredVariants p; index = useCount mod length variants in
      if variants = [] then Inl (NoAuthoredVariants (probe_id p))
      else if variants ! index = [] then Inl (NoAuthoredVariants (probe_id p))
      else Inr (variants ! index))"

section \<open>Hints\<close>

definition nextAllowedHintLevel :: "interview_policy \<Rightarrow> nat list \<Rightarrow> nat option" where
  "nextAllowedHintLevel p used =
     (if maxHintLevel p = 0 then None
      else if length used \<ge> hintBudget p then None
      else (let highestUsed = (if used \<noteq> [] then fold max used 0 else 0); nxt = highestUsed + 1
            in if nxt \<le> maxHintLevel p then Some nxt else None))"

definition getHint :: "scenario_version \<Rightarrow> nat \<Rightarrow> hint result" where
  "getHint sc level =
     (case List.find (\<lambda>h. hint_level h = level) (hintLadder sc) of
        None \<Rightarrow> Inl (NoHintAtLevel level) | Some h \<Rightarrow> Inr h)"

definition accumulatedHintImpact :: "scenario_version \<Rightarrow> nat list \<Rightarrow> real" where
  "accumulatedHintImpact sc used =
     foldl (\<lambda>sum level. sum + (case List.find (\<lambda>h. hint_level h = level) (hintLadder sc) of
                                 None \<Rightarrow> 0 | Some h \<Rightarrow> scoreImpact h)) 0 used"

section \<open>Follow-ups\<close>

definition followup_eligible :: "'a trigger_context_scheme \<Rightarrow> follow_up \<Rightarrow> bool result" where
  "followup_eligible ctx f =
     (if followup_id f \<in> set (followUpsUsed ctx) then Inr False else evaluateTrigger (followup_trigger f) ctx)"

definition eligibleFollowUps :: "scenario_version \<Rightarrow> 'a trigger_context_scheme \<Rightarrow> follow_up list result" where
  "eligibleFollowUps sc ctx = filter_res (followup_eligible ctx) (followUps sc)"

definition performanceStrength :: "'a trigger_context_scheme \<Rightarrow> real" where
  "performanceStrength ctx =
     (let cs = tr_candidate ctx;
          s0 = implementationProgress cs * 2;
          s1 = (if solvedOptimally ctx then s0 + 2 else s0);
          s2 = (if BASE_TESTS_PASS \<in> set (milestonesReached cs) then s1 + 1 else s1);
          s3 = s2 - real (length (hintsUsed cs)) * (1/2);
          s4 = s3 - stuckScore cs
      in max 0 (min 5 s4))"

definition challengeWeight :: "follow_up \<Rightarrow> real" where
  "challengeWeight f =
     (let rubricWeight = foldl (\<lambda>sum kv. sum + \<bar>snd kv\<bar>) 0 (rubricDelta f);
          lengthWeight = min 2 (real (length (expectedAdaptation f)) / 180)
      in min 5 (rubricWeight + lengthWeight))"

definition tokens :: "string \<Rightarrow> string list" where
  "tokens s = uniq (filter (\<lambda>w. length w \<ge> 4) (re_split False (rx ''[^a-z0-9]+'') (to_lower s)))"

definition followUpRelevance :: "follow_up \<Rightarrow> 'a trigger_context_scheme \<Rightarrow> int" where
  "followUpRelevance f ctx =
     (let cs = tr_candidate ctx;
          candidateWords = tokens (join '' ''
            ([opt_text (currentApproach cs), opt_text (detectedSolutionFamilyId cs)] @ alternativesMentioned cs));
          branchWords = tokens (oralDelta f @ '' '' @ expectedAdaptation f)
      in int (length (filter (\<lambda>w. w \<in> set branchWords) candidateWords)))"

definition selectFollowUp :: "scenario_version \<Rightarrow> 'a trigger_context_scheme \<Rightarrow> follow_up option result" where
  "selectFollowUp sc ctx =
     then_do (eligibleFollowUps sc ctx) (\<lambda>fs.
       (let performance = performanceStrength ctx in
        Inr (map_option fst (first_of (sort_key
          (\<lambda>(f, index). (\<bar>challengeWeight f - performance\<bar>, - followUpRelevance f ctx, index))
          (zip fs [0..<length fs]))))))"

section \<open>Lemmas\<close>

lemma eligibleProbes_set:
  "eligibleProbes sc ctx = Inr ps \<Longrightarrow> set ps = {p \<in> set (probes sc). probe_eligible ctx p = Inr True}"
  by (auto simp: eligibleProbes_def dest: filter_res_Inr)

lemma eligibleProbes_sorted: "eligibleProbes sc ctx = Inr ps \<Longrightarrow> sorted (map (\<lambda>p. - priority p) ps)"
  by (auto simp: eligibleProbes_def)

lemma mset_rerank:
  assumes "rerankEligibleProbes sc ctx = Inr qs" and "eligibleProbes sc ctx = Inr ps"
  shows "mset qs = mset ps"
proof -
  have "image_mset fst (mset (zip ps [0..<length ps])) = mset ps"
    by (metis diff_zero length_upt map_fst_zip mset_map)
  with assms show ?thesis by (auto simp: rerankEligibleProbes_def)
qed

lemma selectRelevantProbe_eligible:
  assumes "selectRelevantProbe sc ctx = Inr (Some p)"
  shows "p \<in> set (probes sc)" and "count_of (probeUseCounts ctx) (probe_id p) < maxUses p"
    and "evaluateTrigger (probe_trigger p) ctx = Inr True"
proof -
  from assms obtain qs where qs: "rerankEligibleProbes sc ctx = Inr qs" and p: "first_of qs = Some p"
    by (auto simp: selectRelevantProbe_def)
  from qs obtain ps where ps: "eligibleProbes sc ctx = Inr ps" by (auto simp: rerankEligibleProbes_def)
  from first_of_SomeD [OF p] mset_eq_setD [OF mset_rerank [OF qs ps]] have "p \<in> set ps" by simp
  with eligibleProbes_set [OF ps] have "p \<in> set (probes sc) \<and> probe_eligible ctx p = Inr True" by simp
  then show "p \<in> set (probes sc)" "count_of (probeUseCounts ctx) (probe_id p) < maxUses p"
    "evaluateTrigger (probe_trigger p) ctx = Inr True"
    by (auto simp: probe_eligible_def Let_def split: if_splits)
qed

lemma sort_key_hd_least:
  assumes "x \<in> set xs" and "first_of (sort_key k xs) = Some y"
  shows "k y \<le> k x"
proof -
  from assms(2) obtain ys where ys: "sort_key k xs = y # ys" by (cases "sort_key k xs") auto
  have "sorted (map k (y # ys))" using sorted_sort_key [of k xs] ys by simp
  moreover from assms(1) ys have "x \<in> set (y # ys)" by (metis set_sort)
  ultimately show ?thesis by auto
qed

text \<open>The selected probe has the highest relevance among the eligible ones.\<close>

lemma selectRelevantProbe_best:
  assumes sel: "selectRelevantProbe sc ctx = Inr (Some p)"
    and q: "q \<in> set (probes sc)" "probe_eligible ctx q = Inr True"
  shows "probeRelevance q ctx \<le> probeRelevance p ctx"
proof -
  from sel obtain ps where ps: "eligibleProbes sc ctx = Inr ps" and first: "first_of (map fst
      (sort_key (\<lambda>(p, index). (- probeRelevance p ctx, index)) (zip ps [0..<length ps]))) = Some p"
    by (auto simp: selectRelevantProbe_def rerankEligibleProbes_def)
  let ?key = "\<lambda>(p, index::nat). (- probeRelevance p ctx, index)"
  from first obtain y where y: "first_of (sort_key ?key (zip ps [0..<length ps])) = Some y" and fy: "fst y = p"
    by (cases "sort_key ?key (zip ps [0..<length ps])") auto
  from q eligibleProbes_set [OF ps] have "q \<in> set ps" by auto
  then obtain i where "(q, i) \<in> set (zip ps [0..<length ps])"
    by (metis in_set_impl_in_set_zip1 length_map map_nth)
  from sort_key_hd_least [OF this y] fy show ?thesis
    by (cases y) (auto simp: less_eq_prod_def)
qed

lemma selectRelevantProbe_total:
  assumes "\<forall>p\<in>set (probes sc). trigger_known (probe_trigger p)"
  shows "\<exists>r. selectRelevantProbe sc ctx = Inr r"
proof -
  have "\<forall>p\<in>set (probes sc). \<exists>b. probe_eligible ctx p = Inr b"
    using assms trigger_known_total by (auto simp: probe_eligible_def Let_def)
  from filter_res_total [OF this] show ?thesis
    by (simp add: selectRelevantProbe_def rerankEligibleProbes_def eligibleProbes_def)
qed

lemma selectFollowUp_eligible:
  assumes "selectFollowUp sc ctx = Inr (Some f)"
  shows "f \<in> set (followUps sc)" and "followup_id f \<notin> set (followUpsUsed ctx)"
    and "evaluateTrigger (followup_trigger f) ctx = Inr True"
proof -
  from assms obtain fs where fs: "eligibleFollowUps sc ctx = Inr fs"
    and "f \<in> fst ` set (zip fs [0..<length fs])"
    by (fastforce simp: selectFollowUp_def Let_def dest: first_of_SomeD)
  then have "f \<in> set fs" by (auto dest: set_zip_leftD)
  with fs have "f \<in> set (followUps sc) \<and> followup_eligible ctx f = Inr True"
    by (auto simp: eligibleFollowUps_def dest!: filter_res_Inr)
  then show "f \<in> set (followUps sc)" "followup_id f \<notin> set (followUpsUsed ctx)"
    "evaluateTrigger (followup_trigger f) ctx = Inr True"
    by (auto simp: followup_eligible_def split: if_splits)
qed

lemma selectFollowUp_total:
  assumes "\<forall>f\<in>set (followUps sc). trigger_known (followup_trigger f)"
  shows "\<exists>r. selectFollowUp sc ctx = Inr r"
proof -
  have "\<forall>f\<in>set (followUps sc). \<exists>b. followup_eligible ctx f = Inr b"
    using assms trigger_known_total by (auto simp: followup_eligible_def)
  from filter_res_total [OF this] show ?thesis by (simp add: selectFollowUp_def eligibleFollowUps_def Let_def)
qed

lemma selectProbeWording_authored:
  "selectProbeWording p n = Inr w \<Longrightarrow> w \<in> set (authoredVariants p)"
  by (auto simp: selectProbeWording_def Let_def split: if_splits intro!: nth_mem mod_less_divisor)

lemma selectProbeWording_total:
  "authoredVariants p \<noteq> [] \<Longrightarrow> \<forall>v\<in>set (authoredVariants p). v \<noteq> [] \<Longrightarrow> \<exists>w. selectProbeWording p n = Inr w"
  by (auto simp: selectProbeWording_def Let_def)

lemma selectProbeWording_rotates:
  "n < length (authoredVariants p) \<Longrightarrow> authoredVariants p ! n \<noteq> [] \<Longrightarrow> selectProbeWording p n = Inr (authoredVariants p ! n)"
  by (auto simp: selectProbeWording_def Let_def)

lemma fold_max_ge: "x \<in> set xs \<or> x = a \<Longrightarrow> x \<le> fold max xs (a::nat)"
  using Max_ge [of "set (a # xs)" x] unfolding Max.set_eq_fold by auto

lemma nextAllowedHintLevel_SomeD:
  assumes "nextAllowedHintLevel p used = Some n"
  shows "1 \<le> n" and "n \<le> maxHintLevel p" and "length used < hintBudget p" and "\<forall>m\<in>set used. m < n"
  using assms fold_max_ge [of _ used 0]
  by (auto simp: nextAllowedHintLevel_def Let_def less_Suc_eq_le split: if_splits)

lemma getHint_total: "\<exists>h\<in>set (hintLadder sc). hint_level h = n \<Longrightarrow> \<exists>h. getHint sc n = Inr h"
  by (auto simp: getHint_def find_None_iff' split: option.splits)

lemma getHintD: "getHint sc n = Inr h \<Longrightarrow> h \<in> set (hintLadder sc) \<and> hint_level h = n"
  by (auto simp: getHint_def split: option.splits dest: find_SomeD)

lemma performanceStrength_range: "0 \<le> performanceStrength ctx \<and> performanceStrength ctx \<le> 5"
  by (simp add: performanceStrength_def Let_def)

lemma accumulatedHintImpact_append:
  "accumulatedHintImpact sc (xs @ [l]) = accumulatedHintImpact sc xs
     + (case List.find (\<lambda>h. hint_level h = l) (hintLadder sc) of None \<Rightarrow> 0 | Some h \<Rightarrow> scoreImpact h)"
  by (simp add: accumulatedHintImpact_def)

end
