(* ===== verification/Clarification_Map.thy ===== *)
theory Clarification_Map
  imports Contracts JsRegex
begin

text \<open>
  \<open>scenario/clarification.ts\<close>: answering a question from the facts the scenario's author wrote.
\<close>

section \<open>Normalisation\<close>

text \<open>The letters and numbers (\<open>\p{L}\<close>, \<open>\p{N}\<close>) of the Latin-1 range beyond ASCII.\<close>

definition high_letters :: string where
  "high_letters =
     [CHR 0xAA, CHR 0xB5, CHR 0xBA, CHR 0xC0, CHR 0xC1, CHR 0xC2, CHR 0xC3, CHR 0xC4, CHR 0xC5, CHR 0xC6,
      CHR 0xC7, CHR 0xC8, CHR 0xC9, CHR 0xCA, CHR 0xCB, CHR 0xCC, CHR 0xCD, CHR 0xCE, CHR 0xCF, CHR 0xD0,
      CHR 0xD1, CHR 0xD2, CHR 0xD3, CHR 0xD4, CHR 0xD5, CHR 0xD6, CHR 0xD8, CHR 0xD9, CHR 0xDA, CHR 0xDB,
      CHR 0xDC, CHR 0xDD, CHR 0xDE, CHR 0xDF, CHR 0xE0, CHR 0xE1, CHR 0xE2, CHR 0xE3, CHR 0xE4, CHR 0xE5,
      CHR 0xE6, CHR 0xE7, CHR 0xE8, CHR 0xE9, CHR 0xEA, CHR 0xEB, CHR 0xEC, CHR 0xED, CHR 0xEE, CHR 0xEF,
      CHR 0xF0, CHR 0xF1, CHR 0xF2, CHR 0xF3, CHR 0xF4, CHR 0xF5, CHR 0xF6, CHR 0xF8, CHR 0xF9, CHR 0xFA,
      CHR 0xFB, CHR 0xFC, CHR 0xFD, CHR 0xFE, CHR 0xFF, CHR 0xB2, CHR 0xB3, CHR 0xB9, CHR 0xBC, CHR 0xBD,
      CHR 0xBE]"

definition is_letter_or_number :: "char \<Rightarrow> bool" where
  "is_letter_or_number c = (if c = CHR ''_'' then False else if is_word c then True else c \<in> set high_letters)"

definition normalizeText :: "string \<Rightarrow> string" where
  "normalizeText s =
     trim (squeeze_white (map (\<lambda>c. if is_letter_or_number c then c else if is_white c then c else CHR '' '') (to_lower s)))"

definition STOPWORDS :: "string list" where
  "STOPWORDS =
     [''a'', ''an'', ''the'', ''is'', ''are'', ''am'', ''do'', ''does'', ''did'', ''can'', ''could'',
      ''would'', ''should'', ''will'', ''i'', ''we'', ''you'', ''it'', ''they'', ''there'', ''of'',
      ''to'', ''in'', ''on'', ''at'', ''for'', ''and'', ''or'', ''be'', ''have'', ''has'', ''my'',
      ''what'', ''how'', ''if'', ''so'', ''that'', ''this'']"

definition contentTokens :: "string \<Rightarrow> string list" where
  "contentTokens s = uniq (filter (\<lambda>t. t \<noteq> [] \<and> t \<notin> set STOPWORDS) (split_char (CHR '' '') (normalizeText s)))"

section \<open>Matching a question against the authored phrasings\<close>

text \<open>
  The two nested loops of \<open>matchFactKey\<close>, over the facts and their phrasings, as one recursion over
  the pairs in loop order; the accumulator is the best match so far.
\<close>

fun match_loop ::
  "string \<Rightarrow> string list \<Rightarrow> (string \<times> real) option \<Rightarrow> (string \<times> string) list \<Rightarrow> (string \<times> real) option" where
  "match_loop asked askedTokens best [] = best"
| "match_loop asked askedTokens best ((key, phrasing) # rest) =
     (if has_sub asked (normalizeText phrasing) then Some (key, 1)
      else (let phraseTokens = contentTokens phrasing in
            if phraseTokens = [] then match_loop asked askedTokens best rest
            else (let overlap = length (filter (\<lambda>t. t \<in> set askedTokens) phraseTokens);
                      score = real overlap / real (length phraseTokens)
                  in match_loop asked askedTokens
                       (if score \<ge> 3/5 \<and> (case best of None \<Rightarrow> True | Some (_, b) \<Rightarrow> score > b)
                        then Some (key, score) else best) rest)))"

definition fact_phrasings :: "scenario_version \<Rightarrow> (string \<times> string) list" where
  "fact_phrasings sc = concat (map (\<lambda>f. map (\<lambda>ph. (fact_key f, ph)) (askedAs f)) (facts sc))"

definition matchFactKey :: "scenario_version \<Rightarrow> string \<Rightarrow> (string \<times> real) option" where
  "matchFactKey sc utterance =
     (let asked = normalizeText utterance; askedTokens = contentTokens utterance in
      if askedTokens = [] then None else match_loop asked askedTokens None (fact_phrasings sc))"

datatype clarification_result =
    Answerable string string               \<comment> \<open>the key of the fact and its value\<close>
  | NotAnswerable clarification_refusal

definition getClarificationFact ::
  "scenario_version \<Rightarrow> string \<Rightarrow> string list \<Rightarrow> clarification_result" where
  "getClarificationFact sc utterance probesDelivered =
     (case matchFactKey sc utterance of
        None \<Rightarrow> NotAnswerable NO_SUCH_FACT
      | Some (key, _) \<Rightarrow>
          (case List.find (\<lambda>f. fact_key f = key) (facts sc) of
             None \<Rightarrow> NotAnswerable NO_SUCH_FACT
           | Some f \<Rightarrow>
               (case disclosure f of
                  ALWAYS \<Rightarrow> Answerable (fact_key f) (fact_value f)
                | IF_ASKED \<Rightarrow> Answerable (fact_key f) (fact_value f)
                | AFTER_PROBE \<Rightarrow>
                    if probesDelivered \<noteq> [] then Answerable (fact_key f) (fact_value f)
                    else NotAnswerable NOT_YET_DISCLOSABLE)))"

definition alwaysDisclosedFacts :: "scenario_version \<Rightarrow> fact list" where
  "alwaysDisclosedFacts sc = filter (\<lambda>f. disclosure f = ALWAYS) (facts sc)"

definition disclosedFactKeys :: "scenario_version \<Rightarrow> string list \<Rightarrow> string list" where
  "disclosedFactKeys sc answeredKeys = uniq (map fact_key (alwaysDisclosedFacts sc) @ answeredKeys)"

section \<open>Lemmas\<close>

lemma match_loop_key:
  assumes "match_loop asked ts best ps = Some (k, r)"
    and "\<And>k' r'. best = Some (k', r') \<Longrightarrow> k' \<in> K \<and> 3/5 \<le> r' \<and> r' \<le> 1"
    and "fst ` set ps \<subseteq> K"
  shows "k \<in> K \<and> 3/5 \<le> r \<and> r \<le> 1"
  using assms
proof (induction asked ts best ps rule: match_loop.induct)
  case (1 asked ts best)
  then show ?case by simp
next
  case (2 asked ts best key phrasing rest)
  let ?ts = "contentTokens phrasing"
  have le1: "real (length (filter (\<lambda>t. t \<in> set ts) ?ts)) / real (length ?ts) \<le> 1"
    by (simp add: divide_le_eq_1)
  show ?case
  proof (cases "has_sub asked (normalizeText phrasing)")
    case True
    with "2.prems" show ?thesis by simp
  next
    case False
    show ?thesis
    proof (cases "?ts = []")
      case True
      with False "2.prems" "2.IH"(1) show ?thesis by simp
    next
      case nonempty: False
      define score where "score = real (length (filter (\<lambda>t. t \<in> set ts) ?ts)) / real (length ?ts)"
      define best' where "best' =
        (if score \<ge> 3/5 \<and> (case best of None \<Rightarrow> True | Some (_, b) \<Rightarrow> score > b) then Some (key, score) else best)"
      have rest: "match_loop asked ts best' rest = Some (k, r)"
        using "2.prems"(1) False nonempty
        unfolding best'_def score_def by (simp only: match_loop.simps Let_def if_False)
      have inv: "k' \<in> K \<and> 3/5 \<le> r' \<and> r' \<le> 1" if "best' = Some (k', r')" for k' r'
        using that "2.prems"(2) [of k' r'] "2.prems"(3) le1 by (auto simp: best'_def score_def split: if_splits)
      from "2.prems"(3) have "fst ` set rest \<subseteq> K" by simp
      with "2.IH"(2) [OF False refl nonempty refl score_def] rest inv show ?thesis
        unfolding best'_def by blast
    qed
  qed
qed

lemma matchFactKey_authored:
  assumes "matchFactKey sc u = Some (k, r)"
  shows "k \<in> fact_key ` set (facts sc)" and "3/5 \<le> r" and "r \<le> 1"
proof -
  have sub: "fst ` set (fact_phrasings sc) \<subseteq> fact_key ` set (facts sc)"
    by (auto simp: fact_phrasings_def)
  from assms have "match_loop (normalizeText u) (contentTokens u) None (fact_phrasings sc) = Some (k, r)"
    by (simp add: matchFactKey_def Let_def split: if_splits)
  from match_loop_key [OF this _ sub]
  show "k \<in> fact_key ` set (facts sc)" "3/5 \<le> r" "r \<le> 1" by simp_all
qed

lemma getClarificationFact_authored:
  assumes "getClarificationFact sc u ph = Answerable k v"
  shows "\<exists>f\<in>set (facts sc). fact_key f = k \<and> fact_value f = v \<and> (disclosure f = AFTER_PROBE \<longrightarrow> ph \<noteq> [])"
  using assms unfolding getClarificationFact_def
  by (fastforce split: option.splits disclosure_level.splits if_splits dest!: find_SomeD)

text \<open>A question that matches a fact is refused only when that fact waits for a probe.\<close>

lemma getClarificationFact_refused:
  assumes "getClarificationFact sc u ph = NotAnswerable r" and "matchFactKey sc u \<noteq> None"
  shows "r = NOT_YET_DISCLOSABLE \<and> ph = []"
proof -
  from assms(2) obtain k s where m: "matchFactKey sc u = Some (k, s)" by auto
  from matchFactKey_authored(1) [OF m] have "List.find (\<lambda>f. fact_key f = k) (facts sc) \<noteq> None"
    by (auto simp: find_None_iff')
  with assms(1) m show ?thesis
    by (auto simp: getClarificationFact_def split: option.splits disclosure_level.splits if_splits)
qed

lemma disclosedFactKeys_set:
  "set (disclosedFactKeys sc ks) = fact_key ` {f \<in> set (facts sc). disclosure f = ALWAYS} \<union> set ks"
  by (auto simp: disclosedFactKeys_def alwaysDisclosedFacts_def)

end
