(* ===== verification/Gate.thy ===== *)
theory Gate
  imports Probes Clarification_Map BriefRequest
begin

text \<open>
  \<open>orchestrator/gate.ts\<close>, the response gate: from the context of the session to one decision, silence
  by default. The numbered sections of \<open>decide\<close> are split into one definition each. A trigger of the
  pinned scenario that does not parse throws, so the gate returns a \<open>result\<close>.
\<close>

record gate_dependencies =
  gd_scenario :: scenario_version
  gd_probeUseCounts :: "(string \<times> nat) list"
  gd_followUpsUsed :: "string list"
  gd_solvedOptimally :: bool
  briefDeliveryCount :: nat
  openingRedeliveryPending :: bool

definition code_grounding_pattern :: re where
  "code_grounding_pattern = rx ''detectedFamily|claimedTime|claimedSpace|milestone%((?:FIRST_COMPILES|BASE_TESTS_PASS|REPEATED_SAME_FAILURE|LARGE_REWRITE|COMPLEXITY_CLAIM_MISMATCH)%)''"

definition probeNeedsCodeGrounding :: "string \<Rightarrow> bool" where
  "probeNeedsCodeGrounding trig = re_test False code_grounding_pattern trig"

text \<open>\<open>Date.parse\<close> of a nullable date string.\<close>

definition parse_instant :: "instant option \<Rightarrow> real option" where
  "parse_instant d = (case d of None \<Rightarrow> None | Some t \<Rightarrow> t)"

definition observerBehind :: "interview_context \<Rightarrow> real" where
  "observerBehind ctx = latestCodeRevision ctx - derivedFromRevision (candidateState ctx)"

definition codeFreshnessReason :: "interview_context \<Rightarrow> reason option" where
  "codeFreshnessReason ctx =
     (if observerBehind ctx > 0 then Some (ObserverBehind (observerBehind ctx))
      else if latestCodeRevision ctx = 0 then None
      else (case (parse_instant (codeObservedAt (candidateState ctx)),
                  Option.bind (turn ctx) endedAt) of
              (Some observedAt, Some turnAt) \<Rightarrow>
                (let ageSeconds = max 0 ((turnAt - observedAt) / 1000) in
                 if ageSeconds \<le> maxCodeStalenessSeconds (policy ctx) then None
                 else Some (ObservationTooOld ageSeconds (maxCodeStalenessSeconds (policy ctx))))
            | _ \<Rightarrow> Some ObservationAgeUnknown))"

definition triggerCtx :: "interview_context \<Rightarrow> gate_dependencies \<Rightarrow> probe_context" where
  "triggerCtx ctx deps = \<lparr>
     tr_scenario = gd_scenario deps,
     tr_candidate = candidateState ctx,
     tr_state = state ctx,
     remainingMinutes = of_int (floor (remainingSeconds ctx / 60)),
     followUpsUsed = gd_followUpsUsed deps,
     solvedOptimally = gd_solvedOptimally deps,
     pc_policy = policy ctx,
     probeUseCounts = gd_probeUseCounts deps,
     pc_secondsSinceSpoke = secondsSinceInterviewerLastSpoke ctx\<rparr>"

section \<open>The rules\<close>

text \<open>Section 4: the candidate asked something.\<close>

definition decide_question :: "interview_context \<Rightarrow> gate_dependencies \<Rightarrow> turn \<Rightarrow> gate_decision" where
  "decide_question ctx deps t =
     (case getClarificationFact (gd_scenario deps) (transcript t) (probeHistory (candidateState ctx)) of
        Answerable key _ \<Rightarrow> (decided ANSWER_CLARIFICATION (CanonicalFact key))\<lparr>factKey := Some key\<rparr>
      | NotAnswerable r \<Rightarrow> decided ACKNOWLEDGE_BRIEFLY (NoCanonicalAnswer r))"

text \<open>Section 5: the candidate asked for help.\<close>

definition hint_action :: "nat \<Rightarrow> interview_action" where
  "hint_action level = (if level = 1 then GIVE_HINT_L1 else GIVE_HINT_L2)"

definition decide_hint_request :: "interview_context \<Rightarrow> gate_decision" where
  "decide_hint_request ctx =
     (case nextAllowedHintLevel (policy ctx) (hintsUsed (candidateState ctx)) of
        None \<Rightarrow> SILENT HintExhausted
      | Some level \<Rightarrow> (decided (hint_action level) (HintPermitted level))\<lparr>hintLevel := Some level\<rparr>)"

text \<open>
  Section 9: an authored probe is justified. \<open>ask_probe\<close> is the body of \<open>if (probe)\<close>; the section
  returns \<open>None\<close> when it decides nothing.
\<close>

definition ask_probe :: "interview_context \<Rightarrow> probe_context \<Rightarrow> probe \<Rightarrow> gate_decision" where
  "ask_probe ctx probeCtx p =
     (let needsCode = probeNeedsCodeGrounding (probe_trigger p) in
      if \<not> canInterruptNow (policy ctx) (secondsSinceCodeActivity ctx)
      then SILENT (ProbeButTyping (probe_id p) (secondsSinceCodeActivity ctx) (interruptQuietSeconds (policy ctx)))
      else if \<not> canProbeNow probeCtx
      then SILENT (ProbeButTooSoon (probe_id p) (secondsSinceInterviewerLastSpoke ctx)
                     (minSecondsBetweenProbes (policy ctx)))
      else (case (if needsCode then codeFreshnessReason ctx else None) of
              Some stale \<Rightarrow> SILENT stale
            | None \<Rightarrow> (decided ASK_PROBE (ProbeAsked (probe_id p) (questionIntent p)))
                 \<lparr>probeId := Some (probe_id p),
                  groundedInRevision :=
                    (if needsCode then Some (derivedFromRevision (candidateState ctx)) else None)\<rparr>))"

definition decide_probe :: "interview_context \<Rightarrow> gate_dependencies \<Rightarrow> gate_decision option result" where
  "decide_probe ctx deps =
     (if observerBehind ctx > 0 \<and> secondsSinceCodeActivity ctx < maxCodeStalenessSeconds (policy ctx)
      then Inr (Some (SILENT (ObserverBehindMoving (observerBehind ctx))))
      else
        (let probeCtx = triggerCtx ctx deps in
         then_do (selectRelevantProbe (gd_scenario deps) probeCtx) (\<lambda>found.
           Inr (map_option (ask_probe ctx probeCtx) found))))"

text \<open>Section 10 and the default: the candidate is stuck, or nothing authorizes speech.\<close>

definition stuck_level :: "interview_context \<Rightarrow> real" where
  "stuck_level ctx =
     max (stuckScore (candidateState ctx))
         (stallPressure (policy ctx) (secondsSinceCodeActivity ctx) (implementationProgress (candidateState ctx)))"

definition decide_stuck :: "interview_context \<Rightarrow> gate_decision" where
  "decide_stuck ctx =
     (let stuck = stuck_level ctx in
      if canInterruptNow (policy ctx) (secondsSinceCodeActivity ctx)
         \<and> canHintNow (policy ctx) stuck (length (hintsUsed (candidateState ctx)))
      then (case nextAllowedHintLevel (policy ctx) (hintsUsed (candidateState ctx)) of
              Some level \<Rightarrow>
                if level \<le> 2
                then (case codeFreshnessReason ctx of
                        Some stale \<Rightarrow> SILENT stale
                      | None \<Rightarrow>
                          (decided (hint_action level) (StuckOverThreshold stuck (stallThreshold (policy ctx))))
                            \<lparr>hintLevel := Some level,
                             groundedInRevision := Some (derivedFromRevision (candidateState ctx))\<rparr>)
                else SILENT NoRuleAuthorized
            | None \<Rightarrow> SILENT NoRuleAuthorized)
      else SILENT NoRuleAuthorized)"

definition decide_unasked :: "interview_context \<Rightarrow> gate_dependencies \<Rightarrow> gate_decision result" where
  "decide_unasked ctx deps =
     then_do (decide_probe ctx deps) (\<lambda>d. case d of Some dec \<Rightarrow> Inr dec | None \<Rightarrow> Inr (decide_stuck ctx))"

text \<open>Section 7: follow-ups, then the unsolicited rules.\<close>

definition decide_followup :: "interview_context \<Rightarrow> gate_dependencies \<Rightarrow> gate_decision result" where
  "decide_followup ctx deps =
     (if state ctx = FOLLOW_UP
      then then_do (selectFollowUp (gd_scenario deps) (triggerCtx ctx deps)) (\<lambda>found.
             case found of
               Some f \<Rightarrow> Inr ((decided PRESENT_FOLLOW_UP (FollowUpEligible (followup_id f)))
                               \<lparr>followUpId := Some (followup_id f)\<rparr>)
             | None \<Rightarrow> decide_unasked ctx deps)
      else decide_unasked ctx deps)"

text \<open>Sections 3a to 7: a finished turn.\<close>

definition decide_turn :: "interview_context \<Rightarrow> gate_dependencies \<Rightarrow> turn \<Rightarrow> gate_decision result" where
  "decide_turn ctx deps t =
     (if openingRedeliveryPending deps then Inr (decided DELIVER_BRIEF SpokeBeforeOpeningReoffered)
      else if isBriefRequest (transcript t) \<and> briefDeliveryCount deps > 0
        then Inr (decided DELIVER_BRIEF AskedToHearAgain)
      else if intent t = EXPLICIT_QUESTION \<or> intent t = CLARIFICATION_REQUEST
        then Inr (decide_question ctx deps t)
      else if intent t = HINT_REQUEST then Inr (decide_hint_request ctx)
      else if intent t = SOCIAL_SMALL_TALK
        then Inr (if acknowledgeSmallTalk (policy ctx) then decided ACKNOWLEDGE_BRIEFLY SmallTalkAcknowledged
                  else SILENT SmallTalkIgnored)
      else decide_followup ctx deps)"

text \<open>Sections 0 to 3: the opening, and the guards every turn has to pass.\<close>

definition decide :: "interview_context \<Rightarrow> gate_dependencies \<Rightarrow> gate_decision result" where
  "decide ctx deps =
     (if state ctx = ORAL_PROBLEM_DELIVERY \<and> briefDeliveryCount deps = 0 \<and> \<not> interviewerCurrentlySpeaking ctx
      then Inr (decided DELIVER_BRIEF OpeningBriefNotDelivered)
      else if openingRedeliveryPending deps \<and> turn ctx = None \<and> \<not> interviewerCurrentlySpeaking ctx
              \<and> \<not> candidateSpeakingNow ctx
      then Inr (decided DELIVER_BRIEF OpeningNeverPlayed)
      else if interviewerCurrentlySpeaking ctx \<and> candidateSpeechStarted ctx then Inr (SILENT BargeIn)
      else if candidateSpeakingNow ctx then Inr (SILENT CandidateStillSpeaking)
      else (case turn ctx of
              None \<Rightarrow> Inr (SILENT TurnNotFinalized)
            | Some t \<Rightarrow>
                if \<not> finalized t then Inr (SILENT TurnNotFinalized)
                else if semanticEndProbability t < endOfTurnThreshold (policy ctx)
                then Inr (SILENT (BelowEndThreshold (semanticEndProbability t) (endOfTurnThreshold (policy ctx))))
                else decide_turn ctx deps t))"

definition decideAction :: "interview_context \<Rightarrow> gate_dependencies \<Rightarrow> gate_decision result" where
  "decideAction ctx deps =
     then_do (decide ctx deps) (\<lambda>d.
       if \<not> isActionAllowed (state ctx) (action d)
       then Inr (SILENT (NotPermittedIn (action d) (state ctx) (reason d)))
       else Inr d)"

section \<open>What a speaking decision rests on\<close>

lemma triggerCtx_sel [simp]:
  "tr_scenario (triggerCtx ctx deps) = gd_scenario deps"
  "tr_candidate (triggerCtx ctx deps) = candidateState ctx"
  "tr_state (triggerCtx ctx deps) = state ctx"
  "followUpsUsed (triggerCtx ctx deps) = gd_followUpsUsed deps"
  "probeUseCounts (triggerCtx ctx deps) = gd_probeUseCounts deps"
  "pc_policy (triggerCtx ctx deps) = policy ctx"
  "pc_secondsSinceSpoke (triggerCtx ctx deps) = secondsSinceInterviewerLastSpoke ctx"
  by (simp_all add: triggerCtx_def)

lemma decideAction_decide:
  assumes "decideAction ctx deps = Inr d" and "action d \<noteq> STAY_SILENT"
  shows "decide ctx deps = Inr d" and "isActionAllowed (state ctx) (action d)"
  using assms by (auto simp: decideAction_def split: if_splits)

lemma decideAction_allowed:
  "decideAction ctx deps = Inr d \<Longrightarrow> action d = STAY_SILENT \<or> isActionAllowed (state ctx) (action d)"
  using decideAction_decide(2) by blast

text \<open>The turn that passed the guards.\<close>

definition turn_taken :: "interview_context \<Rightarrow> turn \<Rightarrow> bool" where
  "turn_taken ctx t \<longleftrightarrow> turn ctx = Some t \<and> finalized t \<and> \<not> candidateSpeakingNow ctx \<and>
     \<not> (interviewerCurrentlySpeaking ctx \<and> candidateSpeechStarted ctx) \<and>
     endOfTurnThreshold (policy ctx) \<le> semanticEndProbability t"

text \<open>
  A decision to speak either opens the interview (nobody has to have said anything) or comes out
  of a turn that passed every guard.
\<close>

lemma decide_speaks:
  assumes "decide ctx deps = Inr d" and "action d \<noteq> STAY_SILENT"
  obtains (starts) "action d = DELIVER_BRIEF" and "\<not> interviewerCurrentlySpeaking ctx" and
      "state ctx = ORAL_PROBLEM_DELIVERY \<and> briefDeliveryCount deps = 0
       \<or> openingRedeliveryPending deps \<and> turn ctx = None \<and> \<not> candidateSpeakingNow ctx"
  | (turn) t where "turn_taken ctx t" and "decide_turn ctx deps t = Inr d"
  using assms unfolding decide_def turn_taken_def
  by (auto split: if_splits option.splits simp: not_less)

lemma ask_probe_speaks:
  assumes "action (ask_probe ctx pc p) \<noteq> STAY_SILENT"
  shows "canInterruptNow (policy ctx) (secondsSinceCodeActivity ctx)" and "canProbeNow pc"
    and "probeNeedsCodeGrounding (probe_trigger p) \<Longrightarrow> codeFreshnessReason ctx = None"
    and "probeId (ask_probe ctx pc p) = Some (probe_id p)" and "action (ask_probe ctx pc p) = ASK_PROBE"
    and "groundedInRevision (ask_probe ctx pc p) =
           (if probeNeedsCodeGrounding (probe_trigger p) then Some (derivedFromRevision (candidateState ctx)) else None)"
  using assms by (simp_all add: ask_probe_def Let_def split: if_split_asm option.split_asm)

lemma ask_probe_silent:
  "action (ask_probe ctx pc p) = STAY_SILENT \<Longrightarrow> groundedInRevision (ask_probe ctx pc p) = None"
  by (auto simp: ask_probe_def Let_def split: if_splits option.splits)

lemma decide_probe_cases:
  assumes "decide_probe ctx deps = Inr (Some d)" and "action d \<noteq> STAY_SILENT"
  obtains p where "selectRelevantProbe (gd_scenario deps) (triggerCtx ctx deps) = Inr (Some p)"
    and "d = ask_probe ctx (triggerCtx ctx deps) p"
  using assms unfolding decide_probe_def Let_def by (auto split: if_split_asm)

lemma decide_stuck_cases:
  assumes "action (decide_stuck ctx) \<noteq> STAY_SILENT"
  obtains level where "nextAllowedHintLevel (policy ctx) (hintsUsed (candidateState ctx)) = Some level" and
    "level \<le> 2" and "canInterruptNow (policy ctx) (secondsSinceCodeActivity ctx)" and
    "stallThreshold (policy ctx) < stuck_level ctx" and "codeFreshnessReason ctx = None" and
    "decide_stuck ctx = (decided (hint_action level) (StuckOverThreshold (stuck_level ctx) (stallThreshold (policy ctx))))
       \<lparr>hintLevel := Some level, groundedInRevision := Some (derivedFromRevision (candidateState ctx))\<rparr>"
proof -
  have now: "canInterruptNow (policy ctx) (secondsSinceCodeActivity ctx)"
    "canHintNow (policy ctx) (stuck_level ctx) (length (hintsUsed (candidateState ctx)))"
    using assms by (auto simp: decide_stuck_def Let_def split: if_split_asm)
  obtain level where lev: "nextAllowedHintLevel (policy ctx) (hintsUsed (candidateState ctx)) = Some level"
    "level \<le> 2"
    using assms now by (auto simp: decide_stuck_def Let_def split: if_split_asm option.split_asm)
  have fresh: "codeFreshnessReason ctx = None"
    using assms now lev by (auto simp: decide_stuck_def Let_def split: option.split_asm)
  show thesis
    using that [OF lev now(1) _ fresh] now lev fresh canHintNowD [OF now(2)]
    by (simp add: decide_stuck_def Let_def)
qed

lemma decide_unasked_cases:
  assumes "decide_unasked ctx deps = Inr d" and "action d \<noteq> STAY_SILENT"
  obtains (probe) "decide_probe ctx deps = Inr (Some d)"
  | (stuck) "decide_probe ctx deps = Inr None" and "d = decide_stuck ctx"
  using assms unfolding decide_unasked_def by (auto split: option.splits)

lemma decide_followup_cases:
  assumes "decide_followup ctx deps = Inr d"
  obtains (followup) f where "state ctx = FOLLOW_UP" and
      "selectFollowUp (gd_scenario deps) (triggerCtx ctx deps) = Inr (Some f)" and
      "d = (decided PRESENT_FOLLOW_UP (FollowUpEligible (followup_id f)))\<lparr>followUpId := Some (followup_id f)\<rparr>"
  | (unasked) "decide_unasked ctx deps = Inr d"
proof (cases "state ctx = FOLLOW_UP")
  case True
  with assms have "then_do (selectFollowUp (gd_scenario deps) (triggerCtx ctx deps)) (\<lambda>found.
             case found of
               Some f \<Rightarrow> Inr ((decided PRESENT_FOLLOW_UP (FollowUpEligible (followup_id f)))
                               \<lparr>followUpId := Some (followup_id f)\<rparr>)
             | None \<Rightarrow> decide_unasked ctx deps) = Inr d"
    by (simp add: decide_followup_def)
  then obtain found where sel: "selectFollowUp (gd_scenario deps) (triggerCtx ctx deps) = Inr found"
    and body: "(case found of
             Some f \<Rightarrow> Inr ((decided PRESENT_FOLLOW_UP (FollowUpEligible (followup_id f)))
                               \<lparr>followUpId := Some (followup_id f)\<rparr>)
           | None \<Rightarrow> decide_unasked ctx deps) = Inr d"
    by (rule then_do_eq_InrE)
  then show thesis using True followup unasked by (cases found) simp_all
next
  case False
  with assms unasked show thesis by (simp add: decide_followup_def)
qed

lemma decide_turn_cases:
  assumes "decide_turn ctx deps t = Inr d"
  obtains (brief) r where "d = decided DELIVER_BRIEF r"
  | (question) "d = decide_question ctx deps t" and "intent t = EXPLICIT_QUESTION \<or> intent t = CLARIFICATION_REQUEST"
  | (hint) "d = decide_hint_request ctx" and "intent t = HINT_REQUEST"
  | (talk) a r where "d = decided a r" and "a = ACKNOWLEDGE_BRIEFLY \<or> a = STAY_SILENT"
  | (followup) "decide_followup ctx deps = Inr d"
proof -
  consider "openingRedeliveryPending deps \<or> isBriefRequest (transcript t) \<and> briefDeliveryCount deps > 0"
    | "\<not> openingRedeliveryPending deps" and "\<not> (isBriefRequest (transcript t) \<and> briefDeliveryCount deps > 0)"
    by blast
  then show thesis
  proof cases
    case 1
    then have "\<exists>r. d = decided DELIVER_BRIEF r"
      using assms by (auto simp: decide_turn_def split: if_split_asm)
    with brief show thesis by blast
  next
    case 2
    then have d: "(if intent t = EXPLICIT_QUESTION \<or> intent t = CLARIFICATION_REQUEST
          then Inr (decide_question ctx deps t)
        else if intent t = HINT_REQUEST then Inr (decide_hint_request ctx)
        else if intent t = SOCIAL_SMALL_TALK
          then Inr (if acknowledgeSmallTalk (policy ctx) then decided ACKNOWLEDGE_BRIEFLY SmallTalkAcknowledged
                    else SILENT SmallTalkIgnored)
        else decide_followup ctx deps) = Inr d"
      using assms by (simp only: decide_turn_def if_False)
    show thesis
    proof (cases "intent t")
      case SOCIAL_SMALL_TALK
      with d have "d = decided ACKNOWLEDGE_BRIEFLY SmallTalkAcknowledged \<or> d = decided STAY_SILENT SmallTalkIgnored"
        by (auto simp: SILENT_def split: if_split_asm)
      with talk show thesis by blast
    qed (use d question hint followup in simp_all)
  qed
qed

lemma decide_question_sel:
  "action (decide_question ctx deps t) \<in> {ANSWER_CLARIFICATION, ACKNOWLEDGE_BRIEFLY}"
  "hintLevel (decide_question ctx deps t) = None" "groundedInRevision (decide_question ctx deps t) = None"
  "probeId (decide_question ctx deps t) = None"
  by (simp_all add: decide_question_def split: clarification_result.splits)

lemma decide_hint_request_sel:
  "probeId (decide_hint_request ctx) = None" "groundedInRevision (decide_hint_request ctx) = None"
  by (simp_all add: decide_hint_request_def split: option.splits)

lemma hint_action_simps [simp]:
  "hint_action n \<noteq> STAY_SILENT" "hint_action n \<noteq> DELIVER_BRIEF" "hint_action n \<noteq> ASK_PROBE"
  "hint_action n \<noteq> PRESENT_FOLLOW_UP" "hint_action n \<noteq> ANSWER_CLARIFICATION"
  by (simp_all add: hint_action_def)

section \<open>Probes, hints, grounding\<close>

text \<open>Where an \<open>ASK_PROBE\<close> decision comes from.\<close>

lemma ask_probe_origin:
  assumes "decideAction ctx deps = Inr d" and "action d = ASK_PROBE"
  obtains t p where "turn_taken ctx t" and
    "selectRelevantProbe (gd_scenario deps) (triggerCtx ctx deps) = Inr (Some p)" and
    "canInterruptNow (policy ctx) (secondsSinceCodeActivity ctx)" and
    "canProbeNow (triggerCtx ctx deps)" and "probeId d = Some (probe_id p)"
proof -
  from assms have dec: "decide ctx deps = Inr d" and speak: "action d \<noteq> STAY_SILENT"
    using decideAction_decide [of ctx deps d] by auto
  from dec speak show thesis
  proof (cases rule: decide_speaks)
    case starts
    with assms show ?thesis by simp
  next
    case (turn t)
    from turn(2) show ?thesis
    proof (cases rule: decide_turn_cases)
      case question
      with assms(2) decide_question_sel(1) [of ctx deps t] show ?thesis by auto
    next
      case hint
      with assms(2) show ?thesis by (auto simp: decide_hint_request_def split: option.splits)
    next
      case followup
      then show ?thesis
      proof (cases rule: decide_followup_cases)
        case unasked
        from unasked speak show ?thesis
        proof (cases rule: decide_unasked_cases)
          case probe
          from probe speak show ?thesis
            by (rule decide_probe_cases) (use turn speak ask_probe_speaks that in metis)
        next
          case stuck
          with speak have "action (decide_stuck ctx) \<noteq> STAY_SILENT" by simp
          then show ?thesis by (rule decide_stuck_cases) (use stuck assms(2) in auto)
        qed
      qed (use assms(2) in auto)
    qed (use assms(2) in auto)
  qed
qed

text \<open>Where a hint comes from: a request, or a candidate who is measurably stuck.\<close>

lemma hint_origin:
  assumes "decideAction ctx deps = Inr d" and "action d \<in> {GIVE_HINT_L1, GIVE_HINT_L2}"
  obtains t level where "turn_taken ctx t" and "hintLevel d = Some level" and "action d = hint_action level" and
    "nextAllowedHintLevel (policy ctx) (hintsUsed (candidateState ctx)) = Some level" and
    "intent t = HINT_REQUEST \<or>
       (level \<le> 2 \<and> canInterruptNow (policy ctx) (secondsSinceCodeActivity ctx)
        \<and> stallThreshold (policy ctx) < stuck_level ctx)"
proof -
  from assms have dec: "decide ctx deps = Inr d" and speak: "action d \<noteq> STAY_SILENT"
    using decideAction_decide [of ctx deps d] by auto
  from dec speak show thesis
  proof (cases rule: decide_speaks)
    case starts
    with assms show ?thesis by simp
  next
    case (turn t)
    from turn(2) show ?thesis
    proof (cases rule: decide_turn_cases)
      case question
      with assms(2) decide_question_sel(1) [of ctx deps t] show ?thesis by auto
    next
      case hint
      with speak turn(1) show ?thesis
        by (auto simp: decide_hint_request_def split: option.splits intro: that)
    next
      case followup
      then show ?thesis
      proof (cases rule: decide_followup_cases)
        case unasked
        from unasked speak show ?thesis
        proof (cases rule: decide_unasked_cases)
          case probe
          from probe speak show ?thesis
            by (rule decide_probe_cases) (use assms(2) speak ask_probe_speaks(5) in force)
        next
          case stuck
          with speak have "action (decide_stuck ctx) \<noteq> STAY_SILENT" by simp
          then show ?thesis by (rule decide_stuck_cases) (use stuck turn that in auto)
        qed
      qed (use assms(2) in auto)
    qed (use assms(2) in auto)
  qed
qed

text \<open>Where a follow-up comes from.\<close>

lemma follow_up_origin:
  assumes "decideAction ctx deps = Inr d" and "action d = PRESENT_FOLLOW_UP"
  obtains t f where "turn_taken ctx t" and "state ctx = FOLLOW_UP"
    and "selectFollowUp (gd_scenario deps) (triggerCtx ctx deps) = Inr (Some f)"
    and "followUpId d = Some (followup_id f)"
proof -
  from assms have dec: "decide ctx deps = Inr d" and speak: "action d \<noteq> STAY_SILENT"
    using decideAction_decide [of ctx deps d] by auto
  from dec speak show thesis
  proof (cases rule: decide_speaks)
    case starts
    with assms show ?thesis by simp
  next
    case (turn t)
    from turn(2) show ?thesis
    proof (cases rule: decide_turn_cases)
      case question
      with assms(2) decide_question_sel(1) [of ctx deps t] show ?thesis by auto
    next
      case hint
      with assms(2) show ?thesis by (auto simp: decide_hint_request_def split: option.splits)
    next
      case followup
      then show ?thesis
      proof (cases rule: decide_followup_cases)
        case (followup f)
        with turn that show ?thesis by simp
      next
        case unasked
        from unasked speak show ?thesis
        proof (cases rule: decide_unasked_cases)
          case probe
          from probe speak obtain p where "d = ask_probe ctx (triggerCtx ctx deps) p" by (rule decide_probe_cases)
          with speak ask_probe_speaks(5) have "action d = ASK_PROBE" by metis
          with assms(2) show ?thesis by simp
        next
          case stuck
          with speak have "action (decide_stuck ctx) \<noteq> STAY_SILENT" by simp
          then show ?thesis by (rule decide_stuck_cases) (use stuck assms(2) in auto)
        qed
      qed
    qed (use assms(2) in auto)
  qed
qed

text \<open>A silent decision cites nothing.\<close>

lemma decide_probe_silent:
  "decide_probe ctx deps = Inr (Some d) \<Longrightarrow> action d = STAY_SILENT \<Longrightarrow> groundedInRevision d = None"
  unfolding decide_probe_def Let_def by (auto simp: ask_probe_silent split: if_split_asm)

lemma decide_stuck_silent:
  "action (decide_stuck ctx) = STAY_SILENT \<Longrightarrow> groundedInRevision (decide_stuck ctx) = None"
  by (simp add: decide_stuck_def Let_def split: if_splits option.splits)

lemma decide_silent_sel:
  assumes "decide ctx deps = Inr d" and silent: "action d = STAY_SILENT"
  shows "groundedInRevision d = None"
proof -
  have turn: "groundedInRevision d = None" if "decide_turn ctx deps t = Inr d" for t
    using that
  proof (cases rule: decide_turn_cases)
    case followup
    then show ?thesis
    proof (cases rule: decide_followup_cases)
      case unasked
      then show ?thesis using silent decide_probe_silent decide_stuck_silent
        by (auto simp: decide_unasked_def split: option.splits)
    qed (use silent in auto)
  qed (use silent decide_question_sel(3) decide_hint_request_sel(2) in auto)
  from assms(1) show ?thesis unfolding decide_def
    by (auto split: if_splits option.splits dest: turn)
qed

text \<open>A decision that cites a code revision cites the one observed, and that one is fresh.\<close>

lemma grounded_fresh:
  assumes "decideAction ctx deps = Inr d" and "groundedInRevision d = Some r"
  shows "r = derivedFromRevision (candidateState ctx)" and "codeFreshnessReason ctx = None"
proof -
  have speak: "action d \<noteq> STAY_SILENT"
  proof
    assume silent: "action d = STAY_SILENT"
    from assms(1) obtain d' where d': "decide ctx deps = Inr d'"
      and d: "d = (if isActionAllowed (state ctx) (action d') then d'
                   else SILENT (NotPermittedIn (action d') (state ctx) (reason d')))"
      by (auto simp: decideAction_def split: if_splits)
    from d assms(2) have "d' = d" by (auto split: if_splits)
    with d' silent have "groundedInRevision d = None" using decide_silent_sel by simp
    with assms(2) show False by simp
  qed
  with assms(1) have dec: "decide ctx deps = Inr d" using decideAction_decide by blast
  from dec speak have "r = derivedFromRevision (candidateState ctx) \<and> codeFreshnessReason ctx = None"
  proof (cases rule: decide_speaks)
    case starts
    with dec assms(2) show ?thesis
      by (auto simp: decide_def split: if_splits)
  next
    case (turn t)
    from turn(2) show ?thesis
    proof (cases rule: decide_turn_cases)
      case brief
      with assms(2) show ?thesis by simp
    next
      case question
      with assms(2) decide_question_sel(3) [of ctx deps t] show ?thesis by auto
    next
      case hint
      with assms(2) decide_hint_request_sel(2) [of ctx] show ?thesis by auto
    next
      case talk
      with assms(2) show ?thesis by simp
    next
      case followup
      then show ?thesis
      proof (cases rule: decide_followup_cases)
        case unasked
        from unasked speak show ?thesis
        proof (cases rule: decide_unasked_cases)
          case probe
          from probe speak show ?thesis
            by (rule decide_probe_cases) (use assms(2) speak ask_probe_speaks(3,6) in \<open>force split: if_splits\<close>)
        next
          case stuck
          with speak have "action (decide_stuck ctx) \<noteq> STAY_SILENT" by simp
          then show ?thesis by (rule decide_stuck_cases) (use stuck assms(2) in auto)
        qed
      qed (use assms(2) in auto)
    qed
  qed
  then show "r = derivedFromRevision (candidateState ctx)" "codeFreshnessReason ctx = None" by auto
qed

lemma codeFreshnessReason_None:
  assumes "codeFreshnessReason ctx = None"
  shows "latestCodeRevision ctx \<le> derivedFromRevision (candidateState ctx)"
    and "latestCodeRevision ctx \<noteq> 0 \<Longrightarrow> \<exists>seen said. codeObservedAt (candidateState ctx) = Some (Some seen) \<and>
           Option.bind (turn ctx) endedAt = Some said \<and> (said - seen) / 1000 \<le> maxCodeStalenessSeconds (policy ctx)"
  using assms unfolding codeFreshnessReason_def observerBehind_def parse_instant_def Let_def
  by (auto split: if_splits option.splits)

section \<open>The gate never throws on a scenario whose triggers are known\<close>

definition triggers_known :: "scenario_version \<Rightarrow> bool" where
  "triggers_known sc \<longleftrightarrow> (\<forall>p\<in>set (probes sc). trigger_known (probe_trigger p)) \<and>
     (\<forall>f\<in>set (followUps sc). trigger_known (followup_trigger f))"

lemma decideAction_total:
  assumes "triggers_known (gd_scenario deps)"
  shows "\<exists>d. decideAction ctx deps = Inr d"
proof -
  from assms obtain r where r: "selectRelevantProbe (gd_scenario deps) (triggerCtx ctx deps) = Inr r"
    using selectRelevantProbe_total [of "gd_scenario deps"] by (fastforce simp: triggers_known_def)
  from assms obtain f where f: "selectFollowUp (gd_scenario deps) (triggerCtx ctx deps) = Inr f"
    using selectFollowUp_total by (fastforce simp: triggers_known_def)
  have p: "\<exists>x. decide_probe ctx deps = Inr x"
    using r unfolding decide_probe_def Let_def by (auto split: option.splits)
  then have u: "\<exists>x. decide_unasked ctx deps = Inr x"
    unfolding decide_unasked_def by (auto split: option.splits)
  have "\<exists>x. decide_followup ctx deps = Inr x"
    using f u unfolding decide_followup_def by (auto split: option.splits)
  then have "\<exists>x. decide_turn ctx deps t = Inr x" for t
    unfolding decide_turn_def by auto
  then have "\<exists>x. decide ctx deps = Inr x" unfolding decide_def by (auto split: option.splits)
  then show ?thesis unfolding decideAction_def by auto
qed

end
