(* ===== verification/Bounded_Steps.thy ===== *)
theory Bounded_Steps
  imports Prelude
begin

text \<open>
  The bounded loop the orchestrator drives its stages with: take a step while one is due, at most
  \<open>n\<close> times. The interface \<open>forward_machine\<close> asks that every step raises a rank that is bounded;
  its lemmas say that the loop then reaches a state where no step is due, and which steps it took.
\<close>

fun run_steps :: "('s \<Rightarrow> 's option) \<Rightarrow> nat \<Rightarrow> 's \<Rightarrow> 's" where
  "run_steps move 0 s = s"
| "run_steps move (Suc n) s = (case move s of None \<Rightarrow> s | Some t \<Rightarrow> run_steps move n t)"

fun trace_steps :: "('s \<Rightarrow> 's option) \<Rightarrow> nat \<Rightarrow> 's \<Rightarrow> 's list" where
  "trace_steps move 0 s = [s]"
| "trace_steps move (Suc n) s = (case move s of None \<Rightarrow> [s] | Some t \<Rightarrow> s # trace_steps move n t)"

lemma last_trace_steps: "last (trace_steps move n s) = run_steps move n s"
proof (induction n arbitrary: s)
  case (Suc n)
  have "trace_steps move n t \<noteq> []" for t by (cases n) (auto split: option.splits)
  with Suc show ?case by (auto split: option.splits)
qed simp

text \<open>An invariant of the step is an invariant of the loop.\<close>

lemma run_steps_invariant:
  assumes "I s" and "\<And>a b. I a \<Longrightarrow> move a = Some b \<Longrightarrow> I b"
  shows "I (run_steps move n s)"
  using assms(1) by (induction n arbitrary: s) (auto split: option.splits intro: assms(2))

locale forward_machine =
  fixes move :: "'s \<Rightarrow> 's option" and rank :: "'s \<Rightarrow> nat" and top :: nat
  assumes forward: "move s = Some t \<Longrightarrow> rank s < rank t"
    and bounded: "move s = Some t \<Longrightarrow> rank t \<le> top"
begin

lemma settles: "top - rank s \<le> n \<Longrightarrow> move (run_steps move n s) = None"
proof (induction n arbitrary: s)
  case 0
  show ?case
  proof (cases "move s")
    case (Some t)
    with 0 forward [OF Some] bounded [OF Some] show ?thesis by simp
  qed simp
next
  case (Suc n)
  show ?case
  proof (cases "move s")
    case (Some t)
    with Suc.prems forward [OF Some] have "top - rank t \<le> n" by simp
    with Suc.IH Some show ?thesis by simp
  qed simp
qed

text \<open>More fuel than needed changes nothing.\<close>

lemma settled_stable: "move s = None \<Longrightarrow> run_steps move n s = s"
  by (cases n) simp_all

lemma enough: "top - rank s \<le> m \<Longrightarrow> m \<le> n \<Longrightarrow> run_steps move n s = run_steps move m s"
proof (induction m arbitrary: s n)
  case 0
  then have "move s = None" using settles [of s 0] by simp
  then show ?case by (simp add: settled_stable)
next
  case (Suc m)
  then obtain n' where n': "n = Suc n'" by (cases n) auto
  show ?case
  proof (cases "move s")
    case (Some t)
    with Suc.prems forward [OF Some] have "top - rank t \<le> m" by simp
    then have "run_steps move n' t = run_steps move m t"
      using Suc.IH [of t n'] Suc.prems(2) n' by simp
    with Some n' show ?thesis by simp
  qed (simp add: n')
qed

lemma never_back: "rank s \<le> rank (run_steps move n s)"
proof (induction n arbitrary: s)
  case (Suc n)
  show ?case
  proof (cases "move s")
    case (Some t)
    have "rank s \<le> rank t" using forward [OF Some] by simp
    with Suc.IH [of t] Some show ?thesis by simp
  qed simp
qed simp

end

end
