(* ===== verification/StageAdvance.thy ===== *)
theory StageAdvance
  imports Policy StateMachine Bounded_Steps
begin

text \<open>
  \<open>orchestrator/stage-advance.ts\<close>: which stage the evidence on record justifies next. The stage of
  the signals is the field \<open>sg_state\<close>; the reason of an advance is a constructor with its values.
\<close>

definition REASONING_TURNS_TO_LEAVE_CLARIFICATION :: nat where
  "REASONING_TURNS_TO_LEAVE_CLARIFICATION = 2"

definition REASONING_INTENTS :: "turn_intent list" where
  "REASONING_INTENTS = [THINK_ALOUD, APPROACH_COMMITMENT, COMPLEXITY_CLAIM, TEST_PLAN, DONE_SIGNAL]"

definition isReasoningIntent :: "turn_intent \<Rightarrow> bool" where
  "isReasoningIntent i \<longleftrightarrow> i \<in> set REASONING_INTENTS"

fun TOWARD_WRAP_UP :: "interview_state \<Rightarrow> interview_state option" where
  "TOWARD_WRAP_UP ORAL_PROBLEM_DELIVERY = Some CLARIFICATION"
| "TOWARD_WRAP_UP CLARIFICATION = Some APPROACH_EXPLORATION"
| "TOWARD_WRAP_UP APPROACH_EXPLORATION = Some IMPLEMENTATION"
| "TOWARD_WRAP_UP IMPLEMENTATION = Some TEST_AND_DEBUG"
| "TOWARD_WRAP_UP TEST_AND_DEBUG = Some WRAP_UP"
| "TOWARD_WRAP_UP FOLLOW_UP = Some WRAP_UP"
| "TOWARD_WRAP_UP WRAP_UP = None"
| "TOWARD_WRAP_UP EVALUATION = None"

record stage_signals =
  sg_state :: interview_state
  sg_policy :: interview_policy
  sg_briefDeliveryCount :: nat
  sg_reasoningTurnsInStage :: nat
  sg_latestCodeRevision :: real
  sg_approachCommitted :: bool
  sg_runsStarted :: nat
  sg_milestones :: "milestone_kind list"
  sg_remainingSeconds :: real
  sg_followUpsPresented :: nat
  sg_followUpsAvailable :: nat

datatype advance_reason =
    TimeRemaining real real
  | BriefDelivered
  | StartedWriting
  | CommittedApproach
  | ReasoningTurns nat
  | FirstRevision real
  | RanCode
  | BaseTestsPass real real
  | FollowUpsExhausted

type_synonym stage_advance = "interview_state \<times> advance_reason"

definition timePressure :: "stage_signals \<Rightarrow> stage_advance option" where
  "timePressure sg =
     (if sg_briefDeliveryCount sg = 0 then None
      else if sg_remainingSeconds sg > wrapUpSeconds (sg_policy sg) then None
      else (case TOWARD_WRAP_UP (sg_state sg) of
              None \<Rightarrow> None
            | Some to_state \<Rightarrow> Some (to_state, TimeRemaining (sg_remainingSeconds sg) (wrapUpSeconds (sg_policy sg)))))"

definition byProgress :: "stage_signals \<Rightarrow> stage_advance option" where
  "byProgress sg = (case sg_state sg of
     ORAL_PROBLEM_DELIVERY \<Rightarrow>
       if sg_briefDeliveryCount sg > 0 then Some (CLARIFICATION, BriefDelivered) else None
   | CLARIFICATION \<Rightarrow>
       if sg_latestCodeRevision sg > 0 then Some (APPROACH_EXPLORATION, StartedWriting)
       else if sg_approachCommitted sg then Some (APPROACH_EXPLORATION, CommittedApproach)
       else if sg_reasoningTurnsInStage sg \<ge> REASONING_TURNS_TO_LEAVE_CLARIFICATION
         then Some (APPROACH_EXPLORATION, ReasoningTurns (sg_reasoningTurnsInStage sg))
       else None
   | APPROACH_EXPLORATION \<Rightarrow>
       if sg_latestCodeRevision sg > 0 then Some (IMPLEMENTATION, FirstRevision (sg_latestCodeRevision sg)) else None
   | IMPLEMENTATION \<Rightarrow>
       if sg_runsStarted sg > 0 then Some (TEST_AND_DEBUG, RanCode) else None
   | TEST_AND_DEBUG \<Rightarrow>
       if BASE_TESTS_PASS \<notin> set (sg_milestones sg) then None
       else if sg_followUpsPresented sg \<ge> sg_followUpsAvailable sg then None
       else if sg_remainingSeconds sg < followUpMinSeconds (sg_policy sg) then None
       else Some (FOLLOW_UP, BaseTestsPass (sg_remainingSeconds sg) (followUpMinSeconds (sg_policy sg)))
   | FOLLOW_UP \<Rightarrow>
       if sg_followUpsPresented sg \<ge> sg_followUpsAvailable sg then Some (WRAP_UP, FollowUpsExhausted) else None
   | _ \<Rightarrow> None)"

definition nextStage :: "stage_signals \<Rightarrow> stage_advance option" where
  "nextStage sg =
     (if \<not> isActionAllowed (sg_state sg) TRANSITION_STAGE then None
      else (case (case timePressure sg of Some a \<Rightarrow> Some a | None \<Rightarrow> byProgress sg) of
              None \<Rightarrow> None
            | Some advance \<Rightarrow>
                if \<not> isTransitionAllowed (sg_state sg) (fst advance) then None else Some advance))"

text \<open>
  One iteration of the loop of \<open>advanceStages\<close> on the signals: the stage moves and the count of
  reasoning turns is reset; every other signal stays what it was.
\<close>

definition advance_signals :: "stage_signals \<Rightarrow> stage_signals option" where
  "advance_signals sg =
     (case nextStage sg of
        None \<Rightarrow> None
      | Some (to_state, _) \<Rightarrow> Some (sg\<lparr>sg_state := to_state, sg_reasoningTurnsInStage := 0\<rparr>))"

text \<open>\<open>STAGE_ADVANCE_LIMIT\<close> of \<open>runtime.ts\<close>.\<close>

definition STAGE_ADVANCE_LIMIT :: nat where
  "STAGE_ADVANCE_LIMIT = 8"

definition settle_stages :: "stage_signals \<Rightarrow> stage_signals" where
  "settle_stages sg = run_steps advance_signals STAGE_ADVANCE_LIMIT sg"

section \<open>Every advance is legal\<close>

lemma nextStage_legal:
  "nextStage sg = Some (to_state, why) \<Longrightarrow> isTransitionAllowed (sg_state sg) to_state"
  by (auto simp: nextStage_def split: if_splits option.splits)

lemma nextStage_leaves: "nextStage sg = Some a \<Longrightarrow> sg_state sg \<noteq> WRAP_UP \<and> sg_state sg \<noteq> EVALUATION"
  by (auto simp: nextStage_def split: if_splits)

lemma nextStage_not_evaluation: "nextStage sg = Some (to_state, why) \<Longrightarrow> to_state \<noteq> EVALUATION"
  using nextStage_legal [of sg to_state why] nextStage_leaves [of sg]
  by (cases "sg_state sg") (auto simp: isTransitionAllowed_def)

lemma advance_signals_Some:
  assumes "advance_signals sg = Some sg'"
  obtains to_state why where "nextStage sg = Some (to_state, why)"
    and "sg' = sg\<lparr>sg_state := to_state, sg_reasoningTurnsInStage := 0\<rparr>"
  using assms by (auto simp: advance_signals_def split: option.splits)

lemma advance_signals_None: "advance_signals sg = None \<longleftrightarrow> nextStage sg = None"
  by (auto simp: advance_signals_def split: option.splits)

text \<open>The check before the return is never what refuses: both rules only name legal stages.\<close>

lemma rules_legal:
  "timePressure sg = Some (to_state, why) \<or> byProgress sg = Some (to_state, why) \<Longrightarrow>
     isTransitionAllowed (sg_state sg) to_state"
  by (cases "sg_state sg")
     (auto simp: timePressure_def byProgress_def isTransitionAllowed_def split: if_splits)

interpretation stages: forward_machine advance_signals "\<lambda>sg. stage_index (sg_state sg)" 6
proof
  fix sg sg'
  assume step: "advance_signals sg = Some sg'"
  then obtain to_state why where n: "nextStage sg = Some (to_state, why)" and sg': "sg_state sg' = to_state"
    by (auto elim!: advance_signals_Some)
  then show "stage_index (sg_state sg) < stage_index (sg_state sg')"
    using transition_forward [OF nextStage_legal [OF n]] by (simp add: stage_order)
  from nextStage_not_evaluation [OF n] sg' show "stage_index (sg_state sg') \<le> 6"
    by (cases "sg_state sg'") simp_all
qed

text \<open>The bound of the loop is never what stops it.\<close>

lemma settle_stages_fixpoint: "nextStage (settle_stages sg) = None"
  using stages.settles [of sg STAGE_ADVANCE_LIMIT]
  by (simp add: settle_stages_def STAGE_ADVANCE_LIMIT_def advance_signals_None)

lemma settle_stages_forward: "sg_state sg \<le> sg_state (settle_stages sg)"
  using stages.never_back [of sg STAGE_ADVANCE_LIMIT] by (simp add: settle_stages_def stage_order)

lemma settle_stages_not_evaluation:
  "sg_state sg \<noteq> EVALUATION \<Longrightarrow> sg_state (settle_stages sg) \<noteq> EVALUATION"
  unfolding settle_stages_def
  by (rule run_steps_invariant [where I = "\<lambda>x. sg_state x \<noteq> EVALUATION"])
     (auto elim!: advance_signals_Some dest: nextStage_not_evaluation)

text \<open>What the loop leaves alone: everything but the stage and the count of reasoning turns.\<close>

lemma settle_stages_same:
  "sg_policy (settle_stages sg) = sg_policy sg"
  "sg_briefDeliveryCount (settle_stages sg) = sg_briefDeliveryCount sg"
  "sg_remainingSeconds (settle_stages sg) = sg_remainingSeconds sg"
  "sg_latestCodeRevision (settle_stages sg) = sg_latestCodeRevision sg"
  unfolding settle_stages_def
  by (rule run_steps_invariant [where I = "\<lambda>x. _ x = _ sg"], auto elim!: advance_signals_Some)+

section \<open>Where the evidence leads\<close>

text \<open>Under time pressure the loop ends in \<open>WRAP_UP\<close>, whatever the candidate is doing.\<close>

lemma timePressure_due:
  "sg_briefDeliveryCount sg > 0 \<Longrightarrow> sg_remainingSeconds sg \<le> wrapUpSeconds (sg_policy sg) \<Longrightarrow>
     sg_state sg \<noteq> WRAP_UP \<Longrightarrow> sg_state sg \<noteq> EVALUATION \<Longrightarrow> nextStage sg \<noteq> None"
  by (cases "sg_state sg") (auto simp: nextStage_def timePressure_def isTransitionAllowed_def)

lemma settle_stages_time_pressure:
  assumes "sg_briefDeliveryCount sg > 0" and "sg_remainingSeconds sg \<le> wrapUpSeconds (sg_policy sg)"
    and "sg_state sg \<noteq> EVALUATION"
  shows "sg_state (settle_stages sg) = WRAP_UP"
  using timePressure_due [of "settle_stages sg"] settle_stages_fixpoint [of sg]
    settle_stages_not_evaluation [OF assms(3)] assms(1,2) settle_stages_same [of sg]
  by auto

text \<open>Nothing moves before the brief was delivered.\<close>

lemma settle_stages_unopened:
  "sg_state sg = ORAL_PROBLEM_DELIVERY \<Longrightarrow> sg_briefDeliveryCount sg = 0 \<Longrightarrow> settle_stages sg = sg"
  unfolding settle_stages_def
  by (rule stages.settled_stable)
     (simp add: advance_signals_None nextStage_def timePressure_def byProgress_def)

text \<open>Typing is a vote: with the brief delivered and code on record, the session is past exploring.\<close>

lemma settle_stages_code:
  assumes "sg_briefDeliveryCount sg > 0" and "sg_latestCodeRevision sg > 0"
  shows "IMPLEMENTATION \<le> sg_state (settle_stages sg)"
proof -
  let ?s = "settle_stages sg"
  have "nextStage ?s = None" by (rule settle_stages_fixpoint)
  with assms settle_stages_same [of sg] show ?thesis
    by (cases "sg_state ?s")
       (auto simp: stage_order nextStage_def timePressure_def byProgress_def isTransitionAllowed_def
         split: option.splits if_splits)
qed

end
