(* ===== verification/Snapshot.thy ===== *)
theory Snapshot
  imports Contracts "HOL-Library.List_Lexorder" "HOL-Library.Char_ord"
begin

text \<open>
  \<open>observer/semantic-snapshot.ts\<close>: the structural summary of the candidate's code. The parser is
  third-party code (tree-sitter, compiled to WASM): it is the parameter \<open>parse\<close> of \<open>buildSnapshot\<close>,
  a function from source text to the root of a syntax tree, or to nothing. A node of the tree is
  described by what the code reads of it: its type, its text, its rows, whether it contains an
  error, and its children, each with the field name it has in its parent and whether it is named.
  The time stamp \<open>parsedAt\<close>, which no code reads, is left out.
\<close>

datatype ts_node = TsNode
  (node_type: string) (node_text: string) (start_row: nat) (end_row: nat) (has_error: bool)
  (kids: "ts_child list")
and ts_child = TsChild (field_name: "string option") (named: bool) (kid: ts_node)

definition childForFieldName :: "ts_node \<Rightarrow> string \<Rightarrow> ts_node option" where
  "childForFieldName n f = map_option kid (List.find (\<lambda>c. field_name c = Some f) (kids n))"

definition namedChildren :: "ts_node \<Rightarrow> ts_node list" where
  "namedChildren n = map kid (filter named (kids n))"

record function_summary =
  fn_name :: string
  fn_params :: "string list"
  startLine :: nat
  endLine :: nat
  recursive :: bool
  loopCount :: nat
  maxLoopDepth :: nat
  hasEarlyReturn :: bool

record line_stats =
  totalLines :: nat
  nonEmptyLines :: nat
  changedRegions :: "(nat \<times> nat) list"
  churn :: real

record semantic_snapshot = line_stats +
  revision :: real
  syntaxValid :: bool
  snap_functions :: "function_summary list"
  dataStructures :: "string list"
  callsMade :: "string list"

definition CONTAINER_NAMES :: "string list" where
  "CONTAINER_NAMES =
     [''set'', ''dict'', ''list'', ''tuple'', ''frozenset'',
      ''defaultdict'', ''Counter'', ''OrderedDict'', ''deque'', ''heapq'']"

section \<open>Walking the tree\<close>

text \<open>\<open>walk(node, visit)\<close>: the visitor, which updates the enclosing variables, threads an accumulator.\<close>

fun walk :: "(ts_node \<Rightarrow> 'a \<Rightarrow> 'a) \<Rightarrow> ts_node \<Rightarrow> 'a \<Rightarrow> 'a"
and walk_kids :: "(ts_node \<Rightarrow> 'a \<Rightarrow> 'a) \<Rightarrow> ts_child list \<Rightarrow> 'a \<Rightarrow> 'a" where
  "walk visit (TsNode ty tx sr er he cs) acc = walk_kids visit cs (visit (TsNode ty tx sr er he cs) acc)"
| "walk_kids visit [] acc = acc"
| "walk_kids visit (TsChild f nm n # cs) acc = walk_kids visit cs (walk visit n acc)"

definition is_loop :: "ts_node \<Rightarrow> bool" where
  "is_loop n \<longleftrightarrow> node_type n = ''for_statement'' \<or> node_type n = ''while_statement''"

fun walkDepth :: "(ts_node \<Rightarrow> nat \<Rightarrow> 'a \<Rightarrow> 'a) \<Rightarrow> ts_node \<Rightarrow> nat \<Rightarrow> 'a \<Rightarrow> 'a"
and walkDepth_kids :: "(ts_node \<Rightarrow> nat \<Rightarrow> 'a \<Rightarrow> 'a) \<Rightarrow> ts_child list \<Rightarrow> nat \<Rightarrow> 'a \<Rightarrow> 'a" where
  "walkDepth visit (TsNode ty tx sr er he cs) d acc =
     (let n = TsNode ty tx sr er he cs
      in walkDepth_kids visit cs (if is_loop n then d + 1 else d) (visit n d acc))"
| "walkDepth_kids visit [] d acc = acc"
| "walkDepth_kids visit (TsChild f nm n # cs) d acc = walkDepth_kids visit cs d (walkDepth visit n d acc)"

text \<open>The four variables \<open>summarizeFunction\<close> collects.\<close>

record body_facts =
  bf_loopCount :: nat
  bf_maxLoopDepth :: nat
  bf_hasEarlyReturn :: bool
  bf_recursive :: bool

definition visit_body :: "string \<Rightarrow> ts_node \<Rightarrow> nat \<Rightarrow> body_facts \<Rightarrow> body_facts" where
  "visit_body name child depth b =
     (let b1 = (if is_loop child
                then b\<lparr>bf_loopCount := bf_loopCount b + 1, bf_maxLoopDepth := max (bf_maxLoopDepth b) (depth + 1)\<rparr>
                else b);
          b2 = (if node_type child = ''return_statement'' \<and> depth > 0 then b1\<lparr>bf_hasEarlyReturn := True\<rparr> else b1)
      in if node_type child = ''call'' \<and> map_option node_text (childForFieldName child ''function'') = Some name
         then b2\<lparr>bf_recursive := True\<rparr> else b2)"

definition no_facts :: body_facts where
  "no_facts = \<lparr>bf_loopCount = 0, bf_maxLoopDepth = 0, bf_hasEarlyReturn = False, bf_recursive = False\<rparr>"

definition summarizeFunction :: "ts_node \<Rightarrow> function_summary" where
  "summarizeFunction node =
     (let name = (case childForFieldName node ''name'' of Some n \<Rightarrow> node_text n | None \<Rightarrow> ''<anonymous>'');
          params = (case childForFieldName node ''parameters'' of
                      Some ps \<Rightarrow> map node_text (namedChildren ps) | None \<Rightarrow> []);
          b = (case childForFieldName node ''body'' of
                 Some body \<Rightarrow> walkDepth (visit_body name) body 0 no_facts | None \<Rightarrow> no_facts)
      in \<lparr>fn_name = name, fn_params = params, startLine = start_row node, endLine = end_row node,
          recursive = bf_recursive b, loopCount = bf_loopCount b, maxLoopDepth = bf_maxLoopDepth b,
          hasEarlyReturn = bf_hasEarlyReturn b\<rparr>)"

section \<open>Line statistics\<close>

text \<open>\<open>xs[i]\<close>, \<open>undefined\<close> past the end.\<close>

definition nth_opt :: "'a list \<Rightarrow> nat \<Rightarrow> 'a option" where
  "nth_opt xs i = (if i < length xs then Some (xs ! i) else None)"

text \<open>The body of the loop: the count of changed lines, the open region, and the closed ones.\<close>

type_synonym diff_state = "nat \<times> nat option \<times> (nat \<times> nat) list"

definition diff_line :: "string list \<Rightarrow> string list \<Rightarrow> diff_state \<Rightarrow> nat \<Rightarrow> diff_state" where
  "diff_line new old st i =
     (case st of (changed, opened, regions) \<Rightarrow>
        if nth_opt new i \<noteq> nth_opt old i
        then (changed + 1, (case opened of None \<Rightarrow> Some i | Some s \<Rightarrow> Some s), regions)
        else (case opened of
                Some s \<Rightarrow> (changed, None, regions @ [(s, i - 1)])
              | None \<Rightarrow> (changed, None, regions)))"

definition diff_lines :: "string list \<Rightarrow> string list \<Rightarrow> nat \<Rightarrow> diff_state" where
  "diff_lines new old m = foldl (diff_line new old) (0, None, []) [0..<m]"

definition lineStats :: "string \<Rightarrow> string option \<Rightarrow> line_stats" where
  "lineStats code previousCode =
     (let lns = split_char (CHR 0x0A) code;
          nonEmpty = length (filter (\<lambda>l. trim l \<noteq> []) lns)
      in case previousCode of
           None \<Rightarrow> \<lparr>totalLines = length lns, nonEmptyLines = nonEmpty, changedRegions = [], churn = 0\<rparr>
         | Some pc \<Rightarrow>
             (let prev = split_char (CHR 0x0A) pc;
                  m = max (length lns) (length prev)
              in case diff_lines lns prev m of (changed, opened, regions) \<Rightarrow>
                   \<lparr>totalLines = length lns, nonEmptyLines = nonEmpty,
                    changedRegions = (case opened of Some s \<Rightarrow> regions @ [(s, m - 1)] | None \<Rightarrow> regions),
                    churn = (if m = 0 then 0 else real changed / real m)\<rparr>))"

section \<open>The snapshot\<close>

record seen =
  seen_functions :: "function_summary list"
  seen_structures :: "string list"
  seen_calls :: "string list"

text \<open>\<open>Set.add\<close> on a list kept in insertion order.\<close>

definition add_once :: "'a \<Rightarrow> 'a list \<Rightarrow> 'a list" where
  "add_once x xs = (if x \<in> set xs then xs else xs @ [x])"

definition visit_root :: "ts_node \<Rightarrow> seen \<Rightarrow> seen" where
  "visit_root node s =
     (let s1 = (if node_type node = ''function_definition''
                then s\<lparr>seen_functions := seen_functions s @ [summarizeFunction node]\<rparr> else s);
          name = (case childForFieldName node ''function'' of Some f \<Rightarrow> node_text f | None \<Rightarrow> []);
          base = last (split_char (CHR ''.'') name);
          s2 = (if node_type node = ''call'' \<and> name \<noteq> []
                then s1\<lparr>seen_calls := add_once name (seen_calls s1),
                        seen_structures := (if name \<in> set CONTAINER_NAMES \<or> base \<in> set CONTAINER_NAMES
                                            then add_once base (seen_structures s1) else seen_structures s1)\<rparr>
                else s1);
          lit = (\<lambda>kinds what s. if node_type node \<in> set kinds
                                then s\<lparr>seen_structures := add_once what (seen_structures s)\<rparr> else s)
      in lit [''list'', ''list_comprehension''] ''list''
           (lit [''dictionary'', ''dictionary_comprehension''] ''dict''
             (lit [''set'', ''set_comprehension''] ''set'' s2)))"

definition with_lines :: "line_stats \<Rightarrow> real \<Rightarrow> bool \<Rightarrow> function_summary list \<Rightarrow> string list \<Rightarrow> string list
    \<Rightarrow> semantic_snapshot" where
  "with_lines ls rv ok fns ds cm =
     \<lparr>totalLines = totalLines ls, nonEmptyLines = nonEmptyLines ls, changedRegions = changedRegions ls,
      churn = churn ls, revision = rv, syntaxValid = ok, snap_functions = fns, dataStructures = ds, callsMade = cm\<rparr>"

definition emptySnapshot :: "real \<Rightarrow> string \<Rightarrow> string option \<Rightarrow> semantic_snapshot" where
  "emptySnapshot rv code previous = with_lines (lineStats code previous) rv False [] [] []"

definition buildSnapshot ::
  "(string \<Rightarrow> ts_node option) \<Rightarrow> string \<Rightarrow> real \<Rightarrow> string option \<Rightarrow> semantic_snapshot" where
  "buildSnapshot parse code rv previous =
     (case parse code of
        None \<Rightarrow> emptySnapshot rv code previous
      | Some rootNode \<Rightarrow>
          (let s = walk visit_root rootNode \<lparr>seen_functions = [], seen_structures = [], seen_calls = []\<rparr>
           in with_lines (lineStats code previous) rv (\<not> has_error rootNode) (seen_functions s)
                (sort (seen_structures s)) (sort (seen_calls s))))"

definition detectSolutionFamily :: "semantic_snapshot \<Rightarrow> string option" where
  "detectSolutionFamily snap =
     (case snap_functions snap of
        [] \<Rightarrow> None
      | fn # _ \<Rightarrow>
          (let hasHashContainer =
                 ''set'' \<in> set (dataStructures snap) \<or> ''dict'' \<in> set (dataStructures snap) \<or>
                 ''Counter'' \<in> set (dataStructures snap) \<or> ''defaultdict'' \<in> set (dataStructures snap);
               sorts = list_ex (\<lambda>c. c = ''sorted'' \<or> ends_with c ''.sort'') (callsMade snap)
           in if maxLoopDepth fn \<ge> 2 then Some ''sf-nested-loop''
              else if sorts then Some ''sf-sort''
              else if hasHashContainer \<and> loopCount fn = 1 then Some ''sf-set-single-pass''
              else if hasHashContainer \<and> loopCount fn \<ge> 2 then Some ''sf-count-then-scan''
              else None))"

text \<open>The only families the detector names.\<close>

definition DETECTABLE :: "string list" where
  "DETECTABLE = [''sf-nested-loop'', ''sf-sort'', ''sf-set-single-pass'', ''sf-count-then-scan'']"

lemma detectSolutionFamily_range: "detectSolutionFamily snap = Some f \<Longrightarrow> f \<in> set DETECTABLE"
  by (auto simp: detectSolutionFamily_def DETECTABLE_def Let_def split: list.splits if_splits)

section \<open>The line diff\<close>

definition differs :: "string list \<Rightarrow> string list \<Rightarrow> nat \<Rightarrow> bool" where
  "differs new old i \<longleftrightarrow> nth_opt new i \<noteq> nth_opt old i"

text \<open>Regions in order and apart: a line that did not change lies between any two of them.\<close>

definition apart :: "(nat \<times> nat) list \<Rightarrow> bool" where
  "apart rs \<longleftrightarrow> sorted_wrt (\<lambda>(a, b) (c, d). Suc b < c) rs \<and> (\<forall>(a, b)\<in>set rs. a \<le> b)"

definition covered :: "(nat \<times> nat) list \<Rightarrow> nat set" where
  "covered rs = (\<Union>(a, b)\<in>set rs. {a..b})"

lemma covered_simps [simp]:
  "covered [] = {}" "covered ((a, b) # rs) = {a..b} \<union> covered rs" "covered (rs @ qs) = covered rs \<union> covered qs"
  by (auto simp: covered_def)

text \<open>What the loop has established after \<open>m\<close> lines.\<close>

definition diff_inv :: "string list \<Rightarrow> string list \<Rightarrow> nat \<Rightarrow> diff_state \<Rightarrow> bool" where
  "diff_inv new old m st \<longleftrightarrow>
     (case st of (changed, opened, regions) \<Rightarrow>
        changed = card {i. i < m \<and> differs new old i} \<and> apart regions \<and>
        (\<forall>(a, b)\<in>set regions. Suc b < (case opened of None \<Rightarrow> m | Some s \<Rightarrow> s)) \<and>
        (case opened of
           None \<Rightarrow> {i. i < m \<and> differs new old i} = covered regions
         | Some s \<Rightarrow> s < m \<and> {i. i < m \<and> differs new old i} = covered regions \<union> {s..<m}))"

lemma differs_Suc:
  "{i. i < Suc m \<and> differs new old i} =
     (if differs new old m then insert m {i. i < m \<and> differs new old i} else {i. i < m \<and> differs new old i})"
  by (auto simp: less_Suc_eq)

lemma diff_line_inv:
  assumes "diff_inv new old m st"
  shows "diff_inv new old (Suc m) (diff_line new old st m)"
proof -
  obtain changed opened regions where st: "st = (changed, opened, regions)" by (cases st)
  have card: "card (insert m {i. i < m \<and> differs new old i}) = Suc (card {i. i < m \<and> differs new old i})"
    by simp
  show ?thesis
  proof (cases opened)
    case None
    with assms st card show ?thesis
      by (fastforce simp: diff_inv_def diff_line_def differs_Suc differs_def [symmetric])
  next
    case (Some s)
    show ?thesis
    proof (cases "differs new old m")
      case True
      with assms st card Some show ?thesis
        by (auto simp: diff_inv_def diff_line_def differs_Suc differs_def [symmetric])
    next
      case False
      with assms st Some have "diff_line new old st m = (changed, None, regions @ [(s, m - 1)])"
        by (simp add: diff_line_def differs_def)
      moreover have "{s..m - 1} = {s..<m}" "s < m" using assms st Some by (auto simp: diff_inv_def)
      moreover have "apart (regions @ [(s, m - 1)])"
        using assms st Some by (fastforce simp: diff_inv_def apart_def sorted_wrt_append)
      ultimately show ?thesis using assms st Some False
        by (fastforce simp: diff_inv_def differs_Suc)
    qed
  qed
qed

lemma diff_lines_inv: "diff_inv new old m (diff_lines new old m)"
proof (induction m)
  case 0
  show ?case by (simp add: diff_inv_def diff_lines_def apart_def)
next
  case (Suc m)
  have "diff_lines new old (Suc m) = diff_line new old (diff_lines new old m) m"
    by (simp add: diff_lines_def)
  with diff_line_inv [OF Suc] show ?case by simp
qed

text \<open>The changed regions of a snapshot cover exactly the lines that differ, and churn is their share.\<close>

lemma lineStats_regions:
  fixes code pc
  defines "new \<equiv> split_char (CHR 0x0A) code" and "old \<equiv> split_char (CHR 0x0A) pc"
  defines "m \<equiv> max (length new) (length old)"
  shows "covered (changedRegions (lineStats code (Some pc))) = {i. i < m \<and> differs new old i}"
    and "apart (changedRegions (lineStats code (Some pc)))"
    and "churn (lineStats code (Some pc)) = real (card {i. i < m \<and> differs new old i}) / real m"
proof -
  obtain changed opened regions where d: "diff_lines new old m = (changed, opened, regions)"
    by (cases "diff_lines new old m")
  have inv: "diff_inv new old m (changed, opened, regions)"
    using diff_lines_inv [of new old m] d by simp
  have stats: "lineStats code (Some pc) =
      \<lparr>totalLines = length new, nonEmptyLines = length (filter (\<lambda>l. trim l \<noteq> []) new),
       changedRegions = (case opened of Some s \<Rightarrow> regions @ [(s, m - 1)] | None \<Rightarrow> regions),
       churn = (if m = 0 then 0 else real changed / real m)\<rparr>"
    using d unfolding lineStats_def Let_def option.case new_def [symmetric] old_def [symmetric] m_def [symmetric]
    by simp
  have "{s..<m} = {s..m - 1}" if "s < m" for s using that by auto
  then show "covered (changedRegions (lineStats code (Some pc))) = {i. i < m \<and> differs new old i}"
    using inv stats by (auto simp: diff_inv_def split: option.splits)
  show "apart (changedRegions (lineStats code (Some pc)))"
    using inv stats by (fastforce simp: diff_inv_def apart_def sorted_wrt_append split: option.splits)
  have "m \<noteq> 0" by (simp add: m_def new_def old_def max_def)
  then show "churn (lineStats code (Some pc)) = real (card {i. i < m \<and> differs new old i}) / real m"
    using inv stats by (simp add: diff_inv_def)
qed

lemma churn_range: "0 \<le> churn (lineStats code previous)" "churn (lineStats code previous) \<le> 1"
proof -
  have le: "card {i. i < m \<and> differs new old i} \<le> m" for m new old
    using card_mono [of "{..<m}" "{i. i < m \<and> differs new old i}"] by fastforce
  show "0 \<le> churn (lineStats code previous)"
  proof (cases previous)
    case None
    then show ?thesis by (simp add: lineStats_def Let_def)
  qed (simp add: lineStats_regions(3))
  show "churn (lineStats code previous) \<le> 1"
  proof (cases previous)
    case None
    then show ?thesis by (simp add: lineStats_def Let_def)
  next
    case (Some pc)
    let ?m = "max (length (split_char (CHR 0x0A) code)) (length (split_char (CHR 0x0A) pc))"
    have "0 < ?m" by (simp add: max_def)
    with le [of ?m] Some show ?thesis by (simp add: lineStats_regions(3))
  qed
qed

lemma nth_opt_eq_iff: "(\<forall>i < max (length xs) (length ys). nth_opt xs i = nth_opt ys i) \<longleftrightarrow> xs = ys"
proof
  assume eq: "\<forall>i < max (length xs) (length ys). nth_opt xs i = nth_opt ys i"
  have len: "length xs = length ys"
  proof (rule ccontr)
    assume ne: "length xs \<noteq> length ys"
    let ?i = "min (length xs) (length ys)"
    from ne eq have "nth_opt xs ?i = nth_opt ys ?i" by auto
    with ne show False by (auto simp: nth_opt_def min_def split: if_splits)
  qed
  with eq show "xs = ys" by (auto intro!: nth_equalityI simp: nth_opt_def)
qed simp

lemma churn_zero_iff: "churn (lineStats code (Some pc)) = 0 \<longleftrightarrow> code = pc"
proof -
  let ?new = "split_char (CHR 0x0A) code" and ?old = "split_char (CHR 0x0A) pc"
  let ?m = "max (length ?new) (length ?old)"
  have "0 < ?m" by (simp add: max_def)
  moreover have "finite {i. i < ?m \<and> differs ?new ?old i}" by simp
  ultimately have "churn (lineStats code (Some pc)) = 0 \<longleftrightarrow> {i. i < ?m \<and> differs ?new ?old i} = {}"
    by (simp add: lineStats_regions(3))
  also have "\<dots> \<longleftrightarrow> (\<forall>i < ?m. nth_opt ?new i = nth_opt ?old i)" by (auto simp: differs_def)
  also have "\<dots> \<longleftrightarrow> ?new = ?old" by (rule nth_opt_eq_iff)
  also have "\<dots> \<longleftrightarrow> code = pc" using join_split_char by metis
  finally show ?thesis .
qed

section \<open>Loops and their depth\<close>

text \<open>The reference definitions: how many loops a body has, and how deep they nest.\<close>

fun loops :: "ts_node \<Rightarrow> nat" and loops_kids :: "ts_child list \<Rightarrow> nat" where
  "loops (TsNode ty tx sr er he cs) = (if is_loop (TsNode ty tx sr er he cs) then 1 else 0) + loops_kids cs"
| "loops_kids [] = 0"
| "loops_kids (TsChild f nm n # cs) = loops n + loops_kids cs"

fun nesting :: "ts_node \<Rightarrow> nat" and nesting_kids :: "ts_child list \<Rightarrow> nat" where
  "nesting (TsNode ty tx sr er he cs) = (if is_loop (TsNode ty tx sr er he cs) then 1 else 0) + nesting_kids cs"
| "nesting_kids [] = 0"
| "nesting_kids (TsChild f nm n # cs) = max (nesting n) (nesting_kids cs)"

lemma visit_body_sel [simp]:
  "bf_loopCount (visit_body name n d b) = bf_loopCount b + (if is_loop n then 1 else 0)"
  "bf_maxLoopDepth (visit_body name n d b) = (if is_loop n then max (bf_maxLoopDepth b) (d + 1) else bf_maxLoopDepth b)"
  by (simp_all add: visit_body_def Let_def)

lemma walkDepth_loops:
  "bf_loopCount (walkDepth (visit_body name) n d b) = bf_loopCount b + loops n"
  "bf_loopCount (walkDepth_kids (visit_body name) cs d b) = bf_loopCount b + loops_kids cs"
  by (induction n and cs arbitrary: d b and d b rule: loops_loops_kids.induct) (simp_all add: Let_def)

lemma walkDepth_nesting:
  "bf_maxLoopDepth (walkDepth (visit_body name) n d b) =
     (if nesting n = 0 then bf_maxLoopDepth b else max (bf_maxLoopDepth b) (d + nesting n))"
  "bf_maxLoopDepth (walkDepth_kids (visit_body name) cs d b) =
     (if nesting_kids cs = 0 then bf_maxLoopDepth b else max (bf_maxLoopDepth b) (d + nesting_kids cs))"
  by (induction n and cs arbitrary: d b and d b rule: nesting_nesting_kids.induct) (auto simp: Let_def max_def)

lemma nesting_le_loops: "nesting n \<le> loops n" "nesting_kids cs \<le> loops_kids cs"
  by (induction n and cs rule: nesting_nesting_kids.induct) auto

text \<open>The single-pass traversal computes both.\<close>

lemma summarizeFunction_loops:
  assumes "childForFieldName node ''body'' = Some body"
  shows "loopCount (summarizeFunction node) = loops body"
    and "maxLoopDepth (summarizeFunction node) = nesting body"
  using assms by (simp_all add: summarizeFunction_def Let_def walkDepth_loops walkDepth_nesting no_facts_def)

end
