(* ===== verification/Milestones.thy ===== *)
theory Milestones
  imports Snapshot
begin

text \<open>
  \<open>observer/milestones.ts\<close>: the derived events of a run or a snapshot, and the normalized run result
  of the contracts (\<open>RunResultSchema\<close>).
\<close>

datatype run_status =
    PASSED | FAILED | COMPILE_ERROR | RUNTIME_ERROR | TIMEOUT | MEMORY_EXCEEDED | INTERNAL_ERROR

fun status_name :: "run_status \<Rightarrow> string" where
  "status_name PASSED = ''PASSED''"
| "status_name FAILED = ''FAILED''"
| "status_name COMPILE_ERROR = ''COMPILE_ERROR''"
| "status_name RUNTIME_ERROR = ''RUNTIME_ERROR''"
| "status_name TIMEOUT = ''TIMEOUT''"
| "status_name MEMORY_EXCEEDED = ''MEMORY_EXCEEDED''"
| "status_name INTERNAL_ERROR = ''INTERNAL_ERROR''"

record run_result =
  runId :: string
  codeRevision :: nat
  run_status :: run_status
  exitCode :: "int option"
  cpuTimeMs :: real
  memoryKb :: real
  stdout :: string
  stderr :: string
  truncated :: bool
  visibleTestsPassed :: "nat option"
  visibleTestsTotal :: "nat option"

record milestone_state =
  reached :: "milestone_kind list"
  consecutiveIdenticalFailures :: nat
  lastFailureFingerprint :: "string option"
  lastSnapshotCode :: "string option"

definition emptyMilestoneState :: milestone_state where
  "emptyMilestoneState = \<lparr>reached = [], consecutiveIdenticalFailures = 0,
     lastFailureFingerprint = None, lastSnapshotCode = None\<rparr>"

definition firstStderrLine :: "string \<Rightarrow> string" where
  "firstStderrLine err =
     (case List.find (\<lambda>l. trim l \<noteq> []) (split_char (CHR 0x0A) err) of Some l \<Rightarrow> l | None \<Rightarrow> [])"

definition failureFingerprint :: "run_result \<Rightarrow> string" where
  "failureFingerprint r =
     status_name (run_status r) @ ''|'' @
     (case exitCode r of Some k \<Rightarrow> show_int k | None \<Rightarrow> ''null'') @ ''|'' @ trim (firstStderrLine (stderr r))"

definition LARGE_REWRITE_CHURN :: real where "LARGE_REWRITE_CHURN = 1/2"
definition LARGE_REWRITE_MIN_LINES :: nat where "LARGE_REWRITE_MIN_LINES = 6"
definition REPEATED_FAILURE_THRESHOLD :: nat where "REPEATED_FAILURE_THRESHOLD = 3"

type_synonym milestone_update = "milestone_state \<times> milestone_kind list"

text \<open>\<open>if (!next.reached.includes(k)) next.reached.push(k)\<close>.\<close>

definition reach :: "milestone_kind \<Rightarrow> milestone_state \<Rightarrow> milestone_state" where
  "reach k m = (if k \<in> set (reached m) then m else m\<lparr>reached := reached m @ [k]\<rparr>)"

definition run_passed :: "run_result \<Rightarrow> bool" where
  "run_passed r \<longleftrightarrow> run_status r = PASSED \<and>
     (visibleTestsTotal r = None \<or> visibleTestsPassed r = visibleTestsTotal r)"

definition applyRunResult :: "milestone_state \<Rightarrow> run_result \<Rightarrow> milestone_update" where
  "applyRunResult ms r =
     (let compiled = run_status r \<noteq> COMPILE_ERROR;
          e1 = (if compiled \<and> FIRST_COMPILES \<notin> set (reached ms) then [FIRST_COMPILES] else []);
          n1 = (if compiled then reach FIRST_COMPILES ms else ms)
      in if run_passed r
         then (let e2 = (if BASE_TESTS_PASS \<notin> set (reached n1) then [BASE_TESTS_PASS] else [])
               in ((reach BASE_TESTS_PASS n1)\<lparr>consecutiveIdenticalFailures := 0, lastFailureFingerprint := None\<rparr>,
                   e1 @ e2))
         else
           (let fingerprint = failureFingerprint r;
                n2 = (if Some fingerprint = lastFailureFingerprint n1
                      then n1\<lparr>consecutiveIdenticalFailures := consecutiveIdenticalFailures n1 + 1\<rparr>
                      else n1\<lparr>consecutiveIdenticalFailures := 1, lastFailureFingerprint := Some fingerprint\<rparr>)
            in if consecutiveIdenticalFailures n2 \<ge> REPEATED_FAILURE_THRESHOLD
               then (reach REPEATED_SAME_FAILURE n2, e1 @ [REPEATED_SAME_FAILURE])
               else (n2, e1)))"

definition applySnapshot :: "milestone_state \<Rightarrow> semantic_snapshot \<Rightarrow> milestone_update" where
  "applySnapshot ms snap =
     (if churn snap \<ge> LARGE_REWRITE_CHURN \<and> nonEmptyLines snap \<ge> LARGE_REWRITE_MIN_LINES
      then (reach LARGE_REWRITE ms, [LARGE_REWRITE]) else (ms, []))"

definition normalizeComplexity :: "string \<Rightarrow> string" where
  "normalizeComplexity t = filter (\<lambda>c. c \<noteq> CHR ''^'') (filter (\<lambda>c. \<not> is_white c) (to_lower t))"

definition complexityMismatch :: "string option \<Rightarrow> string option \<Rightarrow> bool" where
  "complexityMismatch claimed familyComplexity =
     (case (claimed, familyComplexity) of
        (Some c, Some f) \<Rightarrow>
          (if c = [] \<or> f = [] then False else normalizeComplexity c \<noteq> normalizeComplexity f)
      | _ \<Rightarrow> False)"

section \<open>Milestones only accumulate\<close>

lemma reach_sel [simp]:
  "set (reached (reach k m)) = insert k (set (reached m))"
  "consecutiveIdenticalFailures (reach k m) = consecutiveIdenticalFailures m"
  "lastFailureFingerprint (reach k m) = lastFailureFingerprint m"
  "distinct (reached m) \<Longrightarrow> distinct (reached (reach k m))"
  by (auto simp: reach_def)

lemma applyRunResult_reached:
  "set (reached (fst (applyRunResult ms r))) = set (reached ms) \<union> set (snd (applyRunResult ms r))"
  by (auto simp: applyRunResult_def Let_def)

lemma applySnapshot_reached:
  "set (reached (fst (applySnapshot ms s))) = set (reached ms) \<union> set (snd (applySnapshot ms s))"
  by (simp add: applySnapshot_def)

lemma applyRunResult_distinct:
  "distinct (reached ms) \<Longrightarrow> distinct (reached (fst (applyRunResult ms r)))"
  by (simp add: applyRunResult_def Let_def)

lemma applySnapshot_distinct:
  "distinct (reached ms) \<Longrightarrow> distinct (reached (fst (applySnapshot ms s)))"
  by (simp add: applySnapshot_def)

lemma applyRunResult_passed:
  "run_passed r \<Longrightarrow> consecutiveIdenticalFailures (fst (applyRunResult ms r)) = 0 \<and>
     lastFailureFingerprint (fst (applyRunResult ms r)) = None \<and>
     BASE_TESTS_PASS \<in> set (reached (fst (applyRunResult ms r)))"
  by (simp add: applyRunResult_def Let_def)

lemma applyRunResult_failed:
  "\<not> run_passed r \<Longrightarrow>
     lastFailureFingerprint (fst (applyRunResult ms r)) = Some (failureFingerprint r) \<and>
     consecutiveIdenticalFailures (fst (applyRunResult ms r)) =
       (if lastFailureFingerprint ms = Some (failureFingerprint r) then consecutiveIdenticalFailures ms + 1 else 1) \<and>
     (REPEATED_SAME_FAILURE \<in> set (snd (applyRunResult ms r)) \<longleftrightarrow>
        3 \<le> consecutiveIdenticalFailures (fst (applyRunResult ms r)))"
  by (auto simp: applyRunResult_def Let_def reach_def REPEATED_FAILURE_THRESHOLD_def)

section \<open>The streak counter is the length of the run of identical failures\<close>

text \<open>The reference: how many results at the end of the history failed with the last one's fingerprint.\<close>

fun streak :: "run_result list \<Rightarrow> nat" where
  "streak [] = 0"
| "streak (r # rs) =
     (if run_passed r then 0
      else case rs of
        [] \<Rightarrow> 1
      | q # _ \<Rightarrow> if \<not> run_passed q \<and> failureFingerprint q = failureFingerprint r then streak rs + 1 else 1)"

definition fold_runs :: "run_result list \<Rightarrow> milestone_state \<Rightarrow> milestone_state" where
  "fold_runs rs ms = foldl (\<lambda>m r. fst (applyRunResult m r)) ms rs"

definition last_failure :: "run_result list \<Rightarrow> string option" where
  "last_failure newest_first = (case newest_first of
     [] \<Rightarrow> None | r # _ \<Rightarrow> if run_passed r then None else Some (failureFingerprint r))"

lemma fold_runs_streak:
  "consecutiveIdenticalFailures (fold_runs rs emptyMilestoneState) = streak (rev rs) \<and>
   lastFailureFingerprint (fold_runs rs emptyMilestoneState) = last_failure (rev rs)"
proof (induction rs rule: rev_induct)
  case Nil
  show ?case by (simp add: fold_runs_def emptyMilestoneState_def last_failure_def)
next
  case (snoc r rs)
  let ?m = "fold_runs rs emptyMilestoneState"
  have step: "fold_runs (rs @ [r]) emptyMilestoneState = fst (applyRunResult ?m r)"
    by (simp add: fold_runs_def)
  show ?case
  proof (cases "run_passed r")
    case True
    with step applyRunResult_passed [OF True, of ?m] show ?thesis by (simp add: last_failure_def)
  next
    case False
    with snoc step applyRunResult_failed [OF False, of ?m] show ?thesis
      by (auto simp: last_failure_def split: list.splits if_splits)
  qed
qed

section \<open>The fingerprint identifies a failure by status, exit code and first line of the error\<close>

lemma status_name_inj: "status_name a = status_name b \<longleftrightarrow> a = b"
  by (cases a; cases b) simp_all

lemma split_at_bar:
  "a @ CHR ''|'' # x = b @ CHR ''|'' # y \<Longrightarrow> CHR ''|'' \<notin> set a \<Longrightarrow> CHR ''|'' \<notin> set b \<Longrightarrow> a = b \<and> x = y"
proof (induction a arbitrary: b)
  case Nil
  then show ?case by (cases b) auto
next
  case (Cons c a)
  then show ?case by (cases b) auto
qed

lemma no_bar_status: "CHR ''|'' \<notin> set (status_name s)"
  by (cases s) simp_all

definition show_exit :: "int option \<Rightarrow> string" where
  "show_exit k = (case k of Some n \<Rightarrow> show_int n | None \<Rightarrow> ''null'')"

lemma show_exit_no_bar: "CHR ''|'' \<notin> set (show_exit k)"
proof (cases k)
  case (Some n)
  with show_int_chars [of n] show ?thesis by (auto simp: show_exit_def digit_chars_def)
qed (simp add: show_exit_def)

lemma show_exit_inj: "show_exit a = show_exit b \<longleftrightarrow> a = b"
proof -
  have "show_int n \<noteq> ''null''" for n
    using show_int_chars [of n] by (auto simp: digit_chars_def)
  then show ?thesis by (cases a; cases b) (auto simp: show_exit_def dest: show_int_inj sym)
qed

lemma failureFingerprint_eq_iff:
  "failureFingerprint r = failureFingerprint q \<longleftrightarrow>
     run_status r = run_status q \<and> exitCode r = exitCode q \<and>
     trim (firstStderrLine (stderr r)) = trim (firstStderrLine (stderr q))"
proof -
  have fp: "failureFingerprint r = status_name (run_status r) @ CHR ''|'' #
      (show_exit (exitCode r) @ CHR ''|'' # trim (firstStderrLine (stderr r)))" for r
    by (simp add: failureFingerprint_def show_exit_def split: option.splits)
  show ?thesis
    unfolding fp by (auto simp: status_name_inj show_exit_inj no_bar_status show_exit_no_bar dest!: split_at_bar)
qed

section \<open>Complexity claims\<close>

lemma complexityMismatch_absent [simp]:
  "\<not> complexityMismatch None f" "\<not> complexityMismatch c None"
  by (auto simp: complexityMismatch_def split: option.splits)

text \<open>Blanks, carets and the case of letters do not make two claims differ.\<close>

lemma normalizeComplexity_idem [simp]: "normalizeComplexity (normalizeComplexity t) = normalizeComplexity t"
proof -
  have "map lower_char (filter P (filter Q (map lower_char t))) = filter P (filter Q (map lower_char t))" for P Q
    by (rule map_idI) (auto simp: lower_char_idem)
  then show ?thesis by (simp add: normalizeComplexity_def to_lower_def) (rule filter_cong; auto)
qed

end
