(* ===== verification/Transcript.thy ===== *)
theory Transcript
  imports Milestones JsRegex
begin

text \<open>
  \<open>observer/transcript.ts\<close>: what a finalized utterance adds to the candidate state. Only claims the
  grammar finds in the words are recorded.
\<close>

definition compact :: "string \<Rightarrow> string" where
  "compact s = trim (squeeze_white s)"

definition unique :: "string list \<Rightarrow> string list" where
  "unique values = uniq (filter (\<lambda>v. v \<noteq> []) values)"

definition complexityLanguage :: re where
  "complexityLanguage =
     rx ''%b(?:time|space) complexity%b|%b(?:constant|linear|quadratic|logarithmic|n log n) (?:time|space)%b|%bo%s*%(''"

definition trimClaim :: "string \<Rightarrow> string" where
  "trimClaim value = take 240 (trim (takeWhile (\<lambda>c. c \<notin> set ''.!?'') value))"

section \<open>Complexity claims\<close>

definition big_o_pattern :: re where
  "big_o_pattern = rx ''%b(?:big%s*)?o%s*%(([^%n]{1,48}?)%)(?=%s*(?:time|space|and|,|%.|$))''"

definition allBigO :: "string \<Rightarrow> string list" where
  "allBigO txt =
     concat (map (\<lambda>(b, st). case capture txt st 1 of
         None \<Rightarrow> []
       | Some g \<Rightarrow> (let body = trim g in if body = [] then [] else [''O('' @ squeeze_white body @ '')'']))
       (match_all True big_o_pattern txt))"

datatype dimension = Time | Space_dim

definition dimension_word :: "dimension \<Rightarrow> re" where
  "dimension_word d = (case d of Time \<Rightarrow> rx ''%btime%b'' | Space_dim \<Rightarrow> rx ''%bspace%b'')"

definition complexityNear :: "string \<Rightarrow> dimension \<Rightarrow> string option" where
  "complexityNear txt d =
     (case List.find (re_test False (dimension_word d)) (re_split False (rx '',|[.;]|%band%b'') txt) of
        Some clause \<Rightarrow> first_of (allBigO clause)
      | None \<Rightarrow> None)"

definition SPOKEN :: "(re \<times> string) list" where
  "SPOKEN =
     [(rx ''(?:constant|o of one)'', ''O(1)''),
      (rx ''(?:quadratic|o of n squared|n squared)'', ''O(n^2)''),
      (rx ''(?:n log n|linearithmic|o of n log n)'', ''O(n log n)''),
      (rx ''(?:linear|o of n)(?!%s*(?:squared|log))'', ''O(n)''),
      (rx ''(?:logarithmic|o of log n)'', ''O(log n)'')]"

definition spokenComplexity :: "string \<Rightarrow> dimension \<Rightarrow> string option" where
  "spokenComplexity txt d =
     (case List.find (re_test False (dimension_word d)) (re_split False (rx ''[.;]|%bbut%b|%band%b'') txt) of
        None \<Rightarrow> None
      | Some clause \<Rightarrow> map_option snd (List.find (\<lambda>(pat, _). re_test False pat clause) SPOKEN))"

text \<open>\<open>a ?? b\<close>.\<close>

definition or_else :: "'a option \<Rightarrow> 'a option \<Rightarrow> 'a option" where
  "or_else a b = (case a of Some x \<Rightarrow> Some x | None \<Rightarrow> b)"

definition extractComplexityClaims :: "string \<Rightarrow> string option \<times> string option" where
  "extractComplexityClaims words =
     (let txt = compact (to_lower words);
          time = or_else (complexityNear txt Time) (spokenComplexity txt Time);
          space = or_else (complexityNear txt Space_dim) (spokenComplexity txt Space_dim);
          symbolic = allBigO txt
      in (or_else time (if space = None \<and> length symbolic = 1 then Some (hd symbolic) else None), space))"

section \<open>Approaches, alternatives, constraints\<close>

definition approach_pattern :: re where
  "approach_pattern = rx ''%b(?:my approach is|i(?:'m| am) going to|i(?:'ll| will)|i plan to)%s+(.+)''"

definition explicitApproach :: "string \<Rightarrow> string option" where
  "explicitApproach words =
     (case exec_groups True approach_pattern words of
        None \<Rightarrow> None
      | Some g \<Rightarrow> if \<not> truthy (g 1) then None else map_option trimClaim (g 1))"

definition ALTERNATIVE_PATTERNS :: "re list" where
  "ALTERNATIVE_PATTERNS =
     [rx ''%b(?:i could also|another (?:option|approach) (?:is|would be)|alternatively,?)%s+(.+)'',
      rx ''%binstead of%s+(.+?)(?:,|%.|$)'']"

definition extractAlternatives :: "string \<Rightarrow> string list" where
  "extractAlternatives words =
     filter (\<lambda>v. v \<noteq> [])
       (concat (map (\<lambda>pat. concat (map (\<lambda>(b, st).
           if truthy (capture words st 1) then [trimClaim (the (capture words st 1))] else [])
         (match_all True pat words))) ALTERNATIVE_PATTERNS))"

text \<open>\<open>key.replace(/[_-]+/g, '' '').toLowerCase()\<close>.\<close>

definition key_phrase :: "string \<Rightarrow> string" where
  "key_phrase k = to_lower (replace_all False (rx ''[_-]+'') (\<lambda>_ _. '' '') k)"

definition recognizedConstraints :: "string \<Rightarrow> scenario_version \<Rightarrow> string list" where
  "recognizedConstraints words sc =
     (let normalized = to_lower words in
      map fact_key (filter (\<lambda>f.
        (length (key_phrase (fact_key f)) \<ge> 4 \<and> has_sub normalized (key_phrase (fact_key f))) \<or>
        list_ex (\<lambda>phrase. length phrase \<ge> 4 \<and> has_sub normalized (to_lower phrase)) (askedAs f)) (facts sc)))"

section \<open>The observation\<close>

record transcript_observation =
  obs_transcript :: string
  obs_intent :: turn_intent
  observedAt :: instant

definition applyComplexityMismatch ::
  "candidate_state \<Rightarrow> milestone_state \<Rightarrow> scenario_version \<Rightarrow> milestone_update" where
  "applyComplexityMismatch cs ms sc =
     (if COMPLEXITY_CLAIM_MISMATCH \<in> set (reached ms) then (ms, [])
      else (case List.find (\<lambda>f. Some (family_id f) = detectedSolutionFamilyId cs) (solutionFamilies sc) of
              None \<Rightarrow> (ms, [])
            | Some family \<Rightarrow>
                (let timeMismatch = complexityMismatch (claimedTime cs) (Some (timeComplexity family));
                     spaceMismatch = complexityMismatch (claimedSpace cs) (Some (spaceComplexity family))
                 in if \<not> timeMismatch \<and> \<not> spaceMismatch then (ms, [])
                    else (ms\<lparr>reached := reached ms @ [COMPLEXITY_CLAIM_MISMATCH]\<rparr>,
                          [COMPLEXITY_CLAIM_MISMATCH]))))"

definition note_claims :: "turn_intent \<Rightarrow> string \<Rightarrow> candidate_state \<Rightarrow> candidate_state" where
  "note_claims i words cs =
     (if i = COMPLEXITY_CLAIM \<or> re_test True complexityLanguage words
      then (case extractComplexityClaims words of (time, space) \<Rightarrow>
             (let cs1 = (if truthy time then cs\<lparr>claimedTime := time\<rparr> else cs);
                  cs2 = (if truthy space then cs1\<lparr>claimedSpace := space\<rparr> else cs1)
              in if truthy time \<or> truthy space then cs2\<lparr>complexityConfidence := 9/10\<rparr> else cs2))
      else cs)"

definition note_approach :: "turn_intent \<Rightarrow> string \<Rightarrow> candidate_state \<Rightarrow> candidate_state" where
  "note_approach i words cs =
     (if i = APPROACH_COMMITMENT \<and> truthy (explicitApproach words)
      then cs\<lparr>currentApproach := explicitApproach words, approachConfidence := 9/10\<rparr> else cs)"

definition observeTranscript ::
  "candidate_state \<Rightarrow> milestone_state \<Rightarrow> scenario_version \<Rightarrow> transcript_observation
    \<Rightarrow> candidate_state \<times> milestone_update" where
  "observeTranscript previous ms sc ob =
     (let words = compact (obs_transcript ob);
          cs0 = previous\<lparr>updatedAt := observedAt ob\<rparr>;
          cs1 = note_claims (obs_intent ob) words cs0;
          cs2 = note_approach (obs_intent ob) words cs1;
          cs3 = cs2\<lparr>alternativesMentioned := unique (alternativesMentioned cs2 @ extractAlternatives words)\<rparr>;
          cs4 = cs3\<lparr>understoodConstraints :=
                      unique (understoodConstraints cs3 @ recognizedConstraints words sc)\<rparr>
      in (cs4, applyComplexityMismatch cs4 ms sc))"

section \<open>What is and what is not recorded\<close>

lemma applyComplexityMismatch_iff:
  "COMPLEXITY_CLAIM_MISMATCH \<in> set (snd (applyComplexityMismatch cs ms sc)) \<longleftrightarrow>
     COMPLEXITY_CLAIM_MISMATCH \<notin> set (reached ms) \<and>
     (\<exists>family. List.find (\<lambda>f. Some (family_id f) = detectedSolutionFamilyId cs) (solutionFamilies sc) = Some family \<and>
        (complexityMismatch (claimedTime cs) (Some (timeComplexity family)) \<or>
         complexityMismatch (claimedSpace cs) (Some (spaceComplexity family))))"
  by (auto simp: applyComplexityMismatch_def Let_def split: option.splits if_splits)

lemma applyComplexityMismatch_reached:
  "set (reached (fst (applyComplexityMismatch cs ms sc))) =
     set (reached ms) \<union> set (snd (applyComplexityMismatch cs ms sc))"
  by (auto simp: applyComplexityMismatch_def Let_def split: option.splits if_splits)

lemma applyComplexityMismatch_same:
  "consecutiveIdenticalFailures (fst (applyComplexityMismatch cs ms sc)) = consecutiveIdenticalFailures ms"
  by (simp add: applyComplexityMismatch_def Let_def split: option.splits)

lemma applyComplexityMismatch_distinct:
  "distinct (reached ms) \<Longrightarrow> distinct (reached (fst (applyComplexityMismatch cs ms sc)))"
  by (simp add: applyComplexityMismatch_def Let_def split: option.splits)

text \<open>Running the check twice adds nothing: either order of a claim and a snapshot is equivalent.\<close>

lemma applyComplexityMismatch_idem:
  "applyComplexityMismatch cs (fst (applyComplexityMismatch cs ms sc)) sc =
     (fst (applyComplexityMismatch cs ms sc), [])"
  by (auto simp: applyComplexityMismatch_def Let_def split: option.splits if_splits)

text \<open>No mismatch without a claim, or without a detected family.\<close>

lemma applyComplexityMismatch_silent:
  "claimedTime cs = None \<and> claimedSpace cs = None \<or> detectedSolutionFamilyId cs = None \<Longrightarrow>
     applyComplexityMismatch cs ms sc = (ms, [])"
  by (auto simp: applyComplexityMismatch_def Let_def split: option.splits dest!: find_SomeD)

text \<open>The fields that come from code and runs are left alone by an utterance.\<close>

lemma note_claims_same [simp]:
  "stuckScore (note_claims i w cs) = stuckScore cs"
  "implementationProgress (note_claims i w cs) = implementationProgress cs"
  "detectedSolutionFamilyId (note_claims i w cs) = detectedSolutionFamilyId cs"
  "derivedFromRevision (note_claims i w cs) = derivedFromRevision cs"
  "codeObservedAt (note_claims i w cs) = codeObservedAt cs"
  "hintsUsed (note_claims i w cs) = hintsUsed cs"
  "probeHistory (note_claims i w cs) = probeHistory cs"
  by (simp_all add: note_claims_def Let_def split: prod.split)

lemma note_approach_same [simp]:
  "stuckScore (note_approach i w cs) = stuckScore cs"
  "implementationProgress (note_approach i w cs) = implementationProgress cs"
  "detectedSolutionFamilyId (note_approach i w cs) = detectedSolutionFamilyId cs"
  "derivedFromRevision (note_approach i w cs) = derivedFromRevision cs"
  "codeObservedAt (note_approach i w cs) = codeObservedAt cs"
  "hintsUsed (note_approach i w cs) = hintsUsed cs"
  "probeHistory (note_approach i w cs) = probeHistory cs"
  "claimedTime (note_approach i w cs) = claimedTime cs"
  by (simp_all add: note_approach_def)

lemma observeTranscript_same [simp]:
  "stuckScore (fst (observeTranscript cs ms sc ob)) = stuckScore cs"
  "implementationProgress (fst (observeTranscript cs ms sc ob)) = implementationProgress cs"
  "detectedSolutionFamilyId (fst (observeTranscript cs ms sc ob)) = detectedSolutionFamilyId cs"
  "derivedFromRevision (fst (observeTranscript cs ms sc ob)) = derivedFromRevision cs"
  "codeObservedAt (fst (observeTranscript cs ms sc ob)) = codeObservedAt cs"
  "hintsUsed (fst (observeTranscript cs ms sc ob)) = hintsUsed cs"
  "probeHistory (fst (observeTranscript cs ms sc ob)) = probeHistory cs"
  by (simp_all add: observeTranscript_def Let_def)

text \<open>A recorded time bound is the one claimed before, or the one the grammar finds in the words.\<close>

lemma observeTranscript_claimedTime:
  "claimedTime (fst (observeTranscript cs ms sc ob)) =
     claimedTime cs \<or>
   claimedTime (fst (observeTranscript cs ms sc ob)) = fst (extractComplexityClaims (compact (obs_transcript ob)))"
  by (auto simp: observeTranscript_def Let_def note_claims_def split: prod.splits)

text \<open>Every symbolic bound is built from a piece of the candidate's own words.\<close>

lemma capture_has_sub: "capture s st n = Some g \<Longrightarrow> has_sub s g"
proof -
  assume "capture s st n = Some g"
  then obtain i j where "g = take (j - i) (drop i s)" by (auto simp: capture_def substr_def)
  then have "s = take i s @ g @ drop (j - i) (drop i s)" by (simp only: append_take_drop_id)
  then show ?thesis unfolding has_sub_iff by blast
qed

lemma allBigO_in_words:
  assumes "c \<in> set (allBigO txt)"
  obtains g where "has_sub txt g" and "c = ''O('' @ squeeze_white (trim g) @ '')''"
  using assms by (auto simp: allBigO_def Let_def split: option.splits if_splits dest: capture_has_sub capture_has_sub [OF sym])

text \<open>Constraints the candidate is credited with are keys of facts of the scenario.\<close>

lemma recognizedConstraints_authored:
  "set (recognizedConstraints words sc) \<subseteq> fact_key ` set (facts sc)"
  by (auto simp: recognizedConstraints_def Let_def)

end
