(* ===== verification/Observer.thy ===== *)
theory Observer
  imports Transcript
begin

text \<open>
  \<open>observer/index.ts\<close>: the code half of the candidate observer, which folds a snapshot and a run
  into the candidate state.
\<close>

record observer_input =
  oi_previous :: candidate_state
  oi_milestones :: milestone_state
  oi_snapshot :: "semantic_snapshot option"
  oi_run :: "run_result option"
  oi_secondsSinceCodeActivity :: real
  oi_consecutiveFailures :: nat
  oi_now :: instant

record observer_result =
  or_state :: candidate_state
  or_milestones :: milestone_state
  or_emitted :: "milestone_kind list"

definition activityLevel :: "real \<Rightarrow> code_activity" where
  "activityLevel secondsSince =
     (if secondsSince \<le> 5 then HIGH else if secondsSince \<le> 20 then MEDIUM
      else if secondsSince \<le> 60 then LOW else NONE)"

definition estimateProgress :: "semantic_snapshot \<Rightarrow> real" where
  "estimateProgress snap =
     (case snap_functions snap of
        [] \<Rightarrow> 0
      | fn # _ \<Rightarrow>
          (let score = 2/10
                 + (if nonEmptyLines snap \<ge> 4 then 2/10 else 0)
                 + (if loopCount fn > 0 \<or> recursive fn then 2/10 else 0)
                 + (if dataStructures snap \<noteq> [] then 2/10 else 0)
                 + (if hasEarlyReturn fn then 1/10 else 0)
                 + (if syntaxValid snap then 1/10 else 0)
           in min 1 (to_fixed2 score)))"

definition stuckScore_of :: "observer_input \<Rightarrow> milestone_state \<Rightarrow> bool \<Rightarrow> real" where
  "stuckScore_of inp ms runApplied =
     (let failures = (if runApplied then consecutiveIdenticalFailures ms else oi_consecutiveFailures inp);
          s1 = min (6/10) (max 0 (real failures - 1) * (3/10));
          progress = (case oi_snapshot inp of
                        Some snap \<Rightarrow> estimateProgress snap
                      | None \<Rightarrow> implementationProgress (oi_previous inp));
          s2 = (if oi_secondsSinceCodeActivity inp > 90 \<and> progress < 5/10 then s1 + 3/10 else s1);
          s3 = (if BASE_TESTS_PASS \<in> set (reached ms) then 0 else s2)
      in min 1 (to_fixed2 s3))"

text \<open>The branch \<open>if (input.snapshot)\<close> of \<open>observe\<close>.\<close>

definition note_snapshot :: "semantic_snapshot \<Rightarrow> instant \<Rightarrow> candidate_state \<Rightarrow> candidate_state" where
  "note_snapshot snap now cs =
     (let cs1 = cs\<lparr>detectedSolutionFamilyId := detectSolutionFamily snap,
                   implementationProgress := estimateProgress snap,
                   derivedFromRevision := revision snap,
                   codeObservedAt := Some now\<rparr>
      in if detectSolutionFamily snap \<noteq> None then cs1\<lparr>approachConfidence := 8/10\<rparr> else cs1)"

definition observe :: "observer_input \<Rightarrow> observer_result" where
  "observe inp =
     (let next0 = (oi_previous inp)\<lparr>updatedAt := oi_now inp\<rparr>;
          (m1, e1) = (case oi_snapshot inp of
                        Some snap \<Rightarrow> applySnapshot (oi_milestones inp) snap
                      | None \<Rightarrow> (oi_milestones inp, []));
          next1 = (case oi_snapshot inp of Some snap \<Rightarrow> note_snapshot snap (oi_now inp) next0 | None \<Rightarrow> next0);
          (m2, e2) = (case oi_run inp of Some r \<Rightarrow> applyRunResult m1 r | None \<Rightarrow> (m1, []))
      in \<lparr>or_state = next1\<lparr>milestonesReached := reached m2,
                           recentCodeActivity := activityLevel (oi_secondsSinceCodeActivity inp),
                           stuckScore := stuckScore_of inp m2 (oi_run inp \<noteq> None)\<rparr>,
          or_milestones = m2,
          or_emitted = e1 @ e2\<rparr>)"

section \<open>The scores stay within their range\<close>

lemma to_fixed2_mono: "x \<le> y \<Longrightarrow> to_fixed2 x \<le> to_fixed2 y"
  by (simp add: to_fixed2_def divide_right_mono floor_mono)

lemma estimateProgress_range: "0 \<le> estimateProgress snap \<and> estimateProgress snap \<le> 1"
  by (auto simp: estimateProgress_def Let_def to_fixed2_nonneg split: list.split)

text \<open>
  A function that is only a stub scores at most one half, so a quiet candidate with such a stub still
  counts as barely started; every point above it needs a loop, a recursion or a container.
\<close>

lemma estimateProgress_stub:
  assumes "snap_functions snap = fn # fns" and "loopCount fn = 0" and "\<not> recursive fn"
    and "dataStructures snap = []" and "nonEmptyLines snap < 4"
  shows "estimateProgress snap < 5/10"
  using assms by (simp add: estimateProgress_def to_fixed2_def)

lemma stuckScore_range: "0 \<le> stuckScore_of inp ms b \<and> stuckScore_of inp ms b \<le> 1"
  by (auto simp: stuckScore_of_def Let_def to_fixed2_nonneg)

lemma stuckScore_solved: "BASE_TESTS_PASS \<in> set (reached ms) \<Longrightarrow> stuckScore_of inp ms b = 0"
  by (simp add: stuckScore_of_def Let_def to_fixed2_def)

text \<open>Thinking is not being stuck: without repeated failures the score is at most 0.3, however long
  the silence, and 0 once some progress is visible.\<close>

lemma stuckScore_quiet:
  assumes "(if b then consecutiveIdenticalFailures ms else oi_consecutiveFailures inp) \<le> 1"
  shows "stuckScore_of inp ms b \<le> 3/10"
  using assms by (auto simp: stuckScore_of_def Let_def to_fixed2_def max_def min_def split: if_splits)

section \<open>Observation\<close>

lemma note_snapshot_sel [simp]:
  "derivedFromRevision (note_snapshot snap now cs) = revision snap"
  "codeObservedAt (note_snapshot snap now cs) = Some now"
  "implementationProgress (note_snapshot snap now cs) = estimateProgress snap"
  "detectedSolutionFamilyId (note_snapshot snap now cs) = detectSolutionFamily snap"
  "hintsUsed (note_snapshot snap now cs) = hintsUsed cs"
  "probeHistory (note_snapshot snap now cs) = probeHistory cs"
  "claimedTime (note_snapshot snap now cs) = claimedTime cs"
  "claimedSpace (note_snapshot snap now cs) = claimedSpace cs"
  "currentApproach (note_snapshot snap now cs) = currentApproach cs"
  by (simp_all add: note_snapshot_def Let_def)

lemma observe_reached:
  "set (reached (or_milestones (observe inp))) = set (reached (oi_milestones inp)) \<union> set (or_emitted (observe inp))"
  using applyRunResult_reached applySnapshot_reached
  by (auto simp: observe_def Let_def split: option.splits prod.splits) (metis UnCI UnE fst_conv snd_conv)+

lemma observe_scores:
  "0 \<le> stuckScore (or_state (observe inp)) \<and> stuckScore (or_state (observe inp)) \<le> 1"
  using stuckScore_range by (simp add: observe_def Let_def split: prod.split)

text \<open>A candidate whose base tests pass is never reported stuck.\<close>

lemma observe_solved:
  "BASE_TESTS_PASS \<in> set (reached (or_milestones (observe inp))) \<Longrightarrow> stuckScore (or_state (observe inp)) = 0"
  by (auto simp: observe_def Let_def stuckScore_solved split: prod.splits)

text \<open>An observation never touches what only speech can say, nor the interviewer's own history.\<close>

lemma observe_same:
  "hintsUsed (or_state (observe inp)) = hintsUsed (oi_previous inp)"
  "probeHistory (or_state (observe inp)) = probeHistory (oi_previous inp)"
  "claimedTime (or_state (observe inp)) = claimedTime (oi_previous inp)"
  "claimedSpace (or_state (observe inp)) = claimedSpace (oi_previous inp)"
  "currentApproach (or_state (observe inp)) = currentApproach (oi_previous inp)"
  by (simp_all add: observe_def Let_def split: prod.split option.split)

lemma observe_derived:
  "derivedFromRevision (or_state (observe inp)) =
     (case oi_snapshot inp of Some snap \<Rightarrow> revision snap | None \<Rightarrow> derivedFromRevision (oi_previous inp))"
  "codeObservedAt (or_state (observe inp)) =
     (case oi_snapshot inp of Some snap \<Rightarrow> Some (oi_now inp) | None \<Rightarrow> codeObservedAt (oi_previous inp))"
  by (simp_all add: observe_def Let_def split: prod.split option.split)

end
