(* ===== verification/RuntimeState.thy ===== *)
theory RuntimeState
  imports Gate StageAdvance TurnCompletion Observer
begin

text \<open>
  \<open>orchestrator/runtime.ts\<close>, the mutable state of one live interview and what is read off it: the
  context of the gate, the signals of the stage driver, the freshness of a grounded decision, and
  the stage-advancement loop.

  The fields of the class become the record \<open>runtime\<close>; the events appended through the sink are its
  field \<open>outbox\<close>, oldest first. The clocks and the interview timer are the record \<open>clock\<close>, an argument
  of every step that reads them. Speculative classification, a live-only cache of what the
  injected classifier says of the same text, is left out: a turn is always classified directly.
\<close>

record append_request =
  ap_type :: event_type
  ap_actor :: event_actor
  ap_payload :: payload
  ap_key :: string
  ap_occurredAt :: "instant option"
  ap_completedInputSeq :: "nat option"

record utterance =
  utteranceId :: string
  ut_action :: interview_action
  ut_text :: string
  ut_groundedInRevision :: "real option"
  ut_opening :: bool

record runtime_result =
  rr_decision :: "gate_decision option"
  rr_utterance :: "utterance option"

record authorization =
  au_decision :: gate_decision
  au_utteranceId :: string
  au_text :: string
  au_opening :: bool

record held_turn =
  ht_turn :: turn
  ht_classification :: turn_classification
  ht_attempt :: nat

record clock =
  now_ms :: real
  mono_ms :: real
  timer_seconds :: real

record runtime_deps =
  rd_sessionId :: string
  rd_scenario :: scenario_version
  rd_policy :: interview_policy
  rd_scenarioVersionId :: string
  prosodyEnabled :: bool
  rd_classify :: "string \<Rightarrow> bool \<Rightarrow> turn_classification"
  rd_parse :: "string \<Rightarrow> ts_node option"

record runtime =
  rt_state :: interview_state
  rt_candidate :: candidate_state
  rt_milestones :: milestone_state
  rt_probeUseCounts :: "(string \<times> nat) list"
  rt_followUpsUsed :: "string list"
  runsStarted :: nat
  reasoningTurnsInStage :: nat
  approachCommitted :: bool
  rt_latestCodeRevision :: real
  latestCode :: string
  previousObservedCode :: "string option"
  lastCodeActivityMs :: real
  lastSpokeAtMs :: real
  rt_interviewerCurrentlySpeaking :: bool
  rt_candidateSpeechStarted :: bool
  lastSpeechStoppedAtMs :: "real option"
  lastProsody :: "prosodic_evidence option"
  observationDirty :: bool
  observationCount :: nat
  pendingRuns :: "run_result list"
  pendingTranscripts :: "transcript_observation list"
  heldTurn :: "held_turn option"
  reevaluationTimer :: "real option"
  speakingNowHeld :: "(turn \<times> turn_classification) option"
  rt_candidateSpeakingNow :: bool
  openTurn :: "string option"
  silenceBasis :: "(real \<times> real) option"
  authorized :: "authorization option"
  answeredFactKeys :: "string list"
  rt_briefDeliveryCount :: nat
  rt_openingRedeliveryPending :: bool
  openingRedeliveries :: nat
  issuedUtteranceIds :: "string list"
  outbox :: "append_request list"

definition MAX_OPENING_REDELIVERIES :: nat where "MAX_OPENING_REDELIVERIES = 2"
definition UTTERANCE_ID_WINDOW :: nat where "UTTERANCE_ID_WINDOW = 64"
definition TURN_TRANSCRIPT_CAP :: nat where "TURN_TRANSCRIPT_CAP = 800"

text \<open>The constructor.\<close>

definition new_runtime :: "clock \<Rightarrow> runtime" where
  "new_runtime c = \<lparr>
     rt_state = INITIAL_STATE,
     rt_candidate = emptyCandidateState (Some (now_ms c)),
     rt_milestones = emptyMilestoneState,
     rt_probeUseCounts = [],
     rt_followUpsUsed = [],
     runsStarted = 0,
     reasoningTurnsInStage = 0,
     approachCommitted = False,
     rt_latestCodeRevision = 0,
     latestCode = [],
     previousObservedCode = None,
     lastCodeActivityMs = now_ms c,
     lastSpokeAtMs = now_ms c,
     rt_interviewerCurrentlySpeaking = False,
     rt_candidateSpeechStarted = False,
     lastSpeechStoppedAtMs = None,
     lastProsody = None,
     observationDirty = False,
     observationCount = 0,
     pendingRuns = [],
     pendingTranscripts = [],
     heldTurn = None,
     reevaluationTimer = None,
     speakingNowHeld = None,
     rt_candidateSpeakingNow = False,
     openTurn = None,
     silenceBasis = None,
     authorized = None,
     answeredFactKeys = [],
     rt_briefDeliveryCount = 0,
     rt_openingRedeliveryPending = False,
     openingRedeliveries = 0,
     issuedUtteranceIds = [],
     outbox = []\<rparr>"

text \<open>A step that may throw leaves the state it had reached: the pair of that state and the result.\<close>

type_synonym 'a outcome = "runtime \<times> 'a result"

definition and_then :: "'a outcome \<Rightarrow> ('a \<Rightarrow> runtime \<Rightarrow> 'b outcome) \<Rightarrow> 'b outcome" where
  "and_then o1 f = (case o1 of (rt, Inl e) \<Rightarrow> (rt, Inl e) | (rt, Inr a) \<Rightarrow> f a rt)"

lemma and_then_simps [simp]:
  "and_then (rt, Inl e) f = (rt, Inl e)"
  "and_then (rt, Inr a) f = f a rt"
  by (simp_all add: and_then_def)

lemma and_then_eq_Inr_iff:
  "and_then o1 f = (rt, Inr b) \<longleftrightarrow> (\<exists>rt' a. o1 = (rt', Inr a) \<and> f a rt' = (rt, Inr b))"
  by (auto simp: and_then_def split: prod.splits sum.splits)

definition append_event ::
  "event_type \<Rightarrow> event_actor \<Rightarrow> payload \<Rightarrow> string \<Rightarrow> instant option \<Rightarrow> runtime \<Rightarrow> runtime" where
  "append_event ty ac pl key dt rt =
     rt\<lparr>outbox := outbox rt @ [\<lparr>ap_type = ty, ap_actor = ac, ap_payload = pl, ap_key = key,
                                 ap_occurredAt = dt, ap_completedInputSeq = None\<rparr>]\<rparr>"

text \<open>\<open>Date.parse(s) || fallback\<close>: \<open>NaN\<close> and \<open>0\<close> are both falsy.\<close>

definition date_or :: "instant \<Rightarrow> real \<Rightarrow> real" where
  "date_or d fallback = (case d of Some t \<Rightarrow> if t = 0 then fallback else t | None \<Rightarrow> fallback)"

section \<open>What is read off the state\<close>

definition session_seconds :: "clock \<Rightarrow> real" where
  "session_seconds c = max 0 (of_int (math_round (timer_seconds c)))"

definition stageSignals :: "runtime_deps \<Rightarrow> clock \<Rightarrow> runtime \<Rightarrow> stage_signals" where
  "stageSignals d c rt = \<lparr>
     sg_state = rt_state rt,
     sg_policy = rd_policy d,
     sg_briefDeliveryCount = rt_briefDeliveryCount rt,
     sg_reasoningTurnsInStage = reasoningTurnsInStage rt,
     sg_latestCodeRevision = rt_latestCodeRevision rt,
     sg_approachCommitted = (approachCommitted rt \<or> currentApproach (rt_candidate rt) \<noteq> None),
     sg_runsStarted = runsStarted rt,
     sg_milestones = reached (rt_milestones rt),
     sg_remainingSeconds = session_seconds c,
     sg_followUpsPresented = length (rt_followUpsUsed rt),
     sg_followUpsAvailable = length (followUps (rd_scenario d))\<rparr>"

definition buildContext :: "runtime_deps \<Rightarrow> clock \<Rightarrow> runtime \<Rightarrow> turn option \<Rightarrow> interview_context" where
  "buildContext d c rt t = \<lparr>
     state = rt_state rt,
     policy = rd_policy d,
     candidateState = rt_candidate rt,
     turn = t,
     interviewerCurrentlySpeaking = rt_interviewerCurrentlySpeaking rt,
     candidateSpeechStarted = rt_candidateSpeechStarted rt,
     candidateSpeakingNow = rt_candidateSpeakingNow rt,
     secondsSinceInterviewerLastSpoke = max 0 ((now_ms c - lastSpokeAtMs rt) / 1000),
     secondsSinceCodeActivity = max 0 ((now_ms c - lastCodeActivityMs rt) / 1000),
     remainingSeconds = session_seconds c,
     latestCodeRevision = rt_latestCodeRevision rt\<rparr>"

definition solved_optimally :: "runtime_deps \<Rightarrow> runtime \<Rightarrow> bool" where
  "solved_optimally d rt =
     (if BASE_TESTS_PASS \<notin> set (reached (rt_milestones rt)) then False
      else (case List.find (\<lambda>f. Some (family_id f) = detectedSolutionFamilyId (rt_candidate rt))
                   (solutionFamilies (rd_scenario d)) of
              Some family \<Rightarrow> isOptimal family | None \<Rightarrow> False))"

definition gate_deps :: "runtime_deps \<Rightarrow> runtime \<Rightarrow> gate_dependencies" where
  "gate_deps d rt = \<lparr>
     gd_scenario = rd_scenario d,
     gd_probeUseCounts = rt_probeUseCounts rt,
     gd_followUpsUsed = rt_followUpsUsed rt,
     gd_solvedOptimally = solved_optimally d rt,
     briefDeliveryCount = rt_briefDeliveryCount rt,
     openingRedeliveryPending = rt_openingRedeliveryPending rt\<rparr>"

definition staleGroundingReason :: "runtime_deps \<Rightarrow> clock \<Rightarrow> runtime \<Rightarrow> gate_decision \<Rightarrow> reason option" where
  "staleGroundingReason d c rt dec =
     (case groundedInRevision dec of
        None \<Rightarrow> None
      | Some r \<Rightarrow>
          if rt_latestCodeRevision rt - r \<noteq> 0 then Some (SpeechStaleRevision r (rt_latestCodeRevision rt))
          else (case parse_instant (codeObservedAt (rt_candidate rt)) of
                  None \<Rightarrow> Some SpeechAgeUnknown
                | Some observed \<Rightarrow>
                    (let ageSeconds = max 0 ((now_ms c - observed) / 1000) in
                     if ageSeconds > maxCodeStalenessSeconds (rd_policy d)
                     then Some (SpeechTooOld ageSeconds (maxCodeStalenessSeconds (rd_policy d)))
                     else None)))"

definition groundingMetrics :: "clock \<Rightarrow> runtime \<Rightarrow> gate_decision \<Rightarrow> payload" where
  "groundingMetrics c rt dec =
     (case groundedInRevision dec of
        None \<Rightarrow> []
      | Some r \<Rightarrow>
          [(''codeRevisionLag'', JNum (rt_latestCodeRevision rt - r)),
           (''codeObservationAgeMs'',
              JNum (case parse_instant (codeObservedAt (rt_candidate rt)) of
                      Some observed \<Rightarrow> max 0 (now_ms c - observed) | None \<Rightarrow> -1))])"

definition silenceNow :: "clock \<Rightarrow> runtime \<Rightarrow> real option" where
  "silenceNow c rt = map_option (\<lambda>(clientSilenceMs, receivedMonoMs).
     max 0 (clientSilenceMs + mono_ms c - receivedMonoMs)) (silenceBasis rt)"

definition silenceBefore :: "session_event \<Rightarrow> runtime \<Rightarrow> real option" where
  "silenceBefore ev rt =
     (case lastSpeechStoppedAtMs rt of
        None \<Rightarrow> None
      | Some stopped \<Rightarrow> (case occurredAt ev of None \<Rightarrow> None | Some final \<Rightarrow> Some (max 0 (final - stopped))))"

definition codeAtRevision :: "runtime \<Rightarrow> real \<Rightarrow> string option" where
  "codeAtRevision rt r = (if r \<noteq> rt_latestCodeRevision rt then None else Some (latestCode rt))"

definition wasUtteranceIssued :: "runtime \<Rightarrow> string \<Rightarrow> bool" where
  "wasUtteranceIssued rt u \<longleftrightarrow> u \<in> set (issuedUtteranceIds rt)"

text \<open>\<open>voiceContext\<close>: reading it closes an authorization whose grounding has gone stale.\<close>

definition voice_authorization :: "runtime_deps \<Rightarrow> clock \<Rightarrow> runtime \<Rightarrow> authorization option" where
  "voice_authorization d c rt =
     (case authorized rt of
        None \<Rightarrow> None
      | Some a \<Rightarrow> if staleGroundingReason d c rt (au_decision a) = None then Some a else None)"

definition voiceContext :: "runtime_deps \<Rightarrow> clock \<Rightarrow> runtime \<Rightarrow> runtime \<times> authorization option \<times> string option" where
  "voiceContext d c rt =
     (let a = voice_authorization d c rt in
      (rt\<lparr>authorized := a\<rparr>, a,
       Option.bind a (\<lambda>x. if action (au_decision x) = DELIVER_BRIEF then Some (au_text x) else None)))"

definition clearHeldTurn :: "runtime \<Rightarrow> runtime" where
  "clearHeldTurn rt = rt\<lparr>heldTurn := None, speakingNowHeld := None, reevaluationTimer := None\<rparr>"

section \<open>The stage-advancement path\<close>

fun advance_name :: "advance_reason \<Rightarrow> json" where
  "advance_name (TimeRemaining r f) = JObj [(''remaining'', JNum r), (''floor'', JNum f)]"
| "advance_name BriefDelivered = JStr ''oral brief delivered''"
| "advance_name StartedWriting = JStr ''candidate started writing code''"
| "advance_name CommittedApproach = JStr ''candidate committed to an approach''"
| "advance_name (ReasoningTurns n) = JObj [(''turns'', JNum (real n))]"
| "advance_name (FirstRevision r) = JObj [(''revision'', JNum r)]"
| "advance_name RanCode = JStr ''candidate ran their code''"
| "advance_name (BaseTestsPass r f) = JObj [(''remaining'', JNum r), (''needed'', JNum f)]"
| "advance_name FollowUpsExhausted = JStr ''every authored follow-up has been presented''"

fun advance_loop :: "nat \<Rightarrow> runtime_deps \<Rightarrow> clock \<Rightarrow> runtime \<Rightarrow> unit outcome" where
  "advance_loop 0 d c rt = (rt, Inr ())"
| "advance_loop (Suc n) d c rt =
     (case nextStage (stageSignals d c rt) of
        None \<Rightarrow> (rt, Inr ())
      | Some (to_state, why) \<Rightarrow>
          (case applyEvent (rt_state rt) STATE_TRANSITIONED (Some to_state) of
             Inl e \<Rightarrow> (rt, Inl e)
           | Inr res \<Rightarrow>
               advance_loop n d c
                 (append_event STATE_TRANSITIONED SYSTEM
                    [(''from'', JStr (state_name (rt_state rt))), (''to'', JStr (state_name to_state)),
                     (''reason'', advance_name why)]
                    (''stage:'' @ state_name to_state) None
                    (rt\<lparr>rt_state := sm_state res, reasoningTurnsInStage := 0\<rparr>))))"

definition advanceStages :: "runtime_deps \<Rightarrow> clock \<Rightarrow> runtime \<Rightarrow> unit outcome" where
  "advanceStages d c rt = advance_loop STAGE_ADVANCE_LIMIT d c rt"

section \<open>Lemmas\<close>

lemma append_event_sel [simp]:
  "rt_state (append_event ty ac pl key dt rt) = rt_state rt"
  "rt_candidate (append_event ty ac pl key dt rt) = rt_candidate rt"
  "rt_milestones (append_event ty ac pl key dt rt) = rt_milestones rt"
  "rt_probeUseCounts (append_event ty ac pl key dt rt) = rt_probeUseCounts rt"
  "rt_followUpsUsed (append_event ty ac pl key dt rt) = rt_followUpsUsed rt"
  "runsStarted (append_event ty ac pl key dt rt) = runsStarted rt"
  "reasoningTurnsInStage (append_event ty ac pl key dt rt) = reasoningTurnsInStage rt"
  "approachCommitted (append_event ty ac pl key dt rt) = approachCommitted rt"
  "rt_latestCodeRevision (append_event ty ac pl key dt rt) = rt_latestCodeRevision rt"
  "latestCode (append_event ty ac pl key dt rt) = latestCode rt"
  "lastSpokeAtMs (append_event ty ac pl key dt rt) = lastSpokeAtMs rt"
  "rt_interviewerCurrentlySpeaking (append_event ty ac pl key dt rt) = rt_interviewerCurrentlySpeaking rt"
  "rt_candidateSpeakingNow (append_event ty ac pl key dt rt) = rt_candidateSpeakingNow rt"
  "authorized (append_event ty ac pl key dt rt) = authorized rt"
  "answeredFactKeys (append_event ty ac pl key dt rt) = answeredFactKeys rt"
  "rt_briefDeliveryCount (append_event ty ac pl key dt rt) = rt_briefDeliveryCount rt"
  "rt_openingRedeliveryPending (append_event ty ac pl key dt rt) = rt_openingRedeliveryPending rt"
  "openingRedeliveries (append_event ty ac pl key dt rt) = openingRedeliveries rt"
  "issuedUtteranceIds (append_event ty ac pl key dt rt) = issuedUtteranceIds rt"
  "heldTurn (append_event ty ac pl key dt rt) = heldTurn rt"
  by (simp_all add: append_event_def)

lemma stageSignals_append [simp]: "stageSignals d c (append_event ty ac pl key dt rt) = stageSignals d c rt"
  by (simp add: stageSignals_def)

text \<open>A step of the loop is the step of \<open>advance_signals\<close>, seen through \<open>stageSignals\<close>.\<close>

lemma stageSignals_step [simp]:
  "stageSignals d c (rt\<lparr>rt_state := s, reasoningTurnsInStage := n\<rparr>) =
     (stageSignals d c rt)\<lparr>sg_state := s, sg_reasoningTurnsInStage := n\<rparr>"
  by (simp add: stageSignals_def)

lemma applyEvent_legal:
  "isTransitionAllowed s t \<Longrightarrow> applyEvent s STATE_TRANSITIONED (Some t) = Inr (settle t)"
  by (simp add: applyEvent_def)

lemma settle_state [simp]: "sm_state (settle s) = s"
  by (simp add: settle_def)

lemma stageSignals_state [simp]: "sg_state (stageSignals d c rt) = rt_state rt"
  by (simp add: stageSignals_def)

text \<open>The loop of the runtime refines the loop on signals, and never throws.\<close>

lemma advance_loop_refines:
  "\<exists>rt'. advance_loop n d c rt = (rt', Inr ()) \<and>
         stageSignals d c rt' = run_steps advance_signals n (stageSignals d c rt)"
proof (induction n arbitrary: rt)
  case (Suc n)
  show ?case
  proof (cases "nextStage (stageSignals d c rt)")
    case None
    then show ?thesis by (simp add: advance_signals_def)
  next
    case (Some a)
    then obtain to_state why where a: "nextStage (stageSignals d c rt) = Some (to_state, why)" by (cases a) auto
    from nextStage_legal [OF this] have legal: "isTransitionAllowed (rt_state rt) to_state" by simp
    let ?rt = "append_event STATE_TRANSITIONED SYSTEM
        [(''from'', JStr (state_name (rt_state rt))), (''to'', JStr (state_name to_state)),
         (''reason'', advance_name why)]
        (''stage:'' @ state_name to_state) None (rt\<lparr>rt_state := to_state, reasoningTurnsInStage := 0\<rparr>)"
    from Suc.IH [of ?rt] a applyEvent_legal [OF legal] show ?thesis
      by (simp add: advance_signals_def)
  qed
qed simp

lemma advanceStages_refines:
  obtains rt' where "advanceStages d c rt = (rt', Inr ())"
    and "stageSignals d c rt' = settle_stages (stageSignals d c rt)"
  using advance_loop_refines [of STAGE_ADVANCE_LIMIT d c rt]
  by (auto simp: advanceStages_def settle_stages_def)

text \<open>What the loop does not touch.\<close>

lemma advance_loop_same:
  "advance_loop n d c rt = (rt', r) \<Longrightarrow>
     rt_candidate rt' = rt_candidate rt \<and> rt_milestones rt' = rt_milestones rt \<and>
     rt_probeUseCounts rt' = rt_probeUseCounts rt \<and> rt_followUpsUsed rt' = rt_followUpsUsed rt \<and>
     rt_latestCodeRevision rt' = rt_latestCodeRevision rt \<and> authorized rt' = authorized rt \<and>
     rt_briefDeliveryCount rt' = rt_briefDeliveryCount rt \<and> openingRedeliveries rt' = openingRedeliveries rt \<and>
     rt_openingRedeliveryPending rt' = rt_openingRedeliveryPending rt \<and>
     issuedUtteranceIds rt' = issuedUtteranceIds rt \<and> answeredFactKeys rt' = answeredFactKeys rt"
proof (induction n arbitrary: rt)
  case (Suc n)
  from Suc.prems Suc.IH show ?case
    by (fastforce split: option.splits prod.splits sum.splits)
qed simp

text \<open>Every event the loop appends records a transition the table lists, in order.\<close>

fun transitions_recorded :: "interview_state \<Rightarrow> append_request list \<Rightarrow> interview_state \<Rightarrow> bool" where
  "transitions_recorded s [] t \<longleftrightarrow> s = t"
| "transitions_recorded s (e # es) t \<longleftrightarrow>
     ap_type e = STATE_TRANSITIONED \<and> ap_actor e = SYSTEM \<and>
     field (ap_payload e) ''from'' = Some (JStr (state_name s)) \<and>
     (\<exists>u\<in>set (ALLOWED_TRANSITIONS s). field (ap_payload e) ''to'' = Some (JStr (state_name u)) \<and>
        transitions_recorded u es t)"

lemma advance_loop_recorded:
  "\<exists>new. outbox (fst (advance_loop n d c rt)) = outbox rt @ new \<and>
         transitions_recorded (rt_state rt) new (rt_state (fst (advance_loop n d c rt)))"
proof (induction n arbitrary: rt)
  case (Suc n)
  show ?case
  proof (cases "nextStage (stageSignals d c rt)")
    case None
    then show ?thesis by simp
  next
    case (Some a)
    then obtain to_state why where a: "nextStage (stageSignals d c rt) = Some (to_state, why)" by (cases a) auto
    from nextStage_legal [OF this] have legal: "isTransitionAllowed (rt_state rt) to_state" by simp
    let ?pl = "[(''from'', JStr (state_name (rt_state rt))), (''to'', JStr (state_name to_state)),
         (''reason'', advance_name why)]"
    let ?rt = "append_event STATE_TRANSITIONED SYSTEM ?pl
        (''stage:'' @ state_name to_state) None (rt\<lparr>rt_state := to_state, reasoningTurnsInStage := 0\<rparr>)"
    from Suc.IH [of ?rt] obtain new where
      new: "outbox (fst (advance_loop n d c ?rt)) = outbox ?rt @ new"
        "transitions_recorded to_state new (rt_state (fst (advance_loop n d c ?rt)))" by auto
    have step: "advance_loop (Suc n) d c rt = advance_loop n d c ?rt"
      using a applyEvent_legal [OF legal] by simp
    show ?thesis unfolding step using new legal
      by (intro exI [of _ "last (outbox ?rt) # new"])
         (auto simp: append_event_def field_def isTransitionAllowed_def)
  qed
qed simp

end
