(* ===== verification/Checkpoint.thy ===== *)
theory Checkpoint
  imports RuntimeState
begin

text \<open>
  The durable half of \<open>orchestrator/runtime.ts\<close>: what a checkpoint records (\<open>checkpoint\<close>), the schema it
  is read back through (\<open>RuntimeCheckpointSchema\<close>, \<open>CandidateStateSchema\<close>), and \<open>hydrateCheckpoint\<close>.
  A schema is a function from the field found (\<open>None\<close> when it is absent) to the parsed value.
\<close>

section \<open>The pieces of a schema\<close>

definition z_number :: "real \<Rightarrow> real option \<Rightarrow> json option \<Rightarrow> real option" where
  "z_number lo hi v = (case v of
     Some (JNum r) \<Rightarrow>
       if lo \<le> r \<and> (case hi of None \<Rightarrow> True | Some h \<Rightarrow> r \<le> h) then Some r else None
   | _ \<Rightarrow> None)"

text \<open>\<open>z.number().int().nonnegative()\<close>.\<close>

definition z_nat :: "json option \<Rightarrow> nat option" where
  "z_nat v = (case v of
     Some (JNum r) \<Rightarrow> if 0 \<le> r \<and> of_int (floor r) = r then Some (nat (floor r)) else None
   | _ \<Rightarrow> None)"

definition z_string :: "json option \<Rightarrow> string option" where
  "z_string v = (case v of Some (JStr s) \<Rightarrow> Some s | _ \<Rightarrow> None)"

definition z_bool :: "json option \<Rightarrow> bool option" where
  "z_bool v = (case v of Some (JBool b) \<Rightarrow> Some b | _ \<Rightarrow> None)"

text \<open>\<open>z.string().datetime()\<close>.\<close>

definition z_date :: "json option \<Rightarrow> instant option" where
  "z_date v = (case v of Some (JDate (Some t)) \<Rightarrow> Some (Some t) | _ \<Rightarrow> None)"

definition z_nullable :: "(json option \<Rightarrow> 'a option) \<Rightarrow> json option \<Rightarrow> 'a option option" where
  "z_nullable p v = (case v of Some JNull \<Rightarrow> Some None | _ \<Rightarrow> map_option Some (p v))"

definition z_default :: "'a \<Rightarrow> (json option \<Rightarrow> 'a option) \<Rightarrow> json option \<Rightarrow> 'a option" where
  "z_default d p v = (case v of None \<Rightarrow> Some d | Some _ \<Rightarrow> p v)"

fun z_all :: "(json option \<Rightarrow> 'a option) \<Rightarrow> json list \<Rightarrow> 'a list option" where
  "z_all p [] = Some []"
| "z_all p (j # js) =
     (case p (Some j) of None \<Rightarrow> None | Some x \<Rightarrow> map_option (Cons x) (z_all p js))"

definition z_array :: "(json option \<Rightarrow> 'a option) \<Rightarrow> json option \<Rightarrow> 'a list option" where
  "z_array p v = (case v of Some (JArr js) \<Rightarrow> z_all p js | _ \<Rightarrow> None)"

fun z_entries :: "(json option \<Rightarrow> 'a option) \<Rightarrow> (string \<times> json) list \<Rightarrow> (string \<times> 'a) list option" where
  "z_entries p [] = Some []"
| "z_entries p ((k, j) # kvs) =
     (case p (Some j) of None \<Rightarrow> None | Some x \<Rightarrow> map_option (Cons (k, x)) (z_entries p kvs))"

definition z_record :: "(json option \<Rightarrow> 'a option) \<Rightarrow> json option \<Rightarrow> (string \<times> 'a) list option" where
  "z_record p v = (case v of Some (JObj kvs) \<Rightarrow> z_entries p kvs | _ \<Rightarrow> None)"

definition z_state :: "json option \<Rightarrow> interview_state option" where
  "z_state v = Option.bind (z_string v) parse_state"

definition z_milestone :: "json option \<Rightarrow> milestone_kind option" where
  "z_milestone v = Option.bind (z_string v) parse_milestone"

fun activity_name :: "code_activity \<Rightarrow> string" where
  "activity_name NONE = ''NONE''"
| "activity_name LOW = ''LOW''"
| "activity_name MEDIUM = ''MEDIUM''"
| "activity_name HIGH = ''HIGH''"

definition z_activity :: "json option \<Rightarrow> code_activity option" where
  "z_activity v = Option.bind (z_string v) (\<lambda>s. List.find (\<lambda>a. activity_name a = s) [NONE, LOW, MEDIUM, HIGH])"

text \<open>\<open>z.number().int().min(1).max(4)\<close>.\<close>

definition z_hint_level :: "json option \<Rightarrow> nat option" where
  "z_hint_level v = Option.bind (z_nat v) (\<lambda>n. if 1 \<le> n \<and> n \<le> 4 then Some n else None)"

definition sub_field :: "json option \<Rightarrow> string \<Rightarrow> json option" where
  "sub_field v k = (case v of Some (JObj kvs) \<Rightarrow> map_of kvs k | _ \<Rightarrow> None)"

definition is_object :: "json option \<Rightarrow> bool" where
  "is_object v = (case v of Some (JObj _) \<Rightarrow> True | _ \<Rightarrow> False)"

section \<open>Candidate state\<close>

definition confidence_schema :: "json option \<Rightarrow> (real \<times> real) option" where
  "confidence_schema v = z_default (0, 0) (\<lambda>v.
     if is_object v
     then do { a \<leftarrow> z_number 0 (Some 1) (sub_field v ''approach'');
               c \<leftarrow> z_number 0 (Some 1) (sub_field v ''complexity'');
               Some (a, c) }
     else None) v"

definition CandidateStateSchema :: "json option \<Rightarrow> candidate_state option" where
  "CandidateStateSchema v =
     (if \<not> is_object v then None
      else do {
        ap \<leftarrow> z_nullable z_string (sub_field v ''currentApproach'');
        am \<leftarrow> z_default [] (z_array z_string) (sub_field v ''alternativesMentioned'');
        ct \<leftarrow> z_nullable z_string (sub_field v ''claimedTime'');
        cs \<leftarrow> z_nullable z_string (sub_field v ''claimedSpace'');
        df \<leftarrow> z_nullable z_string (sub_field v ''detectedSolutionFamilyId'');
        uc \<leftarrow> z_default [] (z_array z_string) (sub_field v ''understoodConstraints'');
        ur \<leftarrow> z_default [] (z_array z_string) (sub_field v ''unresolvedRisks'');
        pr \<leftarrow> z_default 0 (z_number 0 (Some 1)) (sub_field v ''implementationProgress'');
        ra \<leftarrow> z_default NONE z_activity (sub_field v ''recentCodeActivity'');
        sk \<leftarrow> z_default 0 (z_number 0 (Some 1)) (sub_field v ''stuckScore'');
        hu \<leftarrow> z_default [] (z_array z_hint_level) (sub_field v ''hintsUsed'');
        ph \<leftarrow> z_default [] (z_array z_string) (sub_field v ''probeHistory'');
        mr \<leftarrow> z_default [] (z_array z_milestone) (sub_field v ''milestonesReached'');
        cf \<leftarrow> confidence_schema (sub_field v ''confidence'');
        dr \<leftarrow> z_default 0 z_nat (sub_field v ''derivedFromRevision'');
        co \<leftarrow> z_default None (z_nullable z_date) (sub_field v ''codeObservedAt'');
        ua \<leftarrow> z_date (sub_field v ''updatedAt'');
        Some \<lparr>currentApproach = ap, alternativesMentioned = am, claimedTime = ct, claimedSpace = cs,
              detectedSolutionFamilyId = df, understoodConstraints = uc, unresolvedRisks = ur,
              implementationProgress = pr, recentCodeActivity = ra, stuckScore = sk, hintsUsed = hu,
              probeHistory = ph, milestonesReached = mr, approachConfidence = fst cf,
              complexityConfidence = snd cf, derivedFromRevision = real dr, codeObservedAt = co,
              updatedAt = ua\<rparr> })"

text \<open>What the other side writes.\<close>

definition j_nullable :: "('a \<Rightarrow> json) \<Rightarrow> 'a option \<Rightarrow> json" where
  "j_nullable f v = (case v of None \<Rightarrow> JNull | Some x \<Rightarrow> f x)"

definition j_strings :: "string list \<Rightarrow> json" where
  "j_strings xs = JArr (map JStr xs)"

definition candidate_json :: "candidate_state \<Rightarrow> json" where
  "candidate_json c = JObj
     [(''currentApproach'', j_nullable JStr (currentApproach c)),
      (''alternativesMentioned'', j_strings (alternativesMentioned c)),
      (''claimedTime'', j_nullable JStr (claimedTime c)),
      (''claimedSpace'', j_nullable JStr (claimedSpace c)),
      (''detectedSolutionFamilyId'', j_nullable JStr (detectedSolutionFamilyId c)),
      (''understoodConstraints'', j_strings (understoodConstraints c)),
      (''unresolvedRisks'', j_strings (unresolvedRisks c)),
      (''implementationProgress'', JNum (implementationProgress c)),
      (''recentCodeActivity'', JStr (activity_name (recentCodeActivity c))),
      (''stuckScore'', JNum (stuckScore c)),
      (''hintsUsed'', JArr (map (\<lambda>n. JNum (real n)) (hintsUsed c))),
      (''probeHistory'', j_strings (probeHistory c)),
      (''milestonesReached'', JArr (map (\<lambda>k. JStr (milestone_name k)) (milestonesReached c))),
      (''confidence'', JObj [(''approach'', JNum (approachConfidence c)), (''complexity'', JNum (complexityConfidence c))]),
      (''derivedFromRevision'', JNum (derivedFromRevision c)),
      (''codeObservedAt'', j_nullable JDate (codeObservedAt c)),
      (''updatedAt'', JDate (updatedAt c))]"

section \<open>The checkpoint\<close>

definition prosody_json :: "prosodic_evidence \<Rightarrow> json" where
  "prosody_json p = JObj ([(''probability'', JNum (ps_probability p)), (''confidence'', JNum (ps_confidence p))] @
     (case ps_reason p of None \<Rightarrow> [] | Some r \<Rightarrow> [(''reason'', JStr r)]))"

definition ProsodySchema :: "json option \<Rightarrow> prosodic_evidence option" where
  "ProsodySchema v =
     (if \<not> is_object v then None
      else do {
        p \<leftarrow> z_number 0 (Some 1) (sub_field v ''probability'');
        c \<leftarrow> z_number 0 (Some 1) (sub_field v ''confidence'');
        r \<leftarrow> z_default None (\<lambda>r. Option.bind (z_string r) (\<lambda>s. if length s \<le> 200 then Some (Some s) else None))
                (sub_field v ''reason'');
        Some \<lparr>ps_probability = p, ps_confidence = c, ps_reason = r\<rparr> })"

definition milestones_json :: "milestone_state \<Rightarrow> json" where
  "milestones_json m = JObj
     [(''reached'', JArr (map (\<lambda>k. JStr (milestone_name k)) (reached m))),
      (''consecutiveIdenticalFailures'', JNum (real (consecutiveIdenticalFailures m))),
      (''lastFailureFingerprint'', j_nullable JStr (lastFailureFingerprint m)),
      (''lastSnapshotCode'', j_nullable JStr (lastSnapshotCode m))]"

definition milestones_schema :: "json option \<Rightarrow> milestone_state option" where
  "milestones_schema v =
     (if \<not> is_object v then None
      else do {
        r \<leftarrow> z_array z_milestone (sub_field v ''reached'');
        n \<leftarrow> z_nat (sub_field v ''consecutiveIdenticalFailures'');
        f \<leftarrow> z_nullable z_string (sub_field v ''lastFailureFingerprint'');
        s \<leftarrow> z_nullable z_string (sub_field v ''lastSnapshotCode'');
        Some \<lparr>reached = r, consecutiveIdenticalFailures = n, lastFailureFingerprint = f, lastSnapshotCode = s\<rparr> })"

definition checkpoint :: "runtime \<Rightarrow> payload" where
  "checkpoint rt =
     [(''version'', JNum 1),
      (''state'', JStr (state_name (rt_state rt))),
      (''candidateState'', candidate_json (rt_candidate rt)),
      (''milestones'', milestones_json (rt_milestones rt)),
      (''probeUseCounts'', JObj (map (\<lambda>(k, n). (k, JNum (real n))) (rt_probeUseCounts rt))),
      (''followUpsUsed'', j_strings (rt_followUpsUsed rt)),
      (''runsStarted'', JNum (real (runsStarted rt))),
      (''reasoningTurnsInStage'', JNum (real (reasoningTurnsInStage rt))),
      (''approachCommitted'', JBool (approachCommitted rt)),
      (''latestCodeRevision'', JNum (rt_latestCodeRevision rt)),
      (''latestCode'', JStr (latestCode rt)),
      (''previousObservedCode'', j_nullable JStr (previousObservedCode rt)),
      (''lastCodeActivityMs'', JNum (lastCodeActivityMs rt)),
      (''lastSpokeAtMs'', JNum (lastSpokeAtMs rt)),
      (''candidateSpeechStarted'', JBool (rt_candidateSpeechStarted rt)),
      (''lastSpeechStoppedAtMs'', j_nullable JNum (lastSpeechStoppedAtMs rt)),
      (''lastProsody'', j_nullable prosody_json (lastProsody rt)),
      (''answeredFactKeys'', j_strings (answeredFactKeys rt)),
      (''briefDeliveryCount'', JNum (real (rt_briefDeliveryCount rt))),
      (''observationCount'', JNum (real (observationCount rt))),
      (''openingRedeliveryPending'', JBool (rt_openingRedeliveryPending rt)),
      (''openingRedeliveries'', JNum (real (openingRedeliveries rt)))]"

text \<open>
  \<open>hydrateCheckpoint\<close>: the fields in the order of the schema; a payload the schema refuses throws.
\<close>

definition read_checkpoint :: "runtime_deps \<Rightarrow> payload \<Rightarrow> runtime \<Rightarrow> runtime option" where
  "read_checkpoint d p rt =
     do {
       _ \<leftarrow> (if field p ''version'' = Some (JNum 1) then Some () else None);
       st \<leftarrow> z_state (field p ''state'');
       cs \<leftarrow> CandidateStateSchema (field p ''candidateState'');
       ms \<leftarrow> milestones_schema (field p ''milestones'');
       pu \<leftarrow> z_record z_nat (field p ''probeUseCounts'');
       fu \<leftarrow> z_array z_string (field p ''followUpsUsed'');
       rs \<leftarrow> z_nat (field p ''runsStarted'');
       rn \<leftarrow> z_nat (field p ''reasoningTurnsInStage'');
       ac \<leftarrow> z_bool (field p ''approachCommitted'');
       lr \<leftarrow> z_nat (field p ''latestCodeRevision'');
       lc \<leftarrow> z_string (field p ''latestCode'');
       pc \<leftarrow> z_nullable z_string (field p ''previousObservedCode'');
       ca \<leftarrow> z_number 0 None (field p ''lastCodeActivityMs'');
       sp \<leftarrow> z_number 0 None (field p ''lastSpokeAtMs'');
       ss \<leftarrow> z_bool (field p ''candidateSpeechStarted'');
       stopped \<leftarrow> z_nullable (z_number 0 None) (field p ''lastSpeechStoppedAtMs'');
       pr \<leftarrow> z_default None (z_nullable ProsodySchema) (field p ''lastProsody'');
       af \<leftarrow> z_array z_string (field p ''answeredFactKeys'');
       bd \<leftarrow> z_nat (field p ''briefDeliveryCount'');
       oc \<leftarrow> z_nat (field p ''observationCount'');
       rp \<leftarrow> z_default False z_bool (field p ''openingRedeliveryPending'');
       rd \<leftarrow> z_default 0 z_nat (field p ''openingRedeliveries'');
       Some (rt\<lparr>rt_state := st, rt_candidate := cs, rt_milestones := ms, rt_probeUseCounts := pu,
                rt_followUpsUsed := fu, runsStarted := rs, reasoningTurnsInStage := rn, approachCommitted := ac,
                rt_latestCodeRevision := real lr, latestCode := lc, previousObservedCode := pc,
                lastCodeActivityMs := ca, lastSpokeAtMs := sp, rt_candidateSpeechStarted := ss,
                lastSpeechStoppedAtMs := stopped, lastProsody := (if prosodyEnabled d then pr else None),
                answeredFactKeys := af, rt_briefDeliveryCount := bd, observationCount := oc,
                rt_openingRedeliveryPending := rp, openingRedeliveries := rd\<rparr>) }"

definition hydrateCheckpoint :: "runtime_deps \<Rightarrow> payload \<Rightarrow> runtime \<Rightarrow> runtime result" where
  "hydrateCheckpoint d p rt =
     (case read_checkpoint d p rt of None \<Rightarrow> Inl (JsError ''INVALID_RUNTIME_CHECKPOINT'') | Some rt' \<Rightarrow> Inr rt')"

definition persistCheckpoint :: "string \<Rightarrow> nat option \<Rightarrow> runtime \<Rightarrow> runtime" where
  "persistCheckpoint key completedInputSeq rt =
     rt\<lparr>outbox := outbox rt @ [\<lparr>ap_type = RUNTIME_CHECKPOINT, ap_actor = SYSTEM, ap_payload = checkpoint rt,
          ap_key = ''runtime-checkpoint:'' @ key, ap_occurredAt = None,
          ap_completedInputSeq = completedInputSeq\<rparr>]\<rparr>"

section \<open>Reading back what was written\<close>

named_theorems schema_simps \<open>what a schema makes of the value the other side writes\<close>

lemma z_nat_real [schema_simps]: "z_nat (Some (JNum (real n))) = Some n"
  by (simp add: z_nat_def)

lemma z_nat_num: "z_nat (Some (JNum r)) = Some n \<longleftrightarrow> r = real n"
proof
  assume "z_nat (Some (JNum r)) = Some n"
  then have "0 \<le> r" "of_int (floor r) = r" "n = nat (floor r)" by (auto simp: z_nat_def split: if_splits)
  then show "r = real n" by (metis floor_mono floor_zero of_nat_nat)
qed (simp add: z_nat_def)

lemma z_string_simp [schema_simps]: "z_string (Some (JStr s)) = Some s"
  by (simp add: z_string_def)

lemma z_bool_simp [schema_simps]: "z_bool (Some (JBool b)) = Some b"
  by (simp add: z_bool_def)

lemma z_number_simp [schema_simps]:
  "lo \<le> r \<Longrightarrow> z_number lo None (Some (JNum r)) = Some r"
  "lo \<le> r \<Longrightarrow> r \<le> hi \<Longrightarrow> z_number lo (Some hi) (Some (JNum r)) = Some r"
  by (simp_all add: z_number_def)

lemma z_all_map: "(\<And>x. x \<in> set xs \<Longrightarrow> p (Some (f x)) = Some x) \<Longrightarrow> z_all p (map f xs) = Some xs"
  by (induction xs) simp_all

lemma z_array_map: "(\<And>x. x \<in> set xs \<Longrightarrow> p (Some (f x)) = Some x) \<Longrightarrow> z_array p (Some (JArr (map f xs))) = Some xs"
  by (simp add: z_array_def z_all_map)

lemma z_strings [schema_simps]: "z_array z_string (Some (j_strings xs)) = Some xs"
  by (simp add: j_strings_def z_array_map z_string_simp)

lemma z_milestones [schema_simps]:
  "z_array z_milestone (Some (JArr (map (\<lambda>k. JStr (milestone_name k)) ks))) = Some ks"
  by (rule z_array_map) (simp add: z_milestone_def z_string_simp)

lemma z_record_nat [schema_simps]:
  "z_record z_nat (Some (JObj (map (\<lambda>(k, n). (k, JNum (real n))) m))) = Some m"
proof -
  have "z_entries z_nat (map (\<lambda>(k, n). (k, JNum (real n))) m) = Some m"
    by (induction m) (auto simp: z_nat_real)
  then show ?thesis by (simp add: z_record_def)
qed

lemma z_nullable_string [schema_simps]: "z_nullable z_string (Some (j_nullable JStr v)) = Some v"
  by (cases v) (simp_all add: z_nullable_def j_nullable_def z_string_simp)

lemma z_state_simp [schema_simps]: "z_state (Some (JStr (state_name s))) = Some s"
  by (simp add: z_state_def z_string_simp)

lemma z_activity_simp [schema_simps]: "z_activity (Some (JStr (activity_name a))) = Some a"
  by (cases a) (simp_all add: z_activity_def z_string_simp)

lemma z_default_some [schema_simps]: "z_default d p (Some j) = p (Some j)"
  by (simp add: z_default_def)

lemma z_hints [schema_simps]:
  "set hs \<subseteq> {1..4} \<Longrightarrow> z_array z_hint_level (Some (JArr (map (\<lambda>n. JNum (real n)) hs))) = Some hs"
  by (rule z_array_map) (auto simp: z_hint_level_def z_nat_real)

lemma z_nullable_date [schema_simps]:
  "v \<noteq> Some None \<Longrightarrow> z_nullable z_date (Some (j_nullable JDate v)) = Some v"
  by (cases v) (auto simp: z_nullable_def j_nullable_def z_date_def)

lemma z_nullable_num [schema_simps]:
  "(\<forall>r. v = Some r \<longrightarrow> 0 \<le> r) \<Longrightarrow> z_nullable (z_number 0 None) (Some (j_nullable JNum v)) = Some v"
  by (cases v) (simp_all add: z_nullable_def j_nullable_def z_number_simp)

lemma sub_field_obj [schema_simps]: "sub_field (Some (JObj kvs)) k = map_of kvs k"
  by (simp add: sub_field_def)

text \<open>The bounds the schemas impose on a candidate state.\<close>

definition candidate_ok :: "candidate_state \<Rightarrow> bool" where
  "candidate_ok c \<longleftrightarrow> 0 \<le> implementationProgress c \<and> implementationProgress c \<le> 1 \<and>
     0 \<le> stuckScore c \<and> stuckScore c \<le> 1 \<and> set (hintsUsed c) \<subseteq> {1..4} \<and>
     0 \<le> approachConfidence c \<and> approachConfidence c \<le> 1 \<and>
     0 \<le> complexityConfidence c \<and> complexityConfidence c \<le> 1 \<and>
     (\<exists>n. derivedFromRevision c = real n) \<and> codeObservedAt c \<noteq> Some None \<and> updatedAt c \<noteq> None"

lemma candidate_round_trip:
  "candidate_ok c \<Longrightarrow> CandidateStateSchema (Some (candidate_json c)) = Some c"
  by (cases "updatedAt c")
     (auto simp: candidate_ok_def CandidateStateSchema_def candidate_json_def is_object_def
        confidence_schema_def z_date_def schema_simps)

lemma prosody_round_trip [schema_simps]:
  "0 \<le> ps_probability p \<Longrightarrow> ps_probability p \<le> 1 \<Longrightarrow> 0 \<le> ps_confidence p \<Longrightarrow> ps_confidence p \<le> 1 \<Longrightarrow>
     (\<forall>r. ps_reason p = Some r \<longrightarrow> length r \<le> 200) \<Longrightarrow> ProsodySchema (Some (prosody_json p)) = Some p"
  by (cases "ps_reason p")
     (simp_all add: ProsodySchema_def prosody_json_def is_object_def z_default_def schema_simps)

lemma milestones_round_trip [schema_simps]: "milestones_schema (Some (milestones_json m)) = Some m"
  by (simp add: milestones_schema_def milestones_json_def is_object_def schema_simps)

definition prosody_ok :: "prosodic_evidence \<Rightarrow> bool" where
  "prosody_ok p \<longleftrightarrow> 0 \<le> ps_probability p \<and> ps_probability p \<le> 1 \<and> 0 \<le> ps_confidence p \<and> ps_confidence p \<le> 1 \<and>
     (\<forall>r. ps_reason p = Some r \<longrightarrow> length r \<le> 200)"

lemma z_nullable_prosody [schema_simps]:
  "(\<forall>p. v = Some p \<longrightarrow> prosody_ok p) \<Longrightarrow>
     z_nullable ProsodySchema (Some (j_nullable prosody_json v)) = Some v"
proof (cases v)
  case (Some p)
  assume ok: "\<forall>p. v = Some p \<longrightarrow> prosody_ok p"
  obtain kvs where kvs: "prosody_json p = JObj kvs" by (simp add: prosody_json_def)
  from ok Some have "ProsodySchema (Some (prosody_json p)) = Some p"
    by (simp add: prosody_ok_def prosody_round_trip)
  with Some kvs show ?thesis by (simp add: z_nullable_def j_nullable_def)
qed (simp add: z_nullable_def j_nullable_def)

text \<open>The states whose checkpoint can be read back.\<close>

definition persistable :: "runtime \<Rightarrow> bool" where
  "persistable rt \<longleftrightarrow> candidate_ok (rt_candidate rt) \<and> (\<exists>n. rt_latestCodeRevision rt = real n) \<and>
     0 \<le> lastCodeActivityMs rt \<and> 0 \<le> lastSpokeAtMs rt \<and>
     (\<forall>t. lastSpeechStoppedAtMs rt = Some t \<longrightarrow> 0 \<le> t) \<and>
     (\<forall>p. lastProsody rt = Some p \<longrightarrow> prosody_ok p)"

text \<open>What a checkpoint keeps of a state, written over another one.\<close>

definition durable_part :: "runtime_deps \<Rightarrow> runtime \<Rightarrow> runtime \<Rightarrow> runtime" where
  "durable_part d src rt =
     rt\<lparr>rt_state := rt_state src, rt_candidate := rt_candidate src, rt_milestones := rt_milestones src,
        rt_probeUseCounts := rt_probeUseCounts src, rt_followUpsUsed := rt_followUpsUsed src,
        runsStarted := runsStarted src, reasoningTurnsInStage := reasoningTurnsInStage src,
        approachCommitted := approachCommitted src, rt_latestCodeRevision := rt_latestCodeRevision src,
        latestCode := latestCode src, previousObservedCode := previousObservedCode src,
        lastCodeActivityMs := lastCodeActivityMs src, lastSpokeAtMs := lastSpokeAtMs src,
        rt_candidateSpeechStarted := rt_candidateSpeechStarted src,
        lastSpeechStoppedAtMs := lastSpeechStoppedAtMs src,
        lastProsody := (if prosodyEnabled d then lastProsody src else None),
        answeredFactKeys := answeredFactKeys src, rt_briefDeliveryCount := rt_briefDeliveryCount src,
        observationCount := observationCount src,
        rt_openingRedeliveryPending := rt_openingRedeliveryPending src,
        openingRedeliveries := openingRedeliveries src\<rparr>"

lemma checkpoint_round_trip:
  assumes "persistable src"
  shows "hydrateCheckpoint d (checkpoint src) rt = Inr (durable_part d src rt)"
proof -
  from assms obtain n where "rt_latestCodeRevision src = real n" by (auto simp: persistable_def)
  with assms show ?thesis
    by (simp add: hydrateCheckpoint_def read_checkpoint_def checkpoint_def field_def persistable_def
        candidate_round_trip durable_part_def schema_simps)
qed

text \<open>A revision that is no natural number makes every later checkpoint unreadable.\<close>

lemma checkpoint_bad_revision:
  assumes "\<forall>n. rt_latestCodeRevision src \<noteq> real n"
  shows "hydrateCheckpoint d (checkpoint src) rt = Inl (JsError ''INVALID_RUNTIME_CHECKPOINT'')"
proof -
  have "z_nat (field (checkpoint src) ''latestCodeRevision'') = None"
  proof (rule ccontr)
    assume "z_nat (field (checkpoint src) ''latestCodeRevision'') \<noteq> None"
    then obtain n where "z_nat (Some (JNum (rt_latestCodeRevision src))) = Some n"
      by (auto simp: checkpoint_def field_def)
    with assms z_nat_num show False by blast
  qed
  then show ?thesis
    by (simp add: hydrateCheckpoint_def read_checkpoint_def bind_eq_None_conv split: option.split)
qed

end
