(* ===== verification/RuntimeSpeech.thy ===== *)
theory RuntimeSpeech
  imports Checkpoint
begin

text \<open>
  \<open>orchestrator/runtime.ts\<close>, the gate path: judging a turn, holding it for silence, realizing an
  authorized action in authored words, and the end of an utterance. \<open>judge\<close> is split where the
  source awaits the append of the decision: \<open>judge_decide\<close> runs up to it, \<open>judge_act\<close> from it on, so
  that what other events do in between can be stated. The sentence \<open>turnEndReason\<close> and the source of
  the classification are left out of the payload of a decision.
\<close>

definition opt_field :: "string \<Rightarrow> ('a \<Rightarrow> json) \<Rightarrow> 'a option \<Rightarrow> payload" where
  "opt_field k f v = (case v of None \<Rightarrow> [] | Some x \<Rightarrow> [(k, f x)])"

fun intent_name :: "turn_intent \<Rightarrow> string" where
  "intent_name THINK_ALOUD = ''THINK_ALOUD''"
| "intent_name EXPLICIT_QUESTION = ''EXPLICIT_QUESTION''"
| "intent_name CLARIFICATION_REQUEST = ''CLARIFICATION_REQUEST''"
| "intent_name HINT_REQUEST = ''HINT_REQUEST''"
| "intent_name COMPLEXITY_CLAIM = ''COMPLEXITY_CLAIM''"
| "intent_name APPROACH_COMMITMENT = ''APPROACH_COMMITMENT''"
| "intent_name TEST_PLAN = ''TEST_PLAN''"
| "intent_name CONFUSION = ''CONFUSION''"
| "intent_name DONE_SIGNAL = ''DONE_SIGNAL''"
| "intent_name SOCIAL_SMALL_TALK = ''SOCIAL_SMALL_TALK''"

section \<open>Realizing a decision\<close>

text \<open>The utterance id, kept in the bounded window of issued ids.\<close>

definition issue_utterance :: "string \<Rightarrow> runtime \<Rightarrow> runtime" where
  "issue_utterance u rt =
     (let ids = issuedUtteranceIds rt @ [u]
      in rt\<lparr>issuedUtteranceIds := (if length ids > UTTERANCE_ID_WINDOW then tl ids else ids)\<rparr>)"

definition push_once :: "'a \<Rightarrow> 'a list \<Rightarrow> 'a list" where
  "push_once x xs = (if x \<in> set xs then xs else xs @ [x])"

definition spoken :: "string \<Rightarrow> interview_action \<Rightarrow> string \<Rightarrow> utterance" where
  "spoken u a txt = \<lparr>utteranceId = u, ut_action = a, ut_text = txt, ut_groundedInRevision = None, ut_opening = False\<rparr>"

definition realize_clarification ::
  "runtime_deps \<Rightarrow> gate_decision \<Rightarrow> string \<Rightarrow> runtime \<Rightarrow> utterance option outcome" where
  "realize_clarification d dec tid rt =
     (case List.find (\<lambda>f. Some (fact_key f) = factKey dec) (facts (rd_scenario d)) of
        None \<Rightarrow> (rt, Inr None)
      | Some f \<Rightarrow>
          (let rt1 = append_event CLARIFICATION_ANSWERED INTERVIEWER
                       [(''factKey'', JStr (fact_key f)), (''turnId'', JStr tid)]
                       (''clarification:'' @ tid) None rt
           in (rt1\<lparr>answeredFactKeys := push_once (fact_key f) (answeredFactKeys rt1)\<rparr>,
               Inr (Some (spoken (''utt-'' @ tid) (action dec) (fact_value f))))))"

definition realize_probe ::
  "runtime_deps \<Rightarrow> gate_decision \<Rightarrow> string \<Rightarrow> runtime \<Rightarrow> utterance option outcome" where
  "realize_probe d dec tid rt =
     (case List.find (\<lambda>p. Some (probe_id p) = probeId dec) (probes (rd_scenario d)) of
        None \<Rightarrow> (rt, Inr None)
      | Some p \<Rightarrow>
          (let useCount = count_of (rt_probeUseCounts rt) (probe_id p) in
           case selectProbeWording p useCount of
             Inl e \<Rightarrow> (rt, Inl e)
           | Inr txt \<Rightarrow>
               (let cs = rt_candidate rt;
                    rt1 = rt\<lparr>rt_probeUseCounts := set_key (rt_probeUseCounts rt) (probe_id p) (useCount + 1),
                             rt_candidate := cs\<lparr>probeHistory := probeHistory cs @ [probe_id p]\<rparr>\<rparr>;
                    rt2 = append_event PROBE_ASKED INTERVIEWER
                            ([(''probeId'', JStr (probe_id p)), (''intent'', JStr (questionIntent p)),
                              (''turnId'', JStr tid)] @ opt_field ''groundedInRevision'' JNum (groundedInRevision dec))
                            (''probe:'' @ tid) None rt1
                in (rt2, Inr (Some ((spoken (''utt-'' @ tid) (action dec) txt)
                                      \<lparr>ut_groundedInRevision := groundedInRevision dec\<rparr>))))))"

definition realize_hint ::
  "runtime_deps \<Rightarrow> gate_decision \<Rightarrow> string \<Rightarrow> runtime \<Rightarrow> utterance option outcome" where
  "realize_hint d dec tid rt =
     (case hintLevel dec of
        None \<Rightarrow> (rt, Inr None)
      | Some level \<Rightarrow>
          (case getHint (rd_scenario d) level of
             Inl e \<Rightarrow> (rt, Inl e)
           | Inr h \<Rightarrow>
               (let cs = rt_candidate rt;
                    rt1 = rt\<lparr>rt_candidate := cs\<lparr>hintsUsed := hintsUsed cs @ [level]\<rparr>\<rparr>
                in (append_event HINT_GIVEN INTERVIEWER
                      [(''level'', JNum (real level)), (''scoreImpact'', JNum (scoreImpact h)), (''turnId'', JStr tid)]
                      (''hint:'' @ tid) None rt1,
                    Inr (Some (spoken (''utt-'' @ tid) (action dec) (hint_text h)))))))"

definition realize_follow_up ::
  "runtime_deps \<Rightarrow> gate_decision \<Rightarrow> string \<Rightarrow> runtime \<Rightarrow> utterance option outcome" where
  "realize_follow_up d dec tid rt =
     (case List.find (\<lambda>f. Some (followup_id f) = followUpId dec) (followUps (rd_scenario d)) of
        None \<Rightarrow> (rt, Inr None)
      | Some f \<Rightarrow>
          (append_event FOLLOW_UP_PRESENTED INTERVIEWER
             [(''followUpId'', JStr (followup_id f)), (''turnId'', JStr tid)] (''follow-up:'' @ tid) None
             (rt\<lparr>rt_followUpsUsed := rt_followUpsUsed rt @ [followup_id f]\<rparr>),
           Inr (Some (spoken (''utt-'' @ tid) (action dec) (oralDelta f)))))"

definition realize_brief ::
  "runtime_deps \<Rightarrow> gate_decision \<Rightarrow> string \<Rightarrow> runtime \<Rightarrow> utterance option outcome" where
  "realize_brief d dec tid rt =
     (let sc = rd_scenario d in
      if rt_openingRedeliveryPending rt
      then (let rt1 = rt\<lparr>rt_openingRedeliveryPending := False, openingRedeliveries := openingRedeliveries rt + 1\<rparr>
            in (append_event BRIEF_DELIVERED INTERVIEWER
                  [(''delivery'', JNum (real (rt_briefDeliveryCount rt1))), (''repeat'', JBool False),
                   (''redelivery'', JNum (real (openingRedeliveries rt1)))]
                  (''brief:redeliver:'' @ show_nat (openingRedeliveries rt1)) None rt1,
                Inr (Some ((spoken (''utt-'' @ tid) (action dec) (openingScript sc))\<lparr>ut_opening := True\<rparr>))))
      else (let variants = repeatVariants sc; n = rt_briefDeliveryCount rt;
                txt = (if n = 0 then openingScript sc
                       else if variants = [] then openingScript sc
                       else variants ! ((n - 1) mod length variants));
                rt1 = rt\<lparr>rt_briefDeliveryCount := n + 1\<rparr>
            in (append_event BRIEF_DELIVERED INTERVIEWER
                  [(''delivery'', JNum (real (n + 1))), (''repeat'', JBool (n + 1 > 1))]
                  (''brief:'' @ show_nat (n + 1)) None rt1,
                Inr (Some ((spoken (''utt-'' @ tid) (action dec) txt)\<lparr>ut_opening := (n + 1 = 1)\<rparr>)))))"

definition realize ::
  "runtime_deps \<Rightarrow> gate_decision \<Rightarrow> string \<Rightarrow> runtime \<Rightarrow> utterance option outcome" where
  "realize d dec tid rt0 =
     (let rt = issue_utterance (''utt-'' @ tid) rt0 in
      case action dec of
        ANSWER_CLARIFICATION \<Rightarrow> realize_clarification d dec tid rt
      | ASK_PROBE \<Rightarrow> realize_probe d dec tid rt
      | GIVE_HINT_L1 \<Rightarrow> realize_hint d dec tid rt
      | GIVE_HINT_L2 \<Rightarrow> realize_hint d dec tid rt
      | PRESENT_FOLLOW_UP \<Rightarrow> realize_follow_up d dec tid rt
      | DELIVER_BRIEF \<Rightarrow> realize_brief d dec tid rt
      | ACKNOWLEDGE_BRIEFLY \<Rightarrow> (rt, Inr (Some (spoken (''utt-'' @ tid) (action dec) [])))
      | _ \<Rightarrow> (rt, Inr None))"

section \<open>Judging a turn\<close>

definition holdForSilence ::
  "runtime_deps \<Rightarrow> turn \<Rightarrow> turn_classification \<Rightarrow> turn_completion \<Rightarrow> real option \<Rightarrow> nat \<Rightarrow> runtime \<Rightarrow> runtime" where
  "holdForSilence d t cl completion silenceMs attempt rt =
     (case silenceMs of
        None \<Rightarrow> rt
      | Some ms \<Rightarrow>
          (let threshold = endOfTurnThreshold (rd_policy d) in
           if tc_endProbability completion \<ge> threshold then rt
           else if tc_textEndProbability completion < threshold then rt
           else (case silenceRequiredFor (endOfTurnThreshold (rd_policy d)) (rd_policy d) (turn_prosody t) of
                   None \<Rightarrow> rt
                 | Some required \<Rightarrow>
                     (let waitMs = required - ms + 25 in
                      if waitMs \<le> 0 then rt
                      else rt\<lparr>heldTurn := Some \<lparr>ht_turn = t, ht_classification = cl, ht_attempt = attempt + 1\<rparr>,
                              reevaluationTimer := Some waitMs\<rparr>))))"

definition action_payload ::
  "clock \<Rightarrow> runtime \<Rightarrow> turn \<Rightarrow> turn_classification \<Rightarrow> turn_completion \<Rightarrow> gate_decision \<Rightarrow> nat \<Rightarrow> payload" where
  "action_payload c rt t cl completion dec attempt =
     [(''turnId'', JStr (turnId t)),
      (''action'', JStr (action_name (action dec))),
      (''reason'', JReason (reason dec)),
      (''decidedByRule'', JBool (decidedByRule dec)),
      (''intent'', JStr (intent_name (cl_intent cl))),
      (''semanticEndProbability'', JNum (tc_endProbability completion)),
      (''textEndProbability'', JNum (tc_textEndProbability completion))]
     @ (case tc_prosody completion of None \<Rightarrow> [] | Some p \<Rightarrow>
          [(''prosodyProbability'', JNum (ps_probability p)), (''prosodyConfidence'', JNum (ps_confidence p))]
          @ opt_field ''prosodyPull'' JNum (tc_prosodyPull completion))
     @ opt_field ''silenceMs'' JNum (tc_silenceMs completion)
     @ [(''classifierId'', JStr (classifierId cl))]
     @ opt_field ''probeId'' JStr (probeId dec)
     @ opt_field ''hintLevel'' (\<lambda>n. JNum (real n)) (hintLevel dec)
     @ opt_field ''factKey'' JStr (factKey dec)
     @ opt_field ''followUpId'' JStr (followUpId dec)
     @ opt_field ''groundedInRevision'' JNum (groundedInRevision dec)
     @ groundingMetrics c rt dec
     @ (if attempt > 0 then [(''reevaluated'', JBool True)] else [])"

text \<open>What the first half of \<open>judge\<close> hands to the second.\<close>

record verdict =
  vd_turn :: turn
  vd_completion :: turn_completion
  vd_decision :: gate_decision

definition fused_turn :: "runtime_deps \<Rightarrow> turn \<Rightarrow> turn_classification \<Rightarrow> real option \<Rightarrow> turn \<times> turn_completion" where
  "fused_turn d base cl silenceMs =
     (let completion = estimateTurnCompletion (transcript base) (intent base) (cl_endProbability cl)
                         (turn_prosody base) silenceMs (rd_policy d)
      in (base\<lparr>semanticEndProbability := tc_endProbability completion,
               textEndProbability := Some (tc_textEndProbability completion),
               silenceMsBeforeEnd := (case silenceMs of Some ms \<Rightarrow> Some ms | None \<Rightarrow> silenceMsBeforeEnd base)\<rparr>,
          completion))"

definition judge_decide ::
  "runtime_deps \<Rightarrow> clock \<Rightarrow> turn \<Rightarrow> turn_classification \<Rightarrow> real option \<Rightarrow> nat \<Rightarrow> runtime \<Rightarrow> verdict outcome" where
  "judge_decide d c base cl silenceMs attempt rt =
     (let (t, completion) = fused_turn d base cl silenceMs in
      case decideAction (buildContext d c rt (Some t)) (gate_deps d rt) of
        Inl e \<Rightarrow> (rt, Inl e)
      | Inr dec0 \<Rightarrow>
          (let dec = (case staleGroundingReason d c rt dec0 of None \<Rightarrow> dec0 | Some stale \<Rightarrow> SILENT stale)
           in (append_event ACTION_DECIDED INTERVIEWER (action_payload c rt t cl completion dec attempt)
                 (''action:'' @ turnId t @ '':'' @ show_nat attempt) None rt,
               Inr \<lparr>vd_turn = t, vd_completion = completion, vd_decision = dec\<rparr>)))"

definition judge_act ::
  "runtime_deps \<Rightarrow> clock \<Rightarrow> verdict \<Rightarrow> turn_classification \<Rightarrow> real option \<Rightarrow> nat \<Rightarrow> runtime \<Rightarrow> runtime_result outcome" where
  "judge_act d c v cl silenceMs attempt rt =
     (let dec = vd_decision v; t = vd_turn v in
      if action dec = STAY_SILENT
      then (let rt1 = rt\<lparr>rt_candidateSpeechStarted := False\<rparr>;
                rt2 = (if rt_candidateSpeakingNow rt1 \<and> attempt = 0 then rt1\<lparr>speakingNowHeld := Some (t, cl)\<rparr>
                       else if attempt < 2 then holdForSilence d t cl (vd_completion v) silenceMs attempt rt1
                       else rt1)
            in (rt2, Inr \<lparr>rr_decision = Some dec, rr_utterance = None\<rparr>))
      else (case staleGroundingReason d c rt dec of
              Some stale \<Rightarrow>
                (let rt1 = append_event ACTION_DECIDED INTERVIEWER
                             ([(''turnId'', JStr (turnId t)), (''action'', JStr (action_name STAY_SILENT)),
                               (''reason'', JReason stale), (''decidedByRule'', JBool True),
                               (''supersedesAction'', JStr (action_name (action dec))),
                               (''freshnessRejected'', JBool True)] @ groundingMetrics c rt dec)
                             (''action:'' @ turnId t @ '':'' @ show_nat attempt @ '':freshness'') None rt
                 in (rt1\<lparr>rt_candidateSpeechStarted := False\<rparr>,
                     Inr \<lparr>rr_decision = Some (SILENT stale), rr_utterance = None\<rparr>))
            | None \<Rightarrow>
                and_then (realize d dec (turnId t) rt) (\<lambda>utt rt1.
                  (let rt2 = rt1\<lparr>authorized := map_option (\<lambda>u. \<lparr>au_decision = dec, au_utteranceId = utteranceId u,
                                     au_text = ut_text u, au_opening = ut_opening u\<rparr>) utt,
                                 lastSpokeAtMs := now_ms c, rt_candidateSpeechStarted := False\<rparr>;
                       rt3 = (if utt \<noteq> None
                              then rt2\<lparr>rt_interviewerCurrentlySpeaking := True, openTurn := None, silenceBasis := None\<rparr>
                              else rt2)
                   in (rt3, Inr \<lparr>rr_decision = Some dec, rr_utterance = utt\<rparr>)))))"

text \<open>The two halves in a row; the second reads the clock again.\<close>

definition judge ::
  "runtime_deps \<Rightarrow> clock \<Rightarrow> clock \<Rightarrow> turn \<Rightarrow> turn_classification \<Rightarrow> real option \<Rightarrow> nat \<Rightarrow> runtime \<Rightarrow> runtime_result outcome" where
  "judge d c c' base cl silenceMs attempt rt =
     and_then (judge_decide d c base cl silenceMs attempt rt) (\<lambda>v rt1. judge_act d c' v cl silenceMs attempt rt1)"

definition reevaluate ::
  "runtime_deps \<Rightarrow> clock \<Rightarrow> clock \<Rightarrow> real \<Rightarrow> real option \<Rightarrow> runtime \<Rightarrow> runtime_result option outcome" where
  "reevaluate d c c' atMs loggedSilenceMs rt =
     (case heldTurn rt of
        None \<Rightarrow> (rt, Inr None)
      | Some held \<Rightarrow>
          (let rt1 = clearHeldTurn rt;
               silenceMs = (case loggedSilenceMs of Some ms \<Rightarrow> Some ms
                            | None \<Rightarrow> map_option (\<lambda>stopped. max 0 (atMs - stopped)) (lastSpeechStoppedAtMs rt1))
           in and_then (judge d c c' (ht_turn held) (ht_classification held) silenceMs (ht_attempt held) rt1)
                (\<lambda>r rt2. (rt2, Inr (Some r)))))"

text \<open>The timer of a held turn; the result is what \<open>onAuthorized\<close> is handed.\<close>

definition onSilenceElapsed ::
  "runtime_deps \<Rightarrow> clock \<Rightarrow> clock \<Rightarrow> runtime \<Rightarrow> runtime_result option outcome" where
  "onSilenceElapsed d c c' rt =
     (case heldTurn rt of
        None \<Rightarrow> (rt, Inr None)
      | Some held \<Rightarrow>
          (let silenceMs = silenceNow c rt;
               key = turnId (ht_turn held) @ '':'' @ show_nat (ht_attempt held);
               rt1 = append_event SILENCE_ELAPSED SYSTEM
                       ([(''turnId'', JStr (turnId (ht_turn held)))]
                        @ (case silenceMs of None \<Rightarrow> []
                           | Some ms \<Rightarrow> [(''silenceMs'', JNum ms), (''basis'', JStr ''client-delta+server-elapsed'')]))
                       (''silence:'' @ key) (Some (Some (now_ms c))) rt
           in and_then (reevaluate d c c' (now_ms c) silenceMs rt1) (\<lambda>r rt2.
                (persistCheckpoint (''silence:'' @ key) None rt2,
                 Inr (case r of None \<Rightarrow> None
                      | Some res \<Rightarrow> (case rr_decision res of
                          Some dec \<Rightarrow> if action dec \<noteq> STAY_SILENT then Some res else None
                        | None \<Rightarrow> None))))))"

section \<open>Opening the interview, and the end of an utterance\<close>

definition openInterview :: "runtime_deps \<Rightarrow> clock \<Rightarrow> clock \<Rightarrow> runtime \<Rightarrow> runtime_result outcome" where
  "openInterview d c c' rt =
     (case decideAction (buildContext d c rt None) (gate_deps d rt) of
        Inl e \<Rightarrow> (rt, Inl e)
      | Inr dec \<Rightarrow>
          if action dec = STAY_SILENT then (rt, Inr \<lparr>rr_decision = Some dec, rr_utterance = None\<rparr>)
          else (let tid = (if rt_openingRedeliveryPending rt
                           then ''opening-r'' @ show_nat (openingRedeliveries rt + 1) else ''opening'');
                    rt1 = append_event ACTION_DECIDED INTERVIEWER
                            [(''action'', JStr (action_name (action dec))), (''reason'', JReason (reason dec)),
                             (''decidedByRule'', JBool (decidedByRule dec))]
                            (''action:'' @ tid) None rt
                in and_then (realize d dec tid rt1) (\<lambda>utt rt2.
                     (let rt3 = rt2\<lparr>authorized := map_option (\<lambda>u. \<lparr>au_decision = dec, au_utteranceId = utteranceId u,
                                       au_text = ut_text u, au_opening = ut_opening u\<rparr>) utt,
                                    lastSpokeAtMs := now_ms c'\<rparr>;
                          rt4 = (if utt \<noteq> None then rt3\<lparr>rt_interviewerCurrentlySpeaking := True\<rparr> else rt3)
                      in (rt4, Inr \<lparr>rr_decision = Some dec, rr_utterance = utt\<rparr>)))))"

datatype outcome_kind = COMPLETED | INTERRUPTED | SPEECH_FAILED | CANCELLED

fun outcome_name :: "outcome_kind \<Rightarrow> string" where
  "outcome_name COMPLETED = ''COMPLETED''"
| "outcome_name INTERRUPTED = ''INTERRUPTED''"
| "outcome_name SPEECH_FAILED = ''FAILED''"
| "outcome_name CANCELLED = ''CANCELLED''"

record speech_outcome =
  so_outcome :: outcome_kind
  so_reason :: "string option"
  so_source :: "string option"
  so_firstAudio :: "bool option"
  so_receivedAudioMs :: "real option"
  so_playedAudioMs :: "real option"
  so_underruns :: "nat option"
  so_durationMs :: "real option"

definition heard :: "speech_outcome option \<Rightarrow> bool" where
  "heard so = (case so of
     None \<Rightarrow> True
   | Some x \<Rightarrow> (case so_firstAudio x of Some b \<Rightarrow> b
                | None \<Rightarrow> so_outcome x = COMPLETED \<or> so_outcome x = INTERRUPTED))"

definition markSpeechFinished :: "runtime_deps \<Rightarrow> clock \<Rightarrow> speech_outcome option \<Rightarrow> runtime \<Rightarrow> unit outcome" where
  "markSpeechFinished d c so rt =
     (let completed = authorized rt;
          rt1 = rt\<lparr>rt_interviewerCurrentlySpeaking := False, authorized := None\<rparr>;
          rt2 = (case (completed, so) of
                   (Some a, Some x) \<Rightarrow>
                     append_event UTTERANCE_OUTCOME INTERVIEWER
                       ([(''utteranceId'', JStr (au_utteranceId a)), (''action'', JStr (action_name (action (au_decision a)))),
                         (''outcome'', JStr (outcome_name (so_outcome x)))]
                        @ opt_field ''reason'' JStr (so_reason x) @ opt_field ''source'' JStr (so_source x)
                        @ opt_field ''firstAudio'' JBool (so_firstAudio x)
                        @ opt_field ''receivedAudioMs'' JNum (so_receivedAudioMs x)
                        @ opt_field ''playedAudioMs'' JNum (so_playedAudioMs x)
                        @ opt_field ''underruns'' (\<lambda>n. JNum (real n)) (so_underruns x)
                        @ opt_field ''durationMs'' JNum (so_durationMs x))
                       (''utterance-outcome:'' @ au_utteranceId a) None rt1
                 | _ \<Rightarrow> rt1);
          rt3 = (case completed of
                   Some a \<Rightarrow>
                     if au_opening a
                     then (if heard so then rt2\<lparr>rt_openingRedeliveryPending := False\<rparr>
                           else if openingRedeliveries rt2 < MAX_OPENING_REDELIVERIES
                             then rt2\<lparr>rt_openingRedeliveryPending := True\<rparr> else rt2)
                     else rt2
                 | None \<Rightarrow> rt2)
      in and_then (case completed of
                     Some a \<Rightarrow>
                       if action (au_decision a) = DELIVER_BRIEF \<and> rt_state rt3 = ORAL_PROBLEM_DELIVERY
                       then advanceStages d c rt3 else (rt3, Inr ())
                   | None \<Rightarrow> (rt3, Inr ()))
           (\<lambda>_ rt4. (case completed of
                      Some a \<Rightarrow> persistCheckpoint (''speech-finished:'' @ au_utteranceId a) None rt4
                    | None \<Rightarrow> rt4, Inr ())))"

definition lost_utterance :: speech_outcome where
  "lost_utterance = \<lparr>so_outcome = CANCELLED, so_reason = Some ''CLIENT_LOST_UTTERANCE'', so_source = None,
     so_firstAudio = Some False, so_receivedAudioMs = None, so_playedAudioMs = None, so_underruns = None,
     so_durationMs = None\<rparr>"

definition reconcileSpeechOnReady ::
  "runtime_deps \<Rightarrow> clock \<Rightarrow> string option \<Rightarrow> runtime \<Rightarrow> string option outcome" where
  "reconcileSpeechOnReady d c activeUtteranceId rt =
     (case authorized rt of
        None \<Rightarrow> (rt, Inr None)
      | Some a \<Rightarrow>
          if activeUtteranceId = Some (au_utteranceId a) then (rt, Inr None)
          else and_then (markSpeechFinished d c (Some lost_utterance) rt) (\<lambda>_ rt1. (rt1, Inr (Some (au_utteranceId a)))))"

end
