(* ===== verification/RuntimeIngest.thy ===== *)
theory RuntimeIngest
  imports RuntimeSpeech
begin

text \<open>
  \<open>orchestrator/runtime.ts\<close>, the entry points: the observation passes, a finalized turn, the dispatch
  of one committed event, and the recovery of a runtime from its log.
\<close>

section \<open>Reading events\<close>

text \<open>
  \<open>prosodyOf\<close>: the object is validated, its \<open>reason\<close> cut to 200 characters before.
\<close>

definition prosodyOf :: "runtime_deps \<Rightarrow> session_event \<Rightarrow> prosodic_evidence option" where
  "prosodyOf d ev =
     (if \<not> prosodyEnabled d then None
      else (case field (payload ev) ''prosody'' of
              Some (JObj kvs) \<Rightarrow>
                ProsodySchema (Some (JObj
                  (opt_field ''probability'' id (map_of kvs ''probability'') @
                   opt_field ''confidence'' id (map_of kvs ''confidence'') @
                   (case map_of kvs ''reason'' of Some (JStr r) \<Rightarrow> [(''reason'', JStr (take 200 r))] | _ \<Rightarrow> []))))
            | _ \<Rightarrow> None))"

definition j_int :: "json option \<Rightarrow> int option" where
  "j_int v = (case v of Some (JNum r) \<Rightarrow> if of_int (floor r) = r then Some (floor r) else None | _ \<Rightarrow> None)"

definition z_status :: "json option \<Rightarrow> run_status option" where
  "z_status v = Option.bind (z_string v) (\<lambda>s. List.find (\<lambda>st. status_name st = s)
     [PASSED, FAILED, COMPILE_ERROR, RUNTIME_ERROR, TIMEOUT, MEMORY_EXCEEDED, INTERNAL_ERROR])"

definition z_optional :: "(json option \<Rightarrow> 'a option) \<Rightarrow> json option \<Rightarrow> 'a option option" where
  "z_optional p v = (case v of None \<Rightarrow> Some None | Some _ \<Rightarrow> map_option Some (p v))"

text \<open>\<open>RunResultSchema\<close>.\<close>

definition RunResultSchema :: "payload \<Rightarrow> run_result option" where
  "RunResultSchema p =
     do {
       i \<leftarrow> z_string (field p ''runId'');
       _ \<leftarrow> z_string (field p ''language'');
       rv \<leftarrow> z_nat (field p ''codeRevision'');
       _ \<leftarrow> z_string (field p ''inputHash'');
       st \<leftarrow> z_status (field p ''status'');
       ec \<leftarrow> z_nullable j_int (field p ''exitCode'');
       cpu \<leftarrow> z_number 0 None (field p ''cpuTimeMs'');
       mem \<leftarrow> z_number 0 None (field p ''memoryKb'');
       so \<leftarrow> z_string (field p ''stdout'');
       se \<leftarrow> z_string (field p ''stderr'');
       tr \<leftarrow> z_bool (field p ''truncated'');
       vp \<leftarrow> z_optional z_nat (field p ''visibleTestsPassed'');
       vt \<leftarrow> z_optional z_nat (field p ''visibleTestsTotal'');
       Some \<lparr>runId = i, codeRevision = rv, run_status = st, exitCode = ec, cpuTimeMs = cpu, memoryKb = mem,
             stdout = so, stderr = se, truncated = tr, visibleTestsPassed = vp, visibleTestsTotal = vt\<rparr> }"

section \<open>Observation passes\<close>

text \<open>
  A pass takes the queues, awaits the parse, and folds. \<open>observation_take\<close> is the part before the
  await, \<open>observation_fold\<close> the part after it; other events may land in between.
\<close>

record observation_work =
  ow_revision :: real
  ow_code :: string
  ow_previous :: "string option"
  ow_runs :: "run_result list"
  ow_transcripts :: "transcript_observation list"

definition observation_take :: "runtime \<Rightarrow> runtime \<times> observation_work" where
  "observation_take rt =
     (rt\<lparr>observationDirty := False, pendingRuns := [], pendingTranscripts := []\<rparr>,
      \<lparr>ow_revision = rt_latestCodeRevision rt, ow_code = latestCode rt, ow_previous = previousObservedCode rt,
       ow_runs = pendingRuns rt, ow_transcripts = pendingTranscripts rt\<rparr>)"

text \<open>The three values the folds update: the candidate state, the milestones and what was emitted.\<close>

type_synonym folded = "candidate_state \<times> milestone_state \<times> milestone_kind list"

definition fold_observation ::
  "clock \<Rightarrow> real \<Rightarrow> semantic_snapshot option \<Rightarrow> run_result option \<Rightarrow> folded \<Rightarrow> folded" where
  "fold_observation c lastActivity snapshot run f =
     (case f of (cs, ms, emitted) \<Rightarrow>
       (let res = observe \<lparr>oi_previous = cs, oi_milestones = ms, oi_snapshot = snapshot, oi_run = run,
                    oi_secondsSinceCodeActivity = max 0 ((now_ms c - lastActivity) / 1000),
                    oi_consecutiveFailures = consecutiveIdenticalFailures ms,
                    oi_now = Some (now_ms c)\<rparr>
        in (or_state res, or_milestones res, emitted @ or_emitted res)))"

definition fold_runs_queue ::
  "clock \<Rightarrow> real \<Rightarrow> semantic_snapshot option \<Rightarrow> run_result list \<Rightarrow> folded \<Rightarrow> folded" where
  "fold_runs_queue c lastActivity snapshot runs f =
     (case runs of
        [] \<Rightarrow> fold_observation c lastActivity snapshot None f
      | r # rs \<Rightarrow> foldl (\<lambda>f r. fold_observation c lastActivity None (Some r) f)
                   (fold_observation c lastActivity snapshot (Some r) f) rs)"

definition fold_transcript :: "scenario_version \<Rightarrow> folded \<Rightarrow> transcript_observation \<Rightarrow> folded" where
  "fold_transcript sc f ob =
     (case f of (cs, ms, emitted) \<Rightarrow>
       (case observeTranscript cs ms sc ob of (cs', ms', new) \<Rightarrow> (cs', ms', emitted @ new)))"

definition fold_mismatch :: "scenario_version \<Rightarrow> folded \<Rightarrow> folded" where
  "fold_mismatch sc f =
     (case f of (cs, ms, emitted) \<Rightarrow>
       (case applyComplexityMismatch cs ms sc of (ms', new) \<Rightarrow>
          (cs\<lparr>milestonesReached := reached ms'\<rparr>, ms', emitted @ new)))"

definition region_json :: "nat \<times> nat \<Rightarrow> json" where
  "region_json r = JObj [(''startLine'', JNum (real (fst r))), (''endLine'', JNum (real (snd r)))]"

definition function_json :: "function_summary \<Rightarrow> json" where
  "function_json f = JObj
     [(''name'', JStr (fn_name f)), (''params'', j_strings (fn_params f)),
      (''startLine'', JNum (real (startLine f))), (''endLine'', JNum (real (endLine f))),
      (''recursive'', JBool (recursive f)), (''loopCount'', JNum (real (loopCount f))),
      (''maxLoopDepth'', JNum (real (maxLoopDepth f))), (''hasEarlyReturn'', JBool (hasEarlyReturn f))]"

definition snapshot_payload :: "semantic_snapshot \<Rightarrow> payload" where
  "snapshot_payload s =
     [(''revision'', JNum (revision s)), (''syntaxValid'', JBool (syntaxValid s)),
      (''functions'', JArr (map function_json (snap_functions s))),
      (''dataStructures'', j_strings (dataStructures s)), (''callsMade'', j_strings (callsMade s)),
      (''nonEmptyLines'', JNum (real (nonEmptyLines s))),
      (''changedRegions'', JArr (map region_json (changedRegions s))), (''churn'', JNum (churn s))]"

definition candidate_payload :: "candidate_state \<Rightarrow> payload" where
  "candidate_payload cs =
     [(''derivedFromRevision'', JNum (derivedFromRevision cs)),
      (''codeObservedAt'', j_nullable JDate (codeObservedAt cs)),
      (''detectedSolutionFamilyId'', j_nullable JStr (detectedSolutionFamilyId cs)),
      (''currentApproach'', j_nullable JStr (currentApproach cs)),
      (''alternativesMentioned'', j_strings (alternativesMentioned cs)),
      (''claimedTime'', j_nullable JStr (claimedTime cs)),
      (''claimedSpace'', j_nullable JStr (claimedSpace cs)),
      (''understoodConstraints'', j_strings (understoodConstraints cs)),
      (''implementationProgress'', JNum (implementationProgress cs)),
      (''recentCodeActivity'', JStr (activity_name (recentCodeActivity cs))),
      (''stuckScore'', JNum (stuckScore cs)),
      (''milestonesReached'', JArr (map (\<lambda>k. JStr (milestone_name k)) (milestonesReached cs)))]"

definition append_milestones :: "nat \<Rightarrow> real \<Rightarrow> milestone_kind list \<Rightarrow> runtime \<Rightarrow> runtime" where
  "append_milestones pass rv emitted rt =
     foldl (\<lambda>rt (i, kind). append_event MILESTONE SYSTEM
              [(''kind'', JStr (milestone_name kind)), (''revision'', JNum rv)]
              (''milestone:'' @ show_nat pass @ '':'' @ show_nat i) None rt)
       rt (zip [0..<length emitted] emitted)"

definition observation_snapshot :: "runtime_deps \<Rightarrow> observation_work \<Rightarrow> semantic_snapshot option" where
  "observation_snapshot d w =
     (if ow_code w \<noteq> [] then Some (buildSnapshot (rd_parse d) (ow_code w) (ow_revision w) (ow_previous w)) else None)"

definition fold_work :: "runtime_deps \<Rightarrow> clock \<Rightarrow> observation_work \<Rightarrow> runtime \<Rightarrow> folded" where
  "fold_work d c w rt =
     fold_mismatch (rd_scenario d)
       (foldl (fold_transcript (rd_scenario d))
         (fold_runs_queue c (lastCodeActivityMs rt) (observation_snapshot d w) (ow_runs w)
           (rt_candidate rt, rt_milestones rt, []))
         (ow_transcripts w))"

definition observation_fold ::
  "runtime_deps \<Rightarrow> clock \<Rightarrow> observation_work \<Rightarrow> runtime \<Rightarrow> unit outcome" where
  "observation_fold d c w rt =
     (case fold_work d c w rt of
        (cs, ms, emitted) \<Rightarrow>
          (let pass = observationCount rt;
               rt1 = (if ow_code w \<noteq> [] then rt\<lparr>previousObservedCode := Some (ow_code w)\<rparr> else rt);
               rt2 = rt1\<lparr>rt_candidate := cs, rt_milestones := ms, observationCount := pass + 1\<rparr>;
               rt3 = (case observation_snapshot d w of
                        None \<Rightarrow> rt2
                      | Some s \<Rightarrow> append_event SEMANTIC_SNAPSHOT SYSTEM (snapshot_payload s)
                                   (''snapshot:'' @ show_nat pass) None rt2);
               rt4 = append_milestones pass (ow_revision w) emitted rt3;
               rt5 = append_event CANDIDATE_STATE_UPDATED SYSTEM (candidate_payload (rt_candidate rt4))
                       (''observation:'' @ show_nat pass) None rt4;
               rt6 = persistCheckpoint (''observation:'' @ show_nat pass) None rt5
           in advanceStages d c rt6))"

text \<open>\<open>runObservations\<close> with nothing landing during the parse: passes while the state is dirty.\<close>

definition observation_pass :: "runtime_deps \<Rightarrow> clock \<Rightarrow> runtime \<Rightarrow> unit outcome" where
  "observation_pass d c rt = (let (rt1, w) = observation_take rt in observation_fold d c w rt1)"

definition runObservations :: "runtime_deps \<Rightarrow> clock \<Rightarrow> runtime \<Rightarrow> unit outcome" where
  "runObservations d c rt = (if observationDirty rt then observation_pass d c rt else (rt, Inr ()))"

definition scheduleObservation :: "runtime \<Rightarrow> runtime" where
  "scheduleObservation rt = rt\<lparr>observationDirty := True\<rparr>"

section \<open>A finalized turn\<close>

text \<open>Assembling the fragments of one logical turn.\<close>

definition joined_transcript :: "string option \<Rightarrow> string \<Rightarrow> string" where
  "joined_transcript openT fragment =
     (case openT of
        None \<Rightarrow> fragment
      | Some tr \<Rightarrow> take TURN_TRANSCRIPT_CAP (join '' '' (filter (\<lambda>s. s \<noteq> []) [tr, fragment])))"

definition event_finalized :: "session_event \<Rightarrow> bool" where
  "event_finalized ev \<longleftrightarrow> field (payload ev) ''finalized'' \<noteq> Some (JBool False)"

definition event_fragment :: "session_event \<Rightarrow> string" where
  "event_fragment ev = (case stringOf (field (payload ev) ''transcript'') of Some s \<Rightarrow> s | None \<Rightarrow> [])"

definition turn_open :: "clock \<Rightarrow> session_event \<Rightarrow> runtime \<Rightarrow> runtime" where
  "turn_open c ev rt0 =
     (let rt = clearHeldTurn rt0
      in rt\<lparr>openTurn := Some (joined_transcript (openTurn rt) (event_fragment ev)),
            silenceBasis := map_option (\<lambda>ms. (ms, mono_ms c)) (silenceBefore ev rt)\<rparr>)"

definition fold_reasoning :: "turn_classification \<Rightarrow> runtime \<Rightarrow> runtime" where
  "fold_reasoning cl rt =
     (let rt1 = (if isReasoningIntent (cl_intent cl)
                 then rt\<lparr>reasoningTurnsInStage := reasoningTurnsInStage rt + 1\<rparr> else rt)
      in if cl_intent cl = APPROACH_COMMITMENT then rt1\<lparr>approachCommitted := True\<rparr> else rt1)"

text \<open>
  After the classifier has answered: the clock is read again for the evidence and the gate (\<open>c1\<close>), and
  once more when the utterance starts (\<open>c2\<close>).
\<close>

definition turn_judge ::
  "runtime_deps \<Rightarrow> clock \<Rightarrow> clock \<Rightarrow> session_event \<Rightarrow> string \<Rightarrow> turn_classification \<Rightarrow> runtime \<Rightarrow> runtime_result outcome" where
  "turn_judge d c1 c2 ev tr cl rt =
     and_then (if event_finalized ev then advanceStages d c1 (fold_reasoning cl rt) else (rt, Inr ())) (\<lambda>_ rt1.
       (let silenceMs = silenceNow c1 rt1;
            t = \<lparr>turnId = ''turn-'' @ show_nat (seq ev), finalized = event_finalized ev, transcript = tr,
                 semanticEndProbability = 0, textEndProbability = None, silenceMsBeforeEnd = None,
                 turn_prosody = lastProsody rt1, intent = cl_intent cl, endedAt = occurredAt ev\<rparr>
        in and_then (judge d c1 c2 t cl silenceMs 0 rt1) (\<lambda>res rt2.
             (scheduleObservation (rt2\<lparr>pendingTranscripts := pendingTranscripts rt2 @
                [\<lparr>obs_transcript = tr, obs_intent = cl_intent cl, observedAt = occurredAt ev\<rparr>]\<rparr>),
              Inr res))))"

definition evaluateTurn ::
  "runtime_deps \<Rightarrow> clock \<Rightarrow> clock \<Rightarrow> clock \<Rightarrow> session_event \<Rightarrow> runtime \<Rightarrow> runtime_result outcome" where
  "evaluateTurn d c c1 c2 ev rt =
     (let rt1 = turn_open c ev rt;
          tr = (case openTurn rt1 of Some s \<Rightarrow> s | None \<Rightarrow> [])
      in turn_judge d c1 c2 ev tr (rd_classify d tr (event_finalized ev)) rt1)"

section \<open>Dispatch\<close>

definition no_result :: runtime_result where
  "no_result = \<lparr>rr_decision = None, rr_utterance = None\<rparr>"

text \<open>
  A run result reaches the observer as the payload it came in. The cast \<open>as RunResult\<close> checks nothing;
  the model reads the payload through the schema and drops a payload the schema refuses.
\<close>

definition apply_run_completed :: "session_event \<Rightarrow> runtime \<Rightarrow> runtime" where
  "apply_run_completed ev rt =
     (let rt1 = rt\<lparr>runsStarted := max (runsStarted rt) 1\<rparr>
      in scheduleObservation (rt1\<lparr>pendingRuns := pendingRuns rt1 @
           (case RunResultSchema (payload ev) of Some r \<Rightarrow> [r] | None \<Rightarrow> [])\<rparr>))"

definition apply_code_delta :: "clock \<Rightarrow> session_event \<Rightarrow> runtime \<Rightarrow> runtime" where
  "apply_code_delta c ev rt =
     (case (numberOf (field (payload ev) ''revision''), stringOf (field (payload ev) ''text'')) of
        (Some r, Some txt) \<Rightarrow>
          if r < rt_latestCodeRevision rt then rt
          else scheduleObservation (rt\<lparr>rt_latestCodeRevision := r, latestCode := txt,
                 lastCodeActivityMs := date_or (occurredAt ev) (now_ms c)\<rparr>)
      | _ \<Rightarrow> rt)"

definition apply_speech_stopped :: "runtime_deps \<Rightarrow> clock \<Rightarrow> session_event \<Rightarrow> runtime \<Rightarrow> runtime" where
  "apply_speech_stopped d c ev rt =
     (let rt1 = rt\<lparr>rt_candidateSpeakingNow := False,
                   lastSpeechStoppedAtMs := Some (date_or (occurredAt ev) (now_ms c)),
                   lastProsody := prosodyOf d ev\<rparr>
      in case (speakingNowHeld rt1, heldTurn rt1) of
           (Some (t, cl), None) \<Rightarrow>
             rt1\<lparr>silenceBasis := Some (0, mono_ms c),
                 heldTurn := Some \<lparr>ht_turn = (case lastProsody rt1 of Some p \<Rightarrow> t\<lparr>turn_prosody := Some p\<rparr> | None \<Rightarrow> t),
                                   ht_classification = cl, ht_attempt = 1\<rparr>,
                 speakingNowHeld := None, reevaluationTimer := Some 25\<rparr>
         | _ \<Rightarrow> rt1\<lparr>speakingNowHeld := None\<rparr>)"

definition applyCommitted ::
  "runtime_deps \<Rightarrow> clock \<Rightarrow> clock \<Rightarrow> clock \<Rightarrow> session_event \<Rightarrow> runtime \<Rightarrow> runtime_result outcome" where
  "applyCommitted d c c1 c2 ev rt = (case etype ev of
     CODE_DELTA \<Rightarrow> (apply_code_delta c ev rt, Inr no_result)
   | RUN_REQUESTED \<Rightarrow> (rt\<lparr>runsStarted := runsStarted rt + 1\<rparr>, Inr no_result)
   | RUN_COMPLETED \<Rightarrow> (apply_run_completed ev rt, Inr no_result)
   | SPEECH_STARTED \<Rightarrow>
       ((clearHeldTurn rt)\<lparr>rt_candidateSpeechStarted := True, rt_candidateSpeakingNow := True,
          lastSpeechStoppedAtMs := None, lastProsody := None\<rparr>, Inr no_result)
   | SPEECH_STOPPED \<Rightarrow> (apply_speech_stopped d c ev rt, Inr no_result)
   | BARGE_IN \<Rightarrow>
       ((clearHeldTurn rt)\<lparr>rt_interviewerCurrentlySpeaking := False, rt_candidateSpeechStarted := True,
          rt_candidateSpeakingNow := True, lastProsody := None, silenceBasis := None\<rparr>, Inr no_result)
   | SPEECH_FINAL \<Rightarrow> evaluateTurn d c c1 c2 ev rt
   | SILENCE_ELAPSED \<Rightarrow>
       and_then (reevaluate d c1 c2 (date_or (occurredAt ev) (now_ms c))
           (case numberOf (field (payload ev) ''silenceMs'') of Some ms \<Rightarrow> if ms \<ge> 0 then Some ms else None | None \<Rightarrow> None)
           rt) (\<lambda>r rt1. (rt1, Inr (case r of Some res \<Rightarrow> res | None \<Rightarrow> no_result)))
   | STATE_TRANSITIONED \<Rightarrow>
       (let to_name = stringOf (field (payload ev) ''to'');
            requested = (case to_name of Some s \<Rightarrow> if s = [] then None else parse_state s | None \<Rightarrow> None)
        in case applyEvent (rt_state rt) STATE_TRANSITIONED requested of
             Inl e \<Rightarrow> (rt, Inl e)
           | Inr res \<Rightarrow> (rt\<lparr>rt_state := sm_state res\<rparr>, Inr no_result))
   | SESSION_STARTED \<Rightarrow> openInterview d c1 c2 rt
   | SESSION_ENDED \<Rightarrow>
       (case applyEvent (rt_state rt) SESSION_ENDED None of
          Inl e \<Rightarrow> (rt, Inl e)
        | Inr res \<Rightarrow> (rt\<lparr>rt_state := sm_state res, openTurn := None, silenceBasis := None\<rparr>, Inr no_result))
   | _ \<Rightarrow> (rt, Inr no_result))"

definition ingest ::
  "runtime_deps \<Rightarrow> clock \<Rightarrow> clock \<Rightarrow> clock \<Rightarrow> session_event \<Rightarrow> runtime \<Rightarrow> runtime_result outcome" where
  "ingest d c c1 c2 ev rt =
     and_then (applyCommitted d c c1 c2 ev rt) (\<lambda>res rt1.
       and_then (if etype ev \<noteq> STATE_TRANSITIONED \<and> etype ev \<noteq> SESSION_ENDED then advanceStages d c2 rt1 else (rt1, Inr ()))
         (\<lambda>_ rt2. (persistCheckpoint (''event:'' @ show_nat (seq ev)) (Some (seq ev)) rt2, Inr res)))"

section \<open>Recovery\<close>

text \<open>\<open>restoreEvent\<close>: fold one recorded event; only the explicit transition can throw.\<close>

definition restore_decided :: "session_event \<Rightarrow> runtime \<Rightarrow> runtime" where
  "restore_decided ev rt =
     (let i = stringOf (field (payload ev) ''intent'');
          rt1 = (if \<exists>k\<in>set REASONING_INTENTS. i = Some (intent_name k)
                 then rt\<lparr>reasoningTurnsInStage := reasoningTurnsInStage rt + 1\<rparr> else rt);
          rt2 = (if i = Some ''APPROACH_COMMITMENT'' then rt1\<lparr>approachCommitted := True\<rparr> else rt1)
      in if field (payload ev) ''action'' \<noteq> Some (JStr ''STAY_SILENT'')
         then rt2\<lparr>lastSpokeAtMs := date_or (occurredAt ev) (lastSpokeAtMs rt2)\<rparr> else rt2)"

definition restore_candidate :: "session_event \<Rightarrow> runtime \<Rightarrow> runtime" where
  "restore_candidate ev rt =
     (let base = (case candidate_json (rt_candidate rt) of JObj kvs \<Rightarrow> kvs | _ \<Rightarrow> []);
          merged = JObj ((''updatedAt'', JDate (occurredAt ev)) # payload ev @ base);
          rt1 = (case CandidateStateSchema (Some merged) of Some cs \<Rightarrow> rt\<lparr>rt_candidate := cs\<rparr> | None \<Rightarrow> rt);
          rt2 = rt1\<lparr>observationCount := observationCount rt1 + 1\<rparr>
      in if derivedFromRevision (rt_candidate rt2) = rt_latestCodeRevision rt2
         then rt2\<lparr>previousObservedCode := Some (latestCode rt2)\<rparr> else rt2)"

definition restoreEvent :: "runtime_deps \<Rightarrow> session_event \<Rightarrow> runtime \<Rightarrow> runtime result" where
  "restoreEvent d ev rt = (let p = payload ev in case etype ev of
     CODE_DELTA \<Rightarrow>
       Inr (case (numberOf (field p ''revision''), stringOf (field p ''text'')) of
              (Some r, Some txt) \<Rightarrow>
                if r \<ge> rt_latestCodeRevision rt
                then rt\<lparr>rt_latestCodeRevision := r, latestCode := txt,
                        lastCodeActivityMs := date_or (occurredAt ev) (lastCodeActivityMs rt)\<rparr>
                else rt
            | _ \<Rightarrow> rt)
   | RUN_REQUESTED \<Rightarrow> Inr (rt\<lparr>runsStarted := runsStarted rt + 1\<rparr>)
   | RUN_COMPLETED \<Rightarrow>
       (let rt1 = rt\<lparr>runsStarted := max (runsStarted rt) 1\<rparr>
        in Inr (case RunResultSchema p of
                  Some r \<Rightarrow> rt1\<lparr>rt_milestones := fst (applyRunResult (rt_milestones rt1) r)\<rparr> | None \<Rightarrow> rt1))
   | SPEECH_STARTED \<Rightarrow>
       Inr (rt\<lparr>rt_candidateSpeechStarted := True, rt_candidateSpeakingNow := True, lastSpeechStoppedAtMs := None,
               lastProsody := None, silenceBasis := None\<rparr>)
   | SPEECH_STOPPED \<Rightarrow>
       Inr (rt\<lparr>rt_candidateSpeakingNow := False,
               lastSpeechStoppedAtMs := (case occurredAt ev of
                  Some t \<Rightarrow> if t = 0 then lastSpeechStoppedAtMs rt else Some t | None \<Rightarrow> lastSpeechStoppedAtMs rt),
               lastProsody := prosodyOf d ev\<rparr>)
   | SPEECH_FINAL \<Rightarrow> Inr (rt\<lparr>rt_candidateSpeechStarted := False\<rparr>)
   | BARGE_IN \<Rightarrow> Inr (rt\<lparr>rt_candidateSpeechStarted := True, rt_candidateSpeakingNow := True, lastProsody := None\<rparr>)
   | STATE_TRANSITIONED \<Rightarrow>
       (case Option.bind (stringOf (field p ''to'')) parse_state of
          None \<Rightarrow> Inr rt
        | Some s \<Rightarrow> then_do (applyEvent (rt_state rt) STATE_TRANSITIONED (Some s))
                     (\<lambda>res. Inr (rt\<lparr>rt_state := sm_state res, reasoningTurnsInStage := 0\<rparr>)))
   | SESSION_ENDED \<Rightarrow> Inr (rt\<lparr>rt_state := EVALUATION\<rparr>)
   | ACTION_DECIDED \<Rightarrow> Inr (restore_decided ev rt)
   | BRIEF_DELIVERED \<Rightarrow>
       Inr (rt\<lparr>rt_briefDeliveryCount := max (rt_briefDeliveryCount rt)
                 (case numberOf (field p ''delivery'') of Some n \<Rightarrow> nat (floor n) | None \<Rightarrow> 1)\<rparr>)
   | CLARIFICATION_ANSWERED \<Rightarrow>
       Inr (case stringOf (field p ''factKey'') of
              Some k \<Rightarrow> if k \<noteq> [] then rt\<lparr>answeredFactKeys := push_once k (answeredFactKeys rt)\<rparr> else rt
            | None \<Rightarrow> rt)
   | PROBE_ASKED \<Rightarrow>
       Inr (case stringOf (field p ''probeId'') of
              Some i \<Rightarrow>
                if i \<noteq> []
                then (let cs = rt_candidate rt in
                      rt\<lparr>rt_probeUseCounts := set_key (rt_probeUseCounts rt) i (count_of (rt_probeUseCounts rt) i + 1),
                         rt_candidate := cs\<lparr>probeHistory := probeHistory cs @ [i]\<rparr>\<rparr>)
                else rt
            | None \<Rightarrow> rt)
   | HINT_GIVEN \<Rightarrow>
       Inr (case numberOf (field p ''level'') of
              Some r \<Rightarrow>
                if 1 \<le> r \<and> r \<le> 4
                then (let cs = rt_candidate rt in
                      rt\<lparr>rt_candidate := cs\<lparr>hintsUsed := hintsUsed cs @ [nat (floor r)]\<rparr>\<rparr>)
                else rt
            | None \<Rightarrow> rt)
   | FOLLOW_UP_PRESENTED \<Rightarrow>
       Inr (case stringOf (field p ''followUpId'') of
              Some i \<Rightarrow> if i \<noteq> [] then rt\<lparr>rt_followUpsUsed := push_once i (rt_followUpsUsed rt)\<rparr> else rt
            | None \<Rightarrow> rt)
   | MILESTONE \<Rightarrow>
       Inr (case Option.bind (stringOf (field p ''kind'')) parse_milestone of
              Some k \<Rightarrow> rt\<lparr>rt_milestones := reach k (rt_milestones rt)\<rparr> | None \<Rightarrow> rt)
   | CANDIDATE_STATE_UPDATED \<Rightarrow> Inr (restore_candidate ev rt)
   | _ \<Rightarrow> Inr rt)"

fun restore_all :: "runtime_deps \<Rightarrow> session_event list \<Rightarrow> runtime \<Rightarrow> runtime result" where
  "restore_all d [] rt = Inr rt"
| "restore_all d (ev # evs) rt = then_do (restoreEvent d ev rt) (restore_all d evs)"

text \<open>The check of the pins and of the numbering, then the last checkpoint and what follows it.\<close>

fun history_error :: "runtime_deps \<Rightarrow> nat \<Rightarrow> session_event list \<Rightarrow> js_error option" where
  "history_error d n [] = None"
| "history_error d n (ev # evs) =
     (if sessionId ev \<noteq> rd_sessionId d \<or> scenarioVersionId ev \<noteq> rd_scenarioVersionId d
      then Some (JsError ''RUNTIME_HISTORY_PIN_MISMATCH'')
      else if seq ev \<noteq> n then Some (JsError ''RUNTIME_HISTORY_GAP'')
      else history_error d (Suc n) evs)"

text \<open>The events from the last checkpoint on, if there is one.\<close>

definition is_checkpoint :: "session_event \<Rightarrow> bool" where
  "is_checkpoint ev \<longleftrightarrow> etype ev = RUNTIME_CHECKPOINT"

definition last_checkpoint :: "session_event list \<Rightarrow> session_event option" where
  "last_checkpoint evs = List.find is_checkpoint (rev evs)"

definition after_checkpoint :: "session_event list \<Rightarrow> session_event list" where
  "after_checkpoint evs = rev (takeWhile (\<lambda>ev. \<not> is_checkpoint ev) (rev evs))"

definition forget_live :: "runtime \<Rightarrow> runtime" where
  "forget_live rt =
     (clearHeldTurn rt)\<lparr>authorized := None, rt_interviewerCurrentlySpeaking := False, rt_candidateSpeakingNow := False,
        openTurn := None, silenceBasis := None, observationDirty := False, pendingRuns := [],
        pendingTranscripts := []\<rparr>"

definition restore :: "runtime_deps \<Rightarrow> session_event list \<Rightarrow> runtime \<Rightarrow> runtime result" where
  "restore d evs rt =
     (case history_error d 0 evs of
        Some e \<Rightarrow> Inl e
      | None \<Rightarrow>
          then_do (case last_checkpoint evs of None \<Rightarrow> Inr rt | Some cp \<Rightarrow> hydrateCheckpoint d (payload cp) rt) (\<lambda>rt1.
          then_do (restore_all d (after_checkpoint evs) rt1) (\<lambda>rt2. Inr (forget_live rt2))))"

end
