(* ===== verification/RuntimeInvariants.thy ===== *)
theory RuntimeInvariants
  imports RuntimeIngest Step_Closure
begin

text \<open>
  What holds of a runtime however its events, timers, observation passes and speech reports are
  interleaved: the step relation \<open>runtime_step\<close> has one rule per entry point, with any event, clock
  and report, and the invariants are proved by induction on the states it reaches.
\<close>

section \<open>The step relation\<close>

inductive runtime_step :: "runtime_deps \<Rightarrow> runtime \<Rightarrow> runtime \<Rightarrow> bool" for d where
  ingest: "runtime_step d rt (fst (ingest d c c1 c2 ev rt))"
| silence: "runtime_step d rt (fst (onSilenceElapsed d c c' rt))"
| finished: "runtime_step d rt (fst (markSpeechFinished d c so rt))"
| ready: "runtime_step d rt (fst (reconcileSpeechOnReady d c u rt))"
| take: "runtime_step d rt (fst (observation_take rt))"
| fold: "runtime_step d rt (fst (observation_fold d c w rt))"
| voice: "runtime_step d rt (fst (voiceContext d c rt))"

inductive_cases runtime_stepE: "runtime_step d rt rt'"

inductive runtime_reach :: "runtime_deps \<Rightarrow> runtime \<Rightarrow> runtime \<Rightarrow> bool" for d start where
  start: "runtime_reach d start start"
| step: "runtime_reach d start rt \<Longrightarrow> runtime_step d rt rt' \<Longrightarrow> runtime_reach d start rt'"

lemma reach_rtranclp: "runtime_reach d s t \<Longrightarrow> (runtime_step d)\<^sup>*\<^sup>* s t"
  by (induction rule: runtime_reach.induct) auto

section \<open>The part of the state the budgets speak of\<close>

definition core :: "runtime \<Rightarrow> nat \<times> bool \<times> (string \<times> nat) list \<times> nat list \<times> string list" where
  "core rt = (openingRedeliveries rt, rt_openingRedeliveryPending rt, rt_probeUseCounts rt,
     hintsUsed (rt_candidate rt), rt_followUpsUsed rt)"

named_theorems core_simps \<open>steps that leave the budgets alone\<close>

lemma core_updates [core_simps]:
  "core (authorized_update f1 rt) = core rt" "core (lastSpokeAtMs_update f2 rt) = core rt"
  "core (rt_candidateSpeechStarted_update f3 rt) = core rt" "core (speakingNowHeld_update f4 rt) = core rt"
  "core (rt_interviewerCurrentlySpeaking_update f5 rt) = core rt" "core (openTurn_update f6 rt) = core rt"
  "core (silenceBasis_update f7 rt) = core rt" "core (pendingTranscripts_update f8 rt) = core rt"
  "core (pendingRuns_update f9 rt) = core rt" "core (rt_state_update f10 rt) = core rt"
  "core (runsStarted_update f11 rt) = core rt" "core (reasoningTurnsInStage_update f12 rt) = core rt"
  "core (approachCommitted_update f13 rt) = core rt" "core (rt_latestCodeRevision_update f14 rt) = core rt"
  "core (latestCode_update f15 rt) = core rt" "core (lastCodeActivityMs_update f16 rt) = core rt"
  "core (rt_candidateSpeakingNow_update f17 rt) = core rt" "core (lastSpeechStoppedAtMs_update f18 rt) = core rt"
  "core (lastProsody_update f19 rt) = core rt" "core (observationDirty_update f20 rt) = core rt"
  "core (heldTurn_update f21 rt) = core rt" "core (reevaluationTimer_update f22 rt) = core rt"
  "core (previousObservedCode_update f23 rt) = core rt" "core (answeredFactKeys_update f24 rt) = core rt"
  "core (rt_briefDeliveryCount_update f25 rt) = core rt" "core (outbox_update f26 rt) = core rt"
  by (simp_all add: core_def)

lemma core_append [core_simps]: "core (append_event ty ac pl key dt rt) = core rt"
  by (simp add: core_def)

lemma core_clear [core_simps]: "core (clearHeldTurn rt) = core rt"
  by (simp add: core_def clearHeldTurn_def)

lemma core_persist [core_simps]: "core (persistCheckpoint k n rt) = core rt"
  by (simp add: core_def persistCheckpoint_def)

lemma core_issue [core_simps]: "core (issue_utterance u rt) = core rt"
  by (simp add: core_def issue_utterance_def Let_def)

lemma core_hold [core_simps]: "core (holdForSilence d t cl completion ms n rt) = core rt"
  by (simp add: holdForSilence_def core_def Let_def split: option.split)

lemma core_advance [core_simps]: "core (fst (advanceStages d c rt)) = core rt"
proof -
  obtain rt' r where "advance_loop STAGE_ADVANCE_LIMIT d c rt = (rt', r)" by fastforce
  with advance_loop_same [OF this] show ?thesis by (simp add: advanceStages_def core_def)
qed

lemma core_take [core_simps]: "core (fst (observation_take rt)) = core rt"
  by (simp add: observation_take_def core_def)

lemma core_voice [core_simps]: "core (fst (voiceContext d c rt)) = core rt"
  by (simp add: voiceContext_def core_def Let_def)

lemma core_schedule [core_simps]: "core (scheduleObservation rt) = core rt"
  by (simp add: scheduleObservation_def core_def)

lemma core_decide [core_simps]: "core (fst (judge_decide d c base cl ms n rt)) = core rt"
  by (simp add: judge_decide_def Let_def core_append split: prod.split sum.split)

text \<open>Observation folds keep the hints and the questions asked.\<close>

lemma fold_observation_hints: "hintsUsed (fst (fold_observation c a s r f)) = hintsUsed (fst f)"
  by (cases f) (simp add: fold_observation_def Let_def observe_same)

lemma fold_runs_hints: "hintsUsed (fst (fold_runs_queue c a s rs f)) = hintsUsed (fst f)"
proof -
  have "hintsUsed (fst (foldl (\<lambda>f r. fold_observation c a None (Some r) f) f rs)) = hintsUsed (fst f)" for f rs
    by (induction rs arbitrary: f) (simp_all add: fold_observation_hints)
  then show ?thesis by (simp add: fold_runs_queue_def fold_observation_hints split: list.split)
qed

lemma fold_transcripts_hints: "hintsUsed (fst (foldl (fold_transcript sc) f obs)) = hintsUsed (fst f)"
proof (induction obs arbitrary: f)
  case (Cons ob obs)
  obtain cs ms em where f: "f = (cs, ms, em)" by (rule prod_cases3)
  obtain cs' ms' new where o: "observeTranscript cs ms sc ob = (cs', ms', new)" by (rule prod_cases3)
  from observeTranscript_same(6) [of cs ms sc ob] f o
  have "hintsUsed (fst (fold_transcript sc f ob)) = hintsUsed (fst f)" by (simp add: fold_transcript_def)
  with Cons show ?case by simp
qed simp

lemma fold_mismatch_hints: "hintsUsed (fst (fold_mismatch sc f)) = hintsUsed (fst f)"
  by (simp add: fold_mismatch_def split: prod.split)

lemma core_append_milestones [core_simps]: "core (append_milestones pass rv emitted rt) = core rt"
proof -
  have "core (foldl (\<lambda>rt (i, kind). append_event MILESTONE SYSTEM (pl kind) (k i) None rt) rt xs) = core rt"
    for pl :: "milestone_kind \<Rightarrow> payload" and k :: "nat \<Rightarrow> string" and xs
    by (induction xs arbitrary: rt) (auto simp: core_append)
  then show ?thesis unfolding append_milestones_def .
qed

lemma core_fold [core_simps]: "core (fst (observation_fold d c w rt)) = core rt"
proof -
  obtain cs ms emitted where f: "fold_work d c w rt = (cs, ms, emitted)" by (rule prod_cases3)
  have "hintsUsed cs = hintsUsed (rt_candidate rt)"
    using arg_cong [OF f, of "\<lambda>f. hintsUsed (fst f)"]
    by (simp add: fold_work_def fold_mismatch_hints fold_transcripts_hints fold_runs_hints)
  then have "core (rt\<lparr>previousObservedCode := p, rt_candidate := cs, rt_milestones := ms, observationCount := n\<rparr>) = core rt"
    "core (rt\<lparr>rt_candidate := cs, rt_milestones := ms, observationCount := n\<rparr>) = core rt" for p n
    by (simp_all add: core_def)
  with f show ?thesis
    by (simp add: observation_fold_def Let_def core_simps split: option.split)
qed

section \<open>Realizing a decision\<close>

text \<open>What the gate has established about the decision it hands over.\<close>

definition justified :: "runtime_deps \<Rightarrow> runtime \<Rightarrow> gate_decision \<Rightarrow> bool" where
  "justified d rt dec \<longleftrightarrow>
     (action dec = ASK_PROBE \<longrightarrow> (\<exists>p\<in>set (probes (rd_scenario d)). probeId dec = Some (probe_id p) \<and>
        count_of (rt_probeUseCounts rt) (probe_id p) < maxUses p)) \<and>
     (action dec \<in> {GIVE_HINT_L1, GIVE_HINT_L2} \<longrightarrow> (\<exists>level. hintLevel dec = Some level \<and>
        nextAllowedHintLevel (rd_policy d) (hintsUsed (rt_candidate rt)) = Some level)) \<and>
     (action dec = PRESENT_FOLLOW_UP \<longrightarrow> (\<exists>f\<in>set (followUps (rd_scenario d)). followUpId dec = Some (followup_id f) \<and>
        followup_id f \<notin> set (rt_followUpsUsed rt)))"

lemma context_sel [simp]:
  "policy (buildContext d c rt t) = rd_policy d" "candidateState (buildContext d c rt t) = rt_candidate rt"
  "state (buildContext d c rt t) = rt_state rt" "turn (buildContext d c rt t) = t"
  "gd_scenario (gate_deps d rt) = rd_scenario d" "gd_probeUseCounts (gate_deps d rt) = rt_probeUseCounts rt"
  "gd_followUpsUsed (gate_deps d rt) = rt_followUpsUsed rt"
  "briefDeliveryCount (gate_deps d rt) = rt_briefDeliveryCount rt"
  "openingRedeliveryPending (gate_deps d rt) = rt_openingRedeliveryPending rt"
  "latestCodeRevision (buildContext d c rt t) = rt_latestCodeRevision rt"
  "candidateSpeakingNow (buildContext d c rt t) = rt_candidateSpeakingNow rt"
  "interviewerCurrentlySpeaking (buildContext d c rt t) = rt_interviewerCurrentlySpeaking rt"
  by (simp_all add: buildContext_def gate_deps_def)

lemma gate_justified:
  assumes "decideAction (buildContext d c rt t) (gate_deps d rt) = Inr dec"
  shows "justified d rt dec"
proof -
  let ?ctx = "buildContext d c rt t" and ?deps = "gate_deps d rt"
  have "\<exists>p\<in>set (probes (rd_scenario d)). probeId dec = Some (probe_id p) \<and>
        count_of (rt_probeUseCounts rt) (probe_id p) < maxUses p" if "action dec = ASK_PROBE"
    using assms that
    by (rule ask_probe_origin) (use selectRelevantProbe_eligible(1,2) in fastforce)
  moreover have "\<exists>level. hintLevel dec = Some level \<and>
        nextAllowedHintLevel (rd_policy d) (hintsUsed (rt_candidate rt)) = Some level"
    if "action dec \<in> {GIVE_HINT_L1, GIVE_HINT_L2}"
    using assms that by (rule hint_origin) simp
  moreover have "\<exists>f\<in>set (followUps (rd_scenario d)). followUpId dec = Some (followup_id f) \<and>
        followup_id f \<notin> set (rt_followUpsUsed rt)" if "action dec = PRESENT_FOLLOW_UP"
    using assms that
    by (rule follow_up_origin) (use selectFollowUp_eligible(1,2) in fastforce)
  ultimately show ?thesis unfolding justified_def by blast
qed

text \<open>The identifiers of a scenario are unique (\<open>assertInternallyConsistent\<close> of the loader).\<close>

definition ids_unique :: "scenario_version \<Rightarrow> bool" where
  "ids_unique sc \<longleftrightarrow> distinct (map probe_id (probes sc)) \<and> distinct (map followup_id (followUps sc)) \<and>
     distinct (map fact_key (facts sc))"

section \<open>The budgets\<close>

definition opening_ok :: "runtime \<Rightarrow> bool" where
  "opening_ok rt \<longleftrightarrow> openingRedeliveries rt \<le> MAX_OPENING_REDELIVERIES \<and>
     (rt_openingRedeliveryPending rt \<longrightarrow> openingRedeliveries rt < MAX_OPENING_REDELIVERIES)"

definition probes_ok :: "runtime_deps \<Rightarrow> runtime \<Rightarrow> bool" where
  "probes_ok d rt \<longleftrightarrow> (\<forall>p\<in>set (probes (rd_scenario d)). count_of (rt_probeUseCounts rt) (probe_id p) \<le> maxUses p)"

definition hints_ok :: "runtime_deps \<Rightarrow> runtime \<Rightarrow> bool" where
  "hints_ok d rt \<longleftrightarrow> sorted_wrt (<) (hintsUsed (rt_candidate rt)) \<and>
     length (hintsUsed (rt_candidate rt)) \<le> hintBudget (rd_policy d) \<and>
     (\<forall>n\<in>set (hintsUsed (rt_candidate rt)). 1 \<le> n \<and> n \<le> maxHintLevel (rd_policy d))"

definition budgets :: "runtime_deps \<Rightarrow> runtime \<Rightarrow> bool" where
  "budgets d rt \<longleftrightarrow> opening_ok rt \<and> probes_ok d rt \<and> hints_ok d rt \<and> distinct (rt_followUpsUsed rt)"

fun budgets_of :: "runtime_deps \<Rightarrow> nat \<times> bool \<times> (string \<times> nat) list \<times> nat list \<times> string list \<Rightarrow> bool" where
  "budgets_of d (redeliveries, pending, uses, used, presented) \<longleftrightarrow>
     redeliveries \<le> MAX_OPENING_REDELIVERIES \<and> (pending \<longrightarrow> redeliveries < MAX_OPENING_REDELIVERIES) \<and>
     (\<forall>p\<in>set (probes (rd_scenario d)). count_of uses (probe_id p) \<le> maxUses p) \<and>
     sorted_wrt (<) used \<and> length used \<le> hintBudget (rd_policy d) \<and>
     (\<forall>n\<in>set used. 1 \<le> n \<and> n \<le> maxHintLevel (rd_policy d)) \<and> distinct presented"

lemma budgets_via: "budgets d rt \<longleftrightarrow> budgets_of d (core rt)"
  by (auto simp: budgets_def opening_ok_def probes_ok_def hints_ok_def core_def)

text \<open>A sequence keeps the budgets when its first part does and the rest does from there.\<close>

lemma and_then_budgets:
  assumes "budgets d (fst o1)" and "\<And>a rt. o1 = (rt, Inr a) \<Longrightarrow> budgets d rt \<Longrightarrow> budgets d (fst (f a rt))"
  shows "budgets d (fst (and_then o1 f))"
  using assms by (cases o1) (auto simp: and_then_def split: sum.split)

lemma budgets_core: "core rt' = core rt \<Longrightarrow> budgets d rt' = budgets d rt"
  by (simp add: core_def budgets_def opening_ok_def probes_ok_def hints_ok_def)

lemma justified_core: "core rt' = core rt \<Longrightarrow> justified d rt' dec = justified d rt dec"
  by (simp add: core_def justified_def)

lemma probes_ok_use:
  assumes "probes_ok d rt" and "ids_unique (rd_scenario d)" and "p \<in> set (probes (rd_scenario d))"
    and "count_of (rt_probeUseCounts rt) (probe_id p) < maxUses p"
    and "rt_probeUseCounts rt' =
      set_key (rt_probeUseCounts rt) (probe_id p) (count_of (rt_probeUseCounts rt) (probe_id p) + 1)"
  shows "probes_ok d rt'"
proof -
  have "count_of (rt_probeUseCounts rt') (probe_id q) \<le> maxUses q" if q: "q \<in> set (probes (rd_scenario d))" for q
  proof (cases "probe_id q = probe_id p")
    case True
    have "distinct (map probe_id (probes (rd_scenario d)))" using assms(2) by (simp add: ids_unique_def)
    from same_key [OF this q assms(3) True] have "q = p" .
    with assms(4,5) show ?thesis by simp
  next
    case False
    with assms(1,5) q show ?thesis by (simp add: probes_ok_def)
  qed
  then show ?thesis by (simp add: probes_ok_def)
qed

lemma hints_ok_use:
  assumes "hints_ok d rt" and "nextAllowedHintLevel (rd_policy d) (hintsUsed (rt_candidate rt)) = Some n"
    and "hintsUsed (rt_candidate rt') = hintsUsed (rt_candidate rt) @ [n]"
  shows "hints_ok d rt'"
  using assms nextAllowedHintLevel_SomeD [OF assms(2)]
  by (auto simp: hints_ok_def sorted_wrt_append)

lemma realize_budgets:
  assumes ok: "budgets d rt" and just: "justified d rt dec" and ids: "ids_unique (rd_scenario d)"
  shows "budgets d (fst (realize d dec tid rt))"
proof -
  let ?rt = "issue_utterance (''utt-'' @ tid) rt"
  have ok': "budgets d ?rt" and just': "justified d ?rt dec"
    using ok just budgets_core [OF core_issue] justified_core [OF core_issue] by simp_all
  have clar: "core (fst (realize_clarification d dec tid rt')) = core rt'" for rt'
    by (simp add: realize_clarification_def Let_def core_def split: option.split)
  have prb: "budgets d (fst (realize_probe d dec tid rt'))"
    if ok: "budgets d rt'" and just: "justified d rt' dec" and act: "action dec = ASK_PROBE" for rt'
  proof -
    from just act obtain p where p: "p \<in> set (probes (rd_scenario d))" "probeId dec = Some (probe_id p)"
      "count_of (rt_probeUseCounts rt') (probe_id p) < maxUses p" by (auto simp: justified_def)
    have found: "List.find (\<lambda>q. Some (probe_id q) = probeId dec) (probes (rd_scenario d)) = Some p"
      using find_by_key p ids by (auto simp: ids_unique_def)
    show ?thesis
    proof (cases "selectProbeWording p (count_of (rt_probeUseCounts rt') (probe_id p))")
      case (Inl e)
      with ok found show ?thesis by (simp add: realize_probe_def Let_def)
    next
      case (Inr wording)
      let ?out = "fst (realize_probe d dec tid rt')"
      have uses: "rt_probeUseCounts ?out =
          set_key (rt_probeUseCounts rt') (probe_id p) (count_of (rt_probeUseCounts rt') (probe_id p) + 1)"
        and same: "openingRedeliveries ?out = openingRedeliveries rt'"
          "rt_openingRedeliveryPending ?out = rt_openingRedeliveryPending rt'"
          "hintsUsed (rt_candidate ?out) = hintsUsed (rt_candidate rt')"
          "rt_followUpsUsed ?out = rt_followUpsUsed rt'"
        using found Inr by (simp_all add: realize_probe_def Let_def)
      from ok probes_ok_use [OF _ ids p(1) p(3) uses] same show ?thesis
        by (simp add: budgets_def opening_ok_def hints_ok_def)
    qed
  qed
  have hnt: "budgets d (fst (realize_hint d dec tid rt'))"
    if ok: "budgets d rt'" and just: "justified d rt' dec" and act: "action dec \<in> {GIVE_HINT_L1, GIVE_HINT_L2}" for rt'
  proof -
    from just act obtain n where n: "hintLevel dec = Some n"
      "nextAllowedHintLevel (rd_policy d) (hintsUsed (rt_candidate rt')) = Some n" by (auto simp: justified_def)
    show ?thesis
    proof (cases "getHint (rd_scenario d) n")
      case (Inl e)
      with ok n show ?thesis by (simp add: realize_hint_def)
    next
      case (Inr h)
      let ?out = "fst (realize_hint d dec tid rt')"
      have used: "hintsUsed (rt_candidate ?out) = hintsUsed (rt_candidate rt') @ [n]"
        and same: "openingRedeliveries ?out = openingRedeliveries rt'"
          "rt_openingRedeliveryPending ?out = rt_openingRedeliveryPending rt'"
          "rt_probeUseCounts ?out = rt_probeUseCounts rt'" "rt_followUpsUsed ?out = rt_followUpsUsed rt'"
        using n Inr by (simp_all add: realize_hint_def Let_def)
      from ok hints_ok_use [OF _ n(2) used] same show ?thesis
        by (simp add: budgets_def opening_ok_def probes_ok_def)
    qed
  qed
  have fup: "budgets d (fst (realize_follow_up d dec tid rt'))"
    if ok: "budgets d rt'" and just: "justified d rt' dec" and act: "action dec = PRESENT_FOLLOW_UP" for rt'
  proof -
    from just act obtain f where f: "f \<in> set (followUps (rd_scenario d))" "followUpId dec = Some (followup_id f)"
      "followup_id f \<notin> set (rt_followUpsUsed rt')" by (auto simp: justified_def)
    have "List.find (\<lambda>g. Some (followup_id g) = followUpId dec) (followUps (rd_scenario d)) = Some f"
      using find_by_key f ids by (auto simp: ids_unique_def)
    with ok f show ?thesis
      by (simp add: realize_follow_up_def budgets_def opening_ok_def probes_ok_def hints_ok_def)
  qed
  have brf: "budgets d (fst (realize_brief d dec tid rt'))" if ok: "budgets d rt'" for rt'
    using ok by (auto simp: realize_brief_def Let_def budgets_def opening_ok_def probes_ok_def hints_ok_def)
  show ?thesis
    unfolding realize_def Let_def
    using ok' just' prb [OF ok' just'] hnt [OF ok' just'] fup [OF ok' just'] brf [OF ok'] budgets_core [OF clar [of ?rt]]
    by (cases "action dec") simp_all
qed

section \<open>Every step keeps the budgets\<close>

lemma stale_silent: "justified d rt (SILENT r)"
  by (simp add: justified_def)

lemma judge_decide_justified:
  "judge_decide d c base cl ms n rt = (rt', Inr v) \<Longrightarrow> justified d rt' (vd_decision v) \<and> core rt' = core rt"
  by (auto simp: judge_decide_def Let_def core_append justified_core [OF core_append] stale_silent
      dest!: gate_justified split: prod.splits sum.splits option.splits)

lemma judge_act_budgets:
  assumes "budgets d rt" and "justified d rt (vd_decision v)" and "ids_unique (rd_scenario d)"
  shows "budgets d (fst (judge_act d c v cl ms n rt))"
proof -
  have "budgets d (fst (and_then (realize d (vd_decision v) (turnId (vd_turn v)) rt) (\<lambda>utt rt1. f utt rt1)))"
    if "\<And>utt x. core (fst (f utt x)) = core x" for f :: "utterance option \<Rightarrow> runtime \<Rightarrow> runtime_result outcome"
    by (rule and_then_budgets [OF realize_budgets [OF assms]]) (simp add: budgets_via that)
  with assms(1) show ?thesis
    by (auto simp: judge_act_def Let_def budgets_via core_simps split: option.split)
qed

lemma judge_budgets:
  assumes "budgets d rt" and "ids_unique (rd_scenario d)"
  shows "budgets d (fst (judge d c c' base cl ms n rt))"
  unfolding judge_def
proof (rule and_then_budgets)
  show "budgets d (fst (judge_decide d c base cl ms n rt))"
    using assms(1) by (simp add: budgets_via core_simps)
next
  fix v rt1
  assume "judge_decide d c base cl ms n rt = (rt1, Inr v)" and "budgets d rt1"
  then show "budgets d (fst (judge_act d c' v cl ms n rt1))"
    using judge_act_budgets judge_decide_justified assms(2) by blast
qed

lemma reevaluate_budgets:
  assumes "budgets d rt" and "ids_unique (rd_scenario d)"
  shows "budgets d (fst (reevaluate d c c' m ls rt))"
proof -
  have "budgets d (clearHeldTurn rt)" using assms(1) by (simp add: budgets_via core_simps)
  with assms show ?thesis
    by (auto simp: reevaluate_def Let_def split: option.split intro!: and_then_budgets judge_budgets)
qed

lemma onSilenceElapsed_budgets:
  assumes "budgets d rt" and "ids_unique (rd_scenario d)"
  shows "budgets d (fst (onSilenceElapsed d c c' rt))"
proof -
  have "budgets d (append_event ty ac pl key dt rt)" for ty ac pl key dt
    using assms(1) by (simp add: budgets_via core_simps)
  with assms show ?thesis
    by (auto simp: onSilenceElapsed_def Let_def budgets_core [OF core_persist] split: option.split
        intro!: and_then_budgets reevaluate_budgets)
qed

lemma openInterview_budgets:
  assumes "budgets d rt" and "ids_unique (rd_scenario d)"
  shows "budgets d (fst (openInterview d c c' rt))"
proof (cases "decideAction (buildContext d c rt None) (gate_deps d rt)")
  case (Inl e)
  with assms show ?thesis by (simp add: openInterview_def)
next
  case (Inr dec)
  have ok: "budgets d (append_event ty ac pl key dt rt)" and just: "justified d (append_event ty ac pl key dt rt) dec"
    for ty ac pl key dt
    using assms(1) budgets_core [OF core_append] gate_justified [OF Inr] justified_core [OF core_append] by simp_all
  have "budgets d (fst (and_then (realize d dec tid (append_event ty ac pl key dt rt)) f))"
    if "\<And>utt x. core (fst (f utt x)) = core x" for tid ty ac pl key dt
      and f :: "utterance option \<Rightarrow> runtime \<Rightarrow> runtime_result outcome"
    by (rule and_then_budgets [OF realize_budgets [OF ok just assms(2)]]) (simp add: budgets_via that)
  then show ?thesis using Inr assms(1) by (simp add: openInterview_def Let_def core_simps)
qed

lemma evaluateTurn_budgets:
  assumes "budgets d rt" and "ids_unique (rd_scenario d)"
  shows "budgets d (fst (evaluateTurn d c c1 c2 ev rt))"
proof -
  have opened: "core (turn_open c ev rt) = core rt" by (simp add: turn_open_def Let_def core_simps)
  have reasoning: "core (fold_reasoning cl x) = core x" for cl x
    by (simp add: fold_reasoning_def Let_def core_simps)
  have "budgets d (fst (turn_judge d c1 c2 ev tr cl x))" if "budgets d x" for tr cl x
    unfolding turn_judge_def Let_def
    by (intro and_then_budgets)
       (use that assms(2) judge_budgets in \<open>auto simp: budgets_via core_simps reasoning split: if_splits\<close>)
  moreover have "budgets d (turn_open c ev rt)" using assms(1) opened budgets_core by blast
  ultimately show ?thesis by (simp add: evaluateTurn_def Let_def)
qed

text \<open>The end of an utterance only touches the pending re-offer, and within its bound.\<close>

definition close_opening :: "authorization option \<Rightarrow> speech_outcome option \<Rightarrow> runtime \<Rightarrow> runtime" where
  "close_opening completed so rt =
     (case completed of
        Some a \<Rightarrow>
          if au_opening a
          then (if heard so then rt\<lparr>rt_openingRedeliveryPending := False\<rparr>
                else if openingRedeliveries rt < MAX_OPENING_REDELIVERIES
                  then rt\<lparr>rt_openingRedeliveryPending := True\<rparr> else rt)
          else rt
      | None \<Rightarrow> rt)"

lemma close_opening_budgets: "budgets d rt \<Longrightarrow> budgets d (close_opening a so rt)"
  by (auto simp: close_opening_def budgets_def opening_ok_def probes_ok_def hints_ok_def split: option.split)

lemma markSpeechFinished_budgets:
  assumes "budgets d rt"
  shows "budgets d (fst (markSpeechFinished d c so rt))"
proof -
  let ?rt1 = "rt\<lparr>rt_interviewerCurrentlySpeaking := False, authorized := None\<rparr>"
  have "budgets d ?rt1" "budgets d (append_event ty ac pl key dt ?rt1)" for ty ac pl key dt
    using assms by (simp_all add: budgets_via core_simps)
  then have ok: "budgets d (close_opening a so ?rt1)" "budgets d (close_opening a so (append_event ty ac pl key dt ?rt1))"
    for a ty ac pl key dt using close_opening_budgets by blast+
  have adv: "budgets d (fst (advanceStages d c x))" if "budgets d x" for x
    using that by (simp add: budgets_via core_simps)
  show ?thesis
    unfolding markSpeechFinished_def Let_def close_opening_def [symmetric]
    using ok adv by (auto simp: budgets_core [OF core_persist] split: option.split intro!: and_then_budgets)
qed

lemma reconcile_budgets:
  "budgets d rt \<Longrightarrow> budgets d (fst (reconcileSpeechOnReady d c u rt))"
  by (auto simp: reconcileSpeechOnReady_def split: option.split intro!: and_then_budgets markSpeechFinished_budgets)

lemma applyCommitted_budgets:
  assumes "budgets d rt" and "ids_unique (rd_scenario d)"
  shows "budgets d (fst (applyCommitted d c c1 c2 ev rt))"
proof -
  have simple: "core (apply_code_delta c ev rt) = core rt" "core (apply_run_completed ev rt) = core rt"
    "core (apply_speech_stopped d c ev rt) = core rt"
    by (simp_all add: apply_code_delta_def apply_run_completed_def apply_speech_stopped_def core_simps Let_def
        split: option.split)
  note ok = assms(1) [unfolded budgets_via]
  show ?thesis
  proof (cases "etype ev")
    case SILENCE_ELAPSED
    with assms show ?thesis
      by (auto simp: applyCommitted_def intro!: and_then_budgets reevaluate_budgets)
  next
    case SPEECH_FINAL
    with assms evaluateTurn_budgets show ?thesis by (simp add: applyCommitted_def)
  next
    case SESSION_STARTED
    with assms openInterview_budgets show ?thesis by (simp add: applyCommitted_def)
  qed (use ok in \<open>simp_all add: applyCommitted_def Let_def budgets_via simple core_simps split: sum.split\<close>)
qed

lemma ingest_budgets:
  assumes "budgets d rt" and "ids_unique (rd_scenario d)"
  shows "budgets d (fst (ingest d c c1 c2 ev rt))"
proof -
  have adv: "budgets d (fst (advanceStages d c2 x))" if "budgets d x" for x
    using that by (simp add: budgets_via core_simps)
  show ?thesis
    unfolding ingest_def
    by (intro and_then_budgets) (use assms applyCommitted_budgets adv in \<open>auto simp: budgets_core [OF core_persist]\<close>)
qed

lemma step_budgets:
  assumes "budgets d rt" and "ids_unique (rd_scenario d)" and "runtime_step d rt rt'"
  shows "budgets d rt'"
  using assms(3)
proof (cases rule: runtime_step.cases)
  case (take)
  with assms(1) budgets_core [OF core_take] show ?thesis by simp
next
  case (fold c w)
  with assms(1) budgets_core [OF core_fold] show ?thesis by simp
next
  case (voice c)
  with assms(1) budgets_core [OF core_voice] show ?thesis by simp
qed (use assms(1,2) ingest_budgets onSilenceElapsed_budgets markSpeechFinished_budgets reconcile_budgets in auto)

lemma new_runtime_budgets: "budgets d (new_runtime c)"
  by (simp add: budgets_def opening_ok_def probes_ok_def hints_ok_def new_runtime_def emptyCandidateState_def)

text \<open>The interface on the model: the budgets are kept by every step of the runtime.\<close>

interpretation budget: kept_by_steps "\<lambda>rt rt'. ids_unique (rd_scenario d) \<and> runtime_step d rt rt'" "budgets d" for d
  by unfold_locales (auto intro: step_budgets)

end
