(* ===== verification/RuntimeFrames.thy ===== *)
theory RuntimeFrames
  imports RuntimeInvariants
begin

text \<open>
  The interface between a predicate on runtimes and the handlers: whatever does not look at the fields
  that judging and speaking overwrite, and survives an append to the log, one more delivery of the
  brief and an advance of the stage, is kept by every handler. The growth of a runtime and the
  faithfulness of its code are instances.
\<close>

locale handlers_keep =
  fixes d :: runtime_deps and P :: "runtime \<Rightarrow> bool"
  assumes updates:
      "P (authorized_update f1 rt) = P rt" "P (lastSpokeAtMs_update f2 rt) = P rt"
      "P (rt_candidateSpeechStarted_update f3 rt) = P rt" "P (speakingNowHeld_update f4 rt) = P rt"
      "P (rt_interviewerCurrentlySpeaking_update f5 rt) = P rt" "P (openTurn_update f6 rt) = P rt"
      "P (silenceBasis_update f7 rt) = P rt" "P (pendingTranscripts_update f8 rt) = P rt"
      "P (pendingRuns_update f9 rt) = P rt" "P (rt_candidate_update f10 rt) = P rt"
      "P (runsStarted_update f11 rt) = P rt" "P (reasoningTurnsInStage_update f12 rt) = P rt"
      "P (approachCommitted_update f13 rt) = P rt" "P (rt_probeUseCounts_update f14 rt) = P rt"
      "P (rt_candidateSpeakingNow_update f17 rt) = P rt" "P (lastSpeechStoppedAtMs_update f18 rt) = P rt"
      "P (lastProsody_update f19 rt) = P rt" "P (observationDirty_update f20 rt) = P rt"
      "P (heldTurn_update f21 rt) = P rt" "P (reevaluationTimer_update f22 rt) = P rt"
      "P (previousObservedCode_update f23 rt) = P rt" "P (answeredFactKeys_update f24 rt) = P rt"
      "P (rt_followUpsUsed_update f25 rt) = P rt" "P (observationCount_update f26 rt) = P rt"
      "P (issuedUtteranceIds_update f27 rt) = P rt" "P (rt_openingRedeliveryPending_update f28 rt) = P rt"
      "P (openingRedeliveries_update f29 rt) = P rt"
    and append: "P rt \<Longrightarrow> P (append_event ty ac pl key dt rt)"
    and persist: "P rt \<Longrightarrow> P (persistCheckpoint k m rt)"
    and deliver: "P rt \<Longrightarrow> P (rt\<lparr>rt_briefDeliveryCount := Suc (rt_briefDeliveryCount rt)\<rparr>)"
    and advance: "P rt \<Longrightarrow> P (fst (advanceStages d c rt))"
    and move: "applyEvent (rt_state rt) e r = Inr res \<Longrightarrow> P rt \<Longrightarrow> P (rt\<lparr>rt_state := sm_state res\<rparr>)"
begin

lemma helpers:
  "P (clearHeldTurn rt) = P rt" "P (issue_utterance u rt) = P rt"
  "P (holdForSilence d t cl completion ms n rt) = P rt" "P (scheduleObservation rt) = P rt"
  by (simp_all add: clearHeldTurn_def issue_utterance_def holdForSilence_def scheduleObservation_def Let_def updates
      split: option.split)

lemmas kept = updates helpers append persist deliver

lemma and_then_keeps:
  assumes "P (fst o1)" and "\<And>a rt. o1 = (rt, Inr a) \<Longrightarrow> P rt \<Longrightarrow> P (fst (f a rt))"
  shows "P (fst (and_then o1 f))"
  using assms by (cases o1) (auto simp: and_then_def split: sum.split)

lemma realize_keeps: "P rt \<Longrightarrow> P (fst (realize d dec tid rt))"
  by (cases "action dec")
    (auto simp: realize_def realize_clarification_def realize_probe_def realize_hint_def realize_follow_up_def
      realize_brief_def Let_def kept split: option.split sum.split)

lemma judge_keeps:
  assumes "P rt" shows "P (fst (judge d c c' base cl ms n rt))"
proof -
  have decide: "P (fst (judge_decide d c base cl ms n rt))"
    using assms by (auto simp: judge_decide_def Let_def kept split: prod.split sum.split)
  have act: "P (fst (judge_act d c' v cl ms n rt'))" if "P rt'" for v rt'
    using that by (auto simp: judge_act_def Let_def kept split: option.split intro!: and_then_keeps realize_keeps)
  show ?thesis unfolding judge_def by (rule and_then_keeps [OF decide act])
qed

lemma reevaluate_keeps: "P rt \<Longrightarrow> P (fst (reevaluate d c c' m ls rt))"
  by (auto simp: reevaluate_def Let_def kept split: option.split intro!: and_then_keeps judge_keeps)

lemma silence_keeps: "P rt \<Longrightarrow> P (fst (onSilenceElapsed d c c' rt))"
  by (auto simp: onSilenceElapsed_def Let_def kept split: option.split intro!: and_then_keeps reevaluate_keeps)

lemma open_keeps: "P rt \<Longrightarrow> P (fst (openInterview d c c' rt))"
  by (auto simp: openInterview_def Let_def kept split: option.split sum.split intro!: and_then_keeps realize_keeps)

lemma turn_keeps: "P rt \<Longrightarrow> P (fst (evaluateTurn d c c1 c2 ev rt))"
  by (auto simp: evaluateTurn_def turn_judge_def turn_open_def fold_reasoning_def Let_def kept
      intro!: and_then_keeps judge_keeps advance)

lemma finished_keeps: "P rt \<Longrightarrow> P (fst (markSpeechFinished d c so rt))"
  unfolding markSpeechFinished_def Let_def
  by (auto simp: kept split: option.split intro!: and_then_keeps advance)

lemma ready_keeps: "P rt \<Longrightarrow> P (fst (reconcileSpeechOnReady d c u rt))"
  by (auto simp: reconcileSpeechOnReady_def split: option.split intro!: and_then_keeps finished_keeps)

lemma apply_keeps:
  assumes "P rt" and "etype ev = CODE_DELTA \<Longrightarrow> P (apply_code_delta c ev rt)"
  shows "P (fst (applyCommitted d c c1 c2 ev rt))"
proof (cases "etype ev")
  case SILENCE_ELAPSED
  with assms show ?thesis by (auto simp: applyCommitted_def intro!: and_then_keeps reevaluate_keeps)
next
  case STATE_TRANSITIONED
  with assms show ?thesis by (auto simp: applyCommitted_def Let_def split: sum.split dest: move)
next
  case SESSION_ENDED
  with assms show ?thesis by (auto simp: applyCommitted_def kept split: sum.split dest: move)
next
  case SPEECH_STOPPED
  with assms show ?thesis by (simp add: applyCommitted_def apply_speech_stopped_def Let_def kept split: option.split)
qed (use assms turn_keeps open_keeps in \<open>simp_all add: applyCommitted_def apply_run_completed_def Let_def kept\<close>)

lemma ingest_keeps:
  assumes "P rt" and "etype ev = CODE_DELTA \<Longrightarrow> P (apply_code_delta c ev rt)"
  shows "P (fst (ingest d c c1 c2 ev rt))"
  unfolding ingest_def
  by (intro and_then_keeps apply_keeps assms) (auto simp: kept intro: advance)

lemma milestones_keep: "P rt \<Longrightarrow> P (append_milestones pass rv emitted rt)"
proof -
  have "P (foldl (\<lambda>rt (i, kind). append_event MILESTONE SYSTEM (pl kind) (k i) None rt) rt xs)"
    if "P rt" for pl :: "milestone_kind \<Rightarrow> payload" and k :: "nat \<Rightarrow> string" and xs rt
    using that by (induction xs arbitrary: rt) (auto simp: append)
  then show "P rt \<Longrightarrow> P (append_milestones pass rv emitted rt)"
    unfolding append_milestones_def .
qed

text \<open>The fold of an observation also replaces the milestones, which only the instance can judge.\<close>

lemma fold_keeps:
  assumes "P rt" and "\<And>cs ms em. fold_work d c w rt = (cs, ms, em) \<Longrightarrow> P (rt\<lparr>rt_milestones := ms\<rparr>)"
  shows "P (fst (observation_fold d c w rt))"
proof -
  obtain cs ms em where fw: "fold_work d c w rt = (cs, ms, em)" by (rule prod_cases3)
  have swap: "rt\<lparr>previousObservedCode := p, rt_candidate := cs, rt_milestones := ms, observationCount := n\<rparr> =
      (rt\<lparr>rt_milestones := ms\<rparr>)\<lparr>previousObservedCode := p, rt_candidate := cs, observationCount := n\<rparr>"
    "rt\<lparr>rt_candidate := cs, rt_milestones := ms, observationCount := n\<rparr> =
      (rt\<lparr>rt_milestones := ms\<rparr>)\<lparr>rt_candidate := cs, observationCount := n\<rparr>" for p n
    by simp_all
  have "P (rt\<lparr>previousObservedCode := p, rt_candidate := cs, rt_milestones := ms, observationCount := n\<rparr>)"
    "P (rt\<lparr>rt_candidate := cs, rt_milestones := ms, observationCount := n\<rparr>)" for p n
    unfolding swap using assms(2) [OF fw] by (simp_all add: updates)
  with fw show ?thesis
    by (auto simp: observation_fold_def Let_def kept split: option.split intro!: advance milestones_keep kept)
qed

lemma take_keeps: "P (fst (observation_take rt)) = P rt"
  by (simp add: observation_take_def updates)

lemma voice_keeps: "P (fst (voiceContext d c rt)) = P rt"
  by (simp add: voiceContext_def Let_def updates)

end

end
