(* ===== verification/RuntimeGrowth.thy ===== *)
theory RuntimeGrowth
  imports RuntimeFrames "HOL-Library.Sublist"
begin

text \<open>
  What only grows while an interview runs: the log, the stage, the code revision seen, the milestones
  reached and the deliveries of the brief; and who may speak: every open authorization and every
  utterance returned has its decision in the log, and its words come from the scenario.
\<close>

section \<open>Growth\<close>

definition extends :: "runtime \<Rightarrow> runtime \<Rightarrow> bool" where
  "extends rt rt' \<longleftrightarrow> prefix (outbox rt) (outbox rt') \<and> rt_state rt \<le> rt_state rt' \<and>
     rt_latestCodeRevision rt \<le> rt_latestCodeRevision rt' \<and>
     set (reached (rt_milestones rt)) \<subseteq> set (reached (rt_milestones rt')) \<and>
     rt_briefDeliveryCount rt \<le> rt_briefDeliveryCount rt'"

lemma extends_refl [simp]: "extends rt rt"
  by (simp add: extends_def)

lemma extends_trans: "extends a b \<Longrightarrow> extends b c \<Longrightarrow> extends a c"
  unfolding extends_def by (meson order_trans prefix_order.order_trans subset_trans)

named_theorems extends_simps \<open>updates that the growth relation does not see\<close>

lemma extends_updates [extends_simps]:
  "extends x (authorized_update f1 rt) = extends x rt" "extends x (lastSpokeAtMs_update f2 rt) = extends x rt"
  "extends x (rt_candidateSpeechStarted_update f3 rt) = extends x rt" "extends x (speakingNowHeld_update f4 rt) = extends x rt"
  "extends x (rt_interviewerCurrentlySpeaking_update f5 rt) = extends x rt" "extends x (openTurn_update f6 rt) = extends x rt"
  "extends x (silenceBasis_update f7 rt) = extends x rt" "extends x (pendingTranscripts_update f8 rt) = extends x rt"
  "extends x (pendingRuns_update f9 rt) = extends x rt" "extends x (rt_candidate_update f10 rt) = extends x rt"
  "extends x (runsStarted_update f11 rt) = extends x rt" "extends x (reasoningTurnsInStage_update f12 rt) = extends x rt"
  "extends x (approachCommitted_update f13 rt) = extends x rt" "extends x (rt_probeUseCounts_update f14 rt) = extends x rt"
  "extends x (latestCode_update f15 rt) = extends x rt" "extends x (lastCodeActivityMs_update f16 rt) = extends x rt"
  "extends x (rt_candidateSpeakingNow_update f17 rt) = extends x rt" "extends x (lastSpeechStoppedAtMs_update f18 rt) = extends x rt"
  "extends x (lastProsody_update f19 rt) = extends x rt" "extends x (observationDirty_update f20 rt) = extends x rt"
  "extends x (heldTurn_update f21 rt) = extends x rt" "extends x (reevaluationTimer_update f22 rt) = extends x rt"
  "extends x (previousObservedCode_update f23 rt) = extends x rt" "extends x (answeredFactKeys_update f24 rt) = extends x rt"
  "extends x (rt_followUpsUsed_update f25 rt) = extends x rt" "extends x (observationCount_update f26 rt) = extends x rt"
  "extends x (issuedUtteranceIds_update f27 rt) = extends x rt" "extends x (rt_openingRedeliveryPending_update f28 rt) = extends x rt"
  "extends x (openingRedeliveries_update f29 rt) = extends x rt"
  by (simp_all add: extends_def)

lemma extends_append [extends_simps]: "extends x rt \<Longrightarrow> extends x (append_event ty ac pl key dt rt)"
  by (simp add: extends_def append_event_def)

lemma extends_persist [extends_simps]: "extends x rt \<Longrightarrow> extends x (persistCheckpoint k n rt)"
  by (simp add: extends_def persistCheckpoint_def)

lemma extends_clear [extends_simps]: "extends x (clearHeldTurn rt) = extends x rt"
  by (simp add: clearHeldTurn_def extends_simps)

lemma extends_issue [extends_simps]: "extends x (issue_utterance u rt) = extends x rt"
  by (simp add: issue_utterance_def Let_def extends_simps)

lemma extends_hold [extends_simps]: "extends x (holdForSilence d t cl completion ms n rt) = extends x rt"
  by (simp add: holdForSilence_def Let_def extends_simps split: option.split)

lemma extends_schedule [extends_simps]: "extends x (scheduleObservation rt) = extends x rt"
  by (simp add: scheduleObservation_def extends_simps)

lemma extends_advance:
  assumes "extends x rt" shows "extends x (fst (advanceStages d c rt))"
proof -
  obtain rt' r where l: "advance_loop STAGE_ADVANCE_LIMIT d c rt = (rt', r)" by fastforce
  from advance_loop_recorded [of STAGE_ADVANCE_LIMIT d c rt] l obtain new where
    new: "outbox rt' = outbox rt @ new" by auto
  from advance_loop_refines [of STAGE_ADVANCE_LIMIT d c rt] l
  have "stageSignals d c rt' = settle_stages (stageSignals d c rt)" by (auto simp: settle_stages_def)
  with settle_stages_forward [of "stageSignals d c rt"] have "rt_state rt \<le> rt_state rt'"
    by (metis stageSignals_state)
  with new advance_loop_same [OF l] have "extends rt rt'" by (simp add: extends_def)
  with assms l show ?thesis by (auto simp: advanceStages_def intro: extends_trans)
qed

lemma extends_brief:
  "extends x rt \<Longrightarrow> extends x (rt\<lparr>rt_briefDeliveryCount := Suc (rt_briefDeliveryCount rt)\<rparr>)"
  by (simp add: extends_def)

lemma extends_code: "extends x rt \<Longrightarrow> extends x (apply_code_delta c ev rt)"
  by (auto simp: apply_code_delta_def scheduleObservation_def extends_def split: option.split)

lemma extends_state:
  "applyEvent (rt_state rt) e r = Inr res \<Longrightarrow> extends x rt \<Longrightarrow> extends x (rt\<lparr>rt_state := sm_state res\<rparr>)"
  by (auto simp: extends_def dest: applyEvent_forward)

interpretation extending: handlers_keep d "extends x" for d x
  by unfold_locales
    (fact extends_updates extends_append extends_persist extends_brief extends_advance extends_state)+

lemma extends_realize: "extends x rt \<Longrightarrow> extends x (fst (realize d dec tid rt))"
  by (rule extending.realize_keeps)

section \<open>Observation only adds milestones\<close>

lemma fold_observation_reached:
  "set (reached (fst (snd f))) \<subseteq> set (reached (fst (snd (fold_observation c a s r f))))"
  by (cases f) (auto simp: fold_observation_def Let_def observe_reached)

lemma fold_runs_reached:
  "set (reached (fst (snd f))) \<subseteq> set (reached (fst (snd (fold_runs_queue c a s rs f))))"
proof -
  have "set (reached (fst (snd f))) \<subseteq>
      set (reached (fst (snd (foldl (\<lambda>f r. fold_observation c a None (Some r) f) f rs))))" for f rs
  proof (induction rs arbitrary: f)
    case (Cons r rs)
    from fold_observation_reached [of f c a None "Some r"] Cons [of "fold_observation c a None (Some r) f"]
    show ?case by simp
  qed simp
  note queue = this
  show ?thesis
  proof (cases rs)
    case Nil
    with fold_observation_reached show ?thesis by (simp add: fold_runs_queue_def)
  next
    case (Cons r rs')
    from fold_observation_reached [of f c a s "Some r"] queue [of "fold_observation c a s (Some r) f" rs'] Cons
    show ?thesis by (simp add: fold_runs_queue_def)
  qed
qed

lemma fold_transcripts_reached:
  "set (reached (fst (snd f))) \<subseteq> set (reached (fst (snd (foldl (fold_transcript sc) f obs))))"
proof (induction obs arbitrary: f)
  case (Cons ob obs)
  obtain cs ms em where f: "f = (cs, ms, em)" by (rule prod_cases3)
  obtain cs' ms' new where o: "observeTranscript cs ms sc ob = (cs', ms', new)" by (rule prod_cases3)
  then have "(ms', new) = applyComplexityMismatch cs' ms sc" by (auto simp: observeTranscript_def Let_def)
  with applyComplexityMismatch_reached [of cs' ms sc] have "set (reached ms) \<subseteq> set (reached ms')"
    by (metis Un_upper1 fst_conv)
  with f o have "set (reached ms) \<subseteq> set (reached (fst (snd (fold_transcript sc f ob))))"
    by (simp add: fold_transcript_def)
  with Cons [of "fold_transcript sc f ob"] f show ?case by simp
qed simp

lemma fold_mismatch_reached:
  "set (reached (fst (snd f))) \<subseteq> set (reached (fst (snd (fold_mismatch sc f))))"
proof -
  obtain cs ms em where f: "f = (cs, ms, em)" by (rule prod_cases3)
  obtain ms' new where a: "applyComplexityMismatch cs ms sc = (ms', new)" by fastforce
  from applyComplexityMismatch_reached [of cs ms sc] f a show ?thesis by (simp add: fold_mismatch_def)
qed

lemma fold_work_reached:
  "fold_work d c w rt = (cs, ms, em) \<Longrightarrow> set (reached (rt_milestones rt)) \<subseteq> set (reached ms)"
proof -
  assume fw: "fold_work d c w rt = (cs, ms, em)"
  let ?f1 = "fold_runs_queue c (lastCodeActivityMs rt) (observation_snapshot d w) (ow_runs w)
      (rt_candidate rt, rt_milestones rt, [])"
  let ?f2 = "foldl (fold_transcript (rd_scenario d)) ?f1 (ow_transcripts w)"
  have "set (reached (rt_milestones rt)) \<subseteq> set (reached (fst (snd ?f1)))"
    using fold_runs_reached [of "(rt_candidate rt, rt_milestones rt, [])"] by simp
  also have "\<dots> \<subseteq> set (reached (fst (snd ?f2)))" by (rule fold_transcripts_reached)
  also have "\<dots> \<subseteq> set (reached (fst (snd (fold_mismatch (rd_scenario d) ?f2))))" by (rule fold_mismatch_reached)
  finally show ?thesis using fw by (simp add: fold_work_def)
qed

lemma extends_fold: "extends x rt \<Longrightarrow> extends x (fst (observation_fold d c w rt))"
  by (rule extending.fold_keeps) (auto simp: extends_def dest: fold_work_reached)

lemma extends_ingest: "extends x rt \<Longrightarrow> extends x (fst (ingest d c c1 c2 ev rt))"
  by (rule extending.ingest_keeps) (auto intro: extends_code)

lemma step_extends: "runtime_step d rt rt' \<Longrightarrow> extends rt rt'"
  by (induction rule: runtime_step.induct)
     (auto intro: extends_ingest extending.silence_keeps extending.finished_keeps extending.ready_keeps
       extends_fold simp: extending.take_keeps extending.voice_keeps)

interpretation growth: grown_by_steps "runtime_step d" extends for d
  by unfold_locales (auto intro: extends_trans step_extends)

end
