(* ===== verification/RuntimeSafety.thy ===== *)
theory RuntimeSafety
  imports RuntimeGrowth
begin

text \<open>
  Who may speak, and with which words: every open authorization has its decision in the log, every
  utterance is authored text of the pinned scenario, and words about code cite the revision on
  screen. Further: the wait of a held turn is long enough, an observation pass catches up with the
  editor, and recovery from the log.
\<close>

section \<open>Authored words\<close>

definition authored_texts :: "scenario_version \<Rightarrow> string list" where
  "authored_texts sc =
     openingScript sc # repeatVariants sc @ map fact_value (facts sc) @ concat (map authoredVariants (probes sc)) @
     map hint_text (hintLadder sc) @ map oralDelta (followUps sc)"

text \<open>An utterance without words is an acknowledgement.\<close>

definition authored :: "scenario_version \<Rightarrow> interview_action \<Rightarrow> string \<Rightarrow> bool" where
  "authored sc a words \<longleftrightarrow> words \<in> set (authored_texts sc) \<or> a = ACKNOWLEDGE_BRIEFLY \<and> words = []"

lemma spoken_sel [simp]:
  "utteranceId (spoken u a w) = u" "ut_action (spoken u a w) = a" "ut_text (spoken u a w) = w"
  "ut_groundedInRevision (spoken u a w) = None" "\<not> ut_opening (spoken u a w)"
  by (simp_all add: spoken_def)

lemma realize_clarification_utterance:
  "realize_clarification d dec tid rt = (rt', Inr (Some u)) \<Longrightarrow>
     \<exists>f\<in>set (facts (rd_scenario d)). u = spoken (''utt-'' @ tid) (action dec) (fact_value f)"
  by (auto simp: realize_clarification_def Let_def split: option.splits dest: find_SomeD)

lemma realize_probe_utterance:
  "realize_probe d dec tid rt = (rt', Inr (Some u)) \<Longrightarrow>
     \<exists>p\<in>set (probes (rd_scenario d)). \<exists>w\<in>set (authoredVariants p).
       u = (spoken (''utt-'' @ tid) (action dec) w)\<lparr>ut_groundedInRevision := groundedInRevision dec\<rparr>"
  by (fastforce simp: realize_probe_def Let_def split: option.splits sum.splits
      dest: find_SomeD selectProbeWording_authored)

lemma realize_hint_utterance:
  "realize_hint d dec tid rt = (rt', Inr (Some u)) \<Longrightarrow>
     \<exists>h\<in>set (hintLadder (rd_scenario d)). u = spoken (''utt-'' @ tid) (action dec) (hint_text h)"
  by (auto simp: realize_hint_def Let_def split: option.splits sum.splits dest: getHintD)

lemma realize_follow_up_utterance:
  "realize_follow_up d dec tid rt = (rt', Inr (Some u)) \<Longrightarrow>
     \<exists>f\<in>set (followUps (rd_scenario d)). u = spoken (''utt-'' @ tid) (action dec) (oralDelta f)"
  by (auto simp: realize_follow_up_def split: option.splits dest: find_SomeD)

lemma realize_brief_utterance:
  "realize_brief d dec tid rt = (rt', Inr (Some u)) \<Longrightarrow>
     \<exists>w\<in>set (openingScript (rd_scenario d) # repeatVariants (rd_scenario d)). \<exists>b.
       u = (spoken (''utt-'' @ tid) (action dec) w)\<lparr>ut_opening := b\<rparr>"
  by (auto simp: realize_brief_def Let_def split: if_splits intro!: nth_mem)

lemma realize_authored:
  assumes "realize d dec tid rt = (rt', Inr (Some u))"
  shows "authored (rd_scenario d) (action dec) (ut_text u)" and "utteranceId u = ''utt-'' @ tid"
    and "ut_action u = action dec" and "ut_groundedInRevision u \<in> {None, groundedInRevision dec}"
proof -
  have "authored (rd_scenario d) (action dec) (ut_text u) \<and> utteranceId u = ''utt-'' @ tid \<and>
      ut_action u = action dec \<and> ut_groundedInRevision u \<in> {None, groundedInRevision dec}"
    using assms unfolding realize_def Let_def authored_def authored_texts_def
    by (cases "action dec")
       (auto dest!: realize_clarification_utterance realize_probe_utterance realize_hint_utterance
          realize_follow_up_utterance realize_brief_utterance)
  then show "authored (rd_scenario d) (action dec) (ut_text u)" "utteranceId u = ''utt-'' @ tid"
    "ut_action u = action dec" "ut_groundedInRevision u \<in> {None, groundedInRevision dec}" by blast+
qed

section \<open>Every authorization was decided\<close>

definition decision_event :: "gate_decision \<Rightarrow> append_request \<Rightarrow> bool" where
  "decision_event dec e \<longleftrightarrow> ap_type e = ACTION_DECIDED \<and>
     field (ap_payload e) ''action'' = Some (JStr (action_name (action dec)))"

definition authorization_ok :: "runtime_deps \<Rightarrow> runtime \<Rightarrow> authorization \<Rightarrow> bool" where
  "authorization_ok d rt a \<longleftrightarrow> action (au_decision a) \<noteq> STAY_SILENT \<and>
     (\<exists>e\<in>set (outbox rt). decision_event (au_decision a) e) \<and>
     authored (rd_scenario d) (action (au_decision a)) (au_text a)"

definition voiced :: "runtime_deps \<Rightarrow> runtime \<Rightarrow> bool" where
  "voiced d rt \<longleftrightarrow> (\<forall>a. authorized rt = Some a \<longrightarrow> authorization_ok d rt a)"

lemma authorization_ok_extends: "authorization_ok d rt a \<Longrightarrow> extends rt rt' \<Longrightarrow> authorization_ok d rt' a"
  unfolding authorization_ok_def extends_def by (meson set_mono_prefix subsetD)

text \<open>A step that leaves the authorization alone, or closes it, keeps the invariant.\<close>

lemma voiced_kept:
  "voiced d rt \<Longrightarrow> extends rt rt' \<Longrightarrow> authorized rt' = authorized rt \<or> authorized rt' = None \<Longrightarrow> voiced d rt'"
  by (auto simp: voiced_def dest: authorization_ok_extends)

lemma authorized_append [simp]: "authorized (append_event ty ac pl key dt rt) = authorized rt"
  by (simp add: append_event_def)

lemma authorized_simps [simp]:
  "authorized (clearHeldTurn rt) = authorized rt" "authorized (persistCheckpoint key n rt) = authorized rt"
  "authorized (scheduleObservation rt) = authorized rt" "authorized (issue_utterance u rt) = authorized rt"
  "authorized (holdForSilence d t cl completion ms k rt) = authorized rt"
  by (simp_all add: clearHeldTurn_def persistCheckpoint_def scheduleObservation_def issue_utterance_def Let_def
      holdForSilence_def split: option.split)

lemma authorized_advance [simp]: "authorized (fst (advanceStages d c rt)) = authorized rt"
proof -
  obtain rt' r where "advance_loop STAGE_ADVANCE_LIMIT d c rt = (rt', r)" by fastforce
  with advance_loop_same [OF this] show ?thesis by (simp add: advanceStages_def)
qed

lemma authorized_realize [simp]: "authorized (fst (realize d dec tid rt)) = authorized rt"
  by (cases "action dec")
     (simp_all add: realize_def realize_clarification_def realize_probe_def realize_hint_def realize_follow_up_def
        realize_brief_def Let_def split: option.split sum.split)

lemma voiced_updates:
  "voiced d (rt_candidateSpeechStarted_update f3 rt) = voiced d rt" "voiced d (speakingNowHeld_update f4 rt) = voiced d rt"
  "voiced d (pendingTranscripts_update f8 rt) = voiced d rt" "voiced d (scheduleObservation rt) = voiced d rt"
  by (simp_all add: voiced_def authorization_ok_def scheduleObservation_def)

lemma and_then_voiced:
  assumes "voiced d (fst o1)" and "\<And>a rt. o1 = (rt, Inr a) \<Longrightarrow> voiced d rt \<Longrightarrow> voiced d (fst (f a rt))"
  shows "voiced d (fst (and_then o1 f))"
  using assms by (cases o1) (auto simp: and_then_def split: sum.split)

text \<open>The first half of a judgement leaves its decision in the log.\<close>

lemma judge_decide_logged:
  assumes "judge_decide d c base cl ms n rt = (rt', Inr v)"
  shows "\<exists>e\<in>set (outbox rt'). decision_event (vd_decision v) e" and "authorized rt' = authorized rt"
    and "extends rt rt'" and "rt_latestCodeRevision rt' = rt_latestCodeRevision rt"
  using assms
  by (auto simp: judge_decide_def Let_def decision_event_def append_event_def action_payload_def field_def extends_def
      split: prod.splits sum.splits)

lemma voiced_authorize:
  assumes "realize d dec tid rt = (rt1, Inr utt)" and "\<exists>e\<in>set (outbox rt). decision_event dec e"
    and "action dec \<noteq> STAY_SILENT" and "outbox rt2 = outbox rt1"
    and "authorized rt2 = map_option (\<lambda>u. \<lparr>au_decision = dec, au_utteranceId = utteranceId u,
           au_text = ut_text u, au_opening = ut_opening u\<rparr>) utt"
  shows "voiced d rt2"
proof -
  have "extends rt rt1" using extends_realize [of rt rt d dec tid] assms(1) by simp
  with assms(2) have "\<exists>e\<in>set (outbox rt1). decision_event dec e"
    unfolding extends_def by (meson set_mono_prefix subsetD)
  with assms show ?thesis
    by (cases utt) (auto simp: voiced_def authorization_ok_def dest: realize_authored(1))
qed

lemma judge_act_voiced:
  assumes "voiced d rt" and log: "\<exists>e\<in>set (outbox rt). decision_event (vd_decision v) e"
  shows "voiced d (fst (judge_act d c v cl ms n rt))"
proof (cases "action (vd_decision v) = STAY_SILENT \<or> staleGroundingReason d c rt (vd_decision v) \<noteq> None")
  case True
  have "extends rt (fst (judge_act d c v cl ms n rt))"
    and "authorized (fst (judge_act d c v cl ms n rt)) = authorized rt"
    using True by (auto simp: judge_act_def Let_def extends_simps split: option.splits)
  with assms(1) show ?thesis by (blast intro: voiced_kept)
next
  case False
  obtain rt1 r where rl: "realize d (vd_decision v) (turnId (vd_turn v)) rt = (rt1, r)" by fastforce
  show ?thesis
  proof (cases r)
    case (Inl e)
    have "authorized rt1 = authorized rt" "extends rt rt1"
      using authorized_realize [of d "vd_decision v" "turnId (vd_turn v)" rt]
        extends_realize [of rt rt d "vd_decision v" "turnId (vd_turn v)"] rl by simp_all
    with assms(1) have "voiced d rt1" by (blast intro: voiced_kept)
    with False rl Inl show ?thesis by (auto simp: judge_act_def Let_def)
  next
    case (Inr utt)
    from False rl Inr show ?thesis
      by (auto simp: judge_act_def Let_def intro!: voiced_authorize [OF rl [unfolded Inr] log])
  qed
qed

lemma judge_voiced:
  assumes "voiced d rt" shows "voiced d (fst (judge d c c' base cl ms n rt))"
proof -
  obtain rt1 r where jd: "judge_decide d c base cl ms n rt = (rt1, r)" by fastforce
  show ?thesis
  proof (cases r)
    case (Inl e)
    with jd have "rt1 = rt" by (auto simp: judge_decide_def Let_def split: prod.splits sum.splits)
    with assms jd Inl show ?thesis by (simp add: judge_def)
  next
    case (Inr v)
    from judge_decide_logged [OF jd [unfolded Inr]] assms have "voiced d rt1" by (blast intro: voiced_kept)
    with judge_act_voiced judge_decide_logged(1) [OF jd [unfolded Inr]] jd Inr show ?thesis
      by (simp add: judge_def)
  qed
qed

lemma voiced_same: "voiced d rt \<Longrightarrow> outbox rt' = outbox rt \<Longrightarrow> authorized rt' = authorized rt \<Longrightarrow> voiced d rt'"
  by (simp add: voiced_def authorization_ok_def)

lemma voiced_append: "voiced d rt \<Longrightarrow> voiced d (append_event ty ac pl key dt rt)"
  by (rule voiced_kept [of d rt]) (simp_all add: extends_simps)

lemma voiced_persist: "voiced d rt \<Longrightarrow> voiced d (persistCheckpoint k n rt)"
  by (rule voiced_kept [of d rt]) (simp_all add: extends_simps)

lemma voiced_advance: "voiced d rt \<Longrightarrow> voiced d (fst (advanceStages d c rt))"
  by (rule voiced_kept [of d rt]) (simp_all add: extends_advance)

lemma reevaluate_voiced: "voiced d rt \<Longrightarrow> voiced d (fst (reevaluate d c c' m ls rt))"
  by (auto simp: reevaluate_def Let_def split: option.split intro!: and_then_voiced judge_voiced
      intro: voiced_same simp: clearHeldTurn_def)

lemma silence_voiced: "voiced d rt \<Longrightarrow> voiced d (fst (onSilenceElapsed d c c' rt))"
  by (auto simp: onSilenceElapsed_def Let_def split: option.split
      intro!: and_then_voiced reevaluate_voiced voiced_persist voiced_append)

lemma openInterview_voiced:
  assumes "voiced d rt" shows "voiced d (fst (openInterview d c c' rt))"
proof (cases "decideAction (buildContext d c rt None) (gate_deps d rt)")
  case (Inl e)
  with assms show ?thesis by (simp add: openInterview_def)
next
  case (Inr dec)
  show ?thesis
  proof (cases "action dec = STAY_SILENT")
    case True
    with Inr assms show ?thesis by (simp add: openInterview_def)
  next
    case False
    define tid where "tid = (if rt_openingRedeliveryPending rt
      then ''opening-r'' @ show_nat (openingRedeliveries rt + 1) else ''opening'')"
    define rt0 where "rt0 = append_event ACTION_DECIDED INTERVIEWER
      [(''action'', JStr (action_name (action dec))), (''reason'', JReason (reason dec)),
       (''decidedByRule'', JBool (decidedByRule dec))] (''action:'' @ tid) None rt"
    have log: "\<exists>e\<in>set (outbox rt0). decision_event dec e"
      by (simp add: rt0_def append_event_def decision_event_def field_def)
    obtain rt1 r where rl: "realize d dec tid rt0 = (rt1, r)" by fastforce
    have opened: "openInterview d c c' rt = and_then (realize d dec tid rt0) (\<lambda>utt rt2.
        (let rt3 = rt2\<lparr>authorized := map_option (\<lambda>u. \<lparr>au_decision = dec, au_utteranceId = utteranceId u,
                          au_text = ut_text u, au_opening = ut_opening u\<rparr>) utt, lastSpokeAtMs := now_ms c'\<rparr>;
             rt4 = (if utt \<noteq> None then rt3\<lparr>rt_interviewerCurrentlySpeaking := True\<rparr> else rt3)
         in (rt4, Inr \<lparr>rr_decision = Some dec, rr_utterance = utt\<rparr>)))"
      using Inr False by (simp add: openInterview_def Let_def tid_def rt0_def)
    show ?thesis
    proof (cases r)
      case (Inl e)
      have "authorized rt1 = authorized rt0" "extends rt0 rt1"
        using authorized_realize [of d dec tid rt0] extends_realize [of rt0 rt0 d dec tid] rl by simp_all
      moreover have "voiced d rt0" using assms by (simp add: rt0_def voiced_append)
      ultimately have "voiced d rt1" by (blast intro: voiced_kept)
      with opened rl Inl show ?thesis by simp
    next
      case (Inr utt)
      show ?thesis unfolding opened
        using rl Inr False by (auto simp: Let_def intro!: voiced_authorize [OF rl [unfolded Inr] log])
    qed
  qed
qed

lemma evaluateTurn_voiced:
  assumes "voiced d rt" shows "voiced d (fst (evaluateTurn d c c1 c2 ev rt))"
proof -
  have opened: "voiced d (turn_open c ev rt)"
    using assms by (simp add: turn_open_def Let_def voiced_def authorization_ok_def clearHeldTurn_def)
  have reasoning: "voiced d (fold_reasoning cl x)" if "voiced d x" for cl x
    using that by (simp add: fold_reasoning_def Let_def voiced_def authorization_ok_def)
  have "voiced d (fst (turn_judge d c1 c2 ev tr cl x))" if v: "voiced d x" for tr cl x
    unfolding turn_judge_def Let_def
  proof (rule and_then_voiced)
    show "voiced d (fst (if event_finalized ev then advanceStages d c1 (fold_reasoning cl x) else (x, Inr ())))"
      using v reasoning voiced_advance by simp
  qed (rule and_then_voiced, erule judge_voiced, simp add: voiced_updates)
  with opened show ?thesis by (simp add: evaluateTurn_def Let_def)
qed

lemma finished_closes: "authorized (fst (markSpeechFinished d c so rt)) = None"
proof -
  have keep: "authorized (fst (and_then o1 (\<lambda>_ rt. (f rt, Inr ())))) = None"
    if "authorized (fst o1) = None" and "\<And>x. authorized (f x) = authorized x" for o1 :: "unit outcome" and f
    using that by (cases o1) (auto simp: and_then_def split: sum.split)
  show ?thesis
    unfolding markSpeechFinished_def Let_def
    by (rule keep) (auto split: option.split)
qed

lemma finished_voiced: "voiced d (fst (markSpeechFinished d c so rt))"
  by (simp add: voiced_def finished_closes)

lemma ready_voiced: "voiced d rt \<Longrightarrow> voiced d (fst (reconcileSpeechOnReady d c u rt))"
  by (auto simp: reconcileSpeechOnReady_def finished_voiced split: option.split intro!: and_then_voiced)

lemma apply_voiced: "voiced d rt \<Longrightarrow> voiced d (fst (applyCommitted d c c1 c2 ev rt))"
  by (cases "etype ev")
     (auto simp: applyCommitted_def apply_code_delta_def apply_run_completed_def apply_speech_stopped_def Let_def
        clearHeldTurn_def scheduleObservation_def split: option.split sum.split
        intro!: and_then_voiced reevaluate_voiced evaluateTurn_voiced openInterview_voiced intro: voiced_same)

lemma ingest_voiced: "voiced d rt \<Longrightarrow> voiced d (fst (ingest d c c1 c2 ev rt))"
  unfolding ingest_def
  by (intro and_then_voiced apply_voiced) (auto intro: voiced_advance voiced_persist)

lemma fold_voiced: "voiced d rt \<Longrightarrow> voiced d (fst (observation_fold d c w rt))"
proof -
  have ms: "authorized (append_milestones pass rv emitted rt) = authorized rt" for pass rv emitted rt
  proof -
    have "authorized (foldl (\<lambda>rt (i, kind). append_event MILESTONE SYSTEM (pl kind) (k i) None rt) rt xs) = authorized rt"
      for pl :: "milestone_kind \<Rightarrow> payload" and k :: "nat \<Rightarrow> string" and xs rt
      by (induction xs arbitrary: rt) auto
    then show ?thesis unfolding append_milestones_def .
  qed
  assume "voiced d rt"
  then show ?thesis
    by (rule voiced_kept [OF _ extends_fold [OF extends_refl]])
       (simp add: observation_fold_def Let_def ms split: prod.split option.split)
qed

lemma step_voiced:
  assumes "voiced d rt" and "runtime_step d rt rt'" shows "voiced d rt'"
  using assms(2)
proof (cases rule: runtime_step.cases)
  case take
  with assms(1) show ?thesis by (auto simp: observation_take_def intro: voiced_same)
next
  case (voice c)
  with assms(1) show ?thesis
    by (intro voiced_kept [OF assms(1) step_extends [OF assms(2)]])
       (auto simp: voiceContext_def voice_authorization_def Let_def split: option.split)
qed (use assms(1) ingest_voiced silence_voiced finished_voiced ready_voiced fold_voiced in auto)

interpretation speech: kept_by_steps "runtime_step d" "voiced d" for d
  by unfold_locales (auto intro: step_voiced)

section \<open>Words about code cite the revision on screen\<close>

lemma staleGroundingReason_None:
  "staleGroundingReason d c rt dec = None \<Longrightarrow> groundedInRevision dec = Some r \<Longrightarrow>
     r = rt_latestCodeRevision rt \<and>
     (\<exists>seen. codeObservedAt (rt_candidate rt) = Some (Some seen) \<and>
        (now_ms c - seen) / 1000 \<le> maxCodeStalenessSeconds (rd_policy d))"
  by (auto simp: staleGroundingReason_def parse_instant_def Let_def max_def split: if_splits option.splits)

lemma judge_act_grounded:
  assumes "judge_act d c v cl ms n rt = (rt', Inr res)" and "rr_utterance res = Some u"
    and "ut_groundedInRevision u = Some r"
  shows "r = rt_latestCodeRevision rt" and "staleGroundingReason d c rt (vd_decision v) = None"
    and "groundedInRevision (vd_decision v) = Some r"
proof -
  have speaks: "action (vd_decision v) \<noteq> STAY_SILENT"
    using assms(1,2) by (auto simp: judge_act_def Let_def)
  have fresh: "staleGroundingReason d c rt (vd_decision v) = None"
    using assms(1,2) speaks by (cases "staleGroundingReason d c rt (vd_decision v)") (auto simp: judge_act_def Let_def)
  obtain rt1 res1 where out: "realize d (vd_decision v) (turnId (vd_turn v)) rt = (rt1, res1)" by fastforce
  have rl: "\<exists>rt1. realize d (vd_decision v) (turnId (vd_turn v)) rt = (rt1, Inr (Some u))"
    using assms(1,2) speaks fresh out by (cases res1) (auto simp: judge_act_def Let_def)
  from rl realize_authored(4) assms(3) have cites: "groundedInRevision (vd_decision v) = Some r" by fastforce
  with staleGroundingReason_None [OF fresh] fresh
  show "r = rt_latestCodeRevision rt" "staleGroundingReason d c rt (vd_decision v) = None"
    "groundedInRevision (vd_decision v) = Some r" by auto
qed

section \<open>The wait of a held turn\<close>

lemma hold_waits_enough:
  assumes held: "heldTurn (holdForSilence d t cl completion (Some s) n rt) = Some h"
    and fresh: "heldTurn rt = None"
    and timer: "reevaluationTimer (holdForSilence d t cl completion (Some s) n rt) = Some w"
    and win: "w_min (turnEndWindow (rd_policy d) (turn_prosody t)) < w_settled (turnEndWindow (rd_policy d) (turn_prosody t))"
    and th: "HELD_FLOOR_CEILING < endOfTurnThreshold (rd_policy d)"
  shows "endOfTurnThreshold (rd_policy d) \<le> silenceCeiling (s + w) (rd_policy d) (turn_prosody t)"
proof -
  from held fresh timer obtain required where
    r: "silenceRequiredFor (endOfTurnThreshold (rd_policy d)) (rd_policy d) (turn_prosody t) = Some required"
    and w: "w = required - s + 25"
    by (auto simp: holdForSilence_def Let_def split: option.splits if_splits)
  have le1: "endOfTurnThreshold (rd_policy d) \<le> 1"
    using r by (auto simp: silenceRequiredFor_def Let_def HELD_FLOOR_CEILING_def split: if_splits)
  have "silenceCeiling required (rd_policy d) (turn_prosody t) = endOfTurnThreshold (rd_policy d)"
    by (rule silenceRequired_exact [OF win th le1 r])
  with silenceCeiling_mono [of required "s + w" "rd_policy d" "turn_prosody t"] w show ?thesis by simp
qed

section \<open>Observation\<close>

lemma revision_buildSnapshot [simp]: "revision (buildSnapshot parse code rv previous) = rv"
  by (simp add: buildSnapshot_def emptySnapshot_def with_lines_def Let_def split: option.split)

lemma fold_observation_derived:
  "derivedFromRevision (fst (fold_observation c a s r f)) =
     (case s of Some snap \<Rightarrow> revision snap | None \<Rightarrow> derivedFromRevision (fst f))"
  by (cases f) (simp add: fold_observation_def Let_def observe_derived split: option.split)

lemma fold_runs_derived:
  "derivedFromRevision (fst (fold_runs_queue c a s rs f)) =
     (case s of Some snap \<Rightarrow> revision snap | None \<Rightarrow> derivedFromRevision (fst f))"
proof -
  have "derivedFromRevision (fst (foldl (\<lambda>f r. fold_observation c a None (Some r) f) f rs)) = derivedFromRevision (fst f)"
    for f rs by (induction rs arbitrary: f) (simp_all add: fold_observation_derived)
  then show ?thesis by (simp add: fold_runs_queue_def fold_observation_derived split: list.split)
qed

lemma fold_transcripts_derived:
  "derivedFromRevision (fst (foldl (fold_transcript sc) f obs)) = derivedFromRevision (fst f)"
proof (induction obs arbitrary: f)
  case (Cons ob obs)
  obtain cs ms em where f: "f = (cs, ms, em)" by (rule prod_cases3)
  obtain cs' ms' new where o: "observeTranscript cs ms sc ob = (cs', ms', new)" by (rule prod_cases3)
  from observeTranscript_same(4) [of cs ms sc ob] f o
  have "derivedFromRevision (fst (fold_transcript sc f ob)) = derivedFromRevision (fst f)"
    by (simp add: fold_transcript_def)
  with Cons show ?case by simp
qed simp

lemma fold_work_derived:
  "derivedFromRevision (fst (fold_work d c w rt)) =
     (if ow_code w \<noteq> [] then ow_revision w else derivedFromRevision (rt_candidate rt))"
proof -
  have "derivedFromRevision (fst (fold_mismatch sc f)) = derivedFromRevision (fst f)" for sc f
    by (simp add: fold_mismatch_def split: prod.split)
  then show ?thesis
    by (simp add: fold_work_def fold_transcripts_derived fold_runs_derived observation_snapshot_def)
qed

lemma advance_candidate [simp]: "rt_candidate (fst (advanceStages d c rt)) = rt_candidate rt"
proof -
  obtain rt' r where "advance_loop STAGE_ADVANCE_LIMIT d c rt = (rt', r)" by fastforce
  with advance_loop_same [OF this] show ?thesis by (simp add: advanceStages_def)
qed

lemma persist_candidate [simp]: "rt_candidate (persistCheckpoint k n rt) = rt_candidate rt"
  by (simp add: persistCheckpoint_def)

lemma append_milestones_candidate [simp]:
  "rt_candidate (append_milestones pass rv emitted rt) = rt_candidate rt"
proof -
  have "rt_candidate (foldl (\<lambda>rt (i, kind). append_event MILESTONE SYSTEM (pl kind) (k i) None rt) rt xs) = rt_candidate rt"
    for pl :: "milestone_kind \<Rightarrow> payload" and k :: "nat \<Rightarrow> string" and xs rt
    by (induction xs arbitrary: rt) auto
  then show ?thesis unfolding append_milestones_def .
qed

lemma observation_candidate: "rt_candidate (fst (observation_fold d c w rt)) = fst (fold_work d c w rt)"
  by (simp add: observation_fold_def Let_def split: prod.split option.split)

text \<open>After a pass the observer has caught up, provided that the editor is not empty.\<close>

lemma observation_pass_derived:
  "derivedFromRevision (rt_candidate (fst (observation_pass d c rt))) =
     (if latestCode rt \<noteq> [] then rt_latestCodeRevision rt else derivedFromRevision (rt_candidate rt))"
  by (simp add: observation_pass_def observation_take_def observation_candidate fold_work_derived)

section \<open>Recovery\<close>

lemma history_error_append:
  "history_error d n (evs @ [e]) = None \<longleftrightarrow> history_error d n evs = None \<and>
     sessionId e = rd_sessionId d \<and> scenarioVersionId e = rd_scenarioVersionId d \<and> seq e = n + length evs"
  by (induction evs arbitrary: n) auto

text \<open>A log that ends with a checkpoint restores the state the checkpoint was taken of.\<close>

lemma restore_from_checkpoint:
  assumes "history_error d 0 (evs @ [cp]) = None" and "etype cp = RUNTIME_CHECKPOINT"
    and "payload cp = checkpoint src" and "persistable src"
  shows "restore d (evs @ [cp]) rt = Inr (forget_live (durable_part d src rt))"
  using assms checkpoint_round_trip [OF assms(4)]
  by (simp add: restore_def last_checkpoint_def after_checkpoint_def is_checkpoint_def)

text \<open>A gap or a foreign event is refused before anything is read.\<close>

lemma restore_refuses: "history_error d 0 evs = Some e \<Longrightarrow> restore d evs rt = Inl e"
  by (simp add: restore_def)

end
