(* ===== verification/StageDriver.thy ===== *)
theory StageDriver
  imports StateMachine
begin

text \<open>
  \<open>orchestrator/stage-driver.ts\<close>: the transitions one persisted candidate event justifies. The local
  closures \<open>move\<close> and \<open>advanceTo\<close> become functions of the mutable pair they share, the list of
  plans and the current state; the \<open>throw\<close> of \<open>move\<close> is the error of the result.
\<close>

datatype stage_signal =
    BRIEF_COMPLETED
  | CANDIDATE_TURN (signal_intent: turn_intent) (signal_transcript: string)
  | CODE_STARTED
  | RUN_STARTED

record stage_driver_input =
  in_state :: interview_state
  signal :: stage_signal
  briefDelivered :: bool
  in_solvedOptimally :: bool
  followUpAvailable :: bool
  in_remainingSeconds :: real

record planned_transition =
  from_state :: interview_state
  to_state :: interview_state
  why :: string

type_synonym plan = "planned_transition list \<times> interview_state"

definition SUBSTANTIVE_REASONING :: "turn_intent list" where
  "SUBSTANTIVE_REASONING = [THINK_ALOUD, APPROACH_COMMITMENT, COMPLEXITY_CLAIM, TEST_PLAN]"

definition ORDER :: "interview_state list" where
  "ORDER = [ORAL_PROBLEM_DELIVERY, CLARIFICATION, APPROACH_EXPLORATION, IMPLEMENTATION, TEST_AND_DEBUG]"

text \<open>\<open>ORDER.indexOf(s)\<close>, \<open>-1\<close> when absent.\<close>

fun index_of :: "'a list \<Rightarrow> 'a \<Rightarrow> int" where
  "index_of [] x = -1"
| "index_of (y # ys) x = (if y = x then 0 else if index_of ys x = -1 then -1 else index_of ys x + 1)"

definition move :: "plan \<Rightarrow> interview_state \<Rightarrow> string \<Rightarrow> plan result" where
  "move pl t r =
     (if \<not> isTransitionAllowed (snd pl) t then Inl (ForbiddenTransition (stage_index (snd pl)) (stage_index t))
      else Inr (fst pl @ [\<lparr>from_state = snd pl, to_state = t, why = r\<rparr>], t))"

text \<open>The loop of \<open>advanceTo\<close>: always the first transition the table lists, until the target.\<close>

function walk :: "plan \<Rightarrow> interview_state \<Rightarrow> string \<Rightarrow> plan result" where
  "walk pl target r =
     (if snd pl = target then Inr pl
      else (case ALLOWED_TRANSITIONS (snd pl) of
              [] \<Rightarrow> Inr pl
            | t # _ \<Rightarrow> (case move pl t r of Inl e \<Rightarrow> Inl e | Inr pl' \<Rightarrow> walk pl' target r)))"
  by pat_completeness auto

termination
proof (relation "measure (\<lambda>(pl, _, _). 7 - stage_index (snd pl))")
  fix pl :: plan and target r t ts pl'
  assume "snd pl \<noteq> target" and "ALLOWED_TRANSITIONS (snd pl) = t # ts" and "move pl t r = Inr pl'"
  then have "snd pl' = t" and "isTransitionAllowed (snd pl) t"
    by (auto simp: move_def split: if_splits)
  then have "stage_index (snd pl) < stage_index (snd pl')"
    using transition_forward by (auto simp: stage_order)
  moreover have "stage_index (snd pl) < 7"
    using \<open>stage_index (snd pl) < stage_index (snd pl')\<close> stage_index_le_7 by (rule less_le_trans)
  ultimately show "((pl', target, r), (pl, target, r)) \<in> measure (\<lambda>(pl, _, _). 7 - stage_index (snd pl))"
    by (simp add: diff_less_mono2)
qed simp

declare walk.simps [simp del]

definition advanceTo :: "plan \<Rightarrow> interview_state \<Rightarrow> string \<Rightarrow> plan result" where
  "advanceTo pl target r =
     (let currentIndex = index_of ORDER (snd pl); targetIndex = index_of ORDER target in
      if currentIndex < 0 \<or> targetIndex < 0 \<or> currentIndex \<ge> targetIndex then Inr pl
      else walk pl target r)"

text \<open>The last part of \<open>planStageTransitions\<close>: what a spoken turn justifies.\<close>

definition plan_turn :: "stage_driver_input \<Rightarrow> turn_intent \<Rightarrow> plan \<Rightarrow> plan result" where
  "plan_turn inp i pl0 =
     then_do (if snd pl0 = ORAL_PROBLEM_DELIVERY \<and> briefDelivered inp
              then move pl0 CLARIFICATION ''candidate responded after the oral brief'' else Inr pl0) (\<lambda>pl1.
     then_do (if snd pl1 = CLARIFICATION \<and> i \<in> set SUBSTANTIVE_REASONING
              then move pl1 APPROACH_EXPLORATION ''candidate began substantive reasoning'' else Inr pl1) (\<lambda>pl2.
     let done = i = DONE_SIGNAL; timeLow = in_remainingSeconds inp \<le> 120 in
     if in_state inp = TEST_AND_DEBUG \<and> (done \<or> timeLow)
     then (if done \<and> in_solvedOptimally inp \<and> followUpAvailable inp \<and> in_remainingSeconds inp \<ge> 300
           then move pl2 FOLLOW_UP ''candidate completed the base problem with time for a follow-up''
           else move pl2 WRAP_UP (if timeLow then ''two minutes remain'' else ''candidate finished the base problem''))
     else if in_state inp = FOLLOW_UP \<and> (done \<or> timeLow)
     then move pl2 WRAP_UP (if timeLow then ''two minutes remain'' else ''candidate completed the follow-up'')
     else Inr pl2))"

definition planStageTransitions :: "stage_driver_input \<Rightarrow> planned_transition list result" where
  "planStageTransitions inp =
     then_do (case signal inp of
         BRIEF_COMPLETED \<Rightarrow>
           if in_state inp = ORAL_PROBLEM_DELIVERY \<and> briefDelivered inp
           then move ([], in_state inp) CLARIFICATION ''oral brief delivery completed''
           else Inr ([], in_state inp)
       | CODE_STARTED \<Rightarrow>
           if briefDelivered inp then advanceTo ([], in_state inp) IMPLEMENTATION ''candidate started coding''
           else Inr ([], in_state inp)
       | RUN_STARTED \<Rightarrow>
           if briefDelivered inp
           then advanceTo ([], in_state inp) TEST_AND_DEBUG ''candidate requested the first run''
           else Inr ([], in_state inp)
       | CANDIDATE_TURN i _ \<Rightarrow> plan_turn inp i ([], in_state inp))
     (\<lambda>pl. Inr (fst pl))"

section \<open>Plans are chains of legal transitions\<close>

text \<open>Each plan starts where the one before it ended, and the table lists it.\<close>

fun legal_chain :: "interview_state \<Rightarrow> planned_transition list \<Rightarrow> bool" where
  "legal_chain s [] \<longleftrightarrow> True"
| "legal_chain s (p # ps) \<longleftrightarrow>
     from_state p = s \<and> isTransitionAllowed s (to_state p) \<and> legal_chain (to_state p) ps"

fun chain_end :: "interview_state \<Rightarrow> planned_transition list \<Rightarrow> interview_state" where
  "chain_end s [] = s"
| "chain_end s (p # ps) = chain_end (to_state p) ps"

lemma chain_end_append [simp]: "chain_end s (ps @ qs) = chain_end (chain_end s ps) qs"
  by (induction ps arbitrary: s) simp_all

lemma legal_chain_append [simp]:
  "legal_chain s (ps @ qs) \<longleftrightarrow> legal_chain s ps \<and> legal_chain (chain_end s ps) qs"
  by (induction ps arbitrary: s) auto

definition plan_from :: "interview_state \<Rightarrow> plan \<Rightarrow> bool" where
  "plan_from s pl \<longleftrightarrow> legal_chain s (fst pl) \<and> chain_end s (fst pl) = snd pl"

lemma plan_from_Nil [simp]: "plan_from s ([], s)"
  by (simp add: plan_from_def)

lemma move_plan:
  "plan_from s pl \<Longrightarrow> move pl t r = Inr pl' \<Longrightarrow> plan_from s pl' \<and> snd pl' = t"
  by (auto simp: move_def plan_from_def split: if_splits)

lemma walk_plan: "walk pl target r = Inr pl' \<Longrightarrow> plan_from s pl \<Longrightarrow> plan_from s pl'"
proof (induction pl target r rule: walk.induct)
  case (1 pl target r)
  from 1(2) show ?case
    by (subst (asm) walk.simps)
       (use 1 move_plan in \<open>auto split: if_splits list.splits sum.splits\<close>)
qed

lemma advanceTo_plan: "advanceTo pl target r = Inr pl' \<Longrightarrow> plan_from s pl \<Longrightarrow> plan_from s pl'"
  by (auto simp: advanceTo_def Let_def walk_plan split: if_splits)

lemma planStageTransitions_chain:
  assumes "planStageTransitions inp = Inr ps"
  shows "legal_chain (in_state inp) ps"
proof -
  have move: "plan_from (in_state inp) pl'" if "move pl t r = Inr pl'" "plan_from (in_state inp) pl"
    for pl t r pl' using move_plan that by blast
  have turn: "plan_from (in_state inp) pl'" if "plan_turn inp i pl = Inr pl'" "plan_from (in_state inp) pl"
    for i pl pl'
    using that unfolding plan_turn_def Let_def
    by (auto split: if_splits dest!: move)
  have "\<exists>pl. ps = fst pl \<and> plan_from (in_state inp) pl"
    using assms unfolding planStageTransitions_def
    by (auto split: stage_signal.splits if_splits dest!: move turn advanceTo_plan intro: plan_from_Nil)
  then show ?thesis by (auto simp: plan_from_def)
qed

section \<open>The driver never throws\<close>

lemma move_total: "isTransitionAllowed (snd pl) t \<Longrightarrow> move pl t r = Inr (fst pl @ [\<lparr>from_state = snd pl, to_state = t, why = r\<rparr>], t)"
  by (simp add: move_def)

lemma first_transition_allowed: "ALLOWED_TRANSITIONS s = t # ts \<Longrightarrow> isTransitionAllowed s t"
  by (simp add: isTransitionAllowed_def)

lemma walk_total: "\<exists>pl'. walk pl target r = Inr pl'"
proof (induction pl target r rule: walk.induct)
  case (1 pl target r)
  show ?case
  proof (cases "snd pl = target \<or> ALLOWED_TRANSITIONS (snd pl) = []")
    case True
    then show ?thesis by (subst walk.simps) auto
  next
    case False
    then obtain t ts where t: "ALLOWED_TRANSITIONS (snd pl) = t # ts" by (cases "ALLOWED_TRANSITIONS (snd pl)") auto
    with move_total [OF first_transition_allowed [OF t], of r] 1 [OF _ t] False
    show ?thesis by (subst walk.simps) auto
  qed
qed

text \<open>The walk stops where it was told to, when the target lies on the path.\<close>

lemma walk_reaches:
  "walk pl target r = Inr pl' \<Longrightarrow> snd pl \<le> target \<Longrightarrow> target \<le> TEST_AND_DEBUG \<Longrightarrow> snd pl' = target"
proof (induction pl target r rule: walk.induct)
  case (1 pl target r)
  show ?case
  proof (cases "snd pl = target")
    case True
    with 1(2) show ?thesis by (subst (asm) walk.simps) simp
  next
    case False
    with 1(3,4) have "snd pl < TEST_AND_DEBUG" by simp
    then obtain t ts where t: "ALLOWED_TRANSITIONS (snd pl) = t # ts" and st: "stage_index t = stage_index (snd pl) + 1"
      by (cases "snd pl") (auto simp: stage_order)
    from move_total [OF first_transition_allowed [OF t], of r] obtain pl1
      where m: "move pl t r = Inr pl1" and pl1: "snd pl1 = t" by auto
    with 1(2) False t have "walk pl1 target r = Inr pl'" by (subst (asm) walk.simps) simp
    moreover have "snd pl1 \<le> target" using False 1(3) st pl1 stage_index_inj [of "snd pl" target]
      by (cases "stage_index (snd pl) = stage_index target") (auto simp: stage_order)
    ultimately show ?thesis using 1(1) [OF False t m] 1(4) by blast
  qed
qed

lemma advanceTo_total: "\<exists>pl'. advanceTo pl target r = Inr pl'"
  using walk_total by (auto simp: advanceTo_def Let_def)

lemma advanceTo_at_least:
  assumes "advanceTo pl target r = Inr pl'" and "target \<in> set ORDER" and "snd pl \<in> set ORDER"
  shows "target \<le> snd pl'"
proof -
  have idx: "index_of ORDER s = int (stage_index s)" if "s \<in> set ORDER" for s
    using that by (auto simp: ORDER_def)
  have "target \<le> TEST_AND_DEBUG" using assms(2) by (auto simp: ORDER_def stage_order)
  show ?thesis
  proof (cases "stage_index (snd pl) \<ge> stage_index target")
    case True
    with assms idx show ?thesis by (auto simp: advanceTo_def stage_order Let_def split: if_splits)
  next
    case False
    with assms idx have "walk pl target r = Inr pl'" by (auto simp: advanceTo_def Let_def)
    with walk_reaches False \<open>target \<le> TEST_AND_DEBUG\<close> show ?thesis by (auto simp: stage_order)
  qed
qed

lemma planStageTransitions_total: "\<exists>ps. planStageTransitions inp = Inr ps"
proof -
  have "\<exists>pl. plan_turn inp i ([], in_state inp) = Inr pl" for i
    by (cases "in_state inp")
       (auto simp: plan_turn_def Let_def move_def isTransitionAllowed_def)
  moreover obtain pc where "advanceTo ([], in_state inp) IMPLEMENTATION ''candidate started coding'' = Inr pc"
    using advanceTo_total by blast
  moreover obtain pr where "advanceTo ([], in_state inp) TEST_AND_DEBUG ''candidate requested the first run'' = Inr pr"
    using advanceTo_total by blast
  ultimately show ?thesis
    unfolding planStageTransitions_def
    by (cases "signal inp") (auto simp: move_def isTransitionAllowed_def then_do_eq_Inr_iff)
qed

lemma code_started_lands:
  assumes "signal inp = CODE_STARTED" and "briefDelivered inp" and "planStageTransitions inp = Inr ps"
  shows "IMPLEMENTATION \<le> chain_end (in_state inp) ps"
proof -
  from assms obtain pl where adv: "advanceTo ([], in_state inp) IMPLEMENTATION ''candidate started coding'' = Inr pl"
    and ps: "ps = fst pl"
    by (auto simp: planStageTransitions_def)
  have "plan_from (in_state inp) pl" by (rule advanceTo_plan [OF adv plan_from_Nil])
  then have fin: "chain_end (in_state inp) ps = snd pl" using ps by (simp add: plan_from_def)
  show ?thesis
  proof (cases "in_state inp \<in> set ORDER")
    case True
    with advanceTo_at_least [OF adv] fin show ?thesis by (auto simp: ORDER_def)
  next
    case False
    then have "index_of ORDER (in_state inp) = -1" by (cases "in_state inp") (auto simp: ORDER_def)
    with adv have "pl = ([], in_state inp)" by (simp add: advanceTo_def)
    with fin False show ?thesis by (cases "in_state inp") (auto simp: ORDER_def stage_order)
  qed
qed

end
