(* ===== verification/Examples.thy ===== *)
theory Examples
  imports RuntimeSafety StageDriver
begin

text \<open>
  A small concrete world the witnesses of the properties are evaluated in: a scenario with one
  fact, one probe, the four hints and one follow-up, the rule classifier, a parser that accepts no
  code, and clocks and events at fixed instants.
\<close>

definition demo_probe :: probe where
  "demo_probe = \<lparr>probe_id = ''p-done'', probe_trigger = ''solvedOptimally'', questionIntent = ''complexity'',
     authoredVariants = [''Why is it linear?'', ''What does it cost?''], maxUses = 2, priority = 3\<rparr>"

definition demo_follow_up :: follow_up where
  "demo_follow_up = \<lparr>followup_id = ''f-stream'', followup_trigger = ''solvedOptimally'',
     oralDelta = ''Now it is a stream.'', rubricDelta = [], expectedAdaptation = []\<rparr>"

definition demo_fact :: fact where
  "demo_fact = \<lparr>fact_key = ''sorted'', fact_value = ''It is not sorted.'', disclosure = AFTER_PROBE,
     askedAs = [''sorted'']\<rparr>"

definition demo_hint :: "nat \<Rightarrow> hint" where
  "demo_hint n = \<lparr>hint_level = n, hint_text = ''hint '' @ show_nat n, scoreImpact = 1/4\<rparr>"

definition demo_family :: solution_family where
  "demo_family = \<lparr>family_id = ''sf-sort'', timeComplexity = ''O(n log n)'', spaceComplexity = ''O(1)'', isOptimal = True\<rparr>"

definition demo_scenario :: scenario_version where
  "demo_scenario = \<lparr>version_id = ''v1'', scenarioId = ''s1'', version = 1, status = ACTIVE, reviewNotes = [],
     expectedMinutes = 40, openingScript = ''Find the pair.'', repeatVariants = [''Once more.''], facts = [demo_fact],
     visibleStarterTests = [], hiddenTests = [], solutionFamilies = [demo_family], probes = [demo_probe],
     hintLadder = map demo_hint [1, 2, 3, 4], followUps = [demo_follow_up]\<rparr>"

lemmas demo_defs = demo_scenario_def demo_probe_def demo_follow_up_def demo_fact_def demo_hint_def demo_family_def

definition demo_classify :: "string \<Rightarrow> bool \<Rightarrow> turn_classification" where
  "demo_classify s final = \<lparr>cl_intent = THINK_ALOUD, intentProbabilities = [], cl_endProbability = 1, classifierId = ''demo''\<rparr>"

definition demo_deps :: runtime_deps where
  "demo_deps = \<lparr>rd_sessionId = ''s'', rd_scenario = demo_scenario, rd_policy = policyFor MOCK,
     rd_scenarioVersionId = ''v1'', prosodyEnabled = True, rd_classify = demo_classify, rd_parse = \<lambda>_. None\<rparr>"

definition demo_clock :: "real \<Rightarrow> clock" where
  "demo_clock ms = \<lparr>now_ms = ms, mono_ms = ms, timer_seconds = 2400 - ms / 1000\<rparr>"

definition demo_turn :: "turn_intent \<Rightarrow> string \<Rightarrow> turn" where
  "demo_turn i words = \<lparr>turnId = ''t1'', finalized = True, transcript = words, semanticEndProbability = 1,
     textEndProbability = None, silenceMsBeforeEnd = None, turn_prosody = None, intent = i, endedAt = Some 20000\<rparr>"

definition demo_candidate :: candidate_state where
  "demo_candidate = (emptyCandidateState (Some 0))\<lparr>derivedFromRevision := 3, codeObservedAt := Some (Some 15000),
     implementationProgress := 1/2\<rparr>"

definition demo_context :: "interview_state \<Rightarrow> turn option \<Rightarrow> interview_context" where
  "demo_context s t = \<lparr>state = s, policy = policyFor MOCK, candidateState = demo_candidate, turn = t,
     interviewerCurrentlySpeaking = False, candidateSpeechStarted = False, candidateSpeakingNow = False,
     secondsSinceInterviewerLastSpoke = 100, secondsSinceCodeActivity = 10, remainingSeconds = 1200,
     latestCodeRevision = 3\<rparr>"

definition demo_gate :: "bool \<Rightarrow> gate_dependencies" where
  "demo_gate solved = \<lparr>gd_scenario = demo_scenario, gd_probeUseCounts = [], gd_followUpsUsed = [], gd_solvedOptimally = solved,
     briefDeliveryCount = 1, openingRedeliveryPending = False\<rparr>"

definition demo_event :: "event_type \<Rightarrow> nat \<Rightarrow> payload \<Rightarrow> session_event" where
  "demo_event ty n p = \<lparr>sessionId = ''s'', seq = n, occurredAt = Some 1000, etype = ty, actor = CANDIDATE,
     scenarioVersionId = ''v1'', payload = p, evidenceHash = [], traceId = []\<rparr>"

lemmas demo_simps = demo_deps_def demo_clock_def demo_turn_def demo_candidate_def demo_context_def demo_gate_def
  demo_event_def

lemma demo_ids_unique: "ids_unique demo_scenario"
  by (simp add: ids_unique_def demo_defs)

end
