(* ===== verification/Resume.thy ===== *)
theory Resume
  imports RuntimeFrames EventLog
begin

text \<open>
  \<open>session/resume.ts\<close>: what a refreshed browser is given, rebuilt from the log alone, and its
  agreement with the runtime: with one restored from the same history, and with the live one that
  ingested it.
\<close>

record resume_state =
  rs_sessionId :: string
  rs_state :: string
  rs_code :: string
  rs_codeRevision :: real
  rs_notes :: string
  rs_lastSeq :: nat
  rs_nextClientSeq :: int
  rs_runsCompleted :: nat
  rs_milestones :: "string list"
  rs_ended :: bool

text \<open>\<open>applyEvent\<close> of the module. The stage is the string of the payload, which the code only casts.\<close>

definition resume_event :: "session_event \<Rightarrow> resume_state \<Rightarrow> resume_state" where
  "resume_event ev r = (let p = payload ev in case etype ev of
     CODE_DELTA \<Rightarrow>
       (case (numberOf (field p ''revision''), stringOf (field p ''text'')) of
          (Some rv, Some txt) \<Rightarrow>
            if rv \<ge> rs_codeRevision r then r\<lparr>rs_code := txt, rs_codeRevision := rv\<rparr> else r
        | _ \<Rightarrow> r)
   | NOTE_DELTA \<Rightarrow> (case stringOf (field p ''text'') of Some txt \<Rightarrow> r\<lparr>rs_notes := txt\<rparr> | None \<Rightarrow> r)
   | STATE_TRANSITIONED \<Rightarrow>
       (case stringOf (field p ''to'') of
          Some t \<Rightarrow> if t \<noteq> [] then r\<lparr>rs_state := t\<rparr> else r
        | None \<Rightarrow> r)
   | RUN_COMPLETED \<Rightarrow> r\<lparr>rs_runsCompleted := rs_runsCompleted r + 1\<rparr>
   | MILESTONE \<Rightarrow>
       (case stringOf (field p ''kind'') of
          Some k \<Rightarrow> if k \<noteq> [] \<and> k \<notin> set (rs_milestones r) then r\<lparr>rs_milestones := rs_milestones r @ [k]\<rparr> else r
        | None \<Rightarrow> r)
   | SESSION_ENDED \<Rightarrow> r\<lparr>rs_ended := True, rs_state := ''EVALUATION''\<rparr>
   | _ \<Rightarrow> r)"

definition resume_start :: "string \<Rightarrow> interview_state \<Rightarrow> nat \<Rightarrow> int \<Rightarrow> resume_state" where
  "resume_start sid fallback last_no next_client = \<lparr>rs_sessionId = sid, rs_state = state_name fallback, rs_code = [],
     rs_codeRevision = 0, rs_notes = [], rs_lastSeq = last_no, rs_nextClientSeq = next_client,
     rs_runsCompleted = 0, rs_milestones = [], rs_ended = False\<rparr>"

definition reconstruct :: "event_log \<Rightarrow> string \<Rightarrow> interview_state \<Rightarrow> resume_state option" where
  "reconstruct l sid fallback =
     (let evs = read_log l sid 0
      in if evs = [] then None
         else Some (fold resume_event evs
                (resume_start sid fallback (seq (last evs)) (latestClientSeq l sid + 1))))"

section \<open>What the fold leaves alone\<close>

lemma resume_event_frame [simp]:
  "rs_sessionId (resume_event ev r) = rs_sessionId r" "rs_lastSeq (resume_event ev r) = rs_lastSeq r"
  "rs_nextClientSeq (resume_event ev r) = rs_nextClientSeq r"
  by (auto simp: resume_event_def Let_def split: event_type.split option.split)

lemma resume_fold_frame [simp]:
  "rs_sessionId (fold resume_event evs r) = rs_sessionId r" "rs_lastSeq (fold resume_event evs r) = rs_lastSeq r"
  "rs_nextClientSeq (fold resume_event evs r) = rs_nextClientSeq r"
  by (induction evs arbitrary: r) simp_all

lemma resume_milestones_distinct:
  "distinct (rs_milestones r) \<Longrightarrow> distinct (rs_milestones (fold resume_event evs r))"
proof (induction evs arbitrary: r)
  case (Cons ev evs)
  have "distinct (rs_milestones (resume_event ev r))"
    using Cons.prems by (auto simp: resume_event_def Let_def split: event_type.split option.split)
  then show ?case using Cons.IH by simp
qed simp

lemma resume_revision_mono: "rs_codeRevision r \<le> rs_codeRevision (fold resume_event evs r)"
proof (induction evs arbitrary: r)
  case (Cons ev evs)
  have "rs_codeRevision r \<le> rs_codeRevision (resume_event ev r)"
    by (auto simp: resume_event_def Let_def split: event_type.split option.split)
  with Cons [of "resume_event ev r"] show ?case by simp
qed simp

section \<open>Agreement with a restored runtime\<close>

text \<open>The screen of the candidate: code, its revision, and the stage.\<close>

definition coded :: "runtime \<Rightarrow> string \<times> real" where
  "coded rt = (latestCode rt, rt_latestCodeRevision rt)"

definition resume_coded :: "resume_state \<Rightarrow> string \<times> real" where
  "resume_coded r = (rs_code r, rs_codeRevision r)"

text \<open>The effect of one event on the code, which both sides share.\<close>

definition code_step :: "session_event \<Rightarrow> string \<times> real \<Rightarrow> string \<times> real" where
  "code_step ev c =
     (if etype ev \<noteq> CODE_DELTA then c
      else case (numberOf (field (payload ev) ''revision''), stringOf (field (payload ev) ''text'')) of
             (Some rv, Some txt) \<Rightarrow> if rv \<ge> snd c then (txt, rv) else c
           | _ \<Rightarrow> c)"

lemma resume_event_coded: "resume_coded (resume_event ev r) = code_step ev (resume_coded r)"
  by (auto simp: resume_event_def Let_def resume_coded_def code_step_def split: event_type.split option.split)

lemma resume_fold_coded: "resume_coded (fold resume_event evs r) = fold code_step evs (resume_coded r)"
  by (induction evs arbitrary: r) (simp_all add: resume_event_coded)

named_theorems coded_simps \<open>steps that leave the code alone\<close>

lemma coded_updates [coded_simps]:
  "coded (authorized_update f1 rt) = coded rt" "coded (lastSpokeAtMs_update f2 rt) = coded rt"
  "coded (rt_candidateSpeechStarted_update f3 rt) = coded rt" "coded (speakingNowHeld_update f4 rt) = coded rt"
  "coded (rt_interviewerCurrentlySpeaking_update f5 rt) = coded rt" "coded (openTurn_update f6 rt) = coded rt"
  "coded (silenceBasis_update f7 rt) = coded rt" "coded (pendingTranscripts_update f8 rt) = coded rt"
  "coded (pendingRuns_update f9 rt) = coded rt" "coded (rt_state_update f10 rt) = coded rt"
  "coded (runsStarted_update f11 rt) = coded rt" "coded (reasoningTurnsInStage_update f12 rt) = coded rt"
  "coded (approachCommitted_update f13 rt) = coded rt" "coded (rt_candidate_update f14 rt) = coded rt"
  "coded (rt_milestones_update f15 rt) = coded rt" "coded (lastCodeActivityMs_update f16 rt) = coded rt"
  "coded (rt_candidateSpeakingNow_update f17 rt) = coded rt" "coded (lastSpeechStoppedAtMs_update f18 rt) = coded rt"
  "coded (lastProsody_update f19 rt) = coded rt" "coded (observationDirty_update f20 rt) = coded rt"
  "coded (heldTurn_update f21 rt) = coded rt" "coded (reevaluationTimer_update f22 rt) = coded rt"
  "coded (previousObservedCode_update f23 rt) = coded rt" "coded (answeredFactKeys_update f24 rt) = coded rt"
  "coded (rt_briefDeliveryCount_update f25 rt) = coded rt" "coded (outbox_update f26 rt) = coded rt"
  "coded (observationCount_update f27 rt) = coded rt" "coded (rt_probeUseCounts_update f28 rt) = coded rt"
  "coded (rt_followUpsUsed_update f29 rt) = coded rt" "coded (openingRedeliveries_update f30 rt) = coded rt"
  "coded (rt_openingRedeliveryPending_update f31 rt) = coded rt" "coded (issuedUtteranceIds_update f32 rt) = coded rt"
  by (simp_all add: coded_def)

lemma restoreEvent_coded:
  assumes "restoreEvent d ev rt = Inr rt'"
  shows "coded rt' = code_step ev (coded rt)"
proof (cases "etype ev")
  case CODE_DELTA
  then show ?thesis using assms
    by (auto simp: restoreEvent_def Let_def code_step_def coded_def split: option.splits if_splits)
qed (use assms in \<open>auto simp: restoreEvent_def Let_def code_step_def restore_decided_def restore_candidate_def
      coded_simps split: option.splits if_splits\<close>)

lemma restore_all_coded: "restore_all d evs rt = Inr rt' \<Longrightarrow> coded rt' = fold code_step evs (coded rt)"
  by (induction evs arbitrary: rt) (auto simp: restoreEvent_coded)

section \<open>Agreement with the live runtime\<close>

definition has_code :: "string \<times> real \<Rightarrow> runtime \<Rightarrow> bool" where
  "has_code x rt \<longleftrightarrow> coded rt = x"

lemma code_updates [coded_simps]:
  "has_code x (authorized_update f1 rt) = has_code x rt" "has_code x (lastSpokeAtMs_update f2 rt) = has_code x rt"
  "has_code x (rt_candidateSpeechStarted_update f3 rt) = has_code x rt"
  "has_code x (speakingNowHeld_update f4 rt) = has_code x rt"
  "has_code x (rt_interviewerCurrentlySpeaking_update f5 rt) = has_code x rt"
  "has_code x (openTurn_update f6 rt) = has_code x rt"
  "has_code x (silenceBasis_update f7 rt) = has_code x rt" "has_code x (pendingTranscripts_update f8 rt) = has_code x rt"
  "has_code x (pendingRuns_update f9 rt) = has_code x rt" "has_code x (rt_candidate_update f10 rt) = has_code x rt"
  "has_code x (runsStarted_update f11 rt) = has_code x rt"
  "has_code x (reasoningTurnsInStage_update f12 rt) = has_code x rt"
  "has_code x (approachCommitted_update f13 rt) = has_code x rt"
  "has_code x (rt_probeUseCounts_update f14 rt) = has_code x rt"
  "has_code x (rt_state_update f15 rt) = has_code x rt" "has_code x (rt_milestones_update f16 rt) = has_code x rt"
  "has_code x (rt_candidateSpeakingNow_update f17 rt) = has_code x rt"
  "has_code x (lastSpeechStoppedAtMs_update f18 rt) = has_code x rt"
  "has_code x (lastProsody_update f19 rt) = has_code x rt" "has_code x (observationDirty_update f20 rt) = has_code x rt"
  "has_code x (heldTurn_update f21 rt) = has_code x rt" "has_code x (reevaluationTimer_update f22 rt) = has_code x rt"
  "has_code x (previousObservedCode_update f23 rt) = has_code x rt"
  "has_code x (answeredFactKeys_update f24 rt) = has_code x rt"
  "has_code x (rt_followUpsUsed_update f25 rt) = has_code x rt" "has_code x (observationCount_update f26 rt) = has_code x rt"
  "has_code x (issuedUtteranceIds_update f27 rt) = has_code x rt"
  "has_code x (rt_openingRedeliveryPending_update f28 rt) = has_code x rt"
  "has_code x (openingRedeliveries_update f29 rt) = has_code x rt"
  "has_code x (rt_briefDeliveryCount_update f30 rt) = has_code x rt" "has_code x (outbox_update f31 rt) = has_code x rt"
  by (simp_all add: has_code_def coded_simps)

lemma code_append: "has_code x rt \<Longrightarrow> has_code x (append_event ty ac pl key dt rt)"
  by (simp add: append_event_def coded_simps)

lemma code_persist: "has_code x rt \<Longrightarrow> has_code x (persistCheckpoint k m rt)"
  by (simp add: persistCheckpoint_def coded_simps)

lemma advance_loop_code: "has_code x rt \<Longrightarrow> has_code x (fst (advance_loop n d c rt))"
  by (induction n arbitrary: rt) (auto simp: coded_simps code_append split: option.split prod.split sum.split)

interpretation coding: handlers_keep d "has_code x" for d x
  by unfold_locales
    (simp_all add: coded_simps code_append code_persist advanceStages_def advance_loop_code)

lemma code_delta: "has_code (code_step ev (coded rt)) (apply_code_delta c ev rt)" if "etype ev = CODE_DELTA"
  using that
  by (auto simp: apply_code_delta_def code_step_def has_code_def coded_def scheduleObservation_def split: option.split)

lemma code_ingest: "coded (fst (ingest d c c1 c2 ev rt)) = code_step ev (coded rt)"
proof (cases "etype ev = CODE_DELTA")
  case True
  have first: "has_code (code_step ev (coded rt)) (fst (applyCommitted d c c1 c2 ev rt))"
    using code_delta [OF True] by (simp add: applyCommitted_def True)
  have "has_code (code_step ev (coded rt)) (fst (ingest d c c1 c2 ev rt))"
    unfolding ingest_def
    by (intro coding.and_then_keeps first) (auto intro: coding.advance simp: code_persist)
  then show ?thesis by (simp add: has_code_def)
next
  case False
  then show ?thesis using coding.ingest_keeps [of "coded rt" rt ev] by (simp add: has_code_def code_step_def)
qed

lemma code_fold: "has_code x rt \<Longrightarrow> has_code x (fst (observation_fold d c w rt))"
  by (rule coding.fold_keeps) (simp_all add: coded_simps)

text \<open>A live run, with the events it ingested in their order; timers and observations come in between.\<close>

inductive live_run :: "runtime_deps \<Rightarrow> runtime \<Rightarrow> session_event list \<Rightarrow> runtime \<Rightarrow> bool" for d rt0 where
  start: "live_run d rt0 [] rt0"
| ingest: "live_run d rt0 evs rt \<Longrightarrow> live_run d rt0 (evs @ [ev]) (fst (ingest d c c1 c2 ev rt))"
| silence: "live_run d rt0 evs rt \<Longrightarrow> live_run d rt0 evs (fst (onSilenceElapsed d c c' rt))"
| finished: "live_run d rt0 evs rt \<Longrightarrow> live_run d rt0 evs (fst (markSpeechFinished d c so rt))"
| ready: "live_run d rt0 evs rt \<Longrightarrow> live_run d rt0 evs (fst (reconcileSpeechOnReady d c u rt))"
| take: "live_run d rt0 evs rt \<Longrightarrow> live_run d rt0 evs (fst (observation_take rt))"
| fold: "live_run d rt0 evs rt \<Longrightarrow> live_run d rt0 evs (fst (observation_fold d c w rt))"
| voice: "live_run d rt0 evs rt \<Longrightarrow> live_run d rt0 evs (fst (voiceContext d c rt))"

lemma code_others:
  "coded (fst (onSilenceElapsed d c c' rt)) = coded rt" "coded (fst (markSpeechFinished d c so rt)) = coded rt"
  "coded (fst (reconcileSpeechOnReady d c u rt)) = coded rt" "coded (fst (observation_take rt)) = coded rt"
  "coded (fst (observation_fold d c w rt)) = coded rt" "coded (fst (voiceContext d c rt)) = coded rt"
  using coding.silence_keeps [of "coded rt" rt] coding.finished_keeps [of "coded rt" rt]
    coding.ready_keeps [of "coded rt" rt] coding.take_keeps [of "coded rt" rt] coding.voice_keeps [of "coded rt" d c rt]
    code_fold [of "coded rt" rt]
  by (simp_all add: has_code_def)

lemma live_run_coded: "live_run d rt0 evs rt \<Longrightarrow> coded rt = fold code_step evs (coded rt0)"
  by (induction rule: live_run.induct) (simp_all add: code_ingest code_others)

lemma fold_code_deltas: "fold code_step (filter (\<lambda>ev. etype ev = CODE_DELTA) evs) c = fold code_step evs c"
  by (induction evs arbitrary: c) (simp_all add: code_step_def)

lemma new_runtime_coded: "coded (new_runtime c) = ([], 0)"
  by (simp add: coded_def new_runtime_def)

lemma resume_is_live:
  assumes "reconstruct l sid fallback = Some r" and "live_run d (new_runtime c) evs rt"
    and "filter (\<lambda>ev. etype ev = CODE_DELTA) (session_events l sid) = filter (\<lambda>ev. etype ev = CODE_DELTA) evs"
  shows "rs_code r = latestCode rt" and "rs_codeRevision r = rt_latestCodeRevision rt"
proof -
  have start: "resume_coded (resume_start sid fallback i n) = ([], 0)" for i n
    by (simp add: resume_coded_def resume_start_def)
  have all: "read_log l sid 0 = session_events l sid" by (simp add: read_log_def)
  have "resume_coded r = fold code_step (session_events l sid) ([], 0)"
    using assms(1) by (auto simp: reconstruct_def all Let_def resume_fold_coded start split: if_splits)
  also have "\<dots> = fold code_step evs ([], 0)" by (metis assms(3) fold_code_deltas)
  also have "\<dots> = coded rt" using live_run_coded [OF assms(2)] by (simp add: new_runtime_coded)
  finally show "rs_code r = latestCode rt" "rs_codeRevision r = rt_latestCodeRevision rt"
    by (simp_all add: resume_coded_def coded_def)
qed

end
