(* ===== verification/Lease.thy ===== *)
theory Lease
  imports Prelude
begin

text \<open>
  \<open>session/lease.ts\<close>: the connection lease of a session. A drop shorter than the grace window costs
  the candidate its seconds; a longer one is credited back when the client returns, the grace window
  deducted. Times are milliseconds since the epoch.
\<close>

record lease =
  le_connected :: bool
  le_disconnectedAt :: "real option"
  le_pausedSeconds :: int
  le_dropCount :: nat

definition GRACE_SECONDS :: int where
  "GRACE_SECONDS = 10"

definition ABANDON_SECONDS :: int where
  "ABANDON_SECONDS = 15 * 60"

definition newLease :: lease where
  "newLease = \<lparr>le_connected = True, le_disconnectedAt = None, le_pausedSeconds = 0, le_dropCount = 0\<rparr>"

definition onDisconnect :: "lease \<Rightarrow> real \<Rightarrow> lease" where
  "onDisconnect l now =
     (if \<not> le_connected l then l
      else l\<lparr>le_connected := False, le_disconnectedAt := Some now, le_dropCount := le_dropCount l + 1\<rparr>)"

definition credit_for :: "real \<Rightarrow> real \<Rightarrow> int" where
  "credit_for since now =
     (let down = max 0 (math_round ((now - since) / 1000))
      in if down > GRACE_SECONDS then down - GRACE_SECONDS else 0)"

definition onReconnect :: "lease \<Rightarrow> real \<Rightarrow> lease \<times> int" where
  "onReconnect l now =
     (case (le_connected l, le_disconnectedAt l) of
        (False, Some since) \<Rightarrow>
          (let credited = credit_for since now
           in (l\<lparr>le_connected := True, le_disconnectedAt := None,
                 le_pausedSeconds := le_pausedSeconds l + credited\<rparr>, credited))
      | _ \<Rightarrow> (l, 0))"

definition isTimerRunning :: "lease \<Rightarrow> real \<Rightarrow> bool" where
  "isTimerRunning l now =
     (case (le_connected l, le_disconnectedAt l) of
        (False, Some since) \<Rightarrow> (now - since) / 1000 \<le> of_int GRACE_SECONDS
      | _ \<Rightarrow> True)"

definition pendingCredit :: "lease \<Rightarrow> real \<Rightarrow> int" where
  "pendingCredit l now =
     (case (le_connected l, le_disconnectedAt l) of
        (False, Some since) \<Rightarrow> credit_for since now
      | _ \<Rightarrow> 0)"

definition isAbandoned :: "lease \<Rightarrow> real \<Rightarrow> bool" where
  "isAbandoned l now =
     (case (le_connected l, le_disconnectedAt l) of
        (False, Some since) \<Rightarrow> (now - since) / 1000 \<ge> of_int ABANDON_SECONDS
      | _ \<Rightarrow> False)"

lemmas lease_defs = onReconnect_def isTimerRunning_def pendingCredit_def isAbandoned_def

text \<open>What the routes keep: a time of disconnection exactly while disconnected.\<close>

definition lease_wf :: "lease \<Rightarrow> bool" where
  "lease_wf l \<longleftrightarrow> (le_connected l \<longleftrightarrow> le_disconnectedAt l = None) \<and> 0 \<le> le_pausedSeconds l"

lemma credit_as_max: "credit_for since now = max 0 (math_round ((now - since) / 1000) - 10)"
  by (auto simp: credit_for_def Let_def GRACE_SECONDS_def max_def)

lemma credit_nonneg [simp]: "0 \<le> credit_for since now"
  by (simp add: credit_as_max)

lemma credit_below_downtime: "of_int (credit_for since now) \<le> max 0 ((now - since) / 1000 - 9.5)"
proof -
  let ?x = "(now - since) / 1000"
  have "of_int (math_round ?x - 10) \<le> ?x - 9.5" using math_round_bounds(2) [of ?x] by simp
  then show ?thesis unfolding credit_as_max of_int_max of_int_0 by (rule max.mono [OF order_refl])
qed

lemma credit_mono: "now \<le> now' \<Longrightarrow> credit_for since now \<le> credit_for since now'"
  using math_round_mono [of "(now - since) / 1000" "(now' - since) / 1000"]
  by (simp add: credit_as_max divide_right_mono max_def)

lemma credit_of_a_blip: "now - since \<le> 10000 \<Longrightarrow> credit_for since now = 0"
  using math_round_mono [of "(now - since) / 1000" "of_int 10"] unfolding math_round_of_int
  by (simp add: credit_as_max)

lemma lease_wf_kept:
  assumes "lease_wf l"
  shows "lease_wf (onDisconnect l now)" and "lease_wf (fst (onReconnect l now))"
  using assms by (auto simp: lease_wf_def onDisconnect_def onReconnect_def Let_def split: option.splits bool.splits)

text \<open>The credit shown while the client is away is the one granted when it returns at that moment.\<close>

lemma pendingCredit_is_granted: "pendingCredit l now = snd (onReconnect l now)"
  by (simp add: lease_defs Let_def split: option.splits bool.splits)

lemma reconnect_accounts:
  "le_pausedSeconds (fst (onReconnect l now)) = le_pausedSeconds l + snd (onReconnect l now)"
  by (simp add: onReconnect_def Let_def split: option.splits bool.splits)

text \<open>A second close event inside one drop keeps the first one's time.\<close>

lemma disconnect_idempotent: "onDisconnect (onDisconnect l t) t' = onDisconnect l t"
  by (simp add: onDisconnect_def)

lemma credit_only_when_stopped: "pendingCredit l now > 0 \<Longrightarrow> \<not> isTimerRunning l now"
  using credit_of_a_blip [of now] by (fastforce simp: lease_defs GRACE_SECONDS_def split: option.splits bool.splits)

end
