(* ===== verification/RunQueue.thy ===== *)
theory RunQueue
  imports Prelude Step_Closure "HOL-Library.Sublist"
begin

text \<open>
  \<open>runner/queue.ts\<close>: the bounded queue in front of the code runner. \<open>drain\<close> awaits nothing, so each
  call of it runs to its end; a run is taken when it starts and leaves when its promise settles. The
  runs started so far are recorded in the order of their start.
\<close>

record 'a run_queue =
  q_pending :: "'a list"
  q_active :: nat
  q_concurrency :: nat
  q_maxDepth :: nat
  q_started :: "'a list"

definition new_queue :: "nat option \<Rightarrow> nat option \<Rightarrow> 'a run_queue" where
  "new_queue concurrency maxDepth = \<lparr>q_pending = [], q_active = 0,
     q_concurrency = (case concurrency of None \<Rightarrow> 4 | Some n \<Rightarrow> n),
     q_maxDepth = (case maxDepth of None \<Rightarrow> 64 | Some n \<Rightarrow> n), q_started = []\<rparr>"

function drain :: "'a run_queue \<Rightarrow> 'a run_queue" where
  "drain q =
     (case q_pending q of
        [] \<Rightarrow> q
      | x # rest \<Rightarrow>
          if q_active q < q_concurrency q
          then drain (q\<lparr>q_pending := rest, q_active := q_active q + 1, q_started := q_started q @ [x]\<rparr>)
          else q)"
  by pat_completeness auto
termination by (relation "measure (\<lambda>q. length (q_pending q))") auto

declare drain.simps [simp del]

definition enqueue :: "'a \<Rightarrow> 'a run_queue \<Rightarrow> 'a run_queue \<times> bool" where
  "enqueue x q =
     (if length (q_pending q) \<ge> q_maxDepth q then (q, False)
      else (drain (q\<lparr>q_pending := q_pending q @ [x]\<rparr>), True))"

text \<open>The \<open>finally\<close> of a run.\<close>

definition settled :: "'a run_queue \<Rightarrow> 'a run_queue" where
  "settled q = drain (q\<lparr>q_active := q_active q - 1\<rparr>)"

inductive queue_step :: "'a run_queue \<Rightarrow> 'a run_queue \<Rightarrow> bool" where
  enqueue: "queue_step q (fst (enqueue x q))"
| settled: "0 < q_active q \<Longrightarrow> queue_step q (settled q)"

section \<open>One call of \<open>drain\<close>\<close>

text \<open>What it takes: the first pending runs, as many as there are free places.\<close>

lemma drain_takes:
  "drain q = (let n = min (length (q_pending q)) (q_concurrency q - q_active q)
     in q\<lparr>q_pending := drop n (q_pending q), q_active := q_active q + n,
          q_started := q_started q @ take n (q_pending q)\<rparr>)"
proof (induction q rule: drain.induct)
  case (1 q)
  show ?case
  proof (cases "q_pending q")
    case Nil
    then show ?thesis by (simp add: drain.simps [of q])
  next
    case (Cons x rest)
    show ?thesis
    proof (cases "q_active q < q_concurrency q")
      case True
      obtain k where k: "q_concurrency q - q_active q = Suc k" using True by (metis Suc_diff_Suc)
      then have "q_concurrency q - Suc (q_active q) = k" by simp
      then show ?thesis using 1 [OF Cons True] Cons True k by (simp add: drain.simps [of q] Let_def)
    next
      case False
      then show ?thesis using Cons by (simp add: drain.simps [of q])
    qed
  qed
qed

section \<open>The invariant\<close>

text \<open>Never more than the allowed runs at once, and nothing waits while a place is free.\<close>

definition queue_inv :: "'a run_queue \<Rightarrow> bool" where
  "queue_inv q \<longleftrightarrow> q_active q \<le> q_concurrency q \<and> length (q_pending q) \<le> q_maxDepth q \<and>
     (q_pending q \<noteq> [] \<longrightarrow> q_active q = q_concurrency q)"

lemma queue_inv_new: "queue_inv (new_queue c d)"
  by (simp add: queue_inv_def new_queue_def)

lemma drain_inv:
  assumes "q_active q \<le> q_concurrency q" and "length (q_pending q) \<le> q_maxDepth q"
  shows "queue_inv (drain q)"
  using assms by (auto simp: drain_takes Let_def queue_inv_def min_def split: if_splits)

lemma queue_invD: "queue_inv q \<Longrightarrow> q_active q \<le> q_concurrency q \<and> length (q_pending q) \<le> q_maxDepth q"
  by (simp add: queue_inv_def)

lemma enqueue_inv: "queue_inv q \<Longrightarrow> queue_inv (fst (enqueue x q))"
  by (auto simp: enqueue_def intro!: drain_inv dest: queue_invD)

lemma settled_inv: "queue_inv q \<Longrightarrow> queue_inv (settled q)"
  by (auto simp: settled_def intro!: drain_inv dest: queue_invD)

interpretation queue_kept: kept_by_steps queue_step queue_inv
  by unfold_locales (auto elim!: queue_step.cases intro: enqueue_inv settled_inv)

text \<open>First in, first out: the accepted runs are the started ones followed by the pending ones.\<close>

definition accepted :: "'a run_queue \<Rightarrow> 'a list" where
  "accepted q = q_started q @ q_pending q"

lemma accepted_update [simp]:
  "accepted (q\<lparr>q_active := n\<rparr>) = accepted q"
  "accepted (q\<lparr>q_pending := q_pending q @ [x]\<rparr>) = accepted q @ [x]"
  by (simp_all add: accepted_def)

lemma drain_accepted [simp]: "accepted (drain q) = accepted q"
  by (simp add: drain_takes Let_def accepted_def)

lemma drain_started: "prefix (q_started q) (q_started (drain q))"
  by (simp add: drain_takes Let_def)

lemma enqueue_accepted:
  "accepted (fst (enqueue x q)) = (if snd (enqueue x q) then accepted q @ [x] else accepted q)"
  by (simp add: enqueue_def)

lemma settled_accepted [simp]: "accepted (settled q) = accepted q"
  by (simp add: settled_def)

definition queue_le :: "'a run_queue \<Rightarrow> 'a run_queue \<Rightarrow> bool" where
  "queue_le q q' \<longleftrightarrow> prefix (accepted q) (accepted q') \<and> prefix (q_started q) (q_started q')"

interpretation queue_grows: grown_by_steps queue_step queue_le
proof unfold_locales
  fix q q' q'' :: "'a run_queue"
  show "queue_le q q" by (simp add: queue_le_def)
  show "queue_le q q' \<Longrightarrow> queue_le q' q'' \<Longrightarrow> queue_le q q''"
    unfolding queue_le_def by (blast intro: prefix_order.trans)
  assume "queue_step q q'"
  then show "queue_le q q'"
    using drain_started [of "q\<lparr>q_pending := _\<rparr>"] drain_started [of "q\<lparr>q_active := _\<rparr>"]
    by cases (auto simp: queue_le_def enqueue_def settled_def)
qed

section \<open>Every accepted run is started\<close>

text \<open>As many settlements as runs are accepted but not started give every one of them its turn.\<close>

lemma settled_progress:
  assumes "queue_inv q" and "q_pending q \<noteq> []" and "0 < q_concurrency q"
  shows "length (q_pending (settled q)) = length (q_pending q) - 1" and "0 < q_active (settled q)"
proof -
  have "q_active q = q_concurrency q" using assms by (simp add: queue_inv_def)
  then show "length (q_pending (settled q)) = length (q_pending q) - 1" "0 < q_active (settled q)"
    using assms(2,3) by (cases "q_pending q"; simp add: settled_def drain_takes Let_def)+
qed

lemma settled_concurrency [simp]: "q_concurrency (settled q) = q_concurrency q"
  by (simp add: settled_def drain_takes Let_def)

lemma settle_all:
  assumes "queue_inv q" and "0 < q_concurrency q"
  shows "q_started ((settled ^^ length (q_pending q)) q) = accepted q"
  using assms
proof (induction "length (q_pending q)" arbitrary: q)
  case 0
  then show ?case by (simp add: accepted_def)
next
  case (Suc n)
  have p: "q_pending q \<noteq> []" using Suc.hyps(2) by auto
  note s = settled_progress [OF Suc.prems(1) p Suc.prems(2)]
  have "n = length (q_pending (settled q))" using s(1) Suc.hyps(2) by simp
  from Suc.hyps(1) [OF this settled_inv [OF Suc.prems(1)]] Suc.prems(2) this
  have "q_started ((settled ^^ n) (settled q)) = accepted q" by simp
  then have "q_started ((settled ^^ Suc n) q) = accepted q" unfolding funpow_Suc_right by simp
  then show ?case using Suc.hyps(2) by simp
qed

end
