(* ===== verification/Ownership.thy ===== *)
theory Ownership
  imports Keyed_Maps Step_Closure
begin

text \<open>
  \<open>session/runtime-ownership.ts\<close>: which process runs the interviewer of a session. The table of
  owners is changed by three SQL statements, each in a transaction that holds the row of the session;
  the processes hold the tokens they were given. Tokens are random ids: a claim draws one that was
  never used. Each call of the handles is one step (one acquisition per id, as \<open>pending\<close> enforces).
\<close>

section \<open>The table of owners\<close>

record owner_row =
  or_token :: nat
  or_expiresAt :: real

text \<open>\<open>open_sessions\<close>: the ids of sessions neither deleted nor ended.\<close>

record owner_table =
  ot_rows :: "(string \<times> owner_row) list"
  ot_ttlMs :: real
  open_sessions :: "string list"

definition pg_claim :: "string \<Rightarrow> nat \<Rightarrow> real \<Rightarrow> owner_table \<Rightarrow> owner_table \<times> bool" where
  "pg_claim sid token now t =
     (if sid \<notin> set (open_sessions t) then (t, False)
      else (let put = t\<lparr>ot_rows := set_key (ot_rows t) sid \<lparr>or_token = token, or_expiresAt = now + ot_ttlMs t\<rparr>\<rparr>
            in case get_key (ot_rows t) sid of
                 None \<Rightarrow> (put, True)
               | Some row \<Rightarrow> if or_expiresAt row \<le> now then (put, True) else (t, False)))"

definition holds :: "owner_table \<Rightarrow> string \<Rightarrow> nat \<Rightarrow> real \<Rightarrow> bool" where
  "holds t sid token now \<longleftrightarrow>
     (case get_key (ot_rows t) sid of
        None \<Rightarrow> False | Some row \<Rightarrow> or_token row = token \<and> or_expiresAt row > now)"

definition pg_renew :: "string \<Rightarrow> nat \<Rightarrow> real \<Rightarrow> owner_table \<Rightarrow> owner_table \<times> bool" where
  "pg_renew sid token now t =
     (if sid \<in> set (open_sessions t) \<and> holds t sid token now
      then (t\<lparr>ot_rows := set_key (ot_rows t) sid \<lparr>or_token = token, or_expiresAt = now + ot_ttlMs t\<rparr>\<rparr>, True)
      else (t, False))"

definition pg_release :: "string \<Rightarrow> nat \<Rightarrow> owner_table \<Rightarrow> owner_table" where
  "pg_release sid token t =
     (case get_key (ot_rows t) sid of
        None \<Rightarrow> t
      | Some row \<Rightarrow> if or_token row = token then t\<lparr>ot_rows := del_key (ot_rows t) sid\<rparr> else t)"

text \<open>\<open>assertRuntimeOwner\<close>: the fence every append of a runtime passes.\<close>

definition assertRuntimeOwner :: "owner_table \<Rightarrow> string \<Rightarrow> nat \<Rightarrow> real \<Rightarrow> bool" where
  "assertRuntimeOwner t sid token now \<longleftrightarrow> sid \<in> set (open_sessions t) \<and> holds t sid token now"

section \<open>The handles of a process\<close>

record handles =
  oh_tokens :: "(string \<times> nat) list"
  oh_runtimes :: "string list"
  oh_stopped :: bool

definition new_handles :: handles where
  "new_handles = \<lparr>oh_tokens = [], oh_runtimes = [], oh_stopped = False\<rparr>"

text \<open>\<open>lost\<close>: the callback that disposes of the runtime of a session.\<close>

definition drop_handle :: "string \<Rightarrow> handles \<Rightarrow> handles" where
  "drop_handle sid p = p\<lparr>oh_tokens := del_key (oh_tokens p) sid, oh_runtimes := removeAll sid (oh_runtimes p)\<rparr>"

text \<open>\<open>fresh\<close> is the token a claim would draw; a store that throws is \<open>acquire_failed\<close>.\<close>

definition acquire :: "string \<Rightarrow> nat \<Rightarrow> real \<Rightarrow> owner_table \<Rightarrow> handles \<Rightarrow> owner_table \<times> handles \<times> nat option" where
  "acquire sid fresh now t p =
     (case get_key (oh_tokens p) sid of
        Some token \<Rightarrow>
          (case pg_renew sid token now t of
             (t', True) \<Rightarrow> (t', p, Some token)
           | (t', False) \<Rightarrow> (t', drop_handle sid p, None))
      | None \<Rightarrow>
          (case pg_claim sid fresh now t of
             (t', True) \<Rightarrow> (t', p\<lparr>oh_tokens := set_key (oh_tokens p) sid fresh\<rparr>, Some fresh)
           | (t', False) \<Rightarrow> (t', p, None)))"

definition acquire_failed :: "string \<Rightarrow> handles \<Rightarrow> handles" where
  "acquire_failed sid p = drop_handle sid p"

definition ensure :: "string \<Rightarrow> nat \<Rightarrow> real \<Rightarrow> owner_table \<Rightarrow> handles \<Rightarrow> owner_table \<times> handles \<times> nat option" where
  "ensure sid fresh now t p = (if oh_stopped p then (t, p, None) else acquire sid fresh now t p)"

definition verify :: "string \<Rightarrow> nat \<Rightarrow> nat \<Rightarrow> real \<Rightarrow> owner_table \<Rightarrow> handles \<Rightarrow> owner_table \<times> handles \<times> bool" where
  "verify sid token fresh now t p =
     (if get_key (oh_tokens p) sid \<noteq> Some token \<or> oh_stopped p then (t, p, False)
      else (case ensure sid fresh now t p of (t', p', got) \<Rightarrow> (t', p', got = Some token)))"

fun release_all :: "(string \<times> nat) list \<Rightarrow> owner_table \<Rightarrow> owner_table" where
  "release_all [] t = t"
| "release_all ((sid, token) # hs) t = release_all hs (pg_release sid token t)"

definition close_handles :: "owner_table \<Rightarrow> handles \<Rightarrow> owner_table \<times> handles" where
  "close_handles t p = (release_all (oh_tokens p) t, \<lparr>oh_tokens = [], oh_runtimes = [], oh_stopped = True\<rparr>)"

text \<open>\<open>createRuntime\<close>, as far as ownership goes: no runtime without a token.\<close>

definition own_runtime :: "string \<Rightarrow> nat option \<Rightarrow> handles \<Rightarrow> handles" where
  "own_runtime sid got p =
     (case got of None \<Rightarrow> p
      | Some _ \<Rightarrow> p\<lparr>oh_runtimes := (if sid \<in> set (oh_runtimes p) then oh_runtimes p else oh_runtimes p @ [sid])\<rparr>)"

section \<open>Several processes, one table\<close>

record world =
  w_table :: owner_table
  w_procs :: "nat \<Rightarrow> handles"
  w_now :: real
  w_used :: "nat list"

inductive own_step :: "world \<Rightarrow> world \<Rightarrow> bool" where
  ensure: "fresh \<notin> set (w_used w) \<Longrightarrow> ensure sid fresh (w_now w) (w_table w) (w_procs w i) = (t, p, got) \<Longrightarrow>
    own_step w (w\<lparr>w_table := t, w_procs := (w_procs w)(i := own_runtime sid got p), w_used := fresh # w_used w\<rparr>)"
| failed: "own_step w (w\<lparr>w_procs := (w_procs w)(i := acquire_failed sid (w_procs w i))\<rparr>)"
| close: "close_handles (w_table w) (w_procs w i) = (t, p) \<Longrightarrow>
    own_step w (w\<lparr>w_table := t, w_procs := (w_procs w)(i := p)\<rparr>)"
| tick: "w_now w \<le> now \<Longrightarrow> own_step w (w\<lparr>w_now := now\<rparr>)"
| finished: "set ids \<subseteq> set (open_sessions (w_table w)) \<Longrightarrow>
    own_step w (w\<lparr>w_table := (w_table w)\<lparr>open_sessions := ids\<rparr>\<rparr>)"

definition token_of :: "world \<Rightarrow> nat \<Rightarrow> string \<Rightarrow> nat option" where
  "token_of w i sid = get_key (oh_tokens (w_procs w i)) sid"

definition own_inv :: "world \<Rightarrow> bool" where
  "own_inv w \<longleftrightarrow>
     (\<forall>i j sid sid' tk. token_of w i sid = Some tk \<longrightarrow> token_of w j sid' = Some tk \<longrightarrow> i = j \<and> sid = sid') \<and>
     (\<forall>i sid tk. token_of w i sid = Some tk \<longrightarrow> tk \<in> set (w_used w)) \<and>
     (\<forall>sid row. get_key (ot_rows (w_table w)) sid = Some row \<longrightarrow> or_token row \<in> set (w_used w)) \<and>
     (\<forall>i sid. sid \<in> set (oh_runtimes (w_procs w i)) \<longrightarrow> token_of w i sid \<noteq> None)"

text \<open>What one acquisition may change.\<close>

lemma pg_rows:
  "pg_claim sid fresh now t = (t', b) \<Longrightarrow> get_key (ot_rows t') s = Some row \<Longrightarrow>
     or_token row = fresh \<or> get_key (ot_rows t) s = Some row"
  "pg_renew sid token now t = (t', b) \<Longrightarrow> get_key (ot_rows t') s = Some row \<Longrightarrow>
     (\<exists>row0. get_key (ot_rows t) s = Some row0 \<and> or_token row0 = or_token row)"
  "get_key (ot_rows (pg_release sid token t)) s = Some row \<Longrightarrow> get_key (ot_rows t) s = Some row"
  by (auto simp: pg_claim_def pg_renew_def pg_release_def holds_def Let_def split: if_splits option.splits)

lemma drop_handle_sel [simp]:
  "get_key (oh_tokens (drop_handle sid p)) s = (if s = sid then None else get_key (oh_tokens p) s)"
  "set (oh_runtimes (drop_handle sid p)) = set (oh_runtimes p) - {sid}"
  by (auto simp: drop_handle_def)

lemma ensure_cases:
  assumes "ensure sid fresh now t p = (t', p', got)"
  obtains (renewed) token where "got = Some token" "get_key (oh_tokens p) sid = Some token" "p' = p"
      "pg_renew sid token now t = (t', True)"
  | (claimed) "got = Some fresh" "p' = p\<lparr>oh_tokens := set_key (oh_tokens p) sid fresh\<rparr>"
      "pg_claim sid fresh now t = (t', True)"
  | (lost) "got = None" "p' = drop_handle sid p" "t' = t"
  | (refused) "got = None" "p' = p" "t' = t"
proof (cases "oh_stopped p")
  case True
  then show ?thesis using assms refused by (simp add: ensure_def)
next
  case running: False
  show ?thesis
  proof (cases "get_key (oh_tokens p) sid")
    case None
    obtain t1 b where c: "pg_claim sid fresh now t = (t1, b)" by (cases "pg_claim sid fresh now t")
    have no: "\<not> b \<Longrightarrow> t1 = t" using c by (auto simp: pg_claim_def Let_def split: if_splits option.splits)
    show ?thesis
    proof (cases b)
      case True
      then show ?thesis using assms running None c by (intro claimed) (auto simp: ensure_def acquire_def)
    next
      case False
      then show ?thesis using assms running None c no by (intro refused) (auto simp: ensure_def acquire_def)
    qed
  next
    case (Some token)
    obtain t1 b where c: "pg_renew sid token now t = (t1, b)" by (cases "pg_renew sid token now t")
    have no: "\<not> b \<Longrightarrow> t1 = t" using c by (auto simp: pg_renew_def split: if_splits)
    show ?thesis
    proof (cases b)
      case True
      then show ?thesis using assms running Some c by (intro renewed [of token]) (auto simp: ensure_def acquire_def)
    next
      case False
      then show ?thesis using assms running Some c no by (intro lost) (auto simp: ensure_def acquire_def)
    qed
  qed
qed

lemma ensure_rows:
  assumes "ensure sid fresh now t p = (t', p', got)" and "get_key (ot_rows t') s = Some row"
  shows "or_token row = fresh \<or> (\<exists>row0. get_key (ot_rows t) s = Some row0 \<and> or_token row0 = or_token row)"
  using assms(1)
proof (cases rule: ensure_cases)
  case (renewed token)
  then show ?thesis using pg_rows(2) [OF renewed(4) assms(2)] by blast
next
  case claimed
  then show ?thesis using pg_rows(1) [OF claimed(3) assms(2)] by blast
qed (use assms(2) in auto)

lemma ensure_tokens:
  assumes "ensure sid fresh now t p = (t', p', got)" and "get_key (oh_tokens p') s = Some tk"
  shows "(s = sid \<and> tk = fresh) \<or> get_key (oh_tokens p) s = Some tk"
  using assms(1) by (cases rule: ensure_cases) (use assms(2) in \<open>auto split: if_splits\<close>)

lemma ensure_runtimes:
  assumes "ensure sid fresh now t p = (t', p', got)"
    and "\<forall>s\<in>set (oh_runtimes p). get_key (oh_tokens p) s \<noteq> None"
  shows "\<forall>s\<in>set (oh_runtimes (own_runtime sid got p')). get_key (oh_tokens (own_runtime sid got p')) s \<noteq> None"
  using assms(1) by (cases rule: ensure_cases) (use assms(2) in \<open>auto simp: own_runtime_def split: if_splits\<close>)

lemma own_runtime_tokens [simp]: "oh_tokens (own_runtime sid got p) = oh_tokens p"
  by (simp add: own_runtime_def split: option.splits)

lemma release_all_rows: "get_key (ot_rows (release_all hs t)) s = Some row \<Longrightarrow> get_key (ot_rows t) s = Some row"
  by (induction hs t rule: release_all.induct) (auto dest: pg_rows(3))

lemma release_all_open [simp]: "open_sessions (release_all hs t) = open_sessions t"
  by (induction hs t rule: release_all.induct) (auto simp: pg_release_def split: option.splits)

section \<open>One owner at a time\<close>

lemma own_inv_parts:
  assumes "own_inv w"
  shows "token_of w i sid = Some tk \<Longrightarrow> token_of w j sid' = Some tk \<Longrightarrow> i = j \<and> sid = sid'"
    and "token_of w i sid = Some tk \<Longrightarrow> tk \<in> set (w_used w)"
    and "get_key (ot_rows (w_table w)) sid = Some row \<Longrightarrow> or_token row \<in> set (w_used w)"
    and "sid \<in> set (oh_runtimes (w_procs w i)) \<Longrightarrow> token_of w i sid \<noteq> None"
  using assms unfolding own_inv_def by blast+

text \<open>A process may drop handles, and rows may go: nothing else is needed of a step that issues no token.\<close>

lemma own_inv_shrink:
  assumes inv: "own_inv w"
    and tokens: "\<And>i s tk. token_of w' i s = Some tk \<Longrightarrow> token_of w i s = Some tk"
    and rows: "\<And>s row. get_key (ot_rows (w_table w')) s = Some row \<Longrightarrow> get_key (ot_rows (w_table w)) s = Some row"
    and runtimes: "\<And>i s. s \<in> set (oh_runtimes (w_procs w' i)) \<Longrightarrow> token_of w' i s \<noteq> None"
    and used: "w_used w' = w_used w"
  shows "own_inv w'"
  unfolding own_inv_def used
proof (intro conjI allI impI)
  fix i j sid sid' tk
  assume "token_of w' i sid = Some tk" "token_of w' j sid' = Some tk"
  then show "i = j" "sid = sid'" using own_inv_parts(1) [OF inv] tokens by blast+
next
  fix i sid tk
  assume "token_of w' i sid = Some tk"
  then show "tk \<in> set (w_used w)" using own_inv_parts(2) [OF inv] tokens by blast
next
  fix sid row
  assume "get_key (ot_rows (w_table w')) sid = Some row"
  then show "or_token row \<in> set (w_used w)" using own_inv_parts(3) [OF inv] rows by blast
next
  fix i sid
  assume "sid \<in> set (oh_runtimes (w_procs w' i))"
  then show "token_of w' i sid \<noteq> None" by (rule runtimes)
qed

lemma own_inv_ensure:
  assumes inv: "own_inv w" and fresh: "fresh \<notin> set (w_used w)"
    and e: "ensure sid fresh (w_now w) (w_table w) (w_procs w i) = (t, p, got)"
  shows "own_inv (w\<lparr>w_table := t, w_procs := (w_procs w)(i := own_runtime sid got p), w_used := fresh # w_used w\<rparr>)"
    (is "own_inv ?w'")
proof -
  have tok: "token_of ?w' j s = Some tk \<Longrightarrow> (j = i \<and> s = sid \<and> tk = fresh) \<or> token_of w j s = Some tk" for j s tk
    using ensure_tokens [OF e] by (auto simp: token_of_def split: if_splits)
  have old: "token_of w j s = Some tk \<Longrightarrow> tk \<noteq> fresh" for j s tk using own_inv_parts(2) [OF inv] fresh by metis
  show ?thesis
    unfolding own_inv_def
  proof (intro conjI allI impI)
    fix j k s s' tk
    assume "token_of ?w' j s = Some tk" "token_of ?w' k s' = Some tk"
    from tok [OF this(1)] tok [OF this(2)] old have
      "(j = i \<and> s = sid \<and> k = i \<and> s' = sid) \<or> (token_of w j s = Some tk \<and> token_of w k s' = Some tk)" by blast
    then show "j = k" "s = s'" using own_inv_parts(1) [OF inv] by blast+
  next
    fix j s tk
    assume "token_of ?w' j s = Some tk"
    from tok [OF this] show "tk \<in> set (w_used ?w')" using own_inv_parts(2) [OF inv] by auto
  next
    fix s row
    assume "get_key (ot_rows (w_table ?w')) s = Some row"
    then have "or_token row = fresh \<or> (\<exists>row0. get_key (ot_rows (w_table w)) s = Some row0 \<and> or_token row0 = or_token row)"
      using ensure_rows [OF e, of s row] by simp
    then show "or_token row \<in> set (w_used ?w')" using own_inv_parts(3) [OF inv, of s] by fastforce
  next
    fix j s
    assume s: "s \<in> set (oh_runtimes (w_procs ?w' j))"
    show "token_of ?w' j s \<noteq> None"
    proof (cases "j = i")
      case True
      have "\<forall>s\<in>set (oh_runtimes (w_procs w i)). get_key (oh_tokens (w_procs w i)) s \<noteq> None"
        using own_inv_parts(4) [OF inv] by (auto simp: token_of_def)
      from ensure_runtimes [OF e this] s True show ?thesis by (simp add: token_of_def)
    next
      case False
      then show ?thesis using s own_inv_parts(4) [OF inv] by (simp add: token_of_def)
    qed
  qed
qed

lemma own_inv_step: "own_step w w' \<Longrightarrow> own_inv w \<Longrightarrow> own_inv w'"
proof (induction rule: own_step.induct)
  case (ensure fresh w sid i t p got)
  then show ?case using own_inv_ensure by blast
next
  case (failed w i sid)
  show ?case
    by (rule own_inv_shrink [OF failed]) (use own_inv_parts(4) [OF failed] in
      \<open>auto simp: token_of_def acquire_failed_def split: if_splits\<close>)
next
  case (close w i t p)
  show ?case
    by (rule own_inv_shrink [OF close(2)]) (use own_inv_parts(4) [OF close(2)] close(1) in
      \<open>auto simp: token_of_def close_handles_def dest: release_all_rows split: if_splits\<close>)
next
  case (tick w now)
  show ?case by (rule own_inv_shrink [OF tick(2)]) (use own_inv_parts(4) [OF tick(2)] in \<open>auto simp: token_of_def\<close>)
next
  case (finished ids w)
  show ?case by (rule own_inv_shrink [OF finished(2)]) (use own_inv_parts(4) [OF finished(2)] in \<open>auto simp: token_of_def\<close>)
qed

interpretation own_kept: kept_by_steps own_step own_inv
  by unfold_locales (rule own_inv_step)

definition new_world :: "real \<Rightarrow> string list \<Rightarrow> real \<Rightarrow> world" where
  "new_world ttl ids now = \<lparr>w_table = \<lparr>ot_rows = [], ot_ttlMs = ttl, open_sessions = ids\<rparr>,
     w_procs = (\<lambda>_. new_handles), w_now = now, w_used = []\<rparr>"

lemma own_inv_new: "own_inv (new_world ttl ids now)"
  by (simp add: own_inv_def new_world_def token_of_def new_handles_def)

text \<open>Two tokens that pass the fence of a session are one, and so are their holders.\<close>

lemma one_owner:
  assumes "own_inv w" and "token_of w i sid = Some a" and "token_of w j sid = Some b"
    and "assertRuntimeOwner (w_table w) sid a (w_now w)" and "assertRuntimeOwner (w_table w) sid b (w_now w)"
  shows "i = j"
proof -
  have "a = b" using assms(4,5) by (auto simp: assertRuntimeOwner_def holds_def split: option.splits)
  then show ?thesis using own_inv_parts(1) [OF assms(1,2)] assms(3) by blast
qed

section \<open>A fenced token stays fenced\<close>

text \<open>A token that was issued and no longer passes the fence never passes it again.\<close>

definition fenced_out :: "string \<Rightarrow> nat \<Rightarrow> world \<Rightarrow> bool" where
  "fenced_out sid tk w \<longleftrightarrow> tk \<in> set (w_used w) \<and> \<not> assertRuntimeOwner (w_table w) sid tk (w_now w)"

lemma pg_claim_asserts:
  "pg_claim s fresh now t = (t', b) \<Longrightarrow> tk \<noteq> fresh \<Longrightarrow> assertRuntimeOwner t' sid tk now \<Longrightarrow> assertRuntimeOwner t sid tk now"
  by (auto simp: pg_claim_def assertRuntimeOwner_def holds_def Let_def split: if_splits option.splits)

lemma pg_renew_asserts:
  "pg_renew s token now t = (t', b) \<Longrightarrow> assertRuntimeOwner t' sid tk now \<Longrightarrow> assertRuntimeOwner t sid tk now"
  by (auto simp: pg_renew_def assertRuntimeOwner_def holds_def split: if_splits option.splits)

lemma fenced_out_step: "own_step w w' \<Longrightarrow> fenced_out sid tk w \<Longrightarrow> fenced_out sid tk w'"
proof (induction rule: own_step.induct)
  case (ensure fresh w s i t p got)
  have "tk \<noteq> fresh" using ensure by (auto simp: fenced_out_def)
  with ensure(2) have "assertRuntimeOwner t sid tk (w_now w) \<Longrightarrow> assertRuntimeOwner (w_table w) sid tk (w_now w)"
    by (cases rule: ensure_cases) (auto dest: pg_claim_asserts pg_renew_asserts)
  with ensure(3) show ?case by (auto simp: fenced_out_def)
next
  case (close w i t p)
  then show ?case
    by (auto simp: fenced_out_def close_handles_def assertRuntimeOwner_def holds_def dest: release_all_rows
        split: option.splits)
next
  case (tick w now)
  then show ?case by (auto simp: fenced_out_def assertRuntimeOwner_def holds_def split: option.splits)
next
  case (finished ids w)
  then show ?case by (auto simp: fenced_out_def assertRuntimeOwner_def holds_def split: option.splits)
qed (simp add: fenced_out_def)

interpretation fence: kept_by_steps own_step "fenced_out sid tk" for sid tk
  by unfold_locales (rule fenced_out_step)

text \<open>Whoever is told it owns a session passes the fence at that moment.\<close>

lemma ensure_passes_fence:
  assumes "ensure sid fresh now t p = (t', p', Some tk)" and "0 < ot_ttlMs t"
  shows "assertRuntimeOwner t' sid tk now" and "get_key (oh_tokens p') sid = Some tk"
  using assms(1) by (cases rule: ensure_cases;
    use assms(2) in \<open>auto simp: pg_claim_def pg_renew_def assertRuntimeOwner_def holds_def Let_def split: if_splits option.splits\<close>)+

text \<open>An owner that stops renewing loses the session to whoever asks after the time to live.\<close>

lemma claim_after_expiry:
  assumes "sid \<in> set (open_sessions t)" and "get_key (ot_rows t) sid = Some row" and "or_expiresAt row \<le> now"
    and "get_key (oh_tokens p) sid = None" and "\<not> oh_stopped p"
  shows "\<exists>t' p'. ensure sid fresh now t p = (t', p', Some fresh)"
  using assms by (simp add: ensure_def acquire_def pg_claim_def Let_def)

end
