(* ===== verification/ProviderCircuit.thy ===== *)
theory ProviderCircuit
  imports Prelude Step_Closure
begin

text \<open>
  \<open>lib/provider-circuit.ts\<close>: the circuit breaker in front of the voice provider. The clock is an
  argument, in milliseconds since the epoch, hence positive; \<open>pc_openUntil = 0\<close> stands for closed, as
  in the code.
\<close>

record circuit =
  pc_threshold :: nat
  pc_cooldown :: real
  pc_failures :: nat
  pc_openUntil :: real
  pc_probe :: bool

datatype circuit_state = CLOSED | OPEN | HALF_OPEN

definition new_circuit :: "nat \<Rightarrow> real \<Rightarrow> circuit result" where
  "new_circuit threshold cooldown =
     (if threshold < 1 \<or> cooldown < 1 then Inl (JsError ''INVALID_CIRCUIT_CONFIGURATION'')
      else Inr \<lparr>pc_threshold = threshold, pc_cooldown = cooldown, pc_failures = 0, pc_openUntil = 0, pc_probe = False\<rparr>)"

definition tryAcquire :: "real \<Rightarrow> circuit \<Rightarrow> circuit \<times> bool" where
  "tryAcquire now c =
     (if pc_openUntil c = 0 then (c, True)
      else if now < pc_openUntil c \<or> pc_probe c then (c, False)
      else (c\<lparr>pc_probe := True\<rparr>, True))"

definition success :: "circuit \<Rightarrow> circuit" where
  "success c = c\<lparr>pc_failures := 0, pc_openUntil := 0, pc_probe := False\<rparr>"

definition failure :: "bool \<Rightarrow> real \<Rightarrow> circuit \<Rightarrow> circuit" where
  "failure immediate now c =
     (let failed_probe = pc_probe c;
          c1 = c\<lparr>pc_probe := False, pc_failures := pc_failures c + 1\<rparr>
      in if immediate \<or> failed_probe \<or> pc_failures c1 \<ge> pc_threshold c1
         then c1\<lparr>pc_openUntil := now + pc_cooldown c1, pc_failures := 0\<rparr> else c1)"

definition release_probe :: "circuit \<Rightarrow> circuit" where
  "release_probe c = c\<lparr>pc_probe := False\<rparr>"

definition circuit_state :: "real \<Rightarrow> circuit \<Rightarrow> circuit_state" where
  "circuit_state now c =
     (if pc_openUntil c = 0 then CLOSED else if now < pc_openUntil c then OPEN else HALF_OPEN)"

datatype circuit_call = Acquire | Success | Failure bool | Release

definition circuit_call :: "circuit_call \<Rightarrow> real \<Rightarrow> circuit \<Rightarrow> circuit \<times> bool" where
  "circuit_call k now c = (case k of
     Acquire \<Rightarrow> tryAcquire now c
   | Success \<Rightarrow> (success c, False)
   | Failure immediate \<Rightarrow> (failure immediate now c, False)
   | Release \<Rightarrow> (release_probe c, False))"

fun circuit_run :: "(circuit_call \<times> real) list \<Rightarrow> circuit \<Rightarrow> circuit" where
  "circuit_run [] c = c"
| "circuit_run ((k, now) # ks) c = circuit_run ks (fst (circuit_call k now c))"

lemmas circuit_defs = tryAcquire_def success_def failure_def release_probe_def Let_def

text \<open>The counter of failures stays below the threshold; a probe is out only while the circuit is not closed.\<close>

definition circuit_inv :: "circuit \<Rightarrow> bool" where
  "circuit_inv c \<longleftrightarrow> 1 \<le> pc_threshold c \<and> 1 \<le> pc_cooldown c \<and> pc_failures c < pc_threshold c \<and>
     0 \<le> pc_openUntil c \<and> (pc_probe c \<longrightarrow> pc_openUntil c \<noteq> 0)"

inductive circuit_step :: "circuit \<Rightarrow> circuit \<Rightarrow> bool" where
  "0 < now \<Longrightarrow> circuit_step c (fst (circuit_call k now c))"

lemma circuit_inv_new: "new_circuit t d = Inr c \<Longrightarrow> circuit_inv c"
  by (auto simp: new_circuit_def circuit_inv_def split: if_splits)

lemma circuit_call_inv: "circuit_inv c \<Longrightarrow> 0 < now \<Longrightarrow> circuit_inv (fst (circuit_call k now c))"
  by (cases k) (simp_all add: circuit_call_def circuit_inv_def circuit_defs)

interpretation circuit_kept: kept_by_steps circuit_step circuit_inv
  by unfold_locales (auto elim!: circuit_step.cases intro: circuit_call_inv)

lemma circuit_run_steps: "\<forall>(k, now)\<in>set ks. 0 < now \<Longrightarrow> circuit_step\<^sup>*\<^sup>* c (circuit_run ks c)"
proof (induction ks arbitrary: c)
  case (Cons q ks)
  obtain k now where q: "q = (k, now)" by (cases q)
  have "circuit_step c (fst (circuit_call k now c))" using Cons.prems q by (auto intro: circuit_step.intros)
  moreover have "circuit_step\<^sup>*\<^sup>* (fst (circuit_call k now c)) (circuit_run ks (fst (circuit_call k now c)))"
    using Cons by auto
  ultimately show ?case using q by (auto intro: converse_rtranclp_into_rtranclp)
qed simp

text \<open>Every report clears the probe; while none arrives, an admitted probe is the only one.\<close>

lemma probe_stays:
  "pc_probe c \<Longrightarrow> pc_openUntil c \<noteq> 0 \<Longrightarrow> \<forall>(k, now)\<in>set ks. k = Acquire \<Longrightarrow> circuit_run ks c = c"
  by (induction ks arbitrary: c) (auto simp: circuit_call_def tryAcquire_def)

lemma probe_excludes:
  assumes "tryAcquire now c = (c', True)" and "circuit_state now c = HALF_OPEN"
    and "\<forall>(k, t)\<in>set ks. k = Acquire"
  shows "\<not> snd (tryAcquire later (circuit_run ks c'))"
proof -
  have "pc_probe c'" "pc_openUntil c' \<noteq> 0"
    using assms(1,2) by (auto simp: tryAcquire_def circuit_state_def split: if_splits)
  moreover from this have "circuit_run ks c' = c'" using assms(3) by (rule probe_stays)
  ultimately show ?thesis by (simp add: tryAcquire_def)
qed

lemma open_refuses: "circuit_state now c = OPEN \<Longrightarrow> tryAcquire now c = (c, False)"
  by (auto simp: tryAcquire_def circuit_state_def split: if_splits)

lemma closed_admits: "circuit_state now c = CLOSED \<Longrightarrow> tryAcquire now c = (c, True)"
  by (auto simp: tryAcquire_def circuit_state_def split: if_splits)

text \<open>Failures in a row: the circuit stays closed below the threshold and opens exactly at it.\<close>

lemma failures_below:
  assumes "pc_openUntil c = 0" and "\<not> pc_probe c" and "pc_failures c + length ts < pc_threshold c"
  shows "circuit_run (map (\<lambda>t. (Failure False, t)) ts) c = c\<lparr>pc_failures := pc_failures c + length ts\<rparr>"
  using assms by (induction ts arbitrary: c) (auto simp: circuit_call_def failure_def Let_def)

lemma failures_open:
  assumes "pc_openUntil c = 0" and "\<not> pc_probe c" and "pc_failures c = 0"
    and "length ts + 1 = pc_threshold c"
  shows "circuit_run (map (\<lambda>t. (Failure False, t)) ts @ [(Failure False, now)]) c =
    c\<lparr>pc_openUntil := now + pc_cooldown c\<rparr>"
proof -
  have run: "circuit_run (xs @ ys) c = circuit_run ys (circuit_run xs c)" for xs ys c
    by (induction xs arbitrary: c) auto
  have "circuit_run (map (\<lambda>t. (Failure False, t)) ts) c = c\<lparr>pc_failures := length ts\<rparr>"
    using failures_below [of c ts] assms by simp
  then show ?thesis using assms by (simp add: run circuit_call_def failure_def Let_def)
qed

end
