(* ===== verification/VoiceResumption.thy ===== *)
theory VoiceResumption
  imports Keyed_Maps
begin

text \<open>
  \<open>realtime/resumption.ts\<close>: the handles with which a voice connection continues, held per session for
  a while, in a bounded map. Its specification is a partial map whose entries expire.
\<close>

record handle_entry =
  he_handle :: string
  he_expiresAt :: real

record resumption =
  vr_handles :: "(string \<times> handle_entry) list"
  vr_ttlMs :: real
  vr_maxEntries :: nat

definition new_resumption :: "real \<Rightarrow> nat \<Rightarrow> resumption" where
  "new_resumption ttl n = \<lparr>vr_handles = [], vr_ttlMs = ttl, vr_maxEntries = n\<rparr>"

definition prune :: "real \<Rightarrow> resumption \<Rightarrow> resumption" where
  "prune now v = v\<lparr>vr_handles := filter (\<lambda>kv. \<not> he_expiresAt (snd kv) \<le> now) (vr_handles v)\<rparr>"

definition record_handle :: "real \<Rightarrow> string \<Rightarrow> string \<Rightarrow> resumption \<Rightarrow> resumption" where
  "record_handle now sid handle v =
     (let v1 = prune now v
      in if length (vr_handles v1) \<ge> vr_maxEntries v1 \<and> \<not> has_key (vr_handles v1) sid then v1
         else v1\<lparr>vr_handles := set_key (vr_handles v1) sid \<lparr>he_handle = handle, he_expiresAt = now + vr_ttlMs v1\<rparr>\<rparr>)"

definition get_handle :: "real \<Rightarrow> string \<Rightarrow> resumption \<Rightarrow> resumption \<times> string option" where
  "get_handle now sid v =
     (case get_key (vr_handles v) sid of
        None \<Rightarrow> (v, None)
      | Some e \<Rightarrow> if he_expiresAt e \<le> now then (v\<lparr>vr_handles := del_key (vr_handles v) sid\<rparr>, None)
                  else (v, Some (he_handle e)))"

definition clear_handle :: "string \<Rightarrow> resumption \<Rightarrow> resumption" where
  "clear_handle sid v = v\<lparr>vr_handles := del_key (vr_handles v) sid\<rparr>"

section \<open>Invariant: the bound of the map\<close>

definition resumption_inv :: "resumption \<Rightarrow> bool" where
  "resumption_inv v \<longleftrightarrow> distinct (map fst (vr_handles v)) \<and> length (vr_handles v) \<le> vr_maxEntries v"

lemma length_set_key: "length (set_key m k v) = (if has_key m k then length m else length m + 1)"
  by (induction m k v rule: set_key.induct) (auto simp: has_key_def)

lemma prune_inv: "resumption_inv v \<Longrightarrow> resumption_inv (prune now v)"
  by (auto simp: resumption_inv_def prune_def intro: le_trans [OF length_filter_le])

lemma record_inv: "resumption_inv v \<Longrightarrow> resumption_inv (record_handle now sid h v)"
  using prune_inv [of v now] by (auto simp: resumption_inv_def record_handle_def Let_def length_set_key)

lemma clear_inv: "resumption_inv v \<Longrightarrow> resumption_inv (clear_handle sid v)"
  by (auto simp: resumption_inv_def clear_handle_def del_key_def intro: le_trans [OF length_filter_le])

lemma get_inv: "resumption_inv v \<Longrightarrow> resumption_inv (fst (get_handle now sid v))"
  using clear_inv [of v sid] by (simp add: get_handle_def clear_handle_def split: option.splits)

section \<open>Refinement of a map with expiry\<close>

text \<open>What a reader sees at a given time.\<close>

definition live_handle :: "real \<Rightarrow> resumption \<Rightarrow> string \<Rightarrow> string option" where
  "live_handle now v sid =
     (case get_key (vr_handles v) sid of
        None \<Rightarrow> None | Some e \<Rightarrow> if he_expiresAt e \<le> now then None else Some (he_handle e))"

lemma get_is_live: "snd (get_handle now sid v) = live_handle now v sid"
  by (simp add: get_handle_def live_handle_def split: option.splits)

lemma get_keeps_live: "now \<le> later \<Longrightarrow> live_handle later (fst (get_handle now sid v)) = live_handle later v"
  by (auto simp: get_handle_def live_handle_def fun_eq_iff split: option.splits)

lemma prune_keeps_live:
  assumes "distinct (map fst (vr_handles v))" and "now \<le> later"
  shows "live_handle later (prune now v) sid = live_handle later v sid"
proof (cases "get_key (vr_handles v) sid")
  case None
  then have "get_key (vr_handles (prune now v)) sid = None" by (auto simp: prune_def get_key_None_iff)
  with None show ?thesis by (simp add: live_handle_def)
next
  case (Some e)
  note f = get_key_filter_value [OF assms(1), of "\<lambda>e. \<not> he_expiresAt e \<le> now" sid]
  show ?thesis
  proof (cases "he_expiresAt e \<le> now")
    case True
    then have "get_key (vr_handles (prune now v)) sid = None"
      using Some f by (cases "get_key (vr_handles (prune now v)) sid") (auto simp: prune_def)
    with True Some assms(2) show ?thesis by (simp add: live_handle_def)
  next
    case False
    then have "get_key (vr_handles (prune now v)) sid = Some e" using Some f by (simp add: prune_def)
    with Some show ?thesis by (simp add: live_handle_def)
  qed
qed

lemma clear_live: "live_handle now (clear_handle sid v) = (live_handle now v)(sid := None)"
  by (auto simp: live_handle_def clear_handle_def fun_eq_iff)

text \<open>A record writes its own session only, for the time to live; when the map is full of others it is dropped.\<close>

lemma record_live:
  assumes "resumption_inv v" and "now \<le> later"
  shows "live_handle later (record_handle now sid h v) =
    (if length (vr_handles (prune now v)) \<ge> vr_maxEntries v \<and> \<not> has_key (vr_handles (prune now v)) sid
     then live_handle later v
     else (live_handle later v)(sid := if later < now + vr_ttlMs v then Some h else None))"
proof -
  have d: "distinct (map fst (vr_handles v))" using assms(1) by (simp add: resumption_inv_def)
  have "vr_maxEntries (prune now v) = vr_maxEntries v" "vr_ttlMs (prune now v) = vr_ttlMs v"
    by (simp_all add: prune_def)
  then show ?thesis
    using prune_keeps_live [OF d assms(2)]
    by (auto simp: record_handle_def Let_def fun_eq_iff) (auto simp: live_handle_def)
qed

end
