(* ===== verification/SessionExamples.thy ===== *)
theory SessionExamples
  imports Examples SessionChannel Resume Lease RunQueue Ownership ProviderCircuit VoiceResumption
begin

text \<open>
  A small concrete world of the session layer for the witnesses: one stored session, its requests and
  client events, and the logs they make.
\<close>

definition demo_hash :: hashing where
  "demo_hash = \<lparr>collation = (\<lambda>_. 0), sha256_hex = (\<lambda>_. ''00'')\<rparr>"

definition demo_create :: create_request where
  "demo_create = \<lparr>cr_userId = ''u'', cr_scenario = \<lparr>ls_version = demo_scenario, ls_hash = ''h''\<rparr>, cr_mode = MOCK,
     cr_language = None, cr_tone = None, cr_expectedSeconds = Some 2700, cr_key = ''k''\<rparr>"

definition demo_session :: interview_session where
  "demo_session = new_session demo_create ''s'' ''t'' (Some 0)"

definition demo_store :: session_store where
  "demo_store = \<lparr>ss_sessions = [(''s'', demo_session)], ss_scenarios = [(''s'', cr_scenario demo_create)],
     ss_byKey = [((''u'', ''k''), ''s'')], ss_tombstones = []\<rparr>"

definition demo_client_event :: "int \<Rightarrow> string \<Rightarrow> client_event" where
  "demo_client_event n k = \<lparr>ce_sessionId = ''s'', ce_clientSeq = n, ce_key = k, ce_type = CODE_DELTA,
     ce_occurredAt = Some 1, ce_payload = [(''revision'', JNum 1), (''text'', JStr ''x'')]\<rparr>"

definition demo_request :: "int \<Rightarrow> string \<Rightarrow> log_request" where
  "demo_request n k = log_request_of demo_session (demo_client_event n k)"

definition demo_stored :: session_event where
  "demo_stored = new_event demo_hash (Some 2) (demo_request 0 ''a'') empty_log"

definition demo_log :: event_log where
  "demo_log = insert_event (demo_request 0 ''a'') demo_stored empty_log"

lemma demo_request_sel [simp]:
  "rq_session (demo_request n k) = ''s''" "rq_key (demo_request n k) = k" "rq_clientSeq (demo_request n k) = Some n"
  by (simp_all add: demo_request_def log_request_of_def demo_client_event_def)

lemma uuid_like_s [simp]: "uuid_like ''s''"
  by (simp add: uuid_like_def)

lemma empty_log_sel [simp]:
  "el_events empty_log = []" "el_byKey empty_log = []" "el_clientSeqs empty_log = []" "el_redacted empty_log = []"
  by (simp_all add: empty_log_def)

lemma empty_events: "session_events empty_log s = []"
  by (simp add: session_events_def)

lemma demo_appended: "append_log demo_hash (Some 2) (demo_request 0 ''a'') empty_log = Inr (demo_log, demo_stored, False)"
  by (simp add: append_log_def client_seq_error_def client_numbers_def MAX_SAFE_INTEGER_def demo_log_def demo_stored_def Let_def)

lemma demo_log_step: "log_step demo_hash empty_log demo_log"
  using demo_appended by (intro log_step.append [where r = "demo_request 0 ''a''"]) auto

lemma demo_events: "session_events demo_log ''s'' = [demo_stored]"
  by (simp add: demo_log_def empty_events)

lemma demo_numbers: "client_numbers demo_log ''s'' = [0]"
  by (simp add: demo_log_def client_numbers_def insert_event_def Let_def)

lemma demo_latest: "latestClientSeq demo_log ''s'' = 0"
  by (simp add: latestClientSeq_def demo_numbers)

lemma demo_created: "store_create demo_create ''s'' ''t'' (Some 0) empty_store = Inr (demo_store, demo_session)"
  by (simp add: store_create_def empty_store_def demo_store_def demo_session_def Let_def demo_create_def demo_scenario_def)

lemma demo_store_step: "store_step empty_store demo_store"
  by (rule store_step.create [OF _ _ demo_created]) (simp_all add: empty_store_def deleted_def)

lemma demo_handled:
  "handleClientEvent demo_hash (Some 2) (Some (demo_client_event 0 ''a'')) demo_store empty_log [] =
     Inr (demo_log, [(''s'', 0)], \<lparr>hr_messages = [ACK 0 0], hr_accepted = True, hr_event = Some demo_stored\<rparr>)"
proof -
  let ?e = "demo_client_event 0 ''a''"
  have e: "ce_sessionId ?e = ''s''" "ce_clientSeq ?e = 0" "client_event_ok ?e"
    by (simp_all add: demo_client_event_def client_event_ok_def CLIENT_EVENT_TYPES_def)
  have st: "store_get demo_store ''s'' = Some demo_session" "is_endedAt demo_session = None"
    by (simp_all add: store_get_def deleted_def demo_store_def demo_session_def new_session_def)
  have "watermark [] empty_log ''s'' = -1" by (simp add: watermark_def latestClientSeq_def client_numbers_def)
  then have "handleClientEvent demo_hash (Some 2) (Some ?e) demo_store empty_log [] =
      append_client demo_hash (Some 2) demo_session ?e 0 empty_log [(''s'', -1)]"
    using e st by (simp add: handleClientEvent_def Let_def)
  also have "\<dots> = Inr (demo_log, [(''s'', 0)], \<lparr>hr_messages = [ACK 0 0], hr_accepted = True, hr_event = Some demo_stored\<rparr>)"
    using demo_appended e by (simp add: append_client_def demo_request_def [symmetric] demo_stored_def empty_events)
  finally show ?thesis .
qed

end
