(* ===== verification/SessionRoutes.thy ===== *)
theory SessionRoutes
  imports SessionLifecycle Lease Resume
begin

text \<open>
  The routes of \<open>session/index.ts\<close> that change a session: a drop and its resumption, the end, the sweep
  that completes due and abandoned sessions, and the stage change of a live runtime, in a process
  without a durable lifecycle. A refused request is an error with the code of the reply. Live
  runtimes, voice credentials and the pushes to open sockets are not part of this state.
\<close>

record api =
  ap_life :: life
  ap_leases :: "(string \<times> lease) list"
  ap_channel :: channel

abbreviation ap_store :: "api \<Rightarrow> session_store" where "ap_store a \<equiv> lc_store (ap_life a)"
abbreviation ap_log :: "api \<Rightarrow> event_log" where "ap_log a \<equiv> lc_log (ap_life a)"

definition lease_of :: "api \<Rightarrow> string \<Rightarrow> lease" where
  "lease_of a sid = or_default (get_key (ap_leases a) sid) newLease"

definition put_lease :: "string \<Rightarrow> lease \<Rightarrow> api \<Rightarrow> api" where
  "put_lease sid l a = a\<lparr>ap_leases := set_key (ap_leases a) sid l\<rparr>"

text \<open>\<open>POST /interview-sessions/:id/disconnected\<close>; the instant of the request is one number here.\<close>

definition route_disconnected :: "hashing \<Rightarrow> real \<Rightarrow> string \<Rightarrow> api \<Rightarrow> api \<times> int result" where
  "route_disconnected h now sid a =
     (case store_get (ap_store a) sid of
        None \<Rightarrow> (a, Inl (JsError ''UNKNOWN_SESSION''))
      | Some s \<Rightarrow>
          (let l = onDisconnect (lease_of a sid) now;
               a1 = put_lease sid l a;
               w = write_event h (Some now) s CONNECTION_LOST [(''drop'', JNum (real (le_dropCount l)))]
                     (''disconnect:'' @ sid @ '':'' @ show_nat (le_dropCount l)) (ap_life a1)
           in (a1\<lparr>ap_life := fst w\<rparr>,
               case snd w of Inl e \<Rightarrow> Inl e | Inr _ \<Rightarrow> Inr (pendingCredit l now))))"

record resume_reply =
  rr_resumed :: resume_state
  rr_remainingSeconds :: "real option"
  rr_creditedSeconds :: int
  rr_drops :: nat

text \<open>\<open>GET /interview-sessions/:id/resume\<close>.\<close>

definition credit_session :: "hashing \<Rightarrow> real \<Rightarrow> interview_session \<Rightarrow> lease \<Rightarrow> int \<Rightarrow> life \<Rightarrow> unit life_outcome" where
  "credit_session h now s l credited lc =
     (if credited > 0 then
        life_then (in_store (addPause (is_id s) credited) lc) (\<lambda>_ lc1.
          write_event h (Some now) s TIMER_RESUMED
            [(''creditedSeconds'', JNum (of_int credited)), (''drops'', JNum (real (le_dropCount l)))]
            (''resume:'' @ is_id s @ '':'' @ show_nat (le_dropCount l)) lc1)
      else (lc, Inr ()))"

definition route_resume :: "hashing \<Rightarrow> real \<Rightarrow> string \<Rightarrow> api \<Rightarrow> api \<times> resume_reply result" where
  "route_resume h now sid a =
     (case store_get (ap_store a) sid of
        None \<Rightarrow> (a, Inl (JsError ''UNKNOWN_SESSION''))
      | Some s \<Rightarrow>
          (case reconstruct (ap_log a) sid (is_state s) of
             None \<Rightarrow> (a, Inl (JsError ''NO_EVENTS''))
           | Some resumed \<Rightarrow>
               (case onReconnect (lease_of a sid) now of
                  (l, credited) \<Rightarrow>
                    (let a1 = put_lease sid l a;
                         w = credit_session h now s l credited (ap_life a1);
                         a2 = a1\<lparr>ap_life := fst w\<rparr>
                     in (a2, case snd w of
                               Inl e \<Rightarrow> Inl e
                             | Inr _ \<Rightarrow>
                                 Inr \<lparr>rr_resumed = resumed,
                                      rr_remainingSeconds =
                                        session_remaining (or_default (store_get (ap_store a2) sid) s) now,
                                      rr_creditedSeconds = credited, rr_drops = le_dropCount l\<rparr>)))))"

text \<open>\<open>finalizeSession\<close>: the end, and the forgetting of what a process keeps per session.\<close>

definition finalizeSession :: "hashing \<Rightarrow> real \<Rightarrow> string \<Rightarrow> int \<Rightarrow> api \<Rightarrow> api \<times> interview_session result" where
  "finalizeSession h now sid expected a =
     (case store_get (ap_store a) sid of
        None \<Rightarrow> (a, Inl (JsError ''SessionNotFoundError''))
      | Some _ \<Rightarrow>
          (if latestClientSeq (ap_log a) sid < expected then (a, Inl (JsError ''FinalInputsPendingError''))
           else (let w = life_then (in_store (store_end sid (Some now)) (ap_life a)) (\<lambda>s lc1.
                         life_then (write_event h (Some now) s SESSION_ENDED
                             [(''sealedClientSeq'', JNum (of_int (latestClientSeq (lc_log lc1) sid)))]
                             (''session-ended:'' @ is_id s) lc1) (\<lambda>_ lc2. (lc2, Inr s)));
                     a1 = a\<lparr>ap_life := fst w\<rparr>
                 in case snd w of
                      Inl e \<Rightarrow> (a1, Inl e)
                    | Inr s \<Rightarrow>
                        (a1\<lparr>ap_leases := del_key (ap_leases a1) (is_id s),
                            ap_channel := forget (ap_channel a1) (is_id s)\<rparr>, Inr s))))"

text \<open>The sweep every five seconds: due sessions, then those whose client has been gone too long.\<close>

definition sweep_ids :: "real \<Rightarrow> nat \<Rightarrow> api \<Rightarrow> string list" where
  "sweep_ids now limit a =
     uniq (map is_id (dueForCompletion (ap_store a) now limit) @
           map fst (filter (\<lambda>kv. isAbandoned (snd kv) now) (ap_leases a)))"

definition sweep :: "hashing \<Rightarrow> real \<Rightarrow> api \<Rightarrow> api" where
  "sweep h now a = fold (\<lambda>sid a. fst (finalizeSession h now sid (-1) a)) (sweep_ids now 100 a) a"

text \<open>\<open>onTransition\<close> of a live runtime, and one frame of a socket.\<close>

definition on_transition :: "real \<Rightarrow> string \<Rightarrow> interview_state \<Rightarrow> api \<Rightarrow> api \<times> interview_session result" where
  "on_transition now sid to_state a =
     (case in_store (store_transition sid to_state (Some now)) (ap_life a) of (lc, r) \<Rightarrow> (a\<lparr>ap_life := lc\<rparr>, r))"

definition client_frame :: "hashing \<Rightarrow> real \<Rightarrow> client_event option \<Rightarrow> api \<Rightarrow> api \<times> handle_result result" where
  "client_frame h now raw a =
     (case handleClientEvent h (Some now) raw (ap_store a) (ap_log a) (ap_channel a) of
        Inl e \<Rightarrow> (a, Inl e)
      | Inr (l', ch', res) \<Rightarrow> (a\<lparr>ap_life := (ap_life a)\<lparr>lc_log := l'\<rparr>, ap_channel := ch'\<rparr>, Inr res))"

inductive api_step :: "hashing \<Rightarrow> real \<Rightarrow> api \<Rightarrow> api \<Rightarrow> bool" for h where
  disconnected: "api_step h now a (fst (route_disconnected h now sid a))"
| resumed: "api_step h now a (fst (route_resume h now sid a))"
| finalized: "api_step h now a (fst (finalizeSession h now sid expected a))"
| swept: "api_step h now a (sweep h now a)"
| transition: "api_step h now a (fst (on_transition now sid to_state a))"
| frame: "api_step h now a (fst (client_frame h now raw a))"

section \<open>The in-memory end and the lifecycle agree\<close>

text \<open>
  The process without a lifecycle ends a session exactly as the in-memory lifecycle does, but for the
  report job, which it enqueues elsewhere.
\<close>

lemma finalize_is_lifecycle:
  assumes "store_get (ap_store a) sid = Some s0"
  shows "snd (finalizeSession h now sid expected a) =
      snd (endWithReport h (Some now) sid rubric None expected (ap_life a)) \<and>
    ap_store (fst (finalizeSession h now sid expected a)) =
      lc_store (fst (endWithReport h (Some now) sid rubric None expected (ap_life a))) \<and>
    ap_log (fst (finalizeSession h now sid expected a)) =
      lc_log (fst (endWithReport h (Some now) sid rubric None expected (ap_life a)))"
  using assms
  by (auto simp: finalizeSession_def endWithReport_def Let_def life_then_def in_store_def write_event_def
      split: sum.splits prod.splits)

section \<open>The clock of a started session\<close>

text \<open>
  Of a session that runs: its pauses fit into the time since it started, and into the time before
  the drop that is under way; one that has not started was neither paused nor dropped.
\<close>

definition clock_ok :: "real \<Rightarrow> interview_session \<Rightarrow> lease \<Rightarrow> bool" where
  "clock_ok now s l \<longleftrightarrow> lease_wf l \<and>
     (case is_startedAt s of
        None \<Rightarrow> is_pausedSeconds s = 0 \<and> le_connected l
      | Some None \<Rightarrow> False
      | Some (Some t0) \<Rightarrow> t0 \<le> now \<and> of_int (is_pausedSeconds s) * 1000 \<le> now - t0 \<and>
          (\<forall>since. le_disconnectedAt l = Some since \<longrightarrow>
             t0 \<le> since \<and> since \<le> now \<and> of_int (is_pausedSeconds s) * 1000 \<le> since - t0))"

definition clock_inv :: "api \<times> real \<Rightarrow> bool" where
  "clock_inv = (\<lambda>(a, now). \<forall>sid s. get_key (ss_sessions (ap_store a)) sid = Some s \<longrightarrow> is_endedAt s = None \<longrightarrow>
     clock_ok now s (lease_of a sid))"

lemma clock_ok_later: "clock_ok n s l \<Longrightarrow> n \<le> now \<Longrightarrow> clock_ok now s l"
  by (force simp: clock_ok_def split: option.splits)

lemma clock_ok_disconnect:
  "clock_ok now s l \<Longrightarrow> is_startedAt s \<noteq> None \<Longrightarrow> clock_ok now s (onDisconnect l now)"
  by (auto simp: clock_ok_def onDisconnect_def lease_wf_def split: option.splits)

lemma clock_ok_reconnect:
  assumes "clock_ok now s l" and "onReconnect l now = (l', credited)"
  shows "clock_ok now s l'" and "clock_ok now (s\<lparr>is_pausedSeconds := is_pausedSeconds s + credited\<rparr>) l'"
    and "0 \<le> credited"
proof -
  have wf: "lease_wf l" using assms(1) by (simp add: clock_ok_def)
  have "lease_wf l'" using lease_wf_kept(2) [OF wf, of now] assms(2) by simp
  have "clock_ok now s l' \<and> clock_ok now (s\<lparr>is_pausedSeconds := is_pausedSeconds s + credited\<rparr>) l' \<and> 0 \<le> credited"
  proof (cases "le_disconnectedAt l")
    case None
    then have "l' = l" "credited = 0" using assms(2) wf by (auto simp: onReconnect_def lease_wf_def)
    then show ?thesis using assms(1) by simp
  next
    case (Some since)
    then have off: "\<not> le_connected l" using wf by (simp add: lease_wf_def)
    then have c: "credited = credit_for since now" and l': "le_disconnectedAt l' = None"
      using assms(2) Some by (auto simp: onReconnect_def Let_def)
    obtain t0 where t0: "is_startedAt s = Some (Some t0)" "t0 \<le> since" "since \<le> now" "t0 \<le> now"
        "of_int (is_pausedSeconds s) * 1000 \<le> since - t0"
      using assms(1) off Some by (auto simp: clock_ok_def split: option.splits)
    have "of_int (credit_for since now) \<le> (now - since) / 1000"
      using credit_below_downtime [of since now] t0(3) by (simp add: max_def field_simps split: if_splits)
    then show ?thesis using \<open>lease_wf l'\<close> t0 c l' by (simp add: clock_ok_def algebra_simps)
  qed
  then show "clock_ok now s l'" "clock_ok now (s\<lparr>is_pausedSeconds := is_pausedSeconds s + credited\<rparr>) l'" "0 \<le> credited"
    by blast+
qed

lemma clock_ok_start:
  "clock_ok now s l \<Longrightarrow>
   clock_ok now (s\<lparr>is_state := q, is_startedAt := Some (or_default (is_startedAt s) (Some now))\<rparr>) l"
  by (auto simp: clock_ok_def lease_wf_def split: option.splits)

lemma clock_ok_remaining:
  assumes "clock_ok now s l" and "is_endedAt s = None" and "is_expectedSeconds s = real n"
  shows "\<exists>r. session_remaining s now = Some r \<and> 0 \<le> r \<and> r \<le> real n"
proof (cases "is_startedAt s")
  case None
  then show ?thesis using assms(3) by (simp add: session_remaining_def)
next
  case (Some started)
  then obtain t0 where t0: "is_startedAt s = Some (Some t0)" "of_int (is_pausedSeconds s) * 1000 \<le> now - t0"
    using assms(1) by (cases started) (auto simp: clock_ok_def)
  let ?x = "(now - t0) / 1000 - of_int (is_pausedSeconds s)"
  have "0 \<le> ?x" using t0(2) by (simp add: field_simps)
  then have "math_round (real n - ?x) \<le> math_round (of_int (int n))" by (intro math_round_mono) simp
  then have "of_int (math_round (real n - ?x)) \<le> real n" unfolding math_round_of_int by linarith
  then show ?thesis
    using t0(1) assms(2,3) by (simp add: session_remaining_def Let_def)
qed

section \<open>Every route keeps the clock\<close>

lemma lease_of_put [simp]: "lease_of (put_lease sid l a) t = (if t = sid then l else lease_of a t)"
  by (simp add: lease_of_def put_lease_def)

lemma lease_of_life [simp]: "lease_of (a\<lparr>ap_life := lc\<rparr>) t = lease_of a t"
  by (simp add: lease_of_def)

lemma put_lease_sel [simp]: "ap_life (put_lease sid l a) = ap_life a" "ap_channel (put_lease sid l a) = ap_channel a"
  by (simp_all add: put_lease_def)

lemma write_event_store [simp]: "lc_store (fst (write_event h now s ty p k lc)) = lc_store lc"
  by (simp add: write_event_def split: sum.split prod.split)

lemma store_getD: "store_get st sid = Some s \<Longrightarrow> get_key (ss_sessions st) sid = Some s"
  by (simp add: store_get_def split: if_splits)

lemma clock_disconnected:
  assumes inv: "clock_inv (a, n)" and t: "n \<le> now"
    and started: "\<And>s. store_get (ap_store a) sid = Some s \<Longrightarrow> is_startedAt s \<noteq> None"
  shows "clock_inv (fst (route_disconnected h now sid a), now)"
proof (cases "store_get (ap_store a) sid")
  case None
  then show ?thesis using inv t by (auto simp: route_disconnected_def clock_inv_def intro: clock_ok_later)
next
  case (Some s)
  let ?a = "fst (route_disconnected h now sid a)"
  have store: "ap_store ?a = ap_store a" and lease: "lease_of ?a x = (if x = sid then onDisconnect (lease_of a sid) now else lease_of a x)"
    for x using Some by (simp_all add: route_disconnected_def Let_def)
  have "clock_ok now u (onDisconnect (lease_of a sid) now)" if "get_key (ss_sessions (ap_store a)) sid = Some u" "is_endedAt u = None" for u
  proof (rule clock_ok_disconnect)
    show "clock_ok now u (lease_of a sid)" using inv t that by (auto simp: clock_inv_def intro: clock_ok_later)
    show "is_startedAt u \<noteq> None" using started [OF Some] store_getD [OF Some] that by simp
  qed
  then show ?thesis using inv t by (auto simp: clock_inv_def store lease intro: clock_ok_later)
qed

lemma addPause_store:
  assumes "addPause sid c st = Inr (st', u)" and "store_get st sid = Some s"
  shows "st' = (if is_endedAt s = None then put_session st sid (s\<lparr>is_pausedSeconds := is_pausedSeconds s + c\<rparr>) else st)"
  using assms by (auto simp: addPause_def require_def Let_def split: if_splits)

lemma credit_session_store:
  assumes "store_get (lc_store lc) sid = Some s" and "is_id s = sid" and "is_endedAt s = None"
  shows "lc_store (fst (credit_session h now s l c lc)) \<in>
    {lc_store lc, put_session (lc_store lc) sid (s\<lparr>is_pausedSeconds := is_pausedSeconds s + c\<rparr>)}"
proof (cases "addPause sid c (lc_store lc)")
  case (Inl e)
  then show ?thesis using assms(2) by (simp add: credit_session_def life_then_def in_store_def)
next
  case (Inr x)
  obtain st' u where x: "x = (st', u)" by (cases x)
  have "st' = put_session (lc_store lc) sid (s\<lparr>is_pausedSeconds := is_pausedSeconds s + c\<rparr>)"
    using addPause_store [of sid c "lc_store lc" st' u s] Inr x assms by simp
  then show ?thesis using Inr x assms(2) by (simp add: credit_session_def life_then_def in_store_def)
qed

lemma credit_session_ended:
  assumes "store_get (lc_store lc) sid = Some s" and "is_id s = sid" and "is_endedAt s \<noteq> None"
  shows "lc_store (fst (credit_session h now s l c lc)) = lc_store lc"
  using assms by (simp add: credit_session_def life_then_def in_store_def addPause_def require_def)

lemma put_session_get [simp]:
  "get_key (ss_sessions (put_session st sid s)) x = (if x = sid then Some s else get_key (ss_sessions st) x)"
  by (simp add: put_session_def)

lemma clock_resumed:
  assumes inv: "clock_inv (a, n)" and wf: "store_wf (ap_store a)" and t: "n \<le> now"
  shows "clock_inv (fst (route_resume h now sid a), now)"
proof (cases "\<exists>s r. store_get (ap_store a) sid = Some s \<and> reconstruct (ap_log a) sid (is_state s) = Some r")
  case False
  then have "fst (route_resume h now sid a) = a" by (auto simp: route_resume_def split: option.splits)
  then show ?thesis using inv t by (auto simp: clock_inv_def intro: clock_ok_later)
next
  case True
  then obtain s r where s: "store_get (ap_store a) sid = Some s" "reconstruct (ap_log a) sid (is_state s) = Some r" by blast
  obtain l c where l: "onReconnect (lease_of a sid) now = (l, c)" by (cases "onReconnect (lease_of a sid) now")
  let ?a = "fst (route_resume h now sid a)"
  have store: "ap_store ?a = lc_store (fst (credit_session h now s l c (ap_life a)))"
    and lease: "lease_of ?a x = (if x = sid then l else lease_of a x)" for x
    using s l by (simp_all add: route_resume_def Let_def)
  have id: "is_id s = sid" using store_wfD [OF wf store_getD [OF s(1)]] by (simp add: session_ok_def)
  have ok: "clock_ok now u (lease_of a x)"
    if "get_key (ss_sessions (ap_store a)) x = Some u" "is_endedAt u = None" for u x
    using inv t that by (auto simp: clock_inv_def intro: clock_ok_later)
  show ?thesis
  proof (cases "is_endedAt s = None")
    case True
    note k = clock_ok_reconnect [OF ok [OF store_getD [OF s(1)] True] l]
    have "ap_store ?a \<in> {ap_store a, put_session (ap_store a) sid (s\<lparr>is_pausedSeconds := is_pausedSeconds s + c\<rparr>)}"
      unfolding store by (rule credit_session_store [OF s(1) id True])
    then show ?thesis using k ok store_getD [OF s(1)] by (auto simp: clock_inv_def lease)
  next
    case False
    have "ap_store ?a = ap_store a" unfolding store using credit_session_ended [OF s(1) id] False by simp
    then show ?thesis using ok store_getD [OF s(1)] False by (auto simp: clock_inv_def lease)
  qed
qed

lemma store_end_get:
  assumes "store_end sid now st = Inr (st', s)"
  shows "is_endedAt s \<noteq> None" and "get_key (ss_sessions st') x = (if x = sid then Some s else get_key (ss_sessions st) x)"
  using assms by (auto simp: store_end_def require_iff Let_def split: if_splits)

lemma finalize_effect:
  fixes a h now sid expected
  defines "b \<equiv> fst (finalizeSession h now sid expected a)"
  assumes "store_wf (ap_store a)"
  shows "(ap_store b = ap_store a \<and> (\<forall>x. lease_of b x = lease_of a x)) \<or>
    (\<exists>s. store_end sid (Some now) (ap_store a) = Inr (ap_store b, s) \<and> (\<forall>x. x \<noteq> sid \<longrightarrow> lease_of b x = lease_of a x))"
proof (cases "store_end sid (Some now) (ap_store a)")
  case (Inl e)
  then show ?thesis
    by (auto simp: b_def finalizeSession_def Let_def life_then_def in_store_def split: option.splits)
next
  case (Inr x)
  obtain st' s where x: "x = (st', s)" by (cases x)
  have e: "store_end sid (Some now) (ap_store a) = Inr (st', s)" using Inr x by simp
  have "store_wf st'" using session_op_wf e assms(2) by blast
  then have id: "is_id s = sid" using store_wfD store_end_get(2) [OF e, of sid] by (auto simp: session_ok_def)
  show ?thesis
  proof (cases "store_get (ap_store a) sid = None \<or> latestClientSeq (ap_log a) sid < expected")
    case True
    then have "b = a" by (auto simp: b_def finalizeSession_def split: option.splits)
    then show ?thesis by simp
  next
    case False
    then have "ap_store b = st'" "\<forall>x. x \<noteq> sid \<longrightarrow> lease_of b x = lease_of a x"
      using e id unfolding b_def finalizeSession_def
      by (auto simp: Let_def life_then_def in_store_def write_event_def lease_of_def
          split: option.splits sum.splits prod.splits)
    then show ?thesis using e by blast
  qed
qed

lemma clock_finalized:
  assumes inv: "clock_inv (a, n)" and wf: "store_wf (ap_store a)" and t: "n \<le> now"
  shows "clock_inv (fst (finalizeSession h now sid expected a), now)"
  using finalize_effect [OF wf, of h now sid expected]
proof
  assume "ap_store (fst (finalizeSession h now sid expected a)) = ap_store a \<and>
    (\<forall>x. lease_of (fst (finalizeSession h now sid expected a)) x = lease_of a x)"
  then show ?thesis using inv t by (auto simp: clock_inv_def intro: clock_ok_later)
next
  assume "\<exists>s. store_end sid (Some now) (ap_store a) = Inr (ap_store (fst (finalizeSession h now sid expected a)), s) \<and>
    (\<forall>x. x \<noteq> sid \<longrightarrow> lease_of (fst (finalizeSession h now sid expected a)) x = lease_of a x)"
  then obtain s where s: "store_end sid (Some now) (ap_store a) = Inr (ap_store (fst (finalizeSession h now sid expected a)), s)"
    "\<forall>x. x \<noteq> sid \<longrightarrow> lease_of (fst (finalizeSession h now sid expected a)) x = lease_of a x" by blast
  show ?thesis
    using inv t s(2) store_end_get [OF s(1)] by (auto simp: clock_inv_def intro: clock_ok_later split: if_splits)
qed

lemma finalize_wf: "store_wf (ap_store a) \<Longrightarrow> store_wf (ap_store (fst (finalizeSession h now sid expected a)))"
  using finalize_effect [of a h now sid expected] session_op_wf by metis

lemma clock_swept:
  assumes "clock_inv (a, n)" and "store_wf (ap_store a)" and "n \<le> now"
  shows "clock_inv (sweep h now a, now) \<and> store_wf (ap_store (sweep h now a))"
proof -
  have "clock_inv (fold (\<lambda>sid a. fst (finalizeSession h now sid (-1) a)) ids a, now) \<and>
      store_wf (ap_store (fold (\<lambda>sid a. fst (finalizeSession h now sid (-1) a)) ids a))"
    if "clock_inv (a, now)" "store_wf (ap_store a)" for ids a
    using that by (induction ids arbitrary: a) (simp_all add: clock_finalized finalize_wf)
  moreover have "clock_inv (a, now)" using assms(1,3) by (auto simp: clock_inv_def intro: clock_ok_later)
  ultimately show ?thesis using assms(2) unfolding sweep_def by blast
qed

lemma clock_transition:
  assumes inv: "clock_inv (a, n)" and t: "n \<le> now"
  shows "clock_inv (fst (on_transition now sid q a), now)"
proof (cases "store_transition sid q (Some now) (ap_store a)")
  case (Inl e)
  then show ?thesis using inv t
    by (auto simp: on_transition_def in_store_def clock_inv_def intro: clock_ok_later)
next
  case (Inr x)
  obtain st' s where x: "x = (st', s)" by (cases x)
  have e: "store_transition sid q (Some now) (ap_store a) = Inr (st', s)" using Inr x by simp
  then obtain s0 where s0: "get_key (ss_sessions (ap_store a)) sid = Some s0"
    and st': "st' = (if is_endedAt s0 = None then put_session (ap_store a) sid
        (s0\<lparr>is_state := q, is_startedAt := Some (or_default (is_startedAt s0) (Some now))\<rparr>) else ap_store a)"
    by (auto simp: store_transition_def require_iff Let_def split: if_splits)
  have "clock_ok now u (lease_of a y)"
    if "get_key (ss_sessions (ap_store a)) y = Some u" "is_endedAt u = None" for u y
    using inv t that by (auto simp: clock_inv_def intro: clock_ok_later)
  then show ?thesis using e s0 st'
    by (auto simp: on_transition_def in_store_def clock_inv_def clock_ok_start split: if_splits)
qed

lemma client_frame_store [simp]:
  "ap_store (fst (client_frame h now raw a)) = ap_store a" "lease_of (fst (client_frame h now raw a)) x = lease_of a x"
  by (simp_all add: client_frame_def lease_of_def split: sum.split prod.split)

text \<open>Requests at times that do not go back; a drop is reported once the interview has started.\<close>

inductive clock_step :: "hashing \<Rightarrow> api \<times> real \<Rightarrow> api \<times> real \<Rightarrow> bool" for h where
  disconnected: "n \<le> now \<Longrightarrow> (\<And>s. store_get (ap_store a) sid = Some s \<Longrightarrow> is_startedAt s \<noteq> None) \<Longrightarrow>
    clock_step h (a, n) (fst (route_disconnected h now sid a), now)"
| resumed: "n \<le> now \<Longrightarrow> clock_step h (a, n) (fst (route_resume h now sid a), now)"
| finalized: "n \<le> now \<Longrightarrow> clock_step h (a, n) (fst (finalizeSession h now sid expected a), now)"
| swept: "n \<le> now \<Longrightarrow> clock_step h (a, n) (sweep h now a, now)"
| transition: "n \<le> now \<Longrightarrow> clock_step h (a, n) (fst (on_transition now sid q a), now)"
| frame: "n \<le> now \<Longrightarrow> clock_step h (a, n) (fst (client_frame h now raw a), now)"

definition clock_wf :: "api \<times> real \<Rightarrow> bool" where
  "clock_wf x \<longleftrightarrow> clock_inv x \<and> store_wf (ap_store (fst x))"

lemma credit_session_wf: "store_wf (lc_store lc) \<Longrightarrow> store_wf (lc_store (fst (credit_session h now s l c lc)))"
  using session_op_wf by (auto simp: credit_session_def life_then_def in_store_def split: sum.splits prod.splits) blast

lemma resumed_wf: "store_wf (ap_store a) \<Longrightarrow> store_wf (ap_store (fst (route_resume h now sid a)))"
  by (auto simp: route_resume_def Let_def split: option.split prod.split intro: credit_session_wf)

lemma disconnected_store [simp]: "ap_store (fst (route_disconnected h now sid a)) = ap_store a"
  by (simp add: route_disconnected_def Let_def split: option.split)

lemma transition_wf: "store_wf (ap_store a) \<Longrightarrow> store_wf (ap_store (fst (on_transition now sid q a)))"
  using session_op_wf by (auto simp: on_transition_def in_store_def split: sum.splits prod.splits) blast

lemma clock_step_wf: "clock_step h x y \<Longrightarrow> clock_wf x \<Longrightarrow> clock_wf y"
proof (induction rule: clock_step.induct)
  case (disconnected n now a sid)
  then show ?case using clock_disconnected unfolding clock_wf_def by fastforce
next
  case (frame n now a raw)
  then show ?case by (auto simp: clock_wf_def clock_inv_def intro: clock_ok_later)
qed (auto simp: clock_wf_def resumed_wf finalize_wf transition_wf
    intro: clock_resumed clock_finalized clock_transition clock_swept [THEN conjunct1] clock_swept [THEN conjunct2])

interpretation clock_kept: kept_by_steps "clock_step h" clock_wf
  by unfold_locales (rule clock_step_wf)

section \<open>A drop before the start\<close>

text \<open>
  Nothing asks of a drop that the interview has started: one that begins and ends before the start is
  credited too, and the credit is there when the clock starts.
\<close>

lemma early_drop_credited:
  assumes s: "store_get (ap_store a) sid = Some s" "is_id s = sid" "is_startedAt s = None" "is_endedAt s = None"
    and lease: "lease_of a sid = newLease"
    and log: "reconstruct (ap_log (fst (route_disconnected h t sid a))) sid (is_state s) \<noteq> None"
  shows "store_get (ap_store (fst (route_resume h (t + 3600000) sid (fst (route_disconnected h t sid a))))) sid =
    Some (s\<lparr>is_pausedSeconds := is_pausedSeconds s + 3590\<rparr>)"
proof -
  let ?b = "fst (route_disconnected h t sid a)"
  have st: "store_get (ap_store ?b) sid = Some s" using s(1) by simp
  have "lease_of ?b sid = onDisconnect newLease t" using s(1) lease by (simp add: route_disconnected_def Let_def)
  moreover have "credit_for t (t + 3600000) = 3590"
    using math_round_of_int [of 3600] by (simp add: credit_for_def GRACE_SECONDS_def)
  ultimately obtain l where l: "onReconnect (lease_of ?b sid) (t + 3600000) = (l, 3590)"
    by (simp add: onDisconnect_def newLease_def onReconnect_def Let_def)
  have p: "addPause sid 3590 (ap_store ?b) =
      Inr (put_session (ap_store ?b) sid (s\<lparr>is_pausedSeconds := is_pausedSeconds s + 3590\<rparr>),
        s\<lparr>is_pausedSeconds := is_pausedSeconds s + 3590\<rparr>)"
    using st s(4) by (simp add: addPause_def require_def MAX_PAUSE_def Let_def)
  have g: "store_get (put_session (ap_store ?b) sid u) sid = Some u" for u
    using st by (simp add: store_get_def deleted_def put_session_def split: if_splits)
  obtain r where "reconstruct (ap_log ?b) sid (is_state s) = Some r" using log by blast
  then show ?thesis
    using st l p g s(2) by (simp add: route_resume_def Let_def credit_session_def life_then_def in_store_def)
qed

lemma early_drop_extends:
  assumes "store_get (ap_store a) sid = Some s" and "is_startedAt s = None" and "is_endedAt s = None"
    and "0 \<le> is_pausedSeconds s" and "is_expectedSeconds s = real n"
  shows "\<exists>u. store_get (ap_store (fst (on_transition now sid q a))) sid = Some u \<and>
    session_remaining u now = Some (real n + of_int (is_pausedSeconds s))"
proof -
  let ?u = "s\<lparr>is_state := q, is_startedAt := Some (Some now)\<rparr>"
  have "store_transition sid q (Some now) (ap_store a) = Inr (put_session (ap_store a) sid ?u, ?u)"
    using assms by (simp add: store_transition_def require_def Let_def)
  then have "ap_store (fst (on_transition now sid q a)) = put_session (ap_store a) sid ?u"
    by (simp add: on_transition_def in_store_def)
  moreover have "store_get (put_session (ap_store a) sid ?u) sid = Some ?u"
    using assms(1) by (simp add: store_get_def deleted_def put_session_def split: if_splits)
  moreover have "session_remaining ?u now = Some (real n + of_int (is_pausedSeconds s))"
    using assms(3,4,5) math_round_of_int [of "int n + is_pausedSeconds s"]
    by (simp add: session_remaining_def Let_def)
  ultimately show ?thesis by auto
qed

end
