(* ===== verification/Evidence.thy ===== *)
theory Evidence
  imports Contracts Keyed_Maps
begin

text \<open>
  \<open>report/evidence.ts\<close> and \<open>report/rubric.ts\<close>: the facts that the evaluator reads off the log of a
  session, the moments it can cite, and the rubric. Summaries are constructors instead of English
  sentences. The result of a run is read without validation, as the code's cast does: a status that
  is not a string throws.
\<close>

section \<open>The rubric\<close>

datatype rubric_dimension =
    ProblemUnderstanding | Approach | Correctness | ComplexityReasoning | Testing | Communication | Adaptability

definition RUBRIC_DIMENSIONS :: "rubric_dimension list" where
  "RUBRIC_DIMENSIONS =
     [ProblemUnderstanding, Approach, Correctness, ComplexityReasoning, Testing, Communication, Adaptability]"

record dimension_spec =
  ds_key :: rubric_dimension
  ds_label :: string
  ds_weight :: real
  ds_evidenceFrom :: "event_type list"

record rubric =
  rb_id :: string
  rb_version :: nat
  rb_dimensions :: "dimension_spec list"

definition CODING_RUBRIC_V1 :: rubric where
  "CODING_RUBRIC_V1 = \<lparr>rb_id = ''rubric-coding-v1'', rb_version = 1, rb_dimensions = [
     \<lparr>ds_key = ProblemUnderstanding, ds_label = ''Problem understanding'', ds_weight = 15 / 100,
       ds_evidenceFrom = [CLARIFICATION_ANSWERED, SPEECH_FINAL]\<rparr>,
     \<lparr>ds_key = Approach, ds_label = ''Approach and algorithm'', ds_weight = 25 / 100,
       ds_evidenceFrom = [SEMANTIC_SNAPSHOT, SPEECH_FINAL, PROBE_ASKED]\<rparr>,
     \<lparr>ds_key = Correctness, ds_label = ''Correctness and implementation'', ds_weight = 25 / 100,
       ds_evidenceFrom = [RUN_COMPLETED, MILESTONE]\<rparr>,
     \<lparr>ds_key = ComplexityReasoning, ds_label = ''Complexity reasoning'', ds_weight = 10 / 100,
       ds_evidenceFrom = [SPEECH_FINAL, PROBE_ASKED, MILESTONE]\<rparr>,
     \<lparr>ds_key = Testing, ds_label = ''Testing and verification'', ds_weight = 10 / 100,
       ds_evidenceFrom = [RUN_REQUESTED, RUN_COMPLETED]\<rparr>,
     \<lparr>ds_key = Communication, ds_label = ''Technical communication'', ds_weight = 10 / 100,
       ds_evidenceFrom = [SPEECH_FINAL]\<rparr>,
     \<lparr>ds_key = Adaptability, ds_label = ''Adaptability and follow-up'', ds_weight = 5 / 100,
       ds_evidenceFrom = [FOLLOW_UP_PRESENTED, SPEECH_FINAL, SEMANTIC_SNAPSHOT]\<rparr>]\<rparr>"

definition rubricById :: "string \<Rightarrow> rubric result" where
  "rubricById rid = (if rid \<noteq> rb_id CODING_RUBRIC_V1 then Inl (JsError ''Unknown rubric'') else Inr CODING_RUBRIC_V1)"

text \<open>\<open>Number(x.toFixed(4))\<close>.\<close>

definition to_fixed4 :: "real \<Rightarrow> real" where
  "to_fixed4 x = of_int (floor (x * 10000 + 1 / 2)) / 10000"

definition weightSum :: "rubric \<Rightarrow> real" where
  "weightSum rb = to_fixed4 (fold (\<lambda>d total. total + ds_weight d) (rb_dimensions rb) 0)"

lemma rubric_keys: "map ds_key (rb_dimensions CODING_RUBRIC_V1) = RUBRIC_DIMENSIONS"
  by (simp add: CODING_RUBRIC_V1_def RUBRIC_DIMENSIONS_def)

lemma coding_weights: "weightSum CODING_RUBRIC_V1 = 1"
  by (simp add: weightSum_def CODING_RUBRIC_V1_def to_fixed4_def)

section \<open>Facts and moments\<close>

datatype moment_summary =
    AskedAbout "string option"
  | InterviewerProbed "string option"
  | HintGivenAt "real option"
  | FollowUpShown "string option"
  | RunEnded string "json option"
  | ReachedMilestone string
  | Quoted string

record evidence_moment =
  em_seq :: nat
  em_occurredAt :: instant
  em_kind :: string
  em_summary :: moment_summary
  em_evidenceHash :: string
  em_codeRevision :: "json option"

text \<open>A run as it lies in the log: the two fields that are read.\<close>

record run_fact =
  rf_status :: string
  rf_codeRevision :: "json option"

record session_facts =
  sf_sessionId :: string
  sf_scenarioVersionId :: string
  sf_clarificationsAsked :: nat
  sf_clarificationFactKeys :: "string list"
  sf_probesAsked :: "string list"
  sf_hintsGiven :: "real list"
  sf_followUpsPresented :: "string list"
  sf_runs :: "run_fact list"
  sf_firstPassSeq :: "nat option"
  sf_milestonesReached :: "string list"
  sf_durationSeconds :: "real option"
  sf_finalCodeRevision :: real
  sf_moments :: "evidence_moment list"

definition moment_of :: "session_event \<Rightarrow> string \<Rightarrow> moment_summary \<Rightarrow> json option \<Rightarrow> evidence_moment" where
  "moment_of e kind summary revision = \<lparr>em_seq = seq e, em_occurredAt = occurredAt e, em_kind = kind,
     em_summary = summary, em_evidenceHash = evidenceHash e, em_codeRevision = revision\<rparr>"

definition add_moment :: "evidence_moment \<Rightarrow> session_facts \<Rightarrow> session_facts" where
  "add_moment m f = f\<lparr>sf_moments := sf_moments f @ [m]\<rparr>"

definition push_truthy :: "string option \<Rightarrow> string list \<Rightarrow> string list" where
  "push_truthy v xs = (if truthy v then xs @ [the v] else xs)"

definition or_else :: "'a option \<Rightarrow> 'a option \<Rightarrow> 'a option" where
  "or_else u v = (case u of None \<Rightarrow> v | Some x \<Rightarrow> Some x)"

text \<open>The body of the loop of \<open>extractFacts\<close>.\<close>

definition collect_fact :: "session_event \<Rightarrow> session_facts \<Rightarrow> session_facts result" where
  "collect_fact e f =
     (let p = get_key (payload e)
      in case etype e of
        CLARIFICATION_ANSWERED \<Rightarrow>
          (let key = stringOf (p ''factKey'')
           in Inr (add_moment (moment_of e ''clarification'' (AskedAbout key) None)
                (f\<lparr>sf_clarificationsAsked := sf_clarificationsAsked f + 1,
                   sf_clarificationFactKeys := push_truthy key (sf_clarificationFactKeys f)\<rparr>)))
      | PROBE_ASKED \<Rightarrow>
          (let pid = stringOf (p ''probeId'')
           in Inr (add_moment (moment_of e ''probe'' (InterviewerProbed (or_else (stringOf (p ''intent'')) pid)) None)
                (f\<lparr>sf_probesAsked := push_truthy pid (sf_probesAsked f)\<rparr>)))
      | HINT_GIVEN \<Rightarrow>
          (let level = numberOf (p ''level'')
           in Inr (add_moment (moment_of e ''hint'' (HintGivenAt level) None)
                (f\<lparr>sf_hintsGiven := (case level of None \<Rightarrow> sf_hintsGiven f | Some n \<Rightarrow> sf_hintsGiven f @ [n])\<rparr>)))
      | FOLLOW_UP_PRESENTED \<Rightarrow>
          (let fid = stringOf (p ''followUpId'')
           in Inr (add_moment (moment_of e ''follow-up'' (FollowUpShown fid) None)
                (f\<lparr>sf_followUpsPresented := push_truthy fid (sf_followUpsPresented f)\<rparr>)))
      | RUN_COMPLETED \<Rightarrow>
          (case stringOf (p ''status'') of
             None \<Rightarrow> Inl (JsError ''TypeError'')
           | Some st \<Rightarrow>
               (let r = \<lparr>rf_status = st, rf_codeRevision = p ''codeRevision''\<rparr>
                in Inr (add_moment (moment_of e ''run'' (RunEnded st (p ''codeRevision'')) (p ''codeRevision''))
                     (f\<lparr>sf_runs := sf_runs f @ [r],
                        sf_firstPassSeq :=
                          (if st = ''PASSED'' \<and> sf_firstPassSeq f = None then Some (seq e) else sf_firstPassSeq f)\<rparr>))))
      | MILESTONE \<Rightarrow>
          (let kind = stringOf (p ''kind'')
           in if truthy kind
              then Inr (add_moment (moment_of e ''milestone'' (ReachedMilestone (the kind)) None)
                     (f\<lparr>sf_milestonesReached :=
                          (if the kind \<in> set (sf_milestonesReached f) then sf_milestonesReached f
                           else sf_milestonesReached f @ [the kind])\<rparr>))
              else Inr f)
      | CODE_DELTA \<Rightarrow>
          (case numberOf (p ''revision'') of
             None \<Rightarrow> Inr f
           | Some n \<Rightarrow> Inr (f\<lparr>sf_finalCodeRevision := max (sf_finalCodeRevision f) n\<rparr>))
      | SPEECH_FINAL \<Rightarrow>
          (case stringOf (p ''transcript'') of
             None \<Rightarrow> Inr f
           | Some s \<Rightarrow> if length s > 12 then Inr (add_moment (moment_of e ''said'' (Quoted s) None) f) else Inr f)
      | _ \<Rightarrow> Inr f)"

fun collect_facts :: "session_event list \<Rightarrow> session_facts \<Rightarrow> session_facts result" where
  "collect_facts [] f = Inr f"
| "collect_facts (e # es) f = then_do (collect_fact e f) (collect_facts es)"

text \<open>\<open>Math.max(0, NaN)\<close> is \<open>NaN\<close>.\<close>

definition elapsed_seconds :: "session_event list \<Rightarrow> real option" where
  "elapsed_seconds es =
     (if es = [] then Some 0
      else (case (occurredAt (last es), occurredAt (hd es)) of
              (Some b, Some a) \<Rightarrow> Some (max 0 ((b - a) / 1000))
            | _ \<Rightarrow> None))"

definition no_facts :: "session_event list \<Rightarrow> session_facts" where
  "no_facts es = \<lparr>
     sf_sessionId = (if es = [] then [] else sessionId (hd es)),
     sf_scenarioVersionId = (if es = [] then [] else scenarioVersionId (hd es)),
     sf_clarificationsAsked = 0, sf_clarificationFactKeys = [], sf_probesAsked = [], sf_hintsGiven = [],
     sf_followUpsPresented = [], sf_runs = [], sf_firstPassSeq = None, sf_milestonesReached = [],
     sf_durationSeconds = elapsed_seconds es, sf_finalCodeRevision = 0, sf_moments = []\<rparr>"

definition extractFacts :: "session_event list \<Rightarrow> session_facts result" where
  "extractFacts es = collect_facts es (no_facts es)"

fun kinds_for :: "rubric_dimension \<Rightarrow> string list" where
  "kinds_for ProblemUnderstanding = [''clarification'', ''said'']"
| "kinds_for Approach = [''said'', ''probe'']"
| "kinds_for Correctness = [''run'', ''milestone'']"
| "kinds_for ComplexityReasoning = [''said'', ''probe'']"
| "kinds_for Testing = [''run'']"
| "kinds_for Communication = [''said'']"
| "kinds_for Adaptability = [''follow-up'', ''probe'', ''run'']"

text \<open>\<open>xs.slice(-n)\<close>; for \<open>n = 0\<close> that is all of \<open>xs\<close>.\<close>

definition slice_last :: "nat \<Rightarrow> 'a list \<Rightarrow> 'a list" where
  "slice_last n xs = (if n = 0 then xs else drop (length xs - n) xs)"

definition momentsFor :: "session_facts \<Rightarrow> rubric_dimension \<Rightarrow> nat \<Rightarrow> evidence_moment list" where
  "momentsFor f d limit = rev (slice_last limit (filter (\<lambda>m. em_kind m \<in> set (kinds_for d)) (sf_moments f)))"

section \<open>What the loop computes\<close>

text \<open>The facts an event stands for, each read off the event alone.\<close>

definition events_of :: "event_type \<Rightarrow> session_event list \<Rightarrow> session_event list" where
  "events_of ty es = filter (\<lambda>e. etype e = ty) es"

lemma events_of_simps [simp]:
  "events_of ty [] = []" "events_of ty (e # es) = (if etype e = ty then e # events_of ty es else events_of ty es)"
  by (simp_all add: events_of_def)

definition string_field :: "string \<Rightarrow> session_event \<Rightarrow> string option" where
  "string_field k e = stringOf (get_key (payload e) k)"

definition number_field :: "string \<Rightarrow> session_event \<Rightarrow> real option" where
  "number_field k e = numberOf (get_key (payload e) k)"

definition truthy_fields :: "string \<Rightarrow> session_event list \<Rightarrow> string list" where
  "truthy_fields k es = map the (filter truthy (map (string_field k) es))"

definition run_ok :: "session_event \<Rightarrow> bool" where
  "run_ok e \<longleftrightarrow> (etype e = RUN_COMPLETED \<longrightarrow> string_field ''status'' e \<noteq> None)"

definition passing :: "session_event \<Rightarrow> bool" where
  "passing e \<longleftrightarrow> etype e = RUN_COMPLETED \<and> string_field ''status'' e = Some ''PASSED''"

definition cited :: "session_event \<Rightarrow> evidence_moment list" where
  "cited e = (case etype e of
       CLARIFICATION_ANSWERED \<Rightarrow> [moment_of e ''clarification'' (AskedAbout (string_field ''factKey'' e)) None]
     | PROBE_ASKED \<Rightarrow>
         [moment_of e ''probe'' (InterviewerProbed (or_else (string_field ''intent'' e) (string_field ''probeId'' e))) None]
     | HINT_GIVEN \<Rightarrow> [moment_of e ''hint'' (HintGivenAt (number_field ''level'' e)) None]
     | FOLLOW_UP_PRESENTED \<Rightarrow> [moment_of e ''follow-up'' (FollowUpShown (string_field ''followUpId'' e)) None]
     | RUN_COMPLETED \<Rightarrow>
         [moment_of e ''run'' (RunEnded (the (string_field ''status'' e)) (get_key (payload e) ''codeRevision''))
            (get_key (payload e) ''codeRevision'')]
     | MILESTONE \<Rightarrow>
         (case string_field ''kind'' e of
            Some k \<Rightarrow> if k = [] then [] else [moment_of e ''milestone'' (ReachedMilestone k) None] | None \<Rightarrow> [])
     | SPEECH_FINAL \<Rightarrow>
         (case string_field ''transcript'' e of
            Some s \<Rightarrow> if length s > 12 then [moment_of e ''said'' (Quoted s) None] else [] | None \<Rightarrow> [])
     | _ \<Rightarrow> [])"

text \<open>An event that throws is a run without a status; nothing else does.\<close>

lemma collect_fact_error: "collect_fact e f = Inl x \<longleftrightarrow> \<not> run_ok e \<and> x = JsError ''TypeError''"
  by (auto simp: collect_fact_def run_ok_def string_field_def Let_def split: event_type.splits option.splits)

text \<open>The rest of the loop is a fold of this function.\<close>

definition add_fact :: "session_event \<Rightarrow> session_facts \<Rightarrow> session_facts" where
  "add_fact e f = (case collect_fact e f of Inr f' \<Rightarrow> f' | Inl _ \<Rightarrow> f)"

lemma collect_fact_ok: "run_ok e \<Longrightarrow> collect_fact e f = Inr (add_fact e f)"
  using collect_fact_error by (auto simp: add_fact_def split: sum.splits)

lemma collect_facts_iff:
  "collect_facts es f = (if \<forall>e\<in>set es. run_ok e then Inr (fold add_fact es f) else Inl (JsError ''TypeError''))"
proof (induction es arbitrary: f)
  case (Cons e es)
  show ?case
  proof (cases "run_ok e")
    case True
    then show ?thesis using Cons by (simp add: collect_fact_ok)
  next
    case False
    then have "collect_fact e f = Inl (JsError ''TypeError'')" using collect_fact_error by blast
    then show ?thesis using False by simp
  qed
qed simp

lemma extractFacts_iff:
  "extractFacts es = (if \<forall>e\<in>set es. run_ok e then Inr (fold add_fact es (no_facts es)) else Inl (JsError ''TypeError''))"
  by (simp add: extractFacts_def collect_facts_iff)

lemmas fact_defs = add_fact_def collect_fact_def add_moment_def push_truthy_def Let_def

text \<open>One lemma per field: what one event adds to it.\<close>

lemma add_fact_clarifications [simp]:
  "sf_clarificationsAsked (add_fact e f) = sf_clarificationsAsked f + (if etype e = CLARIFICATION_ANSWERED then 1 else 0)"
  by (simp add: fact_defs split: event_type.split option.split)

lemma add_fact_keys [simp]:
  "sf_clarificationFactKeys (add_fact e f) =
     sf_clarificationFactKeys f @ truthy_fields ''factKey'' (events_of CLARIFICATION_ANSWERED [e])"
  by (simp add: fact_defs truthy_fields_def string_field_def split: event_type.split option.split)

lemma add_fact_probes [simp]:
  "sf_probesAsked (add_fact e f) = sf_probesAsked f @ truthy_fields ''probeId'' (events_of PROBE_ASKED [e])"
  by (simp add: fact_defs truthy_fields_def string_field_def split: event_type.split option.split)

lemma add_fact_followups [simp]:
  "sf_followUpsPresented (add_fact e f) =
     sf_followUpsPresented f @ truthy_fields ''followUpId'' (events_of FOLLOW_UP_PRESENTED [e])"
  by (simp add: fact_defs truthy_fields_def string_field_def split: event_type.split option.split)

lemma add_fact_hints [simp]:
  "sf_hintsGiven (add_fact e f) = sf_hintsGiven f @ List.map_filter (number_field ''level'') (events_of HINT_GIVEN [e])"
  by (simp add: fact_defs number_field_def List.map_filter_def split: event_type.split option.split)

lemma add_fact_runs [simp]:
  "run_ok e \<Longrightarrow> map rf_status (sf_runs (add_fact e f)) =
     map rf_status (sf_runs f) @ map (\<lambda>e. the (string_field ''status'' e)) (events_of RUN_COMPLETED [e])"
  by (auto simp: fact_defs run_ok_def string_field_def split: event_type.split option.split)

lemma add_fact_pass [simp]:
  "sf_firstPassSeq (add_fact e f) =
     (if sf_firstPassSeq f = None \<and> passing e then Some (seq e) else sf_firstPassSeq f)"
  by (auto simp: fact_defs passing_def string_field_def split: event_type.split option.split)

lemma add_fact_milestones [simp]:
  "sf_milestonesReached (add_fact e f) = sf_milestonesReached f @
     filter (\<lambda>k. k \<notin> set (sf_milestonesReached f)) (truthy_fields ''kind'' (events_of MILESTONE [e]))"
  by (auto simp: fact_defs truthy_fields_def string_field_def split: event_type.split option.split)

lemma add_fact_revision [simp]:
  "sf_finalCodeRevision (add_fact e f) =
     fold max (List.map_filter (number_field ''revision'') (events_of CODE_DELTA [e])) (sf_finalCodeRevision f)"
  by (simp add: fact_defs number_field_def List.map_filter_def max.commute split: event_type.split option.split)

lemma add_fact_moments [simp]: "run_ok e \<Longrightarrow> sf_moments (add_fact e f) = sf_moments f @ cited e"
  by (auto simp: fact_defs cited_def run_ok_def string_field_def number_field_def split: event_type.split option.split)

lemma add_fact_frame [simp]:
  "sf_sessionId (add_fact e f) = sf_sessionId f" "sf_scenarioVersionId (add_fact e f) = sf_scenarioVersionId f"
  "sf_durationSeconds (add_fact e f) = sf_durationSeconds f"
  by (simp_all add: fact_defs split: event_type.split option.split)

end
