(* ===== verification/Evaluator.thy ===== *)
theory Evaluator
  imports Evidence
begin

text \<open>
  \<open>BaselineEvaluator\<close> of \<open>report/evaluator.ts\<close>: scores per dimension of the rubric, the weighted total,
  what was missed and the drills. English sentences are constructors. Numbers are exact, so
  \<open>4 - 3 * 0.3\<close> is 31/10 here where the code's doubles differ in the last bit.
\<close>

datatype rationale =
    NoClarifyingQuestion
  | ClarifyingQuestions nat nat
  | ApproachNotDemonstrated
  | WorkingApproach nat
  | NothingExecuted
  | CheckerPassedAfter nat
  | NothingPassed nat
  | ComplexityChallenged
  | NoComplexityClaim
  | NeverRan
  | RanTimes nat
  | NoTranscript
  | SpokenMoments nat
  | NoFollowUpReached
  | FollowUpsHandled nat

record judgement =
  jd_score :: real
  jd_confidence :: real
  jd_rationale :: rationale

record dimension_score =
  sc_dimension :: rubric_dimension
  sc_score :: real
  sc_confidence :: real
  sc_rationale :: rationale
  sc_evidence :: "evidence_moment list"

datatype missed_opportunity =
    AskedNothing | NeverExecuted | NoPassingRun | SameFailureRepeated | ReliedOnHints nat

datatype drill =
    StateThreeAssumptions | NarrateDecisions | NameTheInvariant | SolveTwoMore | ThreeEdgeCases | FailingCaseFirst

record drill_set =
  dr_communication :: drill
  dr_algorithmic :: drill
  dr_testing :: drill

record session_report =
  sr_sessionId :: string
  sr_scenarioVersionId :: string
  sr_rubricId :: string
  sr_rubricVersion :: nat
  sr_generatedAt :: instant
  sr_overall :: real
  sr_dimensions :: "dimension_score list"
  sr_hintsUsed :: "real list"
  sr_probesAsked :: "string list"
  sr_missed :: "missed_opportunity list"
  sr_drills :: drill_set

definition MIN_SCORE :: real where "MIN_SCORE = 1"
definition MAX_SCORE :: real where "MAX_SCORE = 4"

definition clamp_score :: "real \<Rightarrow> real" where
  "clamp_score n = max MIN_SCORE (min MAX_SCORE n)"

definition has_passed :: "session_facts \<Rightarrow> bool" where
  "has_passed f \<longleftrightarrow> ''BASE_TESTS_PASS'' \<in> set (sf_milestonesReached f) \<or> sf_firstPassSeq f \<noteq> None"

definition failed_runs :: "session_facts \<Rightarrow> nat" where
  "failed_runs f = length (filter (\<lambda>r. rf_status r \<noteq> ''PASSED'') (sf_runs f))"

definition judgement :: "real \<Rightarrow> real \<Rightarrow> rationale \<Rightarrow> judgement" where
  "judgement s c r = \<lparr>jd_score = s, jd_confidence = c, jd_rationale = r\<rparr>"

fun judge_dimension :: "rubric_dimension \<Rightarrow> session_facts \<Rightarrow> nat \<Rightarrow> judgement" where
  "judge_dimension ProblemUnderstanding f n =
     (let asked = sf_clarificationsAsked f
      in if asked = 0 then judgement (3 / 2) (7 / 10) NoClarifyingQuestion
         else judgement (if asked \<ge> 3 then 7 / 2 else 5 / 2) (6 / 10)
                (ClarifyingQuestions asked (length (sf_clarificationFactKeys f))))"
| "judge_dimension Approach f n =
     (if \<not> has_passed f then judgement 2 (5 / 10) ApproachNotDemonstrated
      else judgement (clamp_score (7 / 2 - real (length (sf_hintsGiven f)) * (4 / 10))) (6 / 10)
             (WorkingApproach (length (sf_hintsGiven f))))"
| "judge_dimension Correctness f n =
     (if sf_runs f = [] then judgement 1 (4 / 10) NothingExecuted
      else judgement (if has_passed f then clamp_score (4 - real (failed_runs f) * (3 / 10)) else 3 / 2) (55 / 100)
             (if has_passed f then CheckerPassedAfter (failed_runs f) else NothingPassed (length (sf_runs f))))"
| "judge_dimension ComplexityReasoning f n =
     (let probed = ''complexity_claim'' \<in> set (sf_probesAsked f)
      in judgement (if probed then 2 else 5 / 2) (25 / 100) (if probed then ComplexityChallenged else NoComplexityClaim))"
| "judge_dimension Testing f n =
     (let runs = length (sf_runs f)
      in if runs = 0 then judgement 1 (8 / 10) NeverRan
         else judgement (if runs \<ge> 3 then 7 / 2 else 5 / 2) (7 / 10) (RanTimes runs))"
| "judge_dimension Communication f n =
     (if n = 0 then judgement 2 (1 / 10) NoTranscript else judgement (5 / 2) (2 / 10) (SpokenMoments n))"
| "judge_dimension Adaptability f n =
     (if sf_followUpsPresented f = [] then judgement 2 (3 / 10) NoFollowUpReached
      else judgement 3 (5 / 10) (FollowUpsHandled (length (sf_followUpsPresented f))))"

definition EVIDENCE_LIMIT :: nat where "EVIDENCE_LIMIT = 4"

definition scoreDimension :: "session_facts \<Rightarrow> rubric_dimension \<Rightarrow> dimension_score" where
  "scoreDimension f d =
     (let evidence = momentsFor f d EVIDENCE_LIMIT;
          j = judge_dimension d f (length evidence)
      in \<lparr>sc_dimension = d, sc_score = clamp_score (jd_score j), sc_confidence = jd_confidence j,
          sc_rationale = jd_rationale j, sc_evidence = evidence\<rparr>)"

text \<open>\<open>byKey\<close> is a map: a later score of the same dimension replaces an earlier one.\<close>

definition weightedOverall :: "rubric \<Rightarrow> dimension_score list \<Rightarrow> real result" where
  "weightedOverall rb scores =
     (let byKey = fold (\<lambda>s m. set_key m (sc_dimension s) (sc_score s)) scores [];
          total = fold (\<lambda>d t. t + ds_weight d * (case get_key byKey (ds_key d) of None \<Rightarrow> 0 | Some x \<Rightarrow> x))
                    (rb_dimensions rb) 0
      in if \<bar>weightSum rb - 1\<bar> > 1 / 1000 then Inl (JsError ''Rubric weights'') else Inr (to_fixed2 total))"

definition missedOpportunities :: "session_facts \<Rightarrow> missed_opportunity list" where
  "missedOpportunities f =
     (if sf_clarificationsAsked f = 0 then [AskedNothing] else []) @
     (if sf_runs f = [] then [NeverExecuted] else []) @
     (if sf_runs f \<noteq> [] \<and> sf_firstPassSeq f = None then [NoPassingRun] else []) @
     (if ''REPEATED_SAME_FAILURE'' \<in> set (sf_milestonesReached f) then [SameFailureRepeated] else []) @
     (if length (sf_hintsGiven f) \<ge> 2 then [ReliedOnHints (length (sf_hintsGiven f))] else [])"

definition drills :: "session_facts \<Rightarrow> drill_set" where
  "drills f = \<lparr>
     dr_communication = (if sf_clarificationsAsked f = 0 then StateThreeAssumptions else NarrateDecisions),
     dr_algorithmic = (if sf_firstPassSeq f = None then NameTheInvariant else SolveTwoMore),
     dr_testing = (if length (sf_runs f) < 2 then ThreeEdgeCases else FailingCaseFirst)\<rparr>"

definition evaluate :: "instant \<Rightarrow> session_event list \<Rightarrow> string \<Rightarrow> session_report result" where
  "evaluate now es rid =
     then_do (rubricById rid) (\<lambda>rb.
     then_do (extractFacts es) (\<lambda>f.
       let dims = map (\<lambda>d. scoreDimension f (ds_key d)) (rb_dimensions rb)
       in then_do (weightedOverall rb dims) (\<lambda>overall.
            Inr \<lparr>sr_sessionId = sf_sessionId f, sr_scenarioVersionId = sf_scenarioVersionId f, sr_rubricId = rb_id rb,
                 sr_rubricVersion = rb_version rb, sr_generatedAt = now, sr_overall = overall, sr_dimensions = dims,
                 sr_hintsUsed = sf_hintsGiven f, sr_probesAsked = sf_probesAsked f,
                 sr_missed = missedOpportunities f, sr_drills = drills f\<rparr>)))"

section \<open>Scores\<close>

lemma clamp_score_range [simp]: "1 \<le> clamp_score x" "clamp_score x \<le> 4"
  by (simp_all add: clamp_score_def MIN_SCORE_def MAX_SCORE_def)

lemma clamp_score_mono: "x \<le> y \<Longrightarrow> clamp_score x \<le> clamp_score y"
  by (simp add: clamp_score_def MIN_SCORE_def MAX_SCORE_def)

lemma judgement_sel [simp]:
  "jd_score (judgement s c r) = s" "jd_confidence (judgement s c r) = c" "jd_rationale (judgement s c r) = r"
  by (simp_all add: judgement_def)

lemma judge_confidence: "0 < jd_confidence (judge_dimension d f n) \<and> jd_confidence (judge_dimension d f n) \<le> 8 / 10"
  by (cases d) (simp_all add: Let_def)

lemma scoreDimension_sel [simp]:
  "sc_dimension (scoreDimension f d) = d" "sc_evidence (scoreDimension f d) = momentsFor f d EVIDENCE_LIMIT"
  "sc_score (scoreDimension f d) = clamp_score (jd_score (judge_dimension d f (length (momentsFor f d EVIDENCE_LIMIT))))"
  "sc_confidence (scoreDimension f d) = jd_confidence (judge_dimension d f (length (momentsFor f d EVIDENCE_LIMIT)))"
  "sc_rationale (scoreDimension f d) = jd_rationale (judge_dimension d f (length (momentsFor f d EVIDENCE_LIMIT)))"
  by (simp_all add: scoreDimension_def Let_def)

text \<open>The total of the coding rubric is the weighted sum of its scores.\<close>

definition weighted_sum :: "(rubric_dimension \<Rightarrow> real) \<Rightarrow> real" where
  "weighted_sum g = 15 / 100 * g ProblemUnderstanding + 25 / 100 * g Approach + 25 / 100 * g Correctness +
     10 / 100 * g ComplexityReasoning + 10 / 100 * g Testing + 10 / 100 * g Communication + 5 / 100 * g Adaptability"

lemma coding_dimensions:
  "map (\<lambda>d. scoreDimension f (ds_key d)) (rb_dimensions CODING_RUBRIC_V1) = map (scoreDimension f) RUBRIC_DIMENSIONS"
  unfolding rubric_keys [symmetric] by simp

lemma overall_of_coding:
  "weightedOverall CODING_RUBRIC_V1 (map (scoreDimension f) RUBRIC_DIMENSIONS) =
   Inr (to_fixed2 (weighted_sum (\<lambda>d. sc_score (scoreDimension f d))))"
  unfolding weightedOverall_def Let_def coding_weights
  by (simp add: CODING_RUBRIC_V1_def RUBRIC_DIMENSIONS_def weighted_sum_def)

lemma coding_id: "rb_id CODING_RUBRIC_V1 = ''rubric-coding-v1''" "rb_version CODING_RUBRIC_V1 = 1"
  by (simp_all add: CODING_RUBRIC_V1_def)

lemma weighted_sum_mono: "(\<And>d. g d \<le> k d) \<Longrightarrow> weighted_sum g \<le> weighted_sum k"
  unfolding weighted_sum_def by (intro add_mono mult_left_mono) simp_all

lemma weighted_sum_const: "weighted_sum (\<lambda>_. c) = c"
  by (simp add: weighted_sum_def)

lemma to_fixed2_mono': "x \<le> y \<Longrightarrow> to_fixed2 x \<le> to_fixed2 y"
  unfolding to_fixed2_def by (intro divide_right_mono) (auto intro: floor_mono)

lemma to_fixed2_near: "\<bar>to_fixed2 x - x\<bar> \<le> 1 / 200"
proof -
  define k where "k = (of_int (floor (x * 100 + 1 / 2)) :: real)"
  have "k \<le> x * 100 + 1 / 2" "x * 100 + 1 / 2 < k + 1" unfolding k_def using floor_correct [of "x * 100 + 1 / 2"] by auto
  then show ?thesis unfolding to_fixed2_def k_def [symmetric] by linarith
qed

lemma to_fixed2_int: "to_fixed2 (of_int k) = of_int k"
proof -
  have "of_int k * 100 + 1 / 2 = (of_int (k * 100) :: real) + 1 / 2" by simp
  moreover have "floor ((of_int (k * 100) :: real) + 1 / 2) = k * 100" by (rule floor_unique) simp_all
  ultimately show ?thesis by (simp add: to_fixed2_def)
qed

lemma overall_range:
  assumes "\<And>d. 1 \<le> g d \<and> g d \<le> 4"
  shows "1 \<le> to_fixed2 (weighted_sum g)" and "to_fixed2 (weighted_sum g) \<le> 4"
proof -
  have "weighted_sum (\<lambda>_. 1) \<le> weighted_sum g" "weighted_sum g \<le> weighted_sum (\<lambda>_. 4)"
    using assms by (auto intro!: weighted_sum_mono)
  then have "1 \<le> weighted_sum g" "weighted_sum g \<le> 4" by (simp_all add: weighted_sum_const)
  then show "1 \<le> to_fixed2 (weighted_sum g)" "to_fixed2 (weighted_sum g) \<le> 4"
    using to_fixed2_mono' [of 1 "weighted_sum g"] to_fixed2_mono' [of "weighted_sum g" 4]
      to_fixed2_int [of 1] to_fixed2_int [of 4] by simp_all
qed

section \<open>The report\<close>

lemma evaluate_iff:
  "evaluate now es rid = Inr r \<longleftrightarrow> rid = ''rubric-coding-v1'' \<and> (\<exists>f. extractFacts es = Inr f \<and>
     r = \<lparr>sr_sessionId = sf_sessionId f, sr_scenarioVersionId = sf_scenarioVersionId f, sr_rubricId = rid,
          sr_rubricVersion = 1, sr_generatedAt = now,
          sr_overall = to_fixed2 (weighted_sum (\<lambda>d. sc_score (scoreDimension f d))),
          sr_dimensions = map (scoreDimension f) RUBRIC_DIMENSIONS, sr_hintsUsed = sf_hintsGiven f,
          sr_probesAsked = sf_probesAsked f, sr_missed = missedOpportunities f, sr_drills = drills f\<rparr>)"
  by (auto simp: evaluate_def rubricById_def then_do_eq_Inr_iff coding_dimensions overall_of_coding coding_id Let_def
      simp del: scoreDimension_sel)

lemma evaluate_report:
  assumes "evaluate now es rid = Inr r"
  obtains f where "extractFacts es = Inr f" "sr_dimensions r = map (scoreDimension f) RUBRIC_DIMENSIONS"
    "sr_overall r = to_fixed2 (weighted_sum (\<lambda>d. sc_score (scoreDimension f d)))"
  using assms unfolding evaluate_iff by auto

lemma evaluate_error_iff:
  "evaluate now es rid = Inl x \<longleftrightarrow>
     (rid \<noteq> ''rubric-coding-v1'' \<and> x = JsError ''Unknown rubric'') \<or>
     (rid = ''rubric-coding-v1'' \<and> (\<exists>e\<in>set es. \<not> run_ok e) \<and> x = JsError ''TypeError'')"
  by (auto simp: evaluate_def rubricById_def extractFacts_iff coding_dimensions overall_of_coding coding_id Let_def
      split: if_splits)

section \<open>Evidence\<close>

lemma slice_last_set: "set (slice_last n xs) \<subseteq> set xs"
  by (auto simp: slice_last_def dest: in_set_dropD)

lemma slice_last_length: "0 < n \<Longrightarrow> length (slice_last n xs) \<le> n"
  by (simp add: slice_last_def)

lemma momentsFor_set: "set (momentsFor f d n) \<subseteq> {m \<in> set (sf_moments f). em_kind m \<in> set (kinds_for d)}"
  using slice_last_set [of n "filter (\<lambda>m. em_kind m \<in> set (kinds_for d)) (sf_moments f)"]
  by (auto simp: momentsFor_def)

lemma momentsFor_length: "0 < n \<Longrightarrow> length (momentsFor f d n) \<le> n"
  by (simp add: momentsFor_def slice_last_length)

lemma fold_moments:
  "\<forall>e\<in>set es. run_ok e \<Longrightarrow> sf_moments (fold add_fact es f) = sf_moments f @ concat (map cited es)"
  by (induction es arbitrary: f) simp_all

lemma extract_moments: "extractFacts es = Inr f \<Longrightarrow> sf_moments f = concat (map cited es)"
  by (auto simp: extractFacts_iff fold_moments no_facts_def split: if_splits)

lemma cited_event:
  assumes "m \<in> set (cited e)"
  shows "em_seq m = seq e \<and> em_occurredAt m = occurredAt e \<and> em_evidenceHash m = evidenceHash e \<and>
    (\<forall>s. em_summary m = Quoted s \<longrightarrow> etype e = SPEECH_FINAL \<and> string_field ''transcript'' e = Some s)"
  using assms by (auto simp: cited_def moment_of_def split: event_type.splits option.splits if_splits)

lemma cited_at_most_one: "length (cited e) \<le> 1"
  by (simp add: cited_def split: event_type.split option.split)

text \<open>The moments come in the order of the log, so the newest of a dimension come first.\<close>

lemma moments_sorted:
  assumes "sorted_wrt (<) (map seq es)"
  shows "sorted_wrt (<) (map em_seq (concat (map cited es)))"
  using assms
proof (induction es)
  case (Cons e es)
  have later: "seq e < em_seq m" if m: "m \<in> set (concat (map cited es))" for m
  proof -
    obtain e' where e': "e' \<in> set es" "m \<in> set (cited e')" using m by auto
    then show ?thesis using Cons.prems cited_event [OF e'(2)] by simp
  qed
  have one: "cited e = [] \<or> (\<exists>m. cited e = [m])" using cited_at_most_one [of e] by (cases "cited e") auto
  then show ?case
  proof
    assume "cited e = []"
    then show ?thesis using Cons by simp
  next
    assume "\<exists>m. cited e = [m]"
    then obtain m where m: "cited e = [m]" by blast
    then have "em_seq m = seq e" using cited_event [of m e] by simp
    then show ?thesis using m later Cons by auto
  qed
qed simp

lemma slice_last_sorted: "sorted_wrt P (map g xs) \<Longrightarrow> sorted_wrt P (map g (slice_last n xs))"
  by (simp add: slice_last_def flip: drop_map)

lemma momentsFor_newest_first:
  assumes "sorted_wrt (<) (map em_seq (sf_moments f))"
  shows "sorted_wrt (>) (map em_seq (momentsFor f d n))"
proof -
  have "sorted_wrt (<) (map em_seq (filter (\<lambda>m. em_kind m \<in> set (kinds_for d)) (sf_moments f)))"
    using assms by (simp add: sorted_wrt_map sorted_wrt_filter)
  from slice_last_sorted [OF this, of n] show ?thesis
    by (simp add: momentsFor_def rev_map [symmetric] sorted_wrt_rev)
qed

section \<open>The facts are counts of the log\<close>

lemma fold_clarifications:
  "sf_clarificationsAsked (fold add_fact es f) = sf_clarificationsAsked f + length (events_of CLARIFICATION_ANSWERED es)"
  by (induction es arbitrary: f) simp_all

lemma truthy_fields_Cons:
  "truthy_fields k (events_of ty (e # es)) = truthy_fields k (events_of ty [e]) @ truthy_fields k (events_of ty es)"
  by (auto simp: truthy_fields_def)

lemma map_filter_Cons:
  "List.map_filter g (events_of ty (e # es)) = List.map_filter g (events_of ty [e]) @ List.map_filter g (events_of ty es)"
  by (simp add: List.map_filter_def)

lemma fold_probes: "sf_probesAsked (fold add_fact es f) = sf_probesAsked f @ truthy_fields ''probeId'' (events_of PROBE_ASKED es)"
proof (induction es arbitrary: f)
  case (Cons e es)
  show ?case by (subst truthy_fields_Cons) (simp add: Cons)
qed (simp add: truthy_fields_def)

lemma fold_follow_ups:
  "sf_followUpsPresented (fold add_fact es f) =
     sf_followUpsPresented f @ truthy_fields ''followUpId'' (events_of FOLLOW_UP_PRESENTED es)"
proof (induction es arbitrary: f)
  case (Cons e es)
  show ?case by (subst truthy_fields_Cons) (simp add: Cons)
qed (simp add: truthy_fields_def)

lemma fold_hints:
  "sf_hintsGiven (fold add_fact es f) = sf_hintsGiven f @ List.map_filter (number_field ''level'') (events_of HINT_GIVEN es)"
proof (induction es arbitrary: f)
  case (Cons e es)
  show ?case by (subst map_filter_Cons) (simp add: Cons)
qed (simp add: List.map_filter_def)

lemma fold_runs:
  "\<forall>e\<in>set es. run_ok e \<Longrightarrow> map rf_status (sf_runs (fold add_fact es f)) =
     map rf_status (sf_runs f) @ map (\<lambda>e. the (string_field ''status'' e)) (events_of RUN_COMPLETED es)"
  by (induction es arbitrary: f) simp_all

lemma fold_first_pass:
  "sf_firstPassSeq (fold add_fact es f) =
     (case sf_firstPassSeq f of Some n \<Rightarrow> Some n | None \<Rightarrow> map_option seq (List.find passing es))"
  by (induction es arbitrary: f) (auto split: option.splits)

lemma fold_revision:
  "sf_finalCodeRevision (fold add_fact es f) =
     fold max (List.map_filter (number_field ''revision'') (events_of CODE_DELTA es)) (sf_finalCodeRevision f)"
proof (induction es arbitrary: f)
  case (Cons e es)
  show ?case by (subst map_filter_Cons) (simp add: Cons)
qed (simp add: List.map_filter_def)

lemma add_fact_milestones_distinct:
  "distinct (sf_milestonesReached f) \<Longrightarrow> distinct (sf_milestonesReached (add_fact e f))"
  by (auto simp: truthy_fields_def)

lemma fold_milestones_distinct:
  "distinct (sf_milestonesReached f) \<Longrightarrow> distinct (sf_milestonesReached (fold add_fact es f))"
proof (induction es arbitrary: f)
  case (Cons e es)
  from Cons.IH [OF add_fact_milestones_distinct [OF Cons.prems]] show ?case by simp
qed simp

lemma fold_milestones:
  "set (sf_milestonesReached (fold add_fact es f)) =
     set (sf_milestonesReached f) \<union> set (truthy_fields ''kind'' (events_of MILESTONE es))"
proof (induction es arbitrary: f)
  case (Cons e es)
  show ?case by (subst truthy_fields_Cons) (auto simp: Cons)
qed (simp add: truthy_fields_def)

end
