(* ===== verification/Redacted_Reports.thy ===== *)
theory Redacted_Reports
  imports Evaluator EventLog
begin

text \<open>
  What the evaluator makes of a redacted log: it still runs, cites no words of the candidate, and
  scores what is left. Nothing in the report says that content was removed.
\<close>

lemma string_field_redacted:
  assumes "k \<notin> set IDENTIFYING_FIELDS" and "k \<noteq> ''redacted''"
  shows "string_field k (redactionFor e) = (if etype e \<in> set FULLY_REDACTED then None else string_field k e)"
  using assms by (simp add: string_field_def redactionFor_def redactEvent_payload)

lemma number_field_redacted:
  assumes "k \<notin> set IDENTIFYING_FIELDS" and "k \<noteq> ''redacted''"
  shows "number_field k (redactionFor e) = (if etype e \<in> set FULLY_REDACTED then None else number_field k e)"
  using assms by (simp add: number_field_def redactionFor_def redactEvent_payload)

lemma etype_redacted [simp]: "etype (redactionFor e) = etype e"
  by (simp add: redactionFor_def redactEvent_def)

lemma run_ok_redacted [simp]: "run_ok (redactionFor e) = run_ok e"
  by (auto simp: run_ok_def string_field_redacted IDENTIFYING_FIELDS_def FULLY_REDACTED_def)

lemma passing_redacted [simp]: "passing (redactionFor e) = passing e"
  by (auto simp: passing_def string_field_redacted IDENTIFYING_FIELDS_def FULLY_REDACTED_def)

lemma events_of_redacted: "events_of ty (map redactionFor es) = map redactionFor (events_of ty es)"
  by (induction es) simp_all

lemma transcript_redacted: "etype e = SPEECH_FINAL \<Longrightarrow> string_field ''transcript'' (redactionFor e) = None"
  by (simp add: string_field_def redactionFor_def FULLY_REDACTED_def)

text \<open>No moment of a redacted log quotes.\<close>

lemma cited_redacted:
  assumes "m \<in> set (cited (redactionFor e))"
  shows "\<forall>s. em_summary m \<noteq> Quoted s"
  using cited_event [OF assms] transcript_redacted [of e] by fastforce

lemma extract_redacted_quotes:
  assumes "extractFacts (map redactionFor es) = Inr f" and "m \<in> set (sf_moments f)"
  shows "em_summary m \<noteq> Quoted s"
  using assms extract_moments [OF assms(1)] cited_redacted by fastforce

text \<open>The level of a hint is part of what is removed, so the penalty for hints goes with it.\<close>

lemma no_hints_after_redaction:
  "sf_hintsGiven (fold add_fact (map redactionFor es) f) = sf_hintsGiven f"
proof -
  have "List.map_filter (number_field ''level'') (map redactionFor (events_of HINT_GIVEN es)) = []"
    by (induction es)
      (auto simp: List.map_filter_def number_field_redacted IDENTIFYING_FIELDS_def FULLY_REDACTED_def)
  then show ?thesis by (simp add: fold_hints events_of_redacted)
qed

lemma pass_after_redaction:
  "sf_firstPassSeq (fold add_fact (map redactionFor es) (no_facts (map redactionFor es))) =
   sf_firstPassSeq (fold add_fact es (no_facts es))"
proof -
  have "map_option seq (List.find passing (map redactionFor es)) = map_option seq (List.find passing es)"
    by (induction es) auto
  then show ?thesis by (simp add: fold_first_pass no_facts_def)
qed

text \<open>A passed session with hints scores higher on its approach once it is redacted.\<close>

lemma approach_after_redaction:
  assumes "extractFacts es = Inr f" and "extractFacts (map redactionFor es) = Inr g"
    and "sf_firstPassSeq f \<noteq> None" and "sf_hintsGiven f \<noteq> []"
  shows "sc_score (scoreDimension f Approach) < sc_score (scoreDimension g Approach)"
proof -
  have f: "f = fold add_fact es (no_facts es)" and g: "g = fold add_fact (map redactionFor es) (no_facts (map redactionFor es))"
    using assms(1,2) by (auto simp: extractFacts_iff split: if_splits)
  have "sf_hintsGiven g = []" unfolding g no_hints_after_redaction by (simp add: no_facts_def)
  moreover have "has_passed f" "has_passed g" using assms(3) pass_after_redaction [of es] by (auto simp: has_passed_def f g)
  moreover have "(1 :: real) \<le> real (length (sf_hintsGiven f))" using assms(4) by (cases "sf_hintsGiven f") simp_all
  ultimately show ?thesis by (auto simp: clamp_score_def MIN_SCORE_def MAX_SCORE_def max_def)
qed

end
