(* ===== verification/ReportJobs.thy ===== *)
theory ReportJobs
  imports Keyed_Maps Step_Closure
begin

text \<open>
  \<open>report/report-store.ts\<close> and \<open>EvaluationQueue\<close> of \<open>report/index.ts\<close>: the jobs that evaluate ended
  sessions. A worker claims a job under a token and a lease, saves the progress of the two graders
  and completes or fails the job; a job is claimed again when its lease has run out or its retry is
  due. Reports and grades are type parameters: the store only keeps them. Tokens are random ids,
  numbers here; instants are milliseconds.
\<close>

section \<open>The store\<close>

datatype report_status = QUEUED | RUNNING | READY | FAILED

record 'g progress =
  pg_solution :: "'g option"
  pg_transcript :: "'g option"

record ('r, 'g) report_job =
  rj_sessionId :: string
  rj_status :: report_status
  rj_rubricId :: string
  rj_report :: "'r option"
  rj_progress :: "'g progress"
  rj_error :: "string option"
  rj_attempts :: nat
  rj_queuedAt :: real
  rj_completedAt :: "real option"
  rj_leaseToken :: "nat option"
  rj_leaseExpiresAt :: "real option"

record ('r, 'g) job_store =
  js_jobs :: "(string \<times> ('r, 'g) report_job) list"
  js_viewed :: "string list"

definition no_progress :: "'g progress" where
  "no_progress = \<lparr>pg_solution = None, pg_transcript = None\<rparr>"

definition no_jobs :: "('r, 'g) job_store" where
  "no_jobs = \<lparr>js_jobs = [], js_viewed = []\<rparr>"

definition MAX_REPORT_ATTEMPTS :: nat where "MAX_REPORT_ATTEMPTS = 3"

definition reportRetryAt :: "('r, 'g) report_job \<Rightarrow> real" where
  "reportRetryAt j = (case rj_completedAt j of
     None \<Rightarrow> 0
   | Some t \<Rightarrow> t + min 60000 (5000 * 2 ^ (rj_attempts j - 1)))"

definition job_of :: "('r, 'g) job_store \<Rightarrow> string \<Rightarrow> ('r, 'g) report_job option" where
  "job_of st sid = get_key (js_jobs st) sid"

definition put_job :: "string \<Rightarrow> ('r, 'g) report_job \<Rightarrow> ('r, 'g) job_store \<Rightarrow> ('r, 'g) job_store" where
  "put_job sid j st = st\<lparr>js_jobs := set_key (js_jobs st) sid j\<rparr>"

definition queued_job :: "string \<Rightarrow> string \<Rightarrow> real \<Rightarrow> ('r, 'g) report_job option \<Rightarrow> ('r, 'g) report_job" where
  "queued_job sid rubric now old = \<lparr>rj_sessionId = sid, rj_status = QUEUED, rj_rubricId = rubric, rj_report = None,
     rj_progress = (case old of None \<Rightarrow> no_progress | Some j \<Rightarrow> rj_progress j), rj_error = None,
     rj_attempts = (case old of None \<Rightarrow> 0 | Some j \<Rightarrow> rj_attempts j), rj_queuedAt = now,
     rj_completedAt = None, rj_leaseToken = None, rj_leaseExpiresAt = None\<rparr>"

definition jobs_enqueue :: "string \<Rightarrow> string \<Rightarrow> real \<Rightarrow> ('r, 'g) job_store \<Rightarrow> ('r, 'g) job_store \<times> ('r, 'g) report_job" where
  "jobs_enqueue sid rubric now st =
     (let fresh = queued_job sid rubric now (job_of st sid)
      in case job_of st sid of
           None \<Rightarrow> (put_job sid fresh st, fresh)
         | Some j \<Rightarrow> if rj_status j \<noteq> FAILED then (st, j) else (put_job sid fresh st, fresh))"

definition lease_over :: "('r, 'g) report_job \<Rightarrow> real \<Rightarrow> bool" where
  "lease_over j now = (case rj_leaseExpiresAt j of None \<Rightarrow> True | Some t \<Rightarrow> t \<le> now)"

definition retry_due :: "('r, 'g) report_job \<Rightarrow> real \<Rightarrow> bool" where
  "retry_due j now \<longleftrightarrow> rj_status j = FAILED \<and> rj_attempts j < MAX_REPORT_ATTEMPTS \<and> reportRetryAt j \<le> now"

definition claimable :: "('r, 'g) report_job \<Rightarrow> real \<Rightarrow> bool" where
  "claimable j now \<longleftrightarrow> rj_status j = QUEUED \<or> (rj_status j = RUNNING \<and> lease_over j now) \<or> retry_due j now"

text \<open>\<open>recoverable\<close>: the claimable jobs, oldest first; ids compare by the collation \<open>col\<close>.\<close>

definition jobs_recoverable :: "(string \<Rightarrow> real) \<Rightarrow> real \<Rightarrow> nat \<Rightarrow> ('r, 'g) job_store \<Rightarrow> string list result" where
  "jobs_recoverable col now limit st =
     (if limit < 1 \<or> limit > 100 then Inl (JsError ''INVALID_RECOVERY_LIMIT'')
      else Inr (map rj_sessionId (take limit
             (sort_key rj_queuedAt (sort_key (\<lambda>j. col (rj_sessionId j))
               (filter (\<lambda>j. claimable j now) (map snd (js_jobs st))))))))"

definition jobs_claim ::
  "string \<Rightarrow> nat \<Rightarrow> real \<Rightarrow> real \<Rightarrow> ('r, 'g) job_store \<Rightarrow> ('r, 'g) job_store \<times> (nat \<times> ('r, 'g) report_job) option" where
  "jobs_claim sid fresh now expires st =
     (case job_of st sid of
        None \<Rightarrow> (st, None)
      | Some j \<Rightarrow>
          if \<not> claimable j now then (st, None)
          else (let j' = j\<lparr>rj_status := RUNNING, rj_attempts := rj_attempts j + 1, rj_error := None, rj_completedAt := None,
                          rj_leaseToken := Some fresh, rj_leaseExpiresAt := Some expires\<rparr>
                in (put_job sid j' st, Some (fresh, j'))))"

definition claimed :: "string \<Rightarrow> nat \<Rightarrow> ('r, 'g) job_store \<Rightarrow> ('r, 'g) report_job option" where
  "claimed sid token st =
     (case job_of st sid of
        None \<Rightarrow> None
      | Some j \<Rightarrow> if rj_status j = RUNNING \<and> rj_leaseToken j = Some token then Some j else None)"

definition close_claim ::
  "string \<Rightarrow> nat \<Rightarrow> (('r, 'g) report_job \<Rightarrow> ('r, 'g) report_job) \<Rightarrow> ('r, 'g) job_store \<Rightarrow> ('r, 'g) job_store \<times> bool" where
  "close_claim sid token f st =
     (case claimed sid token st of None \<Rightarrow> (st, False) | Some j \<Rightarrow> (put_job sid (f j) st, True))"

definition jobs_complete :: "string \<Rightarrow> nat \<Rightarrow> 'r \<Rightarrow> real \<Rightarrow> ('r, 'g) job_store \<Rightarrow> ('r, 'g) job_store \<times> bool" where
  "jobs_complete sid token r now =
     close_claim sid token (\<lambda>j. j\<lparr>rj_status := READY, rj_report := Some r, rj_error := None, rj_completedAt := Some now,
                                  rj_leaseToken := None, rj_leaseExpiresAt := None\<rparr>)"

definition jobs_saveProgress :: "string \<Rightarrow> nat \<Rightarrow> 'g progress \<Rightarrow> ('r, 'g) job_store \<Rightarrow> ('r, 'g) job_store \<times> bool" where
  "jobs_saveProgress sid token p = close_claim sid token (\<lambda>j. j\<lparr>rj_progress := p\<rparr>)"

definition jobs_fail :: "string \<Rightarrow> nat \<Rightarrow> string \<Rightarrow> real \<Rightarrow> ('r, 'g) job_store \<Rightarrow> ('r, 'g) job_store \<times> bool" where
  "jobs_fail sid token err now =
     close_claim sid token (\<lambda>j. j\<lparr>rj_status := FAILED, rj_error := Some err, rj_completedAt := Some now,
                                  rj_leaseToken := None, rj_leaseExpiresAt := None\<rparr>)"

definition jobs_markViewed :: "string \<Rightarrow> ('r, 'g) job_store \<Rightarrow> ('r, 'g) job_store \<times> bool" where
  "jobs_markViewed sid st =
     (case job_of st sid of
        None \<Rightarrow> (st, False)
      | Some j \<Rightarrow> if rj_status j \<noteq> READY then (st, False)
                  else (st\<lparr>js_viewed := List.insert sid (js_viewed st)\<rparr>, True))"

definition jobs_delete :: "string \<Rightarrow> ('r, 'g) job_store \<Rightarrow> ('r, 'g) job_store \<times> bool" where
  "jobs_delete sid st =
     (st\<lparr>js_jobs := del_key (js_jobs st) sid, js_viewed := removeAll sid (js_viewed st)\<rparr>, has_key (js_jobs st) sid)"

section \<open>The evaluation of one claimed job\<close>

text \<open>
  \<open>evaluateWithProgress\<close> of the independent evaluator. A grader's call has an outcome, a grade or an
  error; \<open>save\<close> is the store's, which refuses a token that lost its lease. The result also lists
  which graders were called.
\<close>

datatype grader = Solution | Transcript_Grader

definition run_grader ::
  "grader \<Rightarrow> 'g option \<Rightarrow> 'g result \<Rightarrow> ('g \<Rightarrow> 'g progress \<Rightarrow> 'g progress) \<Rightarrow> string \<Rightarrow> nat \<Rightarrow>
   ('r, 'g) job_store \<times> 'g progress \<Rightarrow> (('r, 'g) job_store \<times> 'g progress \<times> grader list) \<times> unit result" where
  "run_grader g done_grade outcome put sid token = (\<lambda>(st, p).
     case done_grade of
       Some _ \<Rightarrow> ((st, p, []), Inr ())
     | None \<Rightarrow>
         (case outcome of
            Inl e \<Rightarrow> ((st, p, [g]), Inl e)
          | Inr x \<Rightarrow>
              (case jobs_saveProgress sid token (put x p) st of
                 (st', saved) \<Rightarrow> ((st', put x p, [g]), if saved then Inr () else Inl (JsError ''REPORT_LEASE_LOST'')))))"

definition evaluate_with_progress ::
  "'g result \<Rightarrow> 'g result \<Rightarrow> 'r result \<Rightarrow> ('r \<Rightarrow> 'g progress \<Rightarrow> 'r) \<Rightarrow> string \<Rightarrow> nat \<Rightarrow> 'g progress \<Rightarrow> ('r, 'g) job_store \<Rightarrow>
   ('r, 'g) job_store \<times> grader list \<times> 'r result" where
  "evaluate_with_progress sol tra base attach sid token p st =
     (case run_grader Solution (pg_solution p) sol (\<lambda>x q. q\<lparr>pg_solution := Some x\<rparr>) sid token (st, p) of
        ((st1, p1, c1), Inl e) \<Rightarrow> (st1, c1, Inl e)
      | ((st1, p1, c1), Inr _) \<Rightarrow>
          (case run_grader Transcript_Grader (pg_transcript p1) tra (\<lambda>x q. q\<lparr>pg_transcript := Some x\<rparr>) sid token (st1, p1) of
             ((st2, p2, c2), Inl e) \<Rightarrow> (st2, c1 @ c2, Inl e)
           | ((st2, p2, c2), Inr _) \<Rightarrow> (st2, c1 @ c2, then_do base (\<lambda>r. Inr (attach r p2)))))"

definition REPORT_LEASE_MS :: real where "REPORT_LEASE_MS = 3 * 60000"

text \<open>\<open>process\<close>: claim, evaluate, complete or fail; \<open>has_events\<close> tells whether the log of the session has any
  event, \<open>later\<close> is the clock after the evaluation.\<close>

definition process_job ::
  "bool \<Rightarrow> ('g result \<times> 'g result \<times> 'r result) \<Rightarrow> ('r \<Rightarrow> 'g progress \<Rightarrow> 'r) \<Rightarrow> string \<Rightarrow> nat \<Rightarrow> real \<Rightarrow> real \<Rightarrow> ('r, 'g) job_store \<Rightarrow>
   ('r, 'g) job_store \<times> grader list" where
  "process_job has_events outcomes attach sid fresh now later st =
     (case jobs_claim sid fresh now (now + REPORT_LEASE_MS) st of
        (st1, None) \<Rightarrow> (st1, [])
      | (st1, Some (token, j)) \<Rightarrow>
          if \<not> has_events then (fst (jobs_fail sid token ''EVALUATION_FAILED'' later st1), [])
          else (case outcomes of (sol, tra, base) \<Rightarrow>
             (case evaluate_with_progress sol tra base attach sid token (rj_progress j) st1 of
                (st2, calls, Inl _) \<Rightarrow> (fst (jobs_fail sid token ''EVALUATION_FAILED'' later st2), calls)
              | (st2, calls, Inr r) \<Rightarrow> (fst (jobs_complete sid token r later st2), calls))))"

section \<open>Steps of several workers\<close>

text \<open>The jobs, the tokens given out so far, and the clock.\<close>

record ('r, 'g) job_world =
  jw_store :: "('r, 'g) job_store"
  jw_used :: "nat list"
  jw_now :: real

inductive job_step :: "('r, 'g) job_world \<Rightarrow> ('r, 'g) job_world \<Rightarrow> bool" where
  enqueue: "job_step w (w\<lparr>jw_store := fst (jobs_enqueue sid rubric (jw_now w) (jw_store w))\<rparr>)"
| claim: "fresh \<notin> set (jw_used w) \<Longrightarrow> job_step w (w\<lparr>
     jw_store := fst (jobs_claim sid fresh (jw_now w) (jw_now w + REPORT_LEASE_MS) (jw_store w)),
     jw_used := fresh # jw_used w\<rparr>)"
| complete: "job_step w (w\<lparr>jw_store := fst (jobs_complete sid token r (jw_now w) (jw_store w))\<rparr>)"
| progress: "job_step w (w\<lparr>jw_store := fst (jobs_saveProgress sid token p (jw_store w))\<rparr>)"
| fail: "job_step w (w\<lparr>jw_store := fst (jobs_fail sid token err (jw_now w) (jw_store w))\<rparr>)"
| viewed: "job_step w (w\<lparr>jw_store := fst (jobs_markViewed sid (jw_store w))\<rparr>)"
| deleted: "job_step w (w\<lparr>jw_store := fst (jobs_delete sid (jw_store w))\<rparr>)"
| tick: "jw_now w \<le> t \<Longrightarrow> job_step w (w\<lparr>jw_now := t\<rparr>)"

text \<open>The shape of a job: a report exactly when it is ready, a token and a lease exactly while it runs.\<close>

definition job_ok :: "nat list \<Rightarrow> string \<Rightarrow> ('r, 'g) report_job \<Rightarrow> bool" where
  "job_ok used sid j \<longleftrightarrow> rj_sessionId j = sid \<and> (rj_status j = READY \<longleftrightarrow> rj_report j \<noteq> None) \<and>
     (rj_status j = RUNNING \<longleftrightarrow> rj_leaseToken j \<noteq> None) \<and> (rj_status j = RUNNING \<longleftrightarrow> rj_leaseExpiresAt j \<noteq> None) \<and>
     (rj_status j \<in> {READY, FAILED} \<longleftrightarrow> rj_completedAt j \<noteq> None) \<and> (rj_status j = FAILED \<longleftrightarrow> rj_error j \<noteq> None) \<and>
     (rj_status j \<noteq> QUEUED \<longrightarrow> 0 < rj_attempts j) \<and> set_option (rj_leaseToken j) \<subseteq> set used"

lemma job_of_put [simp]: "job_of (put_job sid j st) s = (if s = sid then Some j else job_of st s)"
  by (simp add: job_of_def put_job_def)

lemma viewed_put [simp]: "js_viewed (put_job sid j st) = js_viewed st"
  by (simp add: put_job_def)

lemma queued_job_sel [simp]:
  "rj_status (queued_job sid rubric now old) = QUEUED" "rj_leaseToken (queued_job sid rubric now old) = None"
  "job_ok used sid (queued_job sid rubric now old)"
  "rj_attempts (queued_job sid rubric now old) = (case old of None \<Rightarrow> 0 | Some j \<Rightarrow> rj_attempts j)"
  by (simp_all add: queued_job_def job_ok_def)

lemma job_of_viewed_update [simp]: "job_of (st\<lparr>js_viewed := v\<rparr>) s = job_of st s"
  by (simp add: job_of_def)

lemma job_of_delete [simp]: "job_of (fst (jobs_delete sid st)) s = (if s = sid then None else job_of st s)"
  by (simp add: job_of_def jobs_delete_def)

lemma job_of_viewed [simp]: "job_of (fst (jobs_markViewed sid st)) s = job_of st s"
  by (simp add: job_of_def jobs_markViewed_def split: option.split)

definition jobs_ok :: "('r, 'g) job_world \<Rightarrow> bool" where
  "jobs_ok w \<longleftrightarrow>
     (\<forall>sid j. job_of (jw_store w) sid = Some j \<longrightarrow> job_ok (jw_used w) sid j) \<and>
     (\<forall>a b j k. job_of (jw_store w) a = Some j \<longrightarrow> job_of (jw_store w) b = Some k \<longrightarrow>
        rj_leaseToken j \<noteq> None \<longrightarrow> rj_leaseToken j = rj_leaseToken k \<longrightarrow> a = b) \<and>
     (\<forall>sid\<in>set (js_viewed (jw_store w)). \<exists>j. job_of (jw_store w) sid = Some j \<and> rj_status j = READY)"

lemma close_claim_cases:
  obtains (lost) "claimed sid token st = None" "close_claim sid token f st = (st, False)"
  | (held) j where "job_of st sid = Some j" "rj_status j = RUNNING" "rj_leaseToken j = Some token"
      "close_claim sid token f st = (put_job sid (f j) st, True)"
  by (cases "claimed sid token st") (auto simp: close_claim_def claimed_def split: option.splits if_splits)

lemma jobs_ok_put:
  assumes ok: "jobs_ok w" and j: "job_ok (jw_used w) sid j" and used: "set (jw_used w) \<subseteq> set used"
    and token: "rj_leaseToken j = None \<or> (\<exists>k. job_of (jw_store w) sid = Some k \<and> rj_leaseToken k = rj_leaseToken j)"
    and viewed: "sid \<in> set (js_viewed (jw_store w)) \<Longrightarrow> rj_status j = READY"
  shows "jobs_ok (w\<lparr>jw_store := put_job sid j (jw_store w)\<rparr>)"
proof -
  have one: "a = b" if "job_of (jw_store w) a = Some u" "job_of (jw_store w) b = Some v" "rj_leaseToken u \<noteq> None"
      "rj_leaseToken u = rj_leaseToken v" for a b u v
    using ok that unfolding jobs_ok_def by blast
  show ?thesis
    unfolding jobs_ok_def
  proof (intro conjI allI impI ballI)
    fix s u
    assume "job_of (jw_store (w\<lparr>jw_store := put_job sid j (jw_store w)\<rparr>)) s = Some u"
    then show "job_ok (jw_used (w\<lparr>jw_store := put_job sid j (jw_store w)\<rparr>)) s u"
      using ok j by (auto simp: jobs_ok_def split: if_splits)
  next
    fix a b u v
    assume *: "job_of (jw_store (w\<lparr>jw_store := put_job sid j (jw_store w)\<rparr>)) a = Some u"
      "job_of (jw_store (w\<lparr>jw_store := put_job sid j (jw_store w)\<rparr>)) b = Some v"
      "rj_leaseToken u \<noteq> None" "rj_leaseToken u = rj_leaseToken v"
    show "a = b"
    proof (cases "rj_leaseToken j")
      case None
      then show ?thesis using * one [of a u b v] by (auto split: if_splits)
    next
      case (Some t)
      then obtain k where "job_of (jw_store w) sid = Some k" "rj_leaseToken k = rj_leaseToken j" using token by auto
      then show ?thesis
        using * one [of a u b v] one [of sid k b v] one [of a u sid k] Some by (auto split: if_splits)
    qed
  next
    fix s
    assume "s \<in> set (js_viewed (jw_store (w\<lparr>jw_store := put_job sid j (jw_store w)\<rparr>)))"
    then show "\<exists>u. job_of (jw_store (w\<lparr>jw_store := put_job sid j (jw_store w)\<rparr>)) s = Some u \<and> rj_status u = READY"
      using ok viewed by (auto simp: jobs_ok_def)
  qed
qed

text \<open>The job a store call leaves behind, and who may call it.\<close>

lemma jobs_ok_close:
  assumes ok: "jobs_ok w"
    and keeps: "\<And>j. job_ok (jw_used w) sid j \<Longrightarrow> rj_status j = RUNNING \<Longrightarrow> job_ok (jw_used w) sid (f j)"
    and token': "\<And>j. rj_leaseToken (f j) = None \<or> rj_leaseToken (f j) = rj_leaseToken j"
  shows "jobs_ok (w\<lparr>jw_store := fst (close_claim sid token f (jw_store w))\<rparr>)"
proof (cases rule: close_claim_cases [of sid token "jw_store w" f])
  case lost
  then show ?thesis using ok by simp
next
  case (held j)
  have j: "job_ok (jw_used w) sid j" using ok held(1) by (auto simp: jobs_ok_def)
  have "sid \<notin> set (js_viewed (jw_store w))" using ok held(1,2) by (auto simp: jobs_ok_def)
  then have "jobs_ok (w\<lparr>jw_store := put_job sid (f j) (jw_store w)\<rparr>)"
    using token' [of j] held(1) by (intro jobs_ok_put [OF ok keeps [OF j held(2)] subset_refl]) auto
  then show ?thesis using held(4) by simp
qed

lemma jobs_ok_claim:
  assumes ok: "jobs_ok w" and fresh: "fresh \<notin> set (jw_used w)"
  shows "jobs_ok (w\<lparr>jw_store := fst (jobs_claim sid fresh (jw_now w) expires (jw_store w)), jw_used := fresh # jw_used w\<rparr>)"
proof (cases "\<exists>j. job_of (jw_store w) sid = Some j \<and> claimable j (jw_now w)")
  case False
  then have same: "fst (jobs_claim sid fresh (jw_now w) expires (jw_store w)) = jw_store w"
    by (auto simp: jobs_claim_def split: option.split)
  have "jobs_ok (w\<lparr>jw_used := fresh # jw_used w\<rparr>)" using ok by (fastforce simp: jobs_ok_def job_ok_def)
  then show ?thesis using same by simp
next
  case True
  then obtain j where j: "job_of (jw_store w) sid = Some j" "claimable j (jw_now w)" by blast
  let ?j = "j\<lparr>rj_status := RUNNING, rj_attempts := rj_attempts j + 1, rj_error := None, rj_completedAt := None,
              rj_leaseToken := Some fresh, rj_leaseExpiresAt := Some expires\<rparr>"
  have e: "fst (jobs_claim sid fresh (jw_now w) expires (jw_store w)) = put_job sid ?j (jw_store w)"
    using j by (simp add: jobs_claim_def Let_def)
  have jok: "job_ok (jw_used w) sid j" using ok j(1) by (auto simp: jobs_ok_def)
  have unused: "rj_leaseToken k \<noteq> Some fresh" if "job_of (jw_store w) s = Some k" for s k
    using ok that fresh unfolding jobs_ok_def job_ok_def by fastforce
  have viewed: "s \<noteq> sid" if "s \<in> set (js_viewed (jw_store w))" for s
    using ok that j jok by (auto simp: jobs_ok_def claimable_def retry_due_def)
  have "job_ok (fresh # jw_used w) sid ?j"
    using jok j(2) by (auto simp: job_ok_def claimable_def retry_due_def)
  moreover have "job_ok (fresh # jw_used w) s k" if "job_of (jw_store w) s = Some k" for s k
    using ok that unfolding jobs_ok_def job_ok_def by fastforce
  ultimately show ?thesis
    using ok unused not_sym [OF unused] viewed unfolding jobs_ok_def e by (auto split: if_splits)
qed

lemma jobs_ok_enqueue:
  assumes ok: "jobs_ok w"
  shows "jobs_ok (w\<lparr>jw_store := fst (jobs_enqueue sid rubric now (jw_store w))\<rparr>)"
proof (cases "\<exists>j. job_of (jw_store w) sid = Some j \<and> rj_status j \<noteq> FAILED")
  case True
  then show ?thesis using ok by (auto simp: jobs_enqueue_def Let_def)
next
  case False
  let ?f = "queued_job sid rubric now (job_of (jw_store w) sid)"
  have e: "fst (jobs_enqueue sid rubric now (jw_store w)) = put_job sid ?f (jw_store w)"
    using False by (auto simp: jobs_enqueue_def Let_def split: option.split)
  have "sid \<notin> set (js_viewed (jw_store w))" using ok False by (auto simp: jobs_ok_def)
  then have "jobs_ok (w\<lparr>jw_store := put_job sid ?f (jw_store w)\<rparr>)"
    by (intro jobs_ok_put [OF ok _ subset_refl]) auto
  then show ?thesis by (simp only: e)
qed

lemma job_step_ok: "job_step w w' \<Longrightarrow> jobs_ok w \<Longrightarrow> jobs_ok w'"
proof (induction rule: job_step.induct)
  case (enqueue w sid rubric)
  then show ?case by (rule jobs_ok_enqueue)
next
  case (claim fresh w sid)
  then show ?case by (intro jobs_ok_claim)
next
  case (complete w sid token r)
  show ?case unfolding jobs_complete_def by (rule jobs_ok_close [OF complete]) (auto simp: job_ok_def)
next
  case (progress w sid token p)
  show ?case unfolding jobs_saveProgress_def by (rule jobs_ok_close [OF progress]) (auto simp: job_ok_def)
next
  case (fail w sid token err)
  show ?case unfolding jobs_fail_def by (rule jobs_ok_close [OF fail]) (auto simp: job_ok_def)
next
  case (viewed w sid)
  then show ?case by (auto simp: jobs_ok_def jobs_markViewed_def split: option.split)
next
  case (deleted w sid)
  then show ?case by (auto simp: jobs_ok_def jobs_delete_def job_of_def)
next
  case (tick w t)
  then show ?case by (auto simp: jobs_ok_def)
qed

interpretation jobs_kept: kept_by_steps job_step jobs_ok
  by unfold_locales (rule job_step_ok)

section \<open>A token that lost its claim\<close>

text \<open>Once a used token no longer holds a job, it never does again: its late results are refused.\<close>

definition claim_lost :: "string \<Rightarrow> nat \<Rightarrow> ('r, 'g) job_world \<Rightarrow> bool" where
  "claim_lost sid token w \<longleftrightarrow> token \<in> set (jw_used w) \<and> claimed sid token (jw_store w) = None"

lemma claimed_put: "claimed sid token (put_job s j st) =
    (if sid = s then if rj_status j = RUNNING \<and> rj_leaseToken j = Some token then Some j else None
     else claimed sid token st)"
  by (simp add: claimed_def)

lemma close_keeps_lost:
  assumes "claimed sid token st = None" and "\<And>j. rj_status (f j) = RUNNING \<Longrightarrow> rj_status j = RUNNING"
    and "\<And>j. rj_leaseToken (f j) \<noteq> None \<Longrightarrow> rj_leaseToken (f j) = rj_leaseToken j"
  shows "claimed sid token (fst (close_claim s tk f st)) = None"
proof (cases rule: close_claim_cases [of s tk st f])
  case (held j)
  then show ?thesis using assms by (auto simp: claimed_put claimed_def)
qed (use assms in simp)

lemma claim_lost_step: "job_step w w' \<Longrightarrow> claim_lost sid token w \<Longrightarrow> claim_lost sid token w'"
proof (induction rule: job_step.induct)
  case (enqueue w s rubric)
  then show ?case
    by (auto simp: claim_lost_def jobs_enqueue_def Let_def claimed_put split: option.split)
next
  case (claim fresh w s)
  then show ?case
    by (auto simp: claim_lost_def jobs_claim_def Let_def claimed_put split: option.split)
next
  case (complete w s tk r)
  then show ?case unfolding claim_lost_def jobs_complete_def by (auto intro: close_keeps_lost)
next
  case (progress w s tk p)
  then show ?case unfolding claim_lost_def jobs_saveProgress_def by (auto intro: close_keeps_lost)
next
  case (fail w s tk err)
  then show ?case unfolding claim_lost_def jobs_fail_def by (auto intro: close_keeps_lost)
next
  case (viewed w s)
  then show ?case by (simp add: claim_lost_def claimed_def)
next
  case (deleted w s)
  then show ?case by (simp add: claim_lost_def claimed_def)
next
  case (tick w t)
  then show ?case by (simp add: claim_lost_def)
qed

interpretation lost_kept: kept_by_steps job_step "claim_lost sid token" for sid token
  by unfold_locales (rule claim_lost_step)

lemma lost_results_refused:
  assumes "claim_lost sid token w"
  shows "jobs_complete sid token r t (jw_store w) = (jw_store w, False)"
    and "jobs_saveProgress sid token p (jw_store w) = (jw_store w, False)"
    and "jobs_fail sid token err t (jw_store w) = (jw_store w, False)"
  using assms by (simp_all add: claim_lost_def jobs_complete_def jobs_saveProgress_def jobs_fail_def close_claim_def)

section \<open>A finished report stays\<close>

text \<open>The steps but a deletion keep a ready job as it is.\<close>

lemma close_keeps_ready:
  assumes "job_of st sid = Some j" and "rj_status j = READY"
  shows "job_of (fst (close_claim s tk f st)) sid = Some j"
proof (cases rule: close_claim_cases [of s tk st f])
  case (held k)
  then show ?thesis using assms by auto
qed (use assms in simp)

lemma ready_stays:
  assumes "job_step w w'" and "job_of (jw_store w) sid = Some j" and "rj_status j = READY"
  shows "job_of (jw_store w') sid = Some j \<or> w' = w\<lparr>jw_store := fst (jobs_delete sid (jw_store w))\<rparr>"
  using assms
proof (induction rule: job_step.induct)
  case (enqueue w s rubric)
  then show ?case by (auto simp: jobs_enqueue_def Let_def split: option.split)
next
  case (claim fresh w s)
  then show ?case by (auto simp: jobs_claim_def claimable_def retry_due_def Let_def split: option.split)
next
  case (complete w s tk r)
  then show ?case by (simp add: jobs_complete_def close_keeps_ready)
next
  case (progress w s tk p)
  then show ?case by (simp add: jobs_saveProgress_def close_keeps_ready)
next
  case (fail w s tk err)
  then show ?case by (simp add: jobs_fail_def close_keeps_ready)
next
  case (deleted w s)
  then show ?case by (cases "s = sid") auto
qed auto

section \<open>Attempts\<close>

text \<open>
  A claim outside of \<open>enqueue\<close> happens only below the limit of attempts, or when a lease ran out; a
  failed job that is enqueued again keeps its attempts but waits for no retry and no limit.
\<close>

lemma requeued_ignores_limit:
  assumes "job_of st sid = Some j" and "rj_status j = FAILED" and "MAX_REPORT_ATTEMPTS \<le> rj_attempts j"
  shows "snd (jobs_claim sid tk now expires st) = None"
    and "\<exists>k. snd (jobs_claim sid tk now expires (fst (jobs_enqueue sid rubric now st))) = Some (tk, k) \<and>
           rj_attempts k = rj_attempts j + 1"
  using assms by (auto simp: jobs_claim_def jobs_enqueue_def claimable_def retry_due_def Let_def)

section \<open>Grades are made once\<close>

text \<open>A grade that was saved is never asked for again, whatever the other grader and the process do.\<close>

lemma run_grader_skips: "run_grader g (Some x) outcome put sid token (st, p) = ((st, p, []), Inr ())"
  by (simp add: run_grader_def)

lemma evaluate_skips:
  assumes "evaluate_with_progress sol tra base attach sid token p st = (st', calls, r)"
  shows "pg_solution p \<noteq> None \<Longrightarrow> Solution \<notin> set calls"
    and "pg_transcript p \<noteq> None \<Longrightarrow> Transcript_Grader \<notin> set calls"
  using assms
  by (auto simp: evaluate_with_progress_def run_grader_def split: option.splits sum.splits prod.splits if_splits)

lemma progress_saved:
  assumes "claimed sid token st = Some j"
  shows "jobs_saveProgress sid token q st = (put_job sid (j\<lparr>rj_progress := q\<rparr>) st, True)"
    and "claimed sid token (put_job sid (j\<lparr>rj_progress := q\<rparr>) st) = Some (j\<lparr>rj_progress := q\<rparr>)"
  using assms by (auto simp: jobs_saveProgress_def close_claim_def claimed_def split: option.splits if_splits)

text \<open>What a call produced is in the store by the time the next one starts, or the process stops.\<close>

lemma evaluate_saves:
  assumes "evaluate_with_progress sol tra base attach sid token p st = (st', calls, Inr r)"
    and "claimed sid token st = Some j" and "rj_progress j = p"
  shows "\<exists>k x y. claimed sid token st' = Some k \<and> pg_solution (rj_progress k) = Some x \<and>
    pg_transcript (rj_progress k) = Some y \<and> (pg_solution p = None \<longrightarrow> sol = Inr x) \<and> (pg_transcript p = None \<longrightarrow> tra = Inr y)"
proof (cases "pg_solution p")
  case (Some x)
  show ?thesis
  proof (cases "pg_transcript p")
    case (Some y)
    then show ?thesis using \<open>pg_solution p = Some x\<close> assms by (auto simp: evaluate_with_progress_def run_grader_def)
  next
    case None
    then obtain y where tra: "tra = Inr y"
      using assms(1) Some by (cases tra) (auto simp: evaluate_with_progress_def run_grader_def)
    from progress_saved [OF assms(2), of "p\<lparr>pg_transcript := Some y\<rparr>"] show ?thesis
      using None Some tra assms(1) by (auto simp: evaluate_with_progress_def run_grader_def)
  qed
next
  case None
  then obtain x where sol: "sol = Inr x"
    using assms(1) by (cases sol) (auto simp: evaluate_with_progress_def run_grader_def)
  note save = progress_saved [OF assms(2), of "p\<lparr>pg_solution := Some x\<rparr>"]
  show ?thesis
  proof (cases "pg_transcript p")
    case (Some y)
    then show ?thesis using None sol save assms(1) by (auto simp: evaluate_with_progress_def run_grader_def)
  next
    case none2: None
    then obtain y where tra: "tra = Inr y"
      using assms(1) None sol save(1) by (cases tra) (auto simp: evaluate_with_progress_def run_grader_def)
    from progress_saved [OF save(2), of "p\<lparr>pg_solution := Some x, pg_transcript := Some y\<rparr>"] show ?thesis
      using None none2 sol tra save(1) assms(1) by (auto simp: evaluate_with_progress_def run_grader_def)
  qed
qed

end
