(* ===== verification/IndependentGrade.thy ===== *)
theory IndependentGrade
  imports Evaluator ProviderCircuit
begin

text \<open>
  \<open>report/independent-evaluator.ts\<close>: two graders, one of the solution and one of the transcript, each a
  call to a remote model behind a circuit breaker, and the checks its reply must pass. The model is
  a parameter: a function from the data of the prompt to a reply or an error. The schema sent with
  the request fixes the fields of a reply; a number that is not finite is \<open>None\<close>. The decimal
  notation of numbers in \<open>JSON.stringify\<close> is a parameter as well.
\<close>

section \<open>Replies and their rendering\<close>

record citation =
  ci_seq :: nat
  ci_claim :: string
  ci_quote :: "string option"

record dimension_grade =
  di_key :: string
  di_score :: "real option"
  di_rationale :: string

record model_grade =
  mg_score :: "real option"
  mg_confidence :: "real option"
  mg_summary :: string
  mg_strengths :: "string list"
  mg_improvements :: "string list"
  mg_dimensions :: "dimension_grade list"
  mg_evidence :: "citation list"

text \<open>A character inside a JSON string.\<close>

definition hex_digit :: "nat \<Rightarrow> char" where
  "hex_digit n = ''0123456789abcdef'' ! n"

definition json_char :: "char \<Rightarrow> string" where
  "json_char c =
     (if c = CHR 0x22 then [CHR 0x5C, CHR 0x22]
      else if c = CHR 0x5C then [CHR 0x5C, CHR 0x5C]
      else if c = CHR 0x08 then [CHR 0x5C, CHR ''b'']
      else if c = CHR 0x0C then [CHR 0x5C, CHR ''f'']
      else if c = CHR 0x0A then [CHR 0x5C, CHR ''n'']
      else if c = CHR 0x0D then [CHR 0x5C, CHR ''r'']
      else if c = CHR 0x09 then [CHR 0x5C, CHR ''t'']
      else if (of_char c :: nat) < 32
      then [CHR 0x5C, CHR ''u'', CHR ''0'', CHR ''0'', hex_digit (of_char c div 16), hex_digit (of_char c mod 16)]
      else [c])"

definition json_string :: "string \<Rightarrow> string" where
  "json_string s = [CHR 0x22] @ concat (map json_char s) @ [CHR 0x22]"

definition json_list :: "string list \<Rightarrow> string" where
  "json_list xs = ''['' @ concat (case xs of [] \<Rightarrow> [] | y # ys \<Rightarrow> y # map (\<lambda>x. CHR '','' # x) ys) @ '']''"

definition json_field :: "string \<Rightarrow> string \<Rightarrow> string" where
  "json_field k v = json_string k @ '':'' @ v"

definition json_object :: "string list \<Rightarrow> string" where
  "json_object kvs = ''{'' @ concat (case kvs of [] \<Rightarrow> [] | y # ys \<Rightarrow> y # map (\<lambda>x. CHR '','' # x) ys) @ ''}''"

definition json_number :: "(real \<Rightarrow> string) \<Rightarrow> real option \<Rightarrow> string" where
  "json_number num v = (case v of None \<Rightarrow> ''null'' | Some r \<Rightarrow> num r)"

definition json_dimension :: "(real \<Rightarrow> string) \<Rightarrow> dimension_grade \<Rightarrow> string" where
  "json_dimension num d = json_object [json_field ''key'' (json_string (di_key d)),
     json_field ''score'' (json_number num (di_score d)), json_field ''rationale'' (json_string (di_rationale d))]"

definition json_citation :: "(real \<Rightarrow> string) \<Rightarrow> citation \<Rightarrow> string" where
  "json_citation num c = json_object ([json_field ''seq'' (num (real (ci_seq c))),
     json_field ''claim'' (json_string (ci_claim c))] @
     (case ci_quote c of None \<Rightarrow> [] | Some q \<Rightarrow> [json_field ''quote'' (json_string q)]))"

definition render :: "(real \<Rightarrow> string) \<Rightarrow> model_grade \<Rightarrow> string" where
  "render num g = json_object [
     json_field ''score'' (json_number num (mg_score g)),
     json_field ''confidence'' (json_number num (mg_confidence g)),
     json_field ''summary'' (json_string (mg_summary g)),
     json_field ''strengths'' (json_list (map json_string (mg_strengths g))),
     json_field ''improvements'' (json_list (map json_string (mg_improvements g))),
     json_field ''dimensions'' (json_list (map (json_dimension num) (mg_dimensions g))),
     json_field ''evidence'' (json_list (map (json_citation num) (mg_evidence g)))]"

section \<open>The checks\<close>

datatype grade_status = SCORED | INSUFFICIENT_EVIDENCE

record grade_citation =
  gc_seq :: nat
  gc_claim :: string
  gc_quote :: "string option"
  gc_codeRevision :: "real option"
  gc_segmentId :: "string option"

record independent_grade =
  ig_status :: grade_status
  ig_score :: "real option"
  ig_confidence :: real
  ig_summary :: string
  ig_strengths :: "string list"
  ig_improvements :: "string list"
  ig_dimensions :: "dimension_grade list"
  ig_evidence :: "grade_citation list"
  ig_model :: string
  ig_promptVersion :: string

definition SOLUTION_DIMENSIONS :: "string list" where
  "SOLUTION_DIMENSIONS = [''correctness'', ''contractCoverage'', ''edgeCases'', ''complexity'']"

definition TRANSCRIPT_DIMENSIONS :: "string list" where
  "TRANSCRIPT_DIMENSIONS = [''understanding'', ''approach'', ''complexity'', ''testingDebugging'', ''communication'']"

definition SOLUTION_PROMPT_VERSION :: string where "SOLUTION_PROMPT_VERSION = ''solution-grader-v1''"
definition TRANSCRIPT_PROMPT_VERSION :: string where "TRANSCRIPT_PROMPT_VERSION = ''transcript-grader-v1''"

fun map_res :: "('a \<Rightarrow> 'b result) \<Rightarrow> 'a list \<Rightarrow> 'b list result" where
  "map_res f [] = Inr []"
| "map_res f (x # xs) = then_do (f x) (\<lambda>y. then_do (map_res f xs) (\<lambda>ys. Inr (y # ys)))"

definition bounded :: "real option \<Rightarrow> real \<Rightarrow> real \<Rightarrow> real result" where
  "bounded v lo hi = (case v of None \<Rightarrow> Inl (JsError ''INVALID_GRADE_NUMBER'') | Some x \<Rightarrow> Inr (max lo (min hi x)))"

definition clean :: "string \<Rightarrow> nat \<Rightarrow> string result" where
  "clean s n = (let r = take n (trim s) in if r = [] then Inl (JsError ''EMPTY_GRADE_TEXT'') else Inr r)"

definition or_default_empty :: "string option \<Rightarrow> string" where
  "or_default_empty v = (case v of None \<Rightarrow> [] | Some s \<Rightarrow> s)"

definition leaks :: "(real \<Rightarrow> string) \<Rightarrow> model_grade \<Rightarrow> string list \<Rightarrow> bool" where
  "leaks num g forbidden \<longleftrightarrow>
     (\<exists>v\<in>set forbidden. length (trim v) \<ge> 8 \<and> has_sub (to_lower (render num g)) (to_lower (trim v)))"

definition checked_dimension :: "dimension_grade list \<Rightarrow> string \<Rightarrow> dimension_grade result" where
  "checked_dimension ds key =
     (case List.find (\<lambda>d. di_key d = key) ds of
        None \<Rightarrow> Inl (JsError (''MISSING_GRADE_DIMENSION:'' @ key))
      | Some d \<Rightarrow> then_do (bounded (di_score d) 0 100) (\<lambda>x. then_do (clean (di_rationale d) 1000) (\<lambda>r.
          Inr \<lparr>di_key = key, di_score = Some x, di_rationale = r\<rparr>)))"

definition checked_citation :: "session_event list \<Rightarrow> bool \<Rightarrow> citation \<Rightarrow> grade_citation result" where
  "checked_citation events exact c =
     (case List.find (\<lambda>e. seq e = ci_seq c) (rev events) of
        None \<Rightarrow> Inl (JsError ''INVALID_GRADE_CITATION'')
      | Some e \<Rightarrow>
          if exact \<and> (\<not> truthy (ci_quote c) \<or> \<not> has_sub (or_default_empty (string_field ''transcript'' e)) (the (ci_quote c)))
          then Inl (JsError ''NON_VERBATIM_TRANSCRIPT_CITATION'')
          else then_do (clean (ci_claim c) 1000) (\<lambda>claim.
            Inr \<lparr>gc_seq = ci_seq c, gc_claim = claim, gc_quote = (if truthy (ci_quote c) then ci_quote c else None),
                 gc_codeRevision = or_else (number_field ''revision'' e) (number_field ''codeRevision'' e),
                 gc_segmentId = (if truthy (string_field ''segmentId'' e) then string_field ''segmentId'' e else None)\<rparr>))"

definition normalize_grade ::
  "(real \<Rightarrow> string) \<Rightarrow> model_grade \<Rightarrow> string \<Rightarrow> string \<Rightarrow> string list \<Rightarrow> session_event list \<Rightarrow> bool \<Rightarrow> string list \<Rightarrow>
   independent_grade result" where
  "normalize_grade num g model vsn keys events exact forbidden =
     (if leaks num g forbidden then Inl (JsError ''PRIVATE_REFERENCE_LEAK'')
      else if mg_evidence g = [] then Inl (JsError ''GRADE_WITHOUT_EVIDENCE'')
      else
        then_do (map_res (checked_dimension (mg_dimensions g)) keys) (\<lambda>dims.
        then_do (map_res (checked_citation events exact) (take 8 (mg_evidence g))) (\<lambda>evidence.
        then_do (bounded (mg_score g) 0 100) (\<lambda>score.
        then_do (bounded (mg_confidence g) 0 1) (\<lambda>confidence.
        then_do (clean (mg_summary g) 2000) (\<lambda>summary.
        then_do (map_res (\<lambda>s. clean s 1000) (take 5 (mg_strengths g))) (\<lambda>strengths.
        then_do (map_res (\<lambda>s. clean s 1000) (take 5 (mg_improvements g))) (\<lambda>improvements.
          Inr \<lparr>ig_status = SCORED, ig_score = Some score, ig_confidence = confidence, ig_summary = summary,
               ig_strengths = strengths, ig_improvements = improvements, ig_dimensions = dims,
               ig_evidence = evidence, ig_model = model, ig_promptVersion = vsn\<rparr>))))))))"

definition insufficient :: "string \<Rightarrow> string \<Rightarrow> string list \<Rightarrow> independent_grade" where
  "insufficient why vsn keys = \<lparr>ig_status = INSUFFICIENT_EVIDENCE, ig_score = None, ig_confidence = 0, ig_summary = why,
     ig_strengths = [], ig_improvements = [],
     ig_dimensions = map (\<lambda>k. \<lparr>di_key = k, di_score = None, di_rationale = why\<rparr>) keys,
     ig_evidence = [], ig_model = ''not-called'', ig_promptVersion = vsn\<rparr>"

section \<open>The two graders\<close>

text \<open>
  What of the scenario a grader may use: the public contract, and for the solution grader the private
  reference (inputs and outputs of hidden tests; names, invariants and failure modes of families).
\<close>

record grading_context =
  gx_opening :: string
  gx_facts :: "fact list"
  gx_examples :: "(string \<times> string) list"
  gx_hiddenTests :: "(string \<times> string) list"
  gx_families :: "(string \<times> string list \<times> string list) list"

record solution_prompt =
  sp_context :: grading_context
  sp_sealed :: session_event
  sp_runs :: "session_event list"

record transcript_prompt =
  tp_opening :: string
  tp_facts :: "fact list"
  tp_examples :: "(string \<times> string) list"
  tp_turns :: "session_event list"
  tp_interviewer :: "session_event list"

record graders =
  gs_model :: string
  gs_number :: "real \<Rightarrow> string"
  ask_solution :: "solution_prompt \<Rightarrow> model_grade result"
  ask_transcript :: "transcript_prompt \<Rightarrow> model_grade result"

text \<open>\<open>generate\<close>: one call through the circuit; only a rate limit trips it at once.\<close>

definition grader_call :: "real \<Rightarrow> model_grade result \<Rightarrow> circuit \<Rightarrow> circuit \<times> model_grade result" where
  "grader_call now reply c =
     (case tryAcquire now c of
        (c1, False) \<Rightarrow> (c1, Inl (JsError ''EVALUATOR_CIRCUIT_OPEN''))
      | (c1, True) \<Rightarrow>
          (case reply of
             Inr g \<Rightarrow> (success c1, Inr g)
           | Inl e \<Rightarrow> (failure (e = JsError ''RATE_LIMITED'') now c1, Inl e)))"

definition code_events :: "session_event list \<Rightarrow> session_event list" where
  "code_events es = filter (\<lambda>e. etype e = CODE_DELTA \<and> string_field ''text'' e \<noteq> None) es"

definition spoken_events :: "session_event list \<Rightarrow> session_event list" where
  "spoken_events es = filter (\<lambda>e. etype e = SPEECH_FINAL \<and> string_field ''transcript'' e \<noteq> None) es"

definition interviewer_events :: "session_event list \<Rightarrow> session_event list" where
  "interviewer_events es =
     filter (\<lambda>e. etype e \<in> {PROBE_ASKED, HINT_GIVEN, FOLLOW_UP_PRESENTED, CLARIFICATION_ANSWERED}) es"

definition forbidden_values :: "grading_context \<Rightarrow> string list" where
  "forbidden_values x =
     concat (map (\<lambda>(i, out). [i, out]) (gx_hiddenTests x)) @
     concat (map (\<lambda>(nm, inv, modes). nm # inv @ modes) (gx_families x))"

definition gradeSolution ::
  "graders \<Rightarrow> real \<Rightarrow> grading_context option \<Rightarrow> session_event list \<Rightarrow> circuit \<Rightarrow> circuit \<times> independent_grade result" where
  "gradeSolution gs now ctx es c =
     (let codes = code_events es;
          runs = events_of RUN_COMPLETED es;
          none = insufficient ''No sealed solution code was captured.'' SOLUTION_PROMPT_VERSION SOLUTION_DIMENSIONS
      in if codes = [] \<or> trim (or_default_empty (string_field ''text'' (last codes))) = [] then (c, Inr none)
         else (case ctx of
                 None \<Rightarrow> (c, Inl (JsError ''SCENARIO_UNAVAILABLE_FOR_SOLUTION_GRADING''))
               | Some x \<Rightarrow>
                   (case grader_call now (ask_solution gs \<lparr>sp_context = x, sp_sealed = last codes, sp_runs = runs\<rparr>) c of
                      (c1, reply) \<Rightarrow>
                        (c1, then_do reply (\<lambda>g. normalize_grade (gs_number gs) g (gs_model gs) SOLUTION_PROMPT_VERSION
                               SOLUTION_DIMENSIONS (last codes # runs) False (forbidden_values x))))))"

definition disclosed_to_candidate :: "session_event list \<Rightarrow> fact list \<Rightarrow> fact list" where
  "disclosed_to_candidate es fs =
     filter (\<lambda>f. disclosure f = ALWAYS \<or>
       Some (fact_key f) \<in> set (map (string_field ''factKey'') (events_of CLARIFICATION_ANSWERED es))) fs"

definition gradeTranscript ::
  "graders \<Rightarrow> real \<Rightarrow> grading_context option \<Rightarrow> session_event list \<Rightarrow> circuit \<Rightarrow> circuit \<times> independent_grade result" where
  "gradeTranscript gs now ctx es c =
     (let speech = spoken_events es;
          asked = interviewer_events es;
          none = insufficient ''No finalized candidate transcript was captured.'' TRANSCRIPT_PROMPT_VERSION TRANSCRIPT_DIMENSIONS
      in if speech = [] then (c, Inr none)
         else (case ctx of
                 None \<Rightarrow> (c, Inl (JsError ''SCENARIO_UNAVAILABLE_FOR_TRANSCRIPT_GRADING''))
               | Some x \<Rightarrow>
                   (case grader_call now (ask_transcript gs \<lparr>tp_opening = gx_opening x,
                            tp_facts = disclosed_to_candidate asked (gx_facts x), tp_examples = gx_examples x,
                            tp_turns = speech, tp_interviewer = asked\<rparr>) c of
                      (c1, reply) \<Rightarrow>
                        (c1, then_do reply (\<lambda>g. normalize_grade (gs_number gs) g (gs_model gs) TRANSCRIPT_PROMPT_VERSION
                               TRANSCRIPT_DIMENSIONS speech True [])))))"

section \<open>A grade that passes is grounded\<close>

lemma map_res_Inr: "map_res f xs = Inr ys \<Longrightarrow> list_all2 (\<lambda>x y. f x = Inr y) xs ys"
  by (induction xs arbitrary: ys) (auto simp: then_do_eq_Inr_iff)

lemma map_res_length: "map_res f xs = Inr ys \<Longrightarrow> length ys = length xs"
  by (drule map_res_Inr) (simp add: list_all2_lengthD)

lemma map_res_mem: "map_res f xs = Inr ys \<Longrightarrow> y \<in> set ys \<Longrightarrow> \<exists>x\<in>set xs. f x = Inr y"
  by (induction xs arbitrary: ys) (auto simp: then_do_eq_Inr_iff)

lemma map_res_keys: "map_res f xs = Inr ys \<Longrightarrow> (\<And>x y. f x = Inr y \<Longrightarrow> k y = x) \<Longrightarrow> map k ys = xs"
  by (induction xs arbitrary: ys) (auto simp: then_do_eq_Inr_iff)

lemma bounded_range: "bounded v lo hi = Inr x \<Longrightarrow> lo \<le> hi \<Longrightarrow> lo \<le> x \<and> x \<le> hi"
  by (auto simp: bounded_def split: option.splits)

lemma clean_length: "clean s n = Inr r \<Longrightarrow> r \<noteq> [] \<and> length r \<le> n"
  by (auto simp: clean_def Let_def split: if_splits)

definition dimension_ok :: "dimension_grade \<Rightarrow> bool" where
  "dimension_ok d \<longleftrightarrow> (\<exists>x. di_score d = Some x \<and> 0 \<le> x \<and> x \<le> 100)"

definition grounded_in :: "session_event list \<Rightarrow> bool \<Rightarrow> grade_citation \<Rightarrow> bool" where
  "grounded_in events exact c \<longleftrightarrow> (\<exists>e\<in>set events. seq e = gc_seq c \<and>
     (exact \<longrightarrow> (\<exists>q s. gc_quote c = Some q \<and> q \<noteq> [] \<and> string_field ''transcript'' e = Some s \<and> has_sub s q)))"

lemma checked_dimension_ok: "checked_dimension ds k = Inr d \<Longrightarrow> di_key d = k \<and> dimension_ok d"
  by (auto simp: checked_dimension_def then_do_eq_Inr_iff dimension_ok_def dest: bounded_range split: option.splits)

lemma has_sub_nil [simp]: "has_sub s []"
  by (cases s) simp_all

lemma checked_citation_ok:
  assumes "checked_citation events exact c = Inr g"
  shows "grounded_in events exact g"
proof -
  obtain e where e: "List.find (\<lambda>e. seq e = ci_seq c) (rev events) = Some e"
    using assms by (auto simp: checked_citation_def split: option.splits)
  then have mem: "e \<in> set events" "seq e = ci_seq c" by (auto dest: find_SomeD)
  have g: "gc_seq g = ci_seq c" "gc_quote g = (if truthy (ci_quote c) then ci_quote c else None)"
    using assms e by (auto simp: checked_citation_def then_do_eq_Inr_iff split: if_splits)
  have "truthy (ci_quote c) \<and> has_sub (or_default_empty (string_field ''transcript'' e)) (the (ci_quote c))" if exact
    using assms e that by (auto simp: checked_citation_def split: if_splits)
  then have "\<exists>q s. gc_quote g = Some q \<and> q \<noteq> [] \<and> string_field ''transcript'' e = Some s \<and> has_sub s q" if exact
    using that g(2) by (cases "string_field ''transcript'' e") (auto simp: or_default_empty_def)
  then show ?thesis using mem g(1) by (auto simp: grounded_in_def)
qed

lemma normalize_grounded:
  assumes "normalize_grade num g model vsn keys events exact forbidden = Inr r"
  shows "ig_status r = SCORED \<and> (\<exists>x. ig_score r = Some x \<and> 0 \<le> x \<and> x \<le> 100) \<and> 0 \<le> ig_confidence r \<and> ig_confidence r \<le> 1 \<and>
    map di_key (ig_dimensions r) = keys \<and> (\<forall>d\<in>set (ig_dimensions r). dimension_ok d) \<and>
    ig_evidence r \<noteq> [] \<and> length (ig_evidence r) \<le> 8 \<and> (\<forall>c\<in>set (ig_evidence r). grounded_in events exact c) \<and>
    \<not> leaks num g forbidden"
proof -
  obtain dims evidence score confidence summary strengths improvements where
      leak: "\<not> leaks num g forbidden" and ev: "mg_evidence g \<noteq> []"
    and dims: "map_res (checked_dimension (mg_dimensions g)) keys = Inr dims"
    and evidence: "map_res (checked_citation events exact) (take 8 (mg_evidence g)) = Inr evidence"
    and score: "bounded (mg_score g) 0 100 = Inr score" and conf: "bounded (mg_confidence g) 0 1 = Inr confidence"
    and r: "r = \<lparr>ig_status = SCORED, ig_score = Some score, ig_confidence = confidence, ig_summary = summary,
               ig_strengths = strengths, ig_improvements = improvements, ig_dimensions = dims,
               ig_evidence = evidence, ig_model = model, ig_promptVersion = vsn\<rparr>"
    using assms by (auto simp: normalize_grade_def then_do_eq_Inr_iff split: if_splits)
  have "map di_key dims = keys" using map_res_keys [OF dims] checked_dimension_ok by blast
  moreover have "\<forall>d\<in>set dims. dimension_ok d" using map_res_mem [OF dims] checked_dimension_ok by blast
  moreover have "length evidence = min 8 (length (mg_evidence g))" using map_res_length [OF evidence] by (simp add: min.commute)
  then have "evidence \<noteq> []" "length evidence \<le> 8" using ev by (cases "mg_evidence g"; auto)+
  moreover have "\<forall>c\<in>set evidence. grounded_in events exact c" using map_res_mem [OF evidence] checked_citation_ok by blast
  ultimately show ?thesis
    using bounded_range [OF score] bounded_range [OF conf] leak by (simp add: r)
qed

section \<open>What each grader sees\<close>

lemma solution_sees:
  assumes "code_events es = code_events es'" and "events_of RUN_COMPLETED es = events_of RUN_COMPLETED es'"
  shows "gradeSolution gs now ctx es c = gradeSolution gs now ctx es' c"
  by (simp add: gradeSolution_def assms)

lemma transcript_sees:
  assumes "spoken_events es = spoken_events es'" and "interviewer_events es = interviewer_events es'"
  shows "gradeTranscript gs now ctx es c = gradeTranscript gs now ctx es' c"
  by (simp add: gradeTranscript_def assms)

section \<open>The leak check and escaped characters\<close>

text \<open>A JSON text holds no control character, so a private value with a line break is never found in one.\<close>

definition no_control :: "string \<Rightarrow> bool" where
  "no_control s \<longleftrightarrow> (\<forall>c\<in>set s. c \<noteq> CHR 0x0A \<and> c \<noteq> CHR 0x09)"

lemma no_control_simps [simp]:
  "no_control []" "no_control (c # s) \<longleftrightarrow> c \<noteq> CHR 0x0A \<and> c \<noteq> CHR 0x09 \<and> no_control s"
  "no_control (s @ t) \<longleftrightarrow> no_control s \<and> no_control t"
  by (auto simp: no_control_def)

lemma no_control_concat: "(\<And>s. s \<in> set ss \<Longrightarrow> no_control s) \<Longrightarrow> no_control (concat ss)"
  by (induction ss) simp_all

lemma hex_digit_no_control: "n < 16 \<Longrightarrow> no_control [hex_digit n]"
proof -
  assume "n < 16"
  then have "n \<in> {0, 1, 2, 3, 4, 5, 6, 7, 8, 9, 10, 11, 12, 13, 14, 15}" by simp presburger
  then show ?thesis by (auto simp: hex_digit_def)
qed

lemma json_char_no_control: "no_control (json_char c)"
proof -
  have "(of_char c :: nat) < 32 \<Longrightarrow> (of_char c :: nat) div 16 < 16" "(of_char c :: nat) mod 16 < 16" by auto
  then show ?thesis
    using hex_digit_no_control [of "of_char c div 16"] hex_digit_no_control [of "of_char c mod 16"]
    by (auto simp: json_char_def)
qed

lemma json_string_no_control: "no_control (json_string s)"
  by (auto simp: json_string_def intro!: no_control_concat json_char_no_control)

lemma commas_no_control:
  assumes "\<And>x. x \<in> set xs \<Longrightarrow> no_control x"
  shows "no_control (concat (case xs of [] \<Rightarrow> [] | y # ys \<Rightarrow> y # map (\<lambda>x. CHR '','' # x) ys))"
  using assms by (cases xs) (auto intro!: no_control_concat)

lemma json_list_no_control: "\<forall>x\<in>set xs. no_control x \<Longrightarrow> no_control (json_list xs)"
  using commas_no_control by (simp add: json_list_def)

lemma json_object_no_control: "\<forall>x\<in>set xs. no_control x \<Longrightarrow> no_control (json_object xs)"
  using commas_no_control by (simp add: json_object_def)

lemma json_field_no_control: "no_control v \<Longrightarrow> no_control (json_field k v)"
  by (simp add: json_field_def json_string_no_control)

lemma json_number_no_control: "(\<And>x. no_control (num x)) \<Longrightarrow> no_control (json_number num v)"
  by (simp add: json_number_def split: option.split)

lemmas no_control_rules = json_field_no_control json_string_no_control json_number_no_control

lemma json_dimension_no_control: "(\<And>x. no_control (num x)) \<Longrightarrow> no_control (json_dimension num d)"
  unfolding json_dimension_def by (rule json_object_no_control) (simp add: no_control_rules)

lemma json_citation_no_control: "(\<And>x. no_control (num x)) \<Longrightarrow> no_control (json_citation num c)"
  unfolding json_citation_def
  by (rule json_object_no_control) (cases "ci_quote c"; simp add: no_control_rules)

lemma render_no_control: "(\<And>x. no_control (num x)) \<Longrightarrow> no_control (render num g)"
  unfolding render_def
  by (rule json_object_no_control)
    (simp add: no_control_rules json_list_no_control json_dimension_no_control json_citation_no_control)

lemma lower_control: "lower_char c = CHR 0x0A \<longleftrightarrow> c = CHR 0x0A"
proof -
  define n where "n = (of_char c :: nat)"
  show ?thesis
  proof (cases "(65 \<le> n \<and> n \<le> 90) \<or> (192 \<le> n \<and> n \<le> 222 \<and> n \<noteq> 215)")
    case True
    then have "lower_char c = char_of (n + 32)" by (simp add: lower_char_def Let_def n_def)
    moreover have "(of_char (char_of (n + 32) :: char) :: nat) = n + 32" using True by auto
    moreover have "(of_char (CHR 0x0A) :: nat) = 10" by simp
    ultimately have "lower_char c = CHR 0x0A \<Longrightarrow> n + 32 = 10" by simp
    then have "lower_char c \<noteq> CHR 0x0A" by auto
    moreover have "c \<noteq> CHR 0x0A" using True by (auto simp: n_def)
    ultimately show ?thesis by simp
  next
    case False
    then show ?thesis by (auto simp: lower_char_def Let_def simp flip: n_def)
  qed
qed

lemma lower_keeps_break: "CHR 0x0A \<in> set (to_lower s) \<longleftrightarrow> CHR 0x0A \<in> set s"
proof
  assume "CHR 0x0A \<in> set (to_lower s)"
  then obtain c where "c \<in> set s" "lower_char c = CHR 0x0A" by (auto simp: to_lower_def)
  then show "CHR 0x0A \<in> set s" using lower_control by metis
next
  assume "CHR 0x0A \<in> set s"
  moreover have "lower_char (CHR 0x0A) = CHR 0x0A" using lower_control by blast
  ultimately show "CHR 0x0A \<in> set (to_lower s)" unfolding to_lower_def set_map by (metis image_eqI)
qed

lemma escaped_values_missed:
  assumes "\<And>x. no_control (num x)" and "\<And>v. v \<in> set forbidden \<Longrightarrow> CHR 0x0A \<in> set (trim v)"
  shows "\<not> leaks num g forbidden"
proof -
  have no: "CHR 0x0A \<notin> set (to_lower (render num g))"
    unfolding lower_keeps_break using render_no_control [of num g] assms(1) by (auto simp: no_control_def)
  have "\<not> has_sub (to_lower (render num g)) (to_lower (trim v))" if v: "v \<in> set forbidden" for v
  proof
    assume "has_sub (to_lower (render num g)) (to_lower (trim v))"
    then have "set (to_lower (trim v)) \<subseteq> set (to_lower (render num g))" unfolding has_sub_iff by auto
    then show False using no assms(2) [OF v] lower_keeps_break by blast
  qed
  then show ?thesis unfolding leaks_def by blast
qed

end
