(* ===== verification/SessionClient.thy ===== *)
theory SessionClient
  imports SessionChannel
begin

text \<open>
  \<open>apps/web/lib/session-client.ts\<close>: the outbox of the browser. Edits wait for a pause, each event gets
  the next number and a key of its own, stays in the outbox until it is acknowledged and is sent again
  after a reconnect. Identifiers come from a supply \<open>nid\<close>; a transport is \<open>Some\<close> of its \<open>connected\<close>; a
  timer is whether it is set. The record also keeps, in order, the events created so far and the
  frames handed to the transport.
\<close>

section \<open>State\<close>

record outbox_entry =
  ob_event :: client_event
  ob_attempts :: nat

record session_client =
  sc_sessionId :: string
  sc_outbox :: "(string \<times> outbox_entry) list"
  sc_clientSeq :: int
  sc_codeRevision :: int
  sc_lastAckedSeq :: int
  sc_lastAckedClientSeq :: int
  sc_waiters :: "(nat \<times> int) list"
  sc_pendingCode :: "string option"
  sc_pendingNotes :: "string option"
  sc_flushTimer :: bool
  sc_transport :: "bool option"
  sc_stopped :: bool
  sc_reconnectTimer :: "real option"
  sc_reconnectAttempts :: nat
  sc_ids :: nat
  sc_created :: "client_event list"
  sc_sent :: "client_event list"
  sc_settled :: "(nat \<times> int) list"

definition new_client :: "string \<Rightarrow> int option \<Rightarrow> int option \<Rightarrow> session_client" where
  "new_client sid seq0 rev0 = \<lparr>sc_sessionId = sid, sc_outbox = [],
     sc_clientSeq = (case seq0 of None \<Rightarrow> 0 | Some n \<Rightarrow> n), sc_codeRevision = (case rev0 of None \<Rightarrow> 0 | Some n \<Rightarrow> n),
     sc_lastAckedSeq = -1, sc_lastAckedClientSeq = -1, sc_waiters = [], sc_pendingCode = None, sc_pendingNotes = None,
     sc_flushTimer = False, sc_transport = None, sc_stopped = False, sc_reconnectTimer = None, sc_reconnectAttempts = 0,
     sc_ids = 0, sc_created = [], sc_sent = [], sc_settled = []\<rparr>"

section \<open>Sending\<close>

definition try_send :: "client_event \<Rightarrow> session_client \<Rightarrow> session_client" where
  "try_send e c =
     (if sc_transport c \<noteq> Some True then c
      else c\<lparr>sc_outbox := (case get_key (sc_outbox c) (ce_key e) of
                 None \<Rightarrow> sc_outbox c
               | Some en \<Rightarrow> set_key (sc_outbox c) (ce_key e) (en\<lparr>ob_attempts := ob_attempts en + 1\<rparr>)),
             sc_sent := sc_sent c @ [e]\<rparr>)"

text \<open>\<open>enqueue\<close>; the event happened at \<open>t\<close>.\<close>

definition enqueue_event :: "(nat \<Rightarrow> string) \<Rightarrow> event_type \<Rightarrow> payload \<Rightarrow> real \<Rightarrow> session_client \<Rightarrow> session_client" where
  "enqueue_event nid ty p t c =
     (let e = \<lparr>ce_sessionId = sc_sessionId c, ce_clientSeq = sc_clientSeq c, ce_key = nid (sc_ids c), ce_type = ty,
               ce_occurredAt = Some t, ce_payload = p\<rparr>
      in try_send e (c\<lparr>sc_clientSeq := sc_clientSeq c + 1, sc_ids := sc_ids c + 1,
                        sc_outbox := set_key (sc_outbox c) (ce_key e) \<lparr>ob_event = e, ob_attempts = 0\<rparr>,
                        sc_created := sc_created c @ [e]\<rparr>))"

definition sorted_outbox :: "session_client \<Rightarrow> client_event list" where
  "sorted_outbox c = sort_key ce_clientSeq (map (\<lambda>kv. ob_event (snd kv)) (sc_outbox c))"

definition flush_outbox :: "session_client \<Rightarrow> session_client" where
  "flush_outbox c = fold try_send (sorted_outbox c) c"

section \<open>Edits\<close>

definition codeChanged :: "string \<Rightarrow> session_client \<Rightarrow> session_client" where
  "codeChanged s c = c\<lparr>sc_pendingCode := Some s, sc_flushTimer := True\<rparr>"

definition notesChanged :: "string \<Rightarrow> session_client \<Rightarrow> session_client" where
  "notesChanged s c = c\<lparr>sc_pendingNotes := Some s, sc_flushTimer := True\<rparr>"

definition flush_code :: "(nat \<Rightarrow> string) \<Rightarrow> real \<Rightarrow> session_client \<Rightarrow> session_client" where
  "flush_code nid now c = (case sc_pendingCode c of
     None \<Rightarrow> c
   | Some s \<Rightarrow>
       (let c1 = c\<lparr>sc_codeRevision := sc_codeRevision c + 1\<rparr>
        in (enqueue_event nid CODE_DELTA
              [(''revision'', JNum (real_of_int (sc_codeRevision c1))), (''text'', JStr s)] now c1)\<lparr>sc_pendingCode := None\<rparr>))"

definition flush_notes :: "(nat \<Rightarrow> string) \<Rightarrow> real \<Rightarrow> session_client \<Rightarrow> session_client" where
  "flush_notes nid now c = (case sc_pendingNotes c of
     None \<Rightarrow> c
   | Some s \<Rightarrow> (enqueue_event nid NOTE_DELTA [(''text'', JStr s)] now c)\<lparr>sc_pendingNotes := None\<rparr>)"

definition flush_edits :: "(nat \<Rightarrow> string) \<Rightarrow> real \<Rightarrow> session_client \<Rightarrow> session_client" where
  "flush_edits nid now c = flush_notes nid now (flush_code nid now (c\<lparr>sc_flushTimer := False\<rparr>))"

definition requestRun :: "(nat \<Rightarrow> string) \<Rightarrow> string \<Rightarrow> real \<Rightarrow> session_client \<Rightarrow> session_client \<times> int" where
  "requestRun nid inp now c =
     (let c1 = flush_edits nid now c
      in (enqueue_event nid RUN_REQUESTED
            [(''revision'', JNum (real_of_int (sc_codeRevision c1))), (''input'', JStr inp)] now c1, sc_codeRevision c1))"

definition speechBoundary ::
  "(nat \<Rightarrow> string) \<Rightarrow> event_type \<Rightarrow> real \<Rightarrow> json option \<Rightarrow> string option \<Rightarrow> session_client \<Rightarrow> session_client" where
  "speechBoundary nid ty t prosody interim c =
     (let p = (if ty = SPEECH_STOPPED
               then (case prosody of None \<Rightarrow> [] | Some j \<Rightarrow> [(''prosody'', j)]) @
                    (case interim of
                       None \<Rightarrow> []
                     | Some s \<Rightarrow> if trim s = [] then [] else [(''interimTranscript'', JStr (take 400 (trim s)))])
               else [])
      in enqueue_event nid ty p t c)"

definition speechFinal :: "(nat \<Rightarrow> string) \<Rightarrow> string \<Rightarrow> real option \<Rightarrow> real \<Rightarrow> session_client \<Rightarrow> session_client" where
  "speechFinal nid words at_ms now c =
     (if trim words = [] then c
      else (let ended = (case at_ms of None \<Rightarrow> now | Some t \<Rightarrow> t)
            in enqueue_event nid SPEECH_FINAL
                 [(''segmentId'', JStr (nid (sc_ids c))), (''speaker'', JStr ''CANDIDATE''), (''transcript'', JStr (trim words)),
                  (''finalized'', JBool True), (''endedAt'', JDate (Some ended))] ended (c\<lparr>sc_ids := sc_ids c + 1\<rparr>)))"

definition pendingCount :: "session_client \<Rightarrow> nat" where
  "pendingCount c = length (sc_outbox c) + (if sc_pendingCode c \<noteq> None then 1 else 0) + (if sc_pendingNotes c \<noteq> None then 1 else 0)"

section \<open>Acknowledgements\<close>

definition has_pending_through :: "int \<Rightarrow> session_client \<Rightarrow> bool" where
  "has_pending_through n c \<longleftrightarrow> (\<exists>kv\<in>set (sc_outbox c). ce_clientSeq (ob_event (snd kv)) \<le> n)"

definition resolve_waiters :: "session_client \<Rightarrow> session_client" where
  "resolve_waiters c =
     (let done = filter (\<lambda>w. \<not> has_pending_through (snd w) c) (sc_waiters c)
      in c\<lparr>sc_waiters := filter (\<lambda>w. has_pending_through (snd w) c) (sc_waiters c), sc_settled := sc_settled c @ done\<rparr>)"

text \<open>\<open>flushAndWaitForAcknowledgement\<close>: \<open>Some\<close> number when the promise is resolved at once.\<close>

definition flush_and_wait :: "(nat \<Rightarrow> string) \<Rightarrow> nat \<Rightarrow> real \<Rightarrow> session_client \<Rightarrow> session_client \<times> int option" where
  "flush_and_wait nid w now c =
     (let c1 = flush_edits nid now c;
          target = sc_clientSeq c1 - 1
      in if target \<le> sc_lastAckedClientSeq c1 \<or> \<not> has_pending_through target c1 then (c1, Some target)
         else (c1\<lparr>sc_waiters := sc_waiters c1 @ [(w, target)]\<rparr>, None))"

definition wait_timeout :: "nat \<Rightarrow> session_client \<Rightarrow> session_client" where
  "wait_timeout w c = c\<lparr>sc_waiters := filter (\<lambda>v. fst v \<noteq> w) (sc_waiters c)\<rparr>"

fun handle_server_message :: "server_message \<Rightarrow> session_client \<Rightarrow> session_client" where
  "handle_server_message (ACK n s) c =
     resolve_waiters (c\<lparr>sc_lastAckedSeq := max (sc_lastAckedSeq c) (int s),
       sc_lastAckedClientSeq := max (sc_lastAckedClientSeq c) n,
       sc_outbox := filter (\<lambda>kv. ce_clientSeq (ob_event (snd kv)) \<noteq> n) (sc_outbox c)\<rparr>)"
| "handle_server_message (REPLAY_FROM n) c = fold try_send (filter (\<lambda>e. n \<le> ce_clientSeq e) (sorted_outbox c)) c"
| "handle_server_message _ c = c"

section \<open>The connection\<close>

definition client_connect :: "session_client \<Rightarrow> session_client" where
  "client_connect c = c\<lparr>sc_reconnectTimer := None, sc_stopped := False, sc_transport := Some False\<rparr>"

definition on_open_socket :: "session_client \<Rightarrow> session_client" where
  "on_open_socket c = flush_outbox (c\<lparr>sc_transport := Some True, sc_reconnectAttempts := 0\<rparr>)"

text \<open>\<open>rnd\<close> is the random number of the jitter, from 0 to 1.\<close>

definition reconnect_delay :: "real \<Rightarrow> nat \<Rightarrow> real \<Rightarrow> real" where
  "reconnect_delay d attempts rnd = min 30000 (d * 2 ^ min attempts 10) * (1 / 2 + rnd * (1 / 2))"

definition on_close_socket :: "real option \<Rightarrow> real \<Rightarrow> bool \<Rightarrow> session_client \<Rightarrow> session_client" where
  "on_close_socket delayMs rnd retryable c =
     (let c1 = c\<lparr>sc_transport := map_option (\<lambda>_. False) (sc_transport c), sc_stopped := sc_stopped c \<or> \<not> retryable\<rparr>
      in case delayMs of
           None \<Rightarrow> c1
         | Some d \<Rightarrow>
             if sc_stopped c1 \<or> sc_reconnectTimer c1 \<noteq> None then c1
             else c1\<lparr>sc_reconnectTimer := Some (reconnect_delay d (sc_reconnectAttempts c1) rnd),
                     sc_reconnectAttempts := sc_reconnectAttempts c1 + 1\<rparr>)"

definition reconnect_timer :: "session_client \<Rightarrow> session_client" where
  "reconnect_timer c =
     (let c1 = c\<lparr>sc_reconnectTimer := None\<rparr> in if sc_stopped c1 then c1 else client_connect c1)"

definition client_disconnect :: "session_client \<Rightarrow> session_client" where
  "client_disconnect c = c\<lparr>sc_stopped := True, sc_reconnectTimer := None, sc_flushTimer := False, sc_transport := None\<rparr>"

section \<open>The calls as one type\<close>

datatype client_call =
    CodeChanged string
  | NotesChanged string
  | Flush
  | RequestRun string
  | SpeechBoundary event_type real "json option" "string option"
  | SpeechFinal string "real option"
  | FlushAndWait nat
  | WaitTimeout nat
  | Receive server_message
  | Connect
  | Opened
  | Closed "real option" real bool
  | ReconnectTimer
  | Disconnect

fun client_do :: "(nat \<Rightarrow> string) \<Rightarrow> client_call \<Rightarrow> real \<Rightarrow> session_client \<Rightarrow> session_client" where
  "client_do nid (CodeChanged s) now c = codeChanged s c"
| "client_do nid (NotesChanged s) now c = notesChanged s c"
| "client_do nid Flush now c = flush_edits nid now c"
| "client_do nid (RequestRun inp) now c = fst (requestRun nid inp now c)"
| "client_do nid (SpeechBoundary ty t p i) now c = speechBoundary nid ty t p i c"
| "client_do nid (SpeechFinal s t) now c = speechFinal nid s t now c"
| "client_do nid (FlushAndWait w) now c = fst (flush_and_wait nid w now c)"
| "client_do nid (WaitTimeout w) now c = wait_timeout w c"
| "client_do nid (Receive m) now c = handle_server_message m c"
| "client_do nid Connect now c = client_connect c"
| "client_do nid Opened now c = on_open_socket c"
| "client_do nid (Closed d rnd retryable) now c = on_close_socket d rnd retryable c"
| "client_do nid ReconnectTimer now c = reconnect_timer c"
| "client_do nid Disconnect now c = client_disconnect c"

text \<open>A boundary is one of the two types that the code's signature allows.\<close>

fun call_ok :: "client_call \<Rightarrow> bool" where
  "call_ok (SpeechBoundary ty t p i) \<longleftrightarrow> ty \<in> {SPEECH_STARTED, SPEECH_STOPPED}"
| "call_ok _ \<longleftrightarrow> True"

section \<open>What every call keeps\<close>

text \<open>The frame of a send: only the attempts and the frames handed over change.\<close>

lemma try_send_sel [simp]:
  "sc_sessionId (try_send e c) = sc_sessionId c" "sc_clientSeq (try_send e c) = sc_clientSeq c"
  "sc_codeRevision (try_send e c) = sc_codeRevision c" "sc_lastAckedClientSeq (try_send e c) = sc_lastAckedClientSeq c"
  "sc_waiters (try_send e c) = sc_waiters c" "sc_transport (try_send e c) = sc_transport c"
  "sc_ids (try_send e c) = sc_ids c" "sc_created (try_send e c) = sc_created c" "sc_settled (try_send e c) = sc_settled c"
  "sc_pendingCode (try_send e c) = sc_pendingCode c" "sc_pendingNotes (try_send e c) = sc_pendingNotes c"
  "sc_sent (try_send e c) = sc_sent c @ (if sc_transport c = Some True then [e] else [])"
  by (simp_all add: try_send_def)

definition outbox_events :: "session_client \<Rightarrow> (string \<times> client_event) list" where
  "outbox_events c = map (\<lambda>kv. (fst kv, ob_event (snd kv))) (sc_outbox c)"

lemma set_key_same_event:
  "get_key m k = Some en \<Longrightarrow> ob_event en' = ob_event en \<Longrightarrow>
   map (\<lambda>kv. (fst kv, ob_event (snd kv))) (set_key m k en') = map (\<lambda>kv. (fst kv, ob_event (snd kv))) m"
  by (induction m k en' rule: set_key.induct) (auto split: if_splits)

lemma try_send_outbox [simp]: "outbox_events (try_send e c) = outbox_events c"
  by (auto simp: try_send_def outbox_events_def set_key_same_event split: option.split)

lemma sorted_outbox_alt: "sorted_outbox c = sort_key ce_clientSeq (map snd (outbox_events c))"
  by (simp add: sorted_outbox_def outbox_events_def comp_def)

lemma fold_try_send [simp]:
  "sc_sessionId (fold try_send es c) = sc_sessionId c" "sc_clientSeq (fold try_send es c) = sc_clientSeq c"
  "sc_codeRevision (fold try_send es c) = sc_codeRevision c" "sc_lastAckedClientSeq (fold try_send es c) = sc_lastAckedClientSeq c"
  "sc_waiters (fold try_send es c) = sc_waiters c" "sc_transport (fold try_send es c) = sc_transport c"
  "sc_ids (fold try_send es c) = sc_ids c" "sc_created (fold try_send es c) = sc_created c"
  "sc_settled (fold try_send es c) = sc_settled c" "outbox_events (fold try_send es c) = outbox_events c"
  "sc_sent (fold try_send es c) = sc_sent c @ (if sc_transport c = Some True then es else [])"
  by (induction es arbitrary: c) auto

lemma has_pending_alt: "has_pending_through n c \<longleftrightarrow> (\<exists>x\<in>set (outbox_events c). ce_clientSeq (snd x) \<le> n)"
  by (auto simp: has_pending_through_def outbox_events_def)

text \<open>
  The numbers, keys and places of the events: the \<open>j\<close>-th created one has the number \<open>b + j\<close>, every entry
  of the outbox and every frame is a created event, and no key repeats.
\<close>

definition client_inv :: "(nat \<Rightarrow> string) \<Rightarrow> string \<Rightarrow> int \<Rightarrow> session_client \<Rightarrow> bool" where
  "client_inv nid sid b c \<longleftrightarrow> sc_sessionId c = sid \<and> sc_clientSeq c = b + int (length (sc_created c)) \<and>
     (\<forall>j<length (sc_created c). ce_clientSeq (sc_created c ! j) = b + int j) \<and>
     (\<forall>e\<in>set (sc_created c). ce_sessionId e = sid \<and> ce_key e \<in> nid ` {..<sc_ids c} \<and> ce_type e \<in> set CLIENT_EVENT_TYPES \<and>
        ce_occurredAt e \<noteq> None) \<and>
     distinct (map ce_key (sc_created c)) \<and> distinct (map fst (sc_outbox c)) \<and>
     (\<forall>x\<in>set (outbox_events c). snd x \<in> set (sc_created c) \<and> fst x = ce_key (snd x)) \<and>
     set (sc_sent c) \<subseteq> set (sc_created c)"

lemma client_inv_new: "client_inv nid sid b (new_client sid (Some b) r)"
  by (simp add: client_inv_def new_client_def outbox_events_def)

lemma distinct_outbox_events: "distinct (map fst (outbox_events c)) \<longleftrightarrow> distinct (map fst (sc_outbox c))"
  by (simp add: outbox_events_def comp_def)

lemma client_inv_try_send:
  assumes "client_inv nid sid b c" and "e \<in> set (sc_created c)"
  shows "client_inv nid sid b (try_send e c)"
proof -
  have "distinct (map fst (sc_outbox (try_send e c)))"
    using assms(1) unfolding client_inv_def distinct_outbox_events [symmetric] by simp
  then show ?thesis using assms by (auto simp: client_inv_def)
qed

lemma client_inv_fold:
  assumes "client_inv nid sid b c" and "set es \<subseteq> set (sc_created c)"
  shows "client_inv nid sid b (fold try_send es c)"
  using assms
proof (induction es arbitrary: c)
  case (Cons e es)
  have "client_inv nid sid b (try_send e c)" using Cons.prems by (intro client_inv_try_send) simp_all
  then show ?case using Cons.IH [of "try_send e c"] Cons.prems(2) by simp
qed simp

lemma sorted_outbox_created: "client_inv nid sid b c \<Longrightarrow> set (sorted_outbox c) \<subseteq> set (sc_created c)"
  by (auto simp: sorted_outbox_alt client_inv_def)

text \<open>Updates that touch none of the fields the invariant speaks of.\<close>

lemma client_inv_updates [simp]:
  "client_inv nid sid b (c\<lparr>sc_pendingCode := x1\<rparr>) = client_inv nid sid b c"
  "client_inv nid sid b (c\<lparr>sc_pendingNotes := x2\<rparr>) = client_inv nid sid b c"
  "client_inv nid sid b (c\<lparr>sc_codeRevision := x3\<rparr>) = client_inv nid sid b c"
  "client_inv nid sid b (c\<lparr>sc_flushTimer := x4\<rparr>) = client_inv nid sid b c"
  "client_inv nid sid b (c\<lparr>sc_waiters := x5\<rparr>) = client_inv nid sid b c"
  "client_inv nid sid b (c\<lparr>sc_settled := x6\<rparr>) = client_inv nid sid b c"
  "client_inv nid sid b (c\<lparr>sc_transport := x7\<rparr>) = client_inv nid sid b c"
  "client_inv nid sid b (c\<lparr>sc_stopped := x8\<rparr>) = client_inv nid sid b c"
  "client_inv nid sid b (c\<lparr>sc_reconnectTimer := x9\<rparr>) = client_inv nid sid b c"
  "client_inv nid sid b (c\<lparr>sc_reconnectAttempts := x10\<rparr>) = client_inv nid sid b c"
  "client_inv nid sid b (c\<lparr>sc_lastAckedSeq := x11\<rparr>) = client_inv nid sid b c"
  "client_inv nid sid b (c\<lparr>sc_lastAckedClientSeq := x12\<rparr>) = client_inv nid sid b c"
  by (simp_all add: client_inv_def outbox_events_def)

lemma client_inv_skip_id: "client_inv nid sid b c \<Longrightarrow> client_inv nid sid b (c\<lparr>sc_ids := sc_ids c + 1\<rparr>)"
  by (fastforce simp: client_inv_def outbox_events_def)

lemma client_inv_enqueue:
  assumes inv: "client_inv nid sid b c" and "inj nid" and "ty \<in> set CLIENT_EVENT_TYPES"
  shows "client_inv nid sid b (enqueue_event nid ty p t c)"
proof -
  define e where "e = \<lparr>ce_sessionId = sc_sessionId c, ce_clientSeq = sc_clientSeq c, ce_key = nid (sc_ids c), ce_type = ty,
      ce_occurredAt = Some t, ce_payload = p\<rparr>"
  define d where "d = c\<lparr>sc_clientSeq := sc_clientSeq c + 1, sc_ids := sc_ids c + 1,
      sc_outbox := set_key (sc_outbox c) (ce_key e) \<lparr>ob_event = e, ob_attempts = 0\<rparr>, sc_created := sc_created c @ [e]\<rparr>"
  have new: "ce_key e \<notin> ce_key ` set (sc_created c)"
    using inv assms(2) by (auto simp: client_inv_def e_def inj_eq)
  then have "ce_key e \<notin> fst ` set (sc_outbox c)"
    using inv by (force simp: client_inv_def outbox_events_def)
  then have out: "sc_outbox d = sc_outbox c @ [(ce_key e, \<lparr>ob_event = e, ob_attempts = 0\<rparr>)]"
    by (simp add: d_def set_key_new)
  have "client_inv nid sid b d"
    using inv new out assms(3) unfolding client_inv_def outbox_events_def
    by (auto simp: d_def e_def nth_append less_Suc_eq)
  then have "client_inv nid sid b (try_send e d)" by (rule client_inv_try_send) (simp add: d_def)
  then show ?thesis by (simp add: enqueue_event_def Let_def e_def d_def)
qed

lemma client_event_types [simp]:
  "{CODE_DELTA, NOTE_DELTA, RUN_REQUESTED, SPEECH_STARTED, SPEECH_STOPPED, SPEECH_FINAL, BARGE_IN} \<subseteq> set CLIENT_EVENT_TYPES"
  "CODE_DELTA \<in> set CLIENT_EVENT_TYPES" "NOTE_DELTA \<in> set CLIENT_EVENT_TYPES" "RUN_REQUESTED \<in> set CLIENT_EVENT_TYPES"
  "SPEECH_STARTED \<in> set CLIENT_EVENT_TYPES" "SPEECH_STOPPED \<in> set CLIENT_EVENT_TYPES" "SPEECH_FINAL \<in> set CLIENT_EVENT_TYPES"
  by (simp_all add: CLIENT_EVENT_TYPES_def)

lemma client_inv_flush:
  assumes "client_inv nid sid b c" and "inj nid"
  shows "client_inv nid sid b (flush_edits nid now c)"
  using assms client_inv_enqueue
  by (auto simp: flush_edits_def flush_code_def flush_notes_def Let_def split: option.split)

lemma client_inv_ack:
  assumes "client_inv nid sid b c"
  shows "client_inv nid sid b (handle_server_message (ACK n s) c)"
proof -
  have "distinct (map fst (filter (\<lambda>kv. ce_clientSeq (ob_event (snd kv)) \<noteq> n) (sc_outbox c)))"
    using assms by (simp add: client_inv_def)
  then show ?thesis
    using assms unfolding client_inv_def
    by (auto simp: resolve_waiters_def Let_def outbox_events_def)
qed

lemma client_inv_do:
  assumes inv: "client_inv nid sid b c" and "inj nid" and "call_ok k"
  shows "client_inv nid sid b (client_do nid k now c)"
proof (cases k)
  case (RequestRun s)
  from client_inv_enqueue [OF client_inv_flush [OF inv assms(2)] assms(2)] show ?thesis
    using RequestRun by (simp add: requestRun_def Let_def)
next
  case (SpeechBoundary ty t p i)
  then have "ty \<in> set CLIENT_EVENT_TYPES" using assms(3) by auto
  from client_inv_enqueue [OF inv assms(2) this] show ?thesis using SpeechBoundary by (simp add: speechBoundary_def Let_def)
next
  case (SpeechFinal s t)
  from client_inv_enqueue [OF client_inv_skip_id [OF inv] assms(2)] show ?thesis
    using SpeechFinal inv by (simp add: speechFinal_def Let_def)
next
  case (Receive m)
  show ?thesis
  proof (cases m)
    case (ACK n s)
    then show ?thesis using client_inv_ack [OF inv] Receive by simp
  next
    case (REPLAY_FROM n)
    then show ?thesis using sorted_outbox_created [OF inv] Receive by (auto intro!: client_inv_fold [OF inv])
  qed (use inv Receive in simp_all)
next
  case Opened
  let ?d = "c\<lparr>sc_transport := Some True, sc_reconnectAttempts := 0\<rparr>"
  have d: "client_inv nid sid b ?d" using inv by simp
  show ?thesis
    using client_inv_fold [OF d sorted_outbox_created [OF d]] Opened by (simp add: on_open_socket_def flush_outbox_def)
next
  case (FlushAndWait w)
  from client_inv_flush [OF inv assms(2)] show ?thesis using FlushAndWait by (simp add: flush_and_wait_def Let_def)
qed (use inv client_inv_flush [OF inv assms(2)] in
    \<open>auto simp: codeChanged_def notesChanged_def wait_timeout_def client_connect_def on_close_socket_def reconnect_timer_def
       client_disconnect_def Let_def split: option.split\<close>)

section \<open>Reconnecting\<close>

text \<open>The delay is at most half a minute and at least half of what the attempts ask for.\<close>

lemma reconnect_delay_bounds:
  assumes "0 \<le> d" and "0 \<le> rnd" and "rnd \<le> 1"
  shows "reconnect_delay d n rnd \<le> 30000" and "min 30000 (d * 2 ^ min n 10) / 2 \<le> reconnect_delay d n rnd"
  unfolding atomize_conj
proof -
  define m where "m = min 30000 (d * 2 ^ min n 10)"
  have m: "0 \<le> m" "m \<le> 30000" using assms(1) by (simp_all add: m_def)
  have "m * (1 / 2 + rnd * (1 / 2)) \<le> m * 1" "m * (1 / 2) \<le> m * (1 / 2 + rnd * (1 / 2))"
    by (rule mult_left_mono; use assms m(1) in simp)+
  then show "reconnect_delay d n rnd \<le> 30000 \<and> min 30000 (d * 2 ^ min n 10) / 2 \<le> reconnect_delay d n rnd"
    using m(2) unfolding reconnect_delay_def m_def [symmetric] by linarith
qed

end
