(* ===== verification/Delivery.thy ===== *)
theory Delivery
  imports SessionClient "HOL-Library.Sublist"
begin

text \<open>
  The browser's outbox and the server's channel together. The network between them may lose, repeat
  and reorder frames and replies: any frame that was ever handed to a transport can reach the server
  at any time, any reply that was ever made can reach the browser. Other sessions, the server's own
  appends and a channel that forgets its cursor go on in between.
\<close>

section \<open>The two ends and the network\<close>

record link =
  lk_client :: session_client
  lk_log :: event_log
  lk_channel :: channel
  lk_replies :: "server_message list"

inductive link_step :: "(nat \<Rightarrow> string) \<Rightarrow> hashing \<Rightarrow> string \<Rightarrow> link \<Rightarrow> link \<Rightarrow> bool" for nid h sid where
  browser: "call_ok k \<Longrightarrow> (\<And>m c n. k = Receive m \<Longrightarrow> m = ACK c n \<Longrightarrow> m \<in> set (lk_replies w) \<or> c < 0) \<Longrightarrow>
    link_step nid h sid w (w\<lparr>lk_client := client_do nid k now (lk_client w)\<rparr>)"
| frame: "e \<in> set (sc_sent (lk_client w)) \<Longrightarrow>
    handleClientEvent h now (Some e) st (lk_log w) (lk_channel w) = Inr (l', ch', res) \<Longrightarrow>
    link_step nid h sid w (w\<lparr>lk_log := l', lk_channel := ch', lk_replies := lk_replies w @ hr_messages res\<rparr>)"
| other: "(\<And>e. raw = Some e \<Longrightarrow> ce_sessionId e \<noteq> sid) \<Longrightarrow>
    handleClientEvent h now raw st (lk_log w) (lk_channel w) = Inr (l', ch', res) \<Longrightarrow>
    link_step nid h sid w (w\<lparr>lk_log := l', lk_channel := ch'\<rparr>)"
| server: "uuid_like (rq_session r) \<Longrightarrow> rq_clientSeq r = None \<Longrightarrow> (rq_session r = sid \<Longrightarrow> rq_key r \<notin> range nid) \<Longrightarrow>
    append_log h now r (lk_log w) = Inr (l', ev, d) \<Longrightarrow> link_step nid h sid w (w\<lparr>lk_log := l'\<rparr>)"
| forgotten: "link_step nid h sid w (w\<lparr>lk_channel := SessionChannel.forget (lk_channel w) s\<rparr>)"

text \<open>The numbered events of a session as the log keeps them.\<close>

definition numbered :: "event_log \<Rightarrow> string \<Rightarrow> (int \<times> session_event) list" where
  "numbered l s = or_empty (get_key (el_clientSeqs l) s)"

definition carries :: "client_event \<Rightarrow> session_event \<Rightarrow> bool" where
  "carries e ev \<longleftrightarrow> sessionId ev = ce_sessionId e \<and> etype ev = ce_type e \<and> payload ev = ce_payload e \<and>
     occurredAt ev = ce_occurredAt e \<and> actor ev = CANDIDATE"

lemma numbers_of_numbered: "client_numbers l s = map fst (numbered l s)"
  by (simp add: client_numbers_def numbered_def)

lemma numbered_insert:
  assumes "client_seq_error l r = None"
  shows "numbered (insert_event r e l) s =
    (if s = rq_session r then numbered l s @ (case rq_clientSeq r of None \<Rightarrow> [] | Some n \<Rightarrow> [(n, e)]) else numbered l s)"
proof (cases "rq_clientSeq r")
  case (Some n)
  then have "n \<notin> fst ` set (or_empty (get_key (el_clientSeqs l) (rq_session r)))"
    using assms by (auto simp: client_seq_error_def client_numbers_def split: if_splits)
  then show ?thesis using Some by (simp add: numbered_def insert_event_def Let_def set_key_new)
qed (simp add: numbered_def insert_event_def Let_def)

section \<open>What holds at every moment\<close>

text \<open>
  \<open>k\<close> of the events created so far are in the log, as its numbered events behind the \<open>E0\<close> that were there
  when the page was loaded.
\<close>

definition log_side :: "(nat \<Rightarrow> string) \<Rightarrow> string \<Rightarrow> (int \<times> session_event) list \<Rightarrow> nat \<Rightarrow> client_event list \<Rightarrow> event_log \<Rightarrow> bool" where
  "log_side nid sid E0 k H l \<longleftrightarrow> log_wf l \<and> uuid_like sid \<and> k \<le> length H \<and>
     (\<exists>evs. numbered l sid = E0 @ zip (map (\<lambda>j. int (length E0) + int j) [0..<k]) evs \<and> list_all2 carries (take k H) evs \<and>
        subseq evs (session_events l sid) \<and>
        (\<forall>j<k. stored_event l (sid, ce_key (H ! j)) = Some (evs ! j))) \<and>
     map fst E0 = map int [0..<length E0] \<and>
     (\<forall>i. nid i \<notin> ce_key ` set (take k H) \<longrightarrow> stored_event l (sid, nid i) = None)"

definition client_side :: "int \<Rightarrow> nat \<Rightarrow> session_client \<Rightarrow> bool" where
  "client_side b k c \<longleftrightarrow> sc_lastAckedClientSeq c < b + int k \<and>
     (\<forall>j<length (sc_created c). sc_created c ! j \<in> snd ` set (outbox_events c) \<or> j < k) \<and>
     (\<forall>v\<in>set (sc_waiters c). snd v < b + int (length (sc_created c))) \<and> (\<forall>v\<in>set (sc_settled c). snd v < b + int k)"

definition link_inv :: "(nat \<Rightarrow> string) \<Rightarrow> string \<Rightarrow> (int \<times> session_event) list \<Rightarrow> nat \<Rightarrow> link \<Rightarrow> bool" where
  "link_inv nid sid E0 k w \<longleftrightarrow> (let b = int (length E0); c = lk_client w in
     client_inv nid sid b c \<and> client_side b k c \<and> log_side nid sid E0 k (sc_created c) (lk_log w) \<and>
     (\<forall>n. get_key (lk_channel w) sid = Some n \<longrightarrow> n = b + int k - 1) \<and>
     (\<forall>n q. ACK n q \<in> set (lk_replies w) \<longrightarrow> n < b + int k))"

lemma log_side_numbers:
  assumes "log_side nid sid E0 k H l"
  shows "client_numbers l sid = map int [0..<length E0 + k]" and "latestClientSeq l sid = int (length E0) + int k - 1"
proof -
  obtain evs where evs: "numbered l sid = E0 @ zip (map (\<lambda>j. int (length E0) + int j) [0..<k]) evs" "length evs = k"
      "map fst E0 = map int [0..<length E0]"
    using assms by (auto simp: log_side_def dest: list_all2_lengthD)
  have "map (\<lambda>j. int (length E0) + int j) [0..<k] = map int [length E0..<length E0 + k]"
    by (rule nth_equalityI) auto
  then have "map fst (numbered l sid) = map int ([0..<length E0] @ [length E0..<length E0 + k])"
    using evs by simp
  also have "[0..<length E0] @ [length E0..<length E0 + k] = [0..<length E0 + k]"
    using upt_add_eq_append [of 0 "length E0" k] by simp
  finally show nums: "client_numbers l sid = map int [0..<length E0 + k]" by (simp add: numbers_of_numbered)
  then have "numbers_upto (client_numbers l sid)" by (simp add: numbers_upto_def)
  then show "latestClientSeq l sid = int (length E0) + int k - 1" using latestClientSeq_upto nums by simp
qed

text \<open>Events created later do not concern the log.\<close>

lemma log_side_more:
  assumes "log_side nid sid E0 k H l" shows "log_side nid sid E0 k (H @ es) l"
  using assms unfolding log_side_def by (auto simp: nth_append)

text \<open>An append to another session, or of the server under a key that is not the browser's.\<close>

lemma log_side_other:
  assumes side: "log_side nid sid E0 k H l" and app: "append_log h now r l = Inr (l', ev, d)"
    and r: "uuid_like (rq_session r)" "rq_session r = sid \<Longrightarrow> rq_clientSeq r = None \<and> rq_key r \<notin> range nid"
    and keys: "\<forall>e\<in>set H. ce_key e \<in> range nid"
  shows "log_side nid sid E0 k H l'"
  using app
proof (cases rule: append_log_cases)
  case stored
  then show ?thesis using side by simp
next
  case fresh
  have num: "numbered l' sid = numbered l sid"
    using numbered_insert [OF fresh(5)] fresh(3) r(2) by auto
  have sub: "subseq evs (session_events l' sid)" if "subseq evs (session_events l sid)" for evs
    using that fresh(3) subseq_order.trans [OF that, of "session_events l sid @ [ev]"] by auto
  have "stored_event l' (sid, x) = stored_event l (sid, x)" if "x \<in> range nid" for x
  proof -
    have "uuid_like sid" using side by (simp add: log_side_def)
    moreover have "\<not> (sid = rq_session r \<and> x = rq_key r)" using r(2) that by blast
    ultimately show ?thesis using stored_event_insert [OF _ r(1), of sid ev l x] fresh(3) by auto
  qed
  moreover have "log_wf l'" using log_wf_append [OF _ r(1) app] side by (simp add: log_side_def)
  moreover have "ce_key (H ! j) \<in> range nid" if "j < k" for j using keys side that by (auto simp: log_side_def)
  ultimately show ?thesis using side num sub unfolding log_side_def by auto
qed

text \<open>The next created event is appended.\<close>

lemma log_side_next:
  assumes side: "log_side nid sid E0 k H l" and k: "k < length H" and dist: "distinct (map ce_key H)"
    and r: "rq_session r = sid" "rq_key r = ce_key (H ! k)" "rq_clientSeq r = Some (int (length E0) + int k)"
    and e: "e = new_event h now r l" and car: "carries (H ! k) e" and none: "client_seq_error l r = None"
  shows "log_side nid sid E0 (Suc k) H (insert_event r e l)"
proof -
  obtain evs where evs: "numbered l sid = E0 @ zip (map (\<lambda>j. int (length E0) + int j) [0..<k]) evs"
      "list_all2 carries (take k H) evs" "subseq evs (session_events l sid)"
      "\<forall>j<k. stored_event l (sid, ce_key (H ! j)) = Some (evs ! j)"
    using side by (auto simp: log_side_def)
  have len: "length evs = k" using evs(2) k by (auto dest: list_all2_lengthD)
  have u: "uuid_like sid" using side by (simp add: log_side_def)
  have "numbered (insert_event r e l) sid = E0 @ zip (map (\<lambda>j. int (length E0) + int j) [0..<Suc k]) (evs @ [e])"
    using numbered_insert [OF none] r evs(1) len by simp
  moreover have "list_all2 carries (take (Suc k) H) (evs @ [e])"
    using evs(2) car k by (simp add: take_Suc_conv_app_nth list_all2_appendI)
  moreover have "subseq (evs @ [e]) (session_events (insert_event r e l) sid)"
    using evs(3) r(1) by simp
  moreover have "stored_event (insert_event r e l) (sid, ce_key (H ! j)) = Some ((evs @ [e]) ! j)" if j: "j < Suc k" for j
  proof (cases "j = k")
    case True
    then show ?thesis using stored_event_insert [of sid r] u r len by (simp add: nth_append)
  next
    case False
    then have "ce_key (H ! j) \<noteq> ce_key (H ! k)" using dist j k by (simp add: distinct_conv_nth)
    then show ?thesis using stored_event_insert [of sid r] u r evs(4) len j False by (simp add: nth_append)
  qed
  moreover have "stored_event (insert_event r e l) (sid, nid i) = None"
    if "nid i \<notin> ce_key ` set (take (Suc k) H)" for i
    using that side stored_event_insert [of sid r] u r k by (auto simp: log_side_def take_Suc_conv_app_nth)
  moreover have "log_wf (insert_event r e l)" using log_wf_insert side r(1) u e by (simp add: log_side_def)
  ultimately show ?thesis using side k unfolding log_side_def by (auto intro!: exI [of _ "evs @ [e]"])
qed

section \<open>One call of the browser\<close>

lemma client_side_update [simp]:
  "client_side b k (c\<lparr>sc_pendingCode := x1\<rparr>) = client_side b k c"
  "client_side b k (c\<lparr>sc_pendingNotes := x2\<rparr>) = client_side b k c"
  "client_side b k (c\<lparr>sc_codeRevision := x3\<rparr>) = client_side b k c"
  "client_side b k (c\<lparr>sc_flushTimer := x4\<rparr>) = client_side b k c"
  "client_side b k (c\<lparr>sc_ids := x5\<rparr>) = client_side b k c"
  "client_side b k (c\<lparr>sc_lastAckedSeq := x6\<rparr>) = client_side b k c"
  "client_side b k (c\<lparr>sc_transport := x7\<rparr>) = client_side b k c"
  "client_side b k (c\<lparr>sc_stopped := x8\<rparr>) = client_side b k c"
  "client_side b k (c\<lparr>sc_reconnectTimer := x9\<rparr>) = client_side b k c"
  "client_side b k (c\<lparr>sc_reconnectAttempts := x10\<rparr>) = client_side b k c"
  by (simp_all add: client_side_def outbox_events_def)

lemma client_side_send [simp]:
  "client_side b k (try_send e c) = client_side b k c" "client_side b k (fold try_send es c) = client_side b k c"
  by (simp_all add: client_side_def)

lemma client_side_enqueue:
  assumes side: "client_side b k c" and inv: "client_inv nid sid b c" and "inj nid"
  shows "client_side b k (enqueue_event nid ty p t c)"
proof -
  have "nid (sc_ids c) \<notin> fst ` set (sc_outbox c)"
  proof
    assume "nid (sc_ids c) \<in> fst ` set (sc_outbox c)"
    then obtain kv where "kv \<in> set (sc_outbox c)" "fst kv = nid (sc_ids c)" by auto
    then have "(nid (sc_ids c), ob_event (snd kv)) \<in> set (outbox_events c)" by (force simp: outbox_events_def)
    then have "nid (sc_ids c) \<in> ce_key ` set (sc_created c)" using inv by (force simp: client_inv_def)
    then have "nid (sc_ids c) \<in> nid ` {..<sc_ids c}" using inv by (auto simp: client_inv_def)
    then show False using assms(3) by (auto simp: inj_eq)
  qed
  then have out: "outbox_events (c\<lparr>sc_outbox := set_key (sc_outbox c) (nid (sc_ids c)) \<lparr>ob_event = e, ob_attempts = 0\<rparr>\<rparr>) =
      outbox_events c @ [(nid (sc_ids c), e)]" for e
    by (simp add: outbox_events_def set_key_new)
  define e where "e = \<lparr>ce_sessionId = sc_sessionId c, ce_clientSeq = sc_clientSeq c, ce_key = nid (sc_ids c), ce_type = ty,
      ce_occurredAt = Some t, ce_payload = p\<rparr>"
  define d where "d = c\<lparr>sc_clientSeq := sc_clientSeq c + 1, sc_ids := sc_ids c + 1,
      sc_outbox := set_key (sc_outbox c) (ce_key e) \<lparr>ob_event = e, ob_attempts = 0\<rparr>, sc_created := sc_created c @ [e]\<rparr>"
  have "outbox_events d = outbox_events c @ [(nid (sc_ids c), e)]"
    using out [of e] by (simp add: d_def e_def outbox_events_def)
  then have "client_side b k d"
    using side by (auto simp: client_side_def d_def nth_append less_Suc_eq image_Un)
  then show ?thesis by (simp add: enqueue_event_def Let_def e_def d_def)
qed

definition client_ok :: "(nat \<Rightarrow> string) \<Rightarrow> string \<Rightarrow> int \<Rightarrow> nat \<Rightarrow> session_client \<Rightarrow> bool" where
  "client_ok nid sid b k c \<longleftrightarrow> client_inv nid sid b c \<and> client_side b k c"

lemma client_ok_enqueue [simp]:
  "client_ok nid sid b k c \<Longrightarrow> inj nid \<Longrightarrow> ty \<in> set CLIENT_EVENT_TYPES \<Longrightarrow> client_ok nid sid b k (enqueue_event nid ty p t c)"
  unfolding client_ok_def using client_inv_enqueue client_side_enqueue by blast

lemma client_ok_updates [simp]:
  "client_ok nid sid b k (c\<lparr>sc_pendingCode := x1\<rparr>) = client_ok nid sid b k c"
  "client_ok nid sid b k (c\<lparr>sc_pendingNotes := x2\<rparr>) = client_ok nid sid b k c"
  "client_ok nid sid b k (c\<lparr>sc_codeRevision := x3\<rparr>) = client_ok nid sid b k c"
  "client_ok nid sid b k (c\<lparr>sc_flushTimer := x4\<rparr>) = client_ok nid sid b k c"
  by (simp_all add: client_ok_def)

lemma client_ok_flush:
  assumes "client_ok nid sid b k c" and "inj nid"
  shows "client_ok nid sid b k (flush_edits nid now c)"
  using assms by (simp add: flush_edits_def flush_code_def flush_notes_def Let_def split: option.split)

text \<open>An acknowledged number is that of an event in the log.\<close>

lemma client_side_ack:
  assumes side: "client_side b k c" and inv: "client_inv nid sid b c" and n: "n < b + int k"
  shows "client_side b k (handle_server_message (ACK n q) c)"
proof -
  define d where "d = c\<lparr>sc_lastAckedSeq := max (sc_lastAckedSeq c) (int q),
       sc_lastAckedClientSeq := max (sc_lastAckedClientSeq c) n,
       sc_outbox := filter (\<lambda>kv. ce_clientSeq (ob_event (snd kv)) \<noteq> n) (sc_outbox c)\<rparr>"
  have out: "outbox_events d = filter (\<lambda>x. ce_clientSeq (snd x) \<noteq> n) (outbox_events c)"
    by (simp add: d_def outbox_events_def filter_map comp_def)
  have kept: "sc_created d ! j \<in> snd ` set (outbox_events d) \<or> j < k" if j: "j < length (sc_created d)" for j
  proof (cases "j < k")
    case False
    have "ce_clientSeq (sc_created c ! j) = b + int j" using inv j by (simp add: client_inv_def d_def)
    moreover have "sc_created c ! j \<in> snd ` set (outbox_events c)"
      using side j False by (auto simp: client_side_def d_def)
    then obtain x where "x \<in> set (outbox_events c)" "snd x = sc_created c ! j" by auto
    moreover have "sc_created d = sc_created c" by (simp add: d_def)
    ultimately have "x \<in> set (outbox_events d)" "snd x = sc_created d ! j" unfolding out using n False by auto
    then show ?thesis by (metis imageI)
  qed simp
  have settled: "t < b + int k" if t: "t < b + int (length (sc_created d))" "\<not> has_pending_through t d" for t
  proof (rule ccontr)
    assume "\<not> t < b + int k"
    then have "int (nat (t - b)) = t - b" "k \<le> nat (t - b)" by linarith+
    then obtain j where j: "int j = t - b" "k \<le> j" by blast
    then have "j < length (sc_created d)" using t(1) by linarith
    then have "sc_created d ! j \<in> snd ` set (outbox_events d)" using kept [of j] j by simp
    moreover have "ce_clientSeq (sc_created d ! j) = b + int j"
      using inv \<open>j < length (sc_created d)\<close> by (simp add: client_inv_def d_def)
    ultimately show False using t(2) j by (auto simp: has_pending_alt)
  qed
  have "client_side b k (resolve_waiters d)"
    using side n kept settled unfolding client_side_def resolve_waiters_def Let_def
    by (auto simp: outbox_events_def d_def)
  then show ?thesis by (simp add: d_def)
qed

lemma client_ok_do:
  assumes ok: "client_ok nid sid b k c" and inj: "inj nid" and "call_ok q" and "0 \<le> b"
    and acks: "\<And>n s. q = Receive (ACK n s) \<Longrightarrow> n < b + int k"
  shows "client_ok nid sid b k (client_do nid q now c)"
proof -
  have inv: "client_inv nid sid b c" and side: "client_side b k c" using ok by (simp_all add: client_ok_def)
  note flush = client_ok_flush [OF ok inj, of now]
  have "client_side b k (client_do nid q now c)"
  proof (cases q)
    case (Receive m)
    then show ?thesis using client_side_ack [OF side inv] acks side by (cases m) auto
  next
    case Flush
    then show ?thesis using flush by (simp add: client_ok_def)
  next
    case (FlushAndWait w)
    have "client_side b k (d\<lparr>sc_waiters := sc_waiters d @ [(w, sc_clientSeq d - 1)]\<rparr>)" if "client_ok nid sid b k d" for d
      using that by (auto simp: client_ok_def client_side_def client_inv_def outbox_events_def)
    then show ?thesis using flush FlushAndWait by (auto simp: flush_and_wait_def Let_def client_ok_def)
  next
    case (RequestRun s)
    then have "client_ok nid sid b k (client_do nid q now c)" using flush inj by (simp add: requestRun_def Let_def)
    then show ?thesis by (simp add: client_ok_def)
  next
    case (SpeechBoundary ty t p i)
    then show ?thesis using client_side_enqueue [OF side inv inj] by (simp add: speechBoundary_def Let_def)
  next
    case (SpeechFinal s t)
    then show ?thesis
      using client_side_enqueue [OF _ client_inv_skip_id [OF inv] inj] side by (simp add: speechFinal_def Let_def)
  next
    case (WaitTimeout w)
    then show ?thesis using side by (auto simp: wait_timeout_def client_side_def outbox_events_def)
  qed (use side in \<open>simp_all add: codeChanged_def notesChanged_def client_connect_def on_open_socket_def flush_outbox_def
       on_close_socket_def reconnect_timer_def client_disconnect_def Let_def split: option.split\<close>)
  then show ?thesis using client_inv_do [OF inv inj assms(3)] by (simp add: client_ok_def)
qed

text \<open>The created events only grow.\<close>

lemma created_grows: "\<exists>es. sc_created (client_do nid q now c) = sc_created c @ es"
proof -
  have enq: "\<exists>es. sc_created (enqueue_event nid ty p t d) = sc_created c @ es"
    if "\<exists>es. sc_created d = sc_created c @ es" for ty p t d
    using that by (auto simp: enqueue_event_def Let_def)
  have flush: "\<exists>es. sc_created (flush_edits nid now c) = sc_created c @ es"
    by (auto simp: flush_edits_def flush_code_def flush_notes_def Let_def split: option.split intro!: enq)
  show ?thesis
  proof (cases q)
    case (Receive m)
    then show ?thesis by (cases m) (simp_all add: resolve_waiters_def Let_def)
  next
    case (RequestRun s)
    then show ?thesis using enq [OF flush] by (simp add: requestRun_def Let_def)
  next
    case (FlushAndWait w)
    then show ?thesis using flush by (simp add: flush_and_wait_def Let_def)
  next
    case (SpeechBoundary ty t p i)
    then show ?thesis using enq [of c] by (simp add: speechBoundary_def Let_def)
  next
    case (SpeechFinal s t)
    then show ?thesis using enq [of "c\<lparr>sc_ids := sc_ids c + 1\<rparr>"] by (simp add: speechFinal_def Let_def)
  qed (use flush in \<open>simp_all add: codeChanged_def notesChanged_def wait_timeout_def client_connect_def on_open_socket_def
       flush_outbox_def on_close_socket_def reconnect_timer_def client_disconnect_def Let_def split: option.split\<close>)
qed

section \<open>One step of the network\<close>

text \<open>A created event, its request, and what the channel does with it.\<close>

lemma request_of [simp]:
  "rq_session (log_request_of s e) = ce_sessionId e" "rq_key (log_request_of s e) = ce_key e"
  "rq_clientSeq (log_request_of s e) = Some (ce_clientSeq e)"
  by (simp_all add: log_request_of_def)

lemma carries_new: "carries e (new_event h now (log_request_of s e) l)"
  by (simp add: carries_def new_event_def log_request_of_def)

lemma frame_step:
  assumes side: "log_side nid sid E0 k H l" and j: "j < length H" and dist: "distinct (map ce_key H)"
    and H: "\<forall>i<length H. ce_clientSeq (H ! i) = int (length E0) + int i" "\<forall>e\<in>set H. ce_sessionId e = sid \<and> ce_key e \<in> range nid"
    and ch: "\<forall>n. get_key ch sid = Some n \<longrightarrow> n = int (length E0) + int k - 1"
    and h: "handleClientEvent h now (Some (H ! j)) st l ch = Inr (l', ch', res)"
  shows "\<exists>k'\<ge>k. log_side nid sid E0 k' H l' \<and> (\<forall>n. get_key ch' sid = Some n \<longrightarrow> n = int (length E0) + int k' - 1) \<and>
    (\<forall>n q. ACK n q \<in> set (hr_messages res) \<longrightarrow> n < int (length E0) + int k')"
proof -
  let ?b = "int (length E0)" and ?e = "H ! j"
  have e: "ce_sessionId ?e = sid" "ce_clientSeq ?e = ?b + int j" using H j by auto
  note latest = log_side_numbers(2) [OF side]
  have mark: "watermark ch l sid = ?b + int k - 1" using ch latest by (auto simp: watermark_def split: option.split)
  show ?thesis
  proof (cases "client_event_ok ?e \<and> (\<exists>s. store_get st sid = Some s \<and> is_endedAt s = None)")
    case False
    then have "l' = l" "ch' = ch" "\<forall>n q. ACK n q \<notin> set (hr_messages res)"
      using h e by (auto simp: handleClientEvent_def rejected_def Let_def split: option.splits if_splits)
    then show ?thesis using side ch by (intro exI [of _ k]) auto
  next
    case True
    then obtain s where s: "client_event_ok ?e" "store_get st sid = Some s" "is_endedAt s = None" by blast
    let ?ch = "set_key ch sid (?b + int k - 1)"
    have c1: "\<forall>n. get_key ?ch sid = Some n \<longrightarrow> n = ?b + int k - 1" by simp
    show ?thesis
    proof (cases "k < j")
      case True
      then have "l' = l" "ch' = ?ch" "\<forall>n q. ACK n q \<notin> set (hr_messages res)"
        using h e s mark by (auto simp: handleClientEvent_def rejected_def Let_def)
      then show ?thesis using side by (intro exI [of _ k]) auto
    next
      case False
      then have app: "append_client h now s ?e (?b + int k) l ?ch = Inr (l', ch', res)"
        using h e s mark by (simp add: handleClientEvent_def Let_def)
      show ?thesis
      proof (cases "append_log h now (log_request_of s ?e) l")
        case (Inl err)
        then have "l' = l" "get_key ch' sid = Some (?b + int k - 1)" "\<forall>n q. ACK n q \<notin> set (hr_messages res)"
          using app e latest by (auto simp: append_client_def rejected_def Let_def split: if_splits)
        then show ?thesis using side by (intro exI [of _ k]) auto
      next
        case (Inr x)
        obtain m ev d where x: "x = (m, ev, d)" by (cases x)
        then have app': "append_log h now (log_request_of s ?e) l = Inr (m, ev, d)" using Inr by simp
        have res: "l' = m" "hr_messages res = [ACK (?b + int j) (seq ev)]"
            "ch' = (if k \<le> j then set_key ?ch sid (?b + int j) else ?ch)"
          using app app' e by (auto simp: append_client_def)
        from app' show ?thesis
        proof (cases rule: append_log_cases)
          case stored
          then have "stored_event l (sid, ce_key ?e) \<noteq> None" by (simp add: stored_event_def e)
          moreover obtain i where i: "ce_key ?e = nid i" using H(2) j by (metis imageE nth_mem)
          ultimately have "ce_key ?e \<in> ce_key ` set (take k H)" using side by (auto simp: log_side_def)
          then obtain i where "i < k" "i < length H" "ce_key (H ! i) = ce_key ?e"
            by (auto simp: in_set_conv_nth)
          then have "j < k" using dist j by (metis distinct_conv_nth length_map nth_map)
          then show ?thesis using side res stored by (intro exI [of _ k]) auto
        next
          case fresh
          have "stored_event l (sid, ce_key ?e) = None" using fresh(6) by (simp add: stored_event_def e)
          then have "\<not> j < k" using side by (auto simp: log_side_def)
          then have jk: "j = k" using False by simp
          have "log_side nid sid E0 (Suc k) H m"
            unfolding fresh(3) using log_side_next [OF side _ dist _ _ _ fresh(2) _ fresh(5)] j jk e carries_new fresh(2) by simp
          then show ?thesis using res jk by (intro exI [of _ "Suc k"]) auto
        qed
      qed
    qed
  qed
qed

section \<open>Every step\<close>

lemma link_inv_parts:
  assumes "link_inv nid sid E0 k w"
  shows "client_ok nid sid (int (length E0)) k (lk_client w)" and "log_side nid sid E0 k (sc_created (lk_client w)) (lk_log w)"
    and "\<forall>n. get_key (lk_channel w) sid = Some n \<longrightarrow> n = int (length E0) + int k - 1"
    and "\<forall>n q. ACK n q \<in> set (lk_replies w) \<longrightarrow> n < int (length E0) + int k"
  using assms by (simp_all add: link_inv_def client_ok_def Let_def)

lemma link_invI:
  assumes "client_ok nid sid (int (length E0)) k (lk_client w)" and "log_side nid sid E0 k (sc_created (lk_client w)) (lk_log w)"
    and "\<forall>n. get_key (lk_channel w) sid = Some n \<longrightarrow> n = int (length E0) + int k - 1"
    and "\<forall>n q. ACK n q \<in> set (lk_replies w) \<longrightarrow> n < int (length E0) + int k"
  shows "link_inv nid sid E0 k w"
  using assms by (simp add: link_inv_def client_ok_def Let_def)

lemma client_side_mono: "client_side b k c \<Longrightarrow> k \<le> k' \<Longrightarrow> client_side b k' c"
  unfolding client_side_def by (auto 0 3)

lemma client_ok_facts:
  assumes "client_ok nid sid b k c"
  shows "\<forall>j<length (sc_created c). ce_clientSeq (sc_created c ! j) = b + int j"
    and "\<forall>e\<in>set (sc_created c). ce_sessionId e = sid \<and> ce_key e \<in> range nid" and "distinct (map ce_key (sc_created c))"
    and "set (sc_sent c) \<subseteq> set (sc_created c)"
  using assms by (auto simp: client_ok_def client_inv_def)

text \<open>The events of other sessions: their log side does not move.\<close>

lemma other_frame:
  assumes h: "handleClientEvent h now raw st l ch = Inr (l', ch', res)" and raw: "\<And>e. raw = Some e \<Longrightarrow> ce_sessionId e \<noteq> sid"
    and side: "log_side nid sid E0 k H l" and keys: "\<forall>e\<in>set H. ce_key e \<in> range nid"
  shows "log_side nid sid E0 k H l' \<and> get_key ch' sid = get_key ch sid"
proof (cases "\<exists>e s. raw = Some e \<and> client_event_ok e \<and> append_client h now s e (watermark ch l (ce_sessionId e) + 1) l
      (set_key ch (ce_sessionId e) (watermark ch l (ce_sessionId e))) = Inr (l', ch', res)")
  case False
  then show ?thesis using h side raw
    by (auto simp: handleClientEvent_def Let_def split: option.splits if_splits)
next
  case True
  then obtain e s where e: "raw = Some e" "client_event_ok e" and app: "append_client h now s e (watermark ch l (ce_sessionId e) + 1) l
      (set_key ch (ce_sessionId e) (watermark ch l (ce_sessionId e))) = Inr (l', ch', res)" by blast
  have ne: "ce_sessionId e \<noteq> sid" using raw e(1) by simp
  show ?thesis
  proof (cases "append_log h now (log_request_of s e) l")
    case (Inl err)
    then show ?thesis using app side ne by (auto simp: append_client_def Let_def split: if_splits)
  next
    case (Inr x)
    obtain m ev d where x: "x = (m, ev, d)" by (cases x)
    then have app': "append_log h now (log_request_of s e) l = Inr (m, ev, d)" using Inr by simp
    have u: "uuid_like (rq_session (log_request_of s e))" using e(2) by (simp add: client_event_ok_def)
    have "log_side nid sid E0 k H m"
      by (rule log_side_other [OF side app' u _ keys]) (use ne in simp)
    then show ?thesis using app app' ne by (auto simp: append_client_def)
  qed
qed

lemma link_step_inv:
  assumes "link_step nid h sid w w'" and "inj nid" and "link_inv nid sid E0 k w"
  shows "\<exists>k'\<ge>k. link_inv nid sid E0 k' w'"
  using assms(1)
proof cases
  case (browser q now)
  note parts = link_inv_parts [OF assms(3)]
  have acks: "n < int (length E0) + int k" if "q = Receive (ACK n s)" for n s
    using browser(3) [OF that] parts(4) by fastforce
  obtain es where es: "sc_created (client_do nid q now (lk_client w)) = sc_created (lk_client w) @ es"
    using created_grows by blast
  have "link_inv nid sid E0 k w'"
    unfolding browser(1)
    by (rule link_invI) (use client_ok_do [OF parts(1) assms(2) browser(2) _ acks] log_side_more [OF parts(2)] parts(3,4) es in auto)
  then show ?thesis by blast
next
  case (frame e now st l' ch' res)
  note parts = link_inv_parts [OF assms(3)] and facts = client_ok_facts [OF link_inv_parts(1) [OF assms(3)]]
  obtain j where j: "j < length (sc_created (lk_client w))" "e = sc_created (lk_client w) ! j"
    using frame(2) facts(4) by (metis in_set_conv_nth subsetD)
  obtain k' where k': "k \<le> k'" "log_side nid sid E0 k' (sc_created (lk_client w)) l'"
      "\<forall>n. get_key ch' sid = Some n \<longrightarrow> n = int (length E0) + int k' - 1"
      "\<forall>n q. ACK n q \<in> set (hr_messages res) \<longrightarrow> n < int (length E0) + int k'"
    using frame_step [OF parts(2) j(1) facts(3,1,2) parts(3) frame(3) [unfolded j(2)]] by blast
  have ok: "client_ok nid sid (int (length E0)) k' (lk_client w)"
    using parts(1) client_side_mono k'(1) by (auto simp: client_ok_def)
  have acks: "n < int (length E0) + int k'" if "ACK n q \<in> set (lk_replies w) \<union> set (hr_messages res)" for n q
    using that parts(4) k'(1,4) by fastforce
  have "link_inv nid sid E0 k' w'"
    unfolding frame(1) by (rule link_invI) (use ok k'(2,3) acks in auto)
  then show ?thesis using k'(1) by blast
next
  case (other raw now st l' ch' res)
  note parts = link_inv_parts [OF assms(3)]
  have "log_side nid sid E0 k (sc_created (lk_client w)) l' \<and> get_key ch' sid = get_key (lk_channel w) sid"
    by (rule other_frame [OF other(3) other(2) parts(2)]) (use client_ok_facts(2) [OF parts(1)] in auto)
  then have "link_inv nid sid E0 k w'" unfolding other(1) by (intro link_invI) (use parts in auto)
  then show ?thesis by blast
next
  case (server r now l' ev d)
  note parts = link_inv_parts [OF assms(3)]
  have "log_side nid sid E0 k (sc_created (lk_client w)) l'"
    by (rule log_side_other [OF parts(2) server(5,2)]) (use server(3,4) client_ok_facts(2) [OF parts(1)] in auto)
  then have "link_inv nid sid E0 k w'" unfolding server(1) by (intro link_invI) (use parts in auto)
  then show ?thesis by blast
next
  case (forgotten s)
  note parts = link_inv_parts [OF assms(3)]
  have "link_inv nid sid E0 k w'"
    unfolding forgotten by (rule link_invI) (use parts in \<open>auto simp: SessionChannel.forget_def\<close>)
  then show ?thesis by blast
qed

interpretation link_kept: kept_by_steps "link_step nid h sid" "\<lambda>w. inj nid \<and> (\<exists>k. link_inv nid sid E0 k w)" for nid h sid E0
  by unfold_locales (use link_step_inv in blast)

text \<open>A page that loads with the server's cursor.\<close>

definition page_loaded :: "(nat \<Rightarrow> string) \<Rightarrow> string \<Rightarrow> link \<Rightarrow> bool" where
  "page_loaded nid sid w \<longleftrightarrow> (\<exists>rv. lk_client w = new_client sid (Some (latestClientSeq (lk_log w) sid + 1)) rv) \<and>
     log_wf (lk_log w) \<and> uuid_like sid \<and> numbers_upto (client_numbers (lk_log w) sid) \<and>
     (\<forall>i. stored_event (lk_log w) (sid, nid i) = None) \<and>
     (\<forall>n. get_key (lk_channel w) sid = Some n \<longrightarrow> n = latestClientSeq (lk_log w) sid) \<and> lk_replies w = []"

lemma link_inv_loaded:
  assumes "page_loaded nid sid w"
  shows "link_inv nid sid (numbered (lk_log w) sid) 0 w"
proof -
  have nums: "map fst (numbered (lk_log w) sid) = map int [0..<length (numbered (lk_log w) sid)]"
    using assms by (simp add: page_loaded_def numbers_upto_def numbers_of_numbered)
  have latest: "latestClientSeq (lk_log w) sid = int (length (numbered (lk_log w) sid)) - 1"
    using latestClientSeq_upto assms by (simp add: page_loaded_def numbers_of_numbered)
  obtain rv where c: "lk_client w = new_client sid (Some (int (length (numbered (lk_log w) sid)))) rv"
    using assms latest by (auto simp: page_loaded_def)
  show ?thesis
  proof (rule link_invI)
    show "client_ok nid sid (int (length (numbered (lk_log w) sid))) 0 (lk_client w)"
      unfolding c client_ok_def using client_inv_new
      by (simp add: client_side_def new_client_def outbox_events_def)
    show "log_side nid sid (numbered (lk_log w) sid) 0 (sc_created (lk_client w)) (lk_log w)"
      using assms nums by (simp add: log_side_def page_loaded_def)
  qed (use assms latest in \<open>auto simp: page_loaded_def\<close>)
qed

lemma reached_inv:
  assumes "page_loaded nid sid w0" and "inj nid" and "(link_step nid h sid)\<^sup>*\<^sup>* w0 w"
  obtains k where "link_inv nid sid (numbered (lk_log w0) sid) k w"
  using link_kept.kept_by_closure [OF assms(3), of "numbered (lk_log w0) sid"] link_inv_loaded [OF assms(1)] assms(2) by blast

lemma log_side_stored:
  assumes "log_side nid sid E0 k H l" and "j < k"
  shows "\<exists>ev. stored_event l (sid, ce_key (H ! j)) = Some ev \<and> carries (H ! j) ev"
proof -
  obtain evs where "k \<le> length H" "list_all2 carries (take k H) evs" "\<forall>j<k. stored_event l (sid, ce_key (H ! j)) = Some (evs ! j)"
    using assms(1) by (auto simp: log_side_def)
  then show ?thesis using assms(2) list_all2_nthD [of carries "take k H" evs j] by auto
qed

text \<open>What the browser takes for delivered is in the log.\<close>

lemma delivered_stored:
  assumes ok: "client_ok nid sid (int (length E0)) k c" and side: "log_side nid sid E0 k (sc_created c) l"
    and e: "e \<in> set (sc_created c)" and gone: "e \<notin> snd ` set (outbox_events c) \<or> ce_clientSeq e < int (length E0) + int k"
  shows "\<exists>ev. stored_event l (sid, ce_key e) = Some ev \<and> carries e ev"
proof -
  obtain j where j: "j < length (sc_created c)" "e = sc_created c ! j" using e unfolding in_set_conv_nth by blast
  have "ce_clientSeq e = int (length E0) + int j" using client_ok_facts(1) [OF ok] j by blast
  moreover have "e \<in> snd ` set (outbox_events c) \<or> j < k" using ok j by (auto simp: client_ok_def client_side_def)
  ultimately have "j < k" using gone by auto
  from log_side_stored [OF side this] show ?thesis using j(2) by simp
qed

text \<open>A wait that is granted at once waits for nothing that is missing.\<close>

lemma granted_wait:
  assumes ok: "client_ok nid sid b k c" and nid: "inj nid" and granted: "snd (flush_and_wait nid v t c) = Some n"
    and e: "e \<in> set (sc_created c)" "ce_clientSeq e \<le> n"
  shows "ce_clientSeq e < b + int k"
proof -
  let ?d = "flush_edits nid t c"
  have d: "client_ok nid sid b k ?d" using ok nid by (rule client_ok_flush)
  obtain es where "sc_created ?d = sc_created c @ es" using created_grows [of nid Flush t c] by auto
  then obtain j where j: "j < length (sc_created ?d)" "e = sc_created ?d ! j" using e(1) by (metis Un_iff in_set_conv_nth set_append)
  have num: "ce_clientSeq e = b + int j" using client_ok_facts(1) [OF d] j by blast
  have side: "sc_lastAckedClientSeq ?d < b + int k" "e \<in> snd ` set (outbox_events ?d) \<or> j < k"
    using d j by (auto simp: client_ok_def client_side_def)
  have "n \<le> sc_lastAckedClientSeq ?d \<or> \<not> has_pending_through n ?d"
    using granted by (auto simp: flush_and_wait_def Let_def split: if_splits)
  then show ?thesis using side num e(2) by (auto simp: has_pending_alt)
qed

section \<open>A reconnect delivers everything\<close>

text \<open>The server handles frames in their order; a frame whose handling throws is dropped.\<close>

fun serve ::
  "hashing \<Rightarrow> instant \<Rightarrow> session_store \<Rightarrow> client_event list \<Rightarrow> event_log \<times> channel \<Rightarrow> (event_log \<times> channel) \<times> server_message list" where
  "serve h now st [] x = (x, [])"
| "serve h now st (e # es) (l, ch) =
     (case handleClientEvent h now (Some e) st l ch of
        Inl err \<Rightarrow> serve h now st es (l, ch)
      | Inr (l', ch', res) \<Rightarrow> (case serve h now st es (l', ch') of (x, ms) \<Rightarrow> (x, hr_messages res @ ms)))"

definition accepting :: "session_store \<Rightarrow> event_log \<Rightarrow> string \<Rightarrow> bool" where
  "accepting st l sid \<longleftrightarrow> (\<exists>s. store_get st sid = Some s \<and> is_endedAt s = None) \<and> sid \<notin> set (el_redacted l)"

lemma frame_served:
  assumes side: "log_side nid sid E0 k H l" and j: "j < length H" "j \<le> k" and dist: "distinct (map ce_key H)"
    and H: "\<forall>i<length H. ce_clientSeq (H ! i) = int (length E0) + int i"
      "\<forall>e\<in>set H. ce_sessionId e = sid \<and> ce_key e \<in> range nid \<and> client_event_ok e"
    and ch: "\<forall>n. get_key ch sid = Some n \<longrightarrow> n = int (length E0) + int k - 1"
    and live: "accepting st l sid" and small: "int (length E0) + int (length H) \<le> MAX_SAFE_INTEGER"
  obtains l' ch' res q where "handleClientEvent h now (Some (H ! j)) st l ch = Inr (l', ch', res)"
    "log_side nid sid E0 (if j = k then Suc k else k) H l'"
    "\<forall>n. get_key ch' sid = Some n \<longrightarrow> n = int (length E0) + int (if j = k then Suc k else k) - 1"
    "hr_messages res = [ACK (int (length E0) + int j) q]" "el_redacted l' = el_redacted l"
proof -
  let ?b = "int (length E0)" and ?e = "H ! j"
  have e: "ce_sessionId ?e = sid" "ce_clientSeq ?e = ?b + int j" "client_event_ok ?e" using H j by auto
  obtain s where s: "store_get st sid = Some s" "is_endedAt s = None" using live by (auto simp: accepting_def)
  note latest = log_side_numbers [OF side]
  have mark: "watermark ch l sid = ?b + int k - 1" using ch latest by (auto simp: watermark_def split: option.split)
  let ?ch = "set_key ch sid (?b + int k - 1)"
  have h: "handleClientEvent h now (Some ?e) st l ch = append_client h now s ?e (?b + int k) l ?ch"
    using e s mark j(2) by (simp add: handleClientEvent_def Let_def)
  obtain evs where evs: "list_all2 carries (take k H) evs" "\<forall>i<k. stored_event l (sid, ce_key (H ! i)) = Some (evs ! i)"
    using side by (auto simp: log_side_def)
  show ?thesis
  proof (cases "j = k")
    case False
    then have "get_key (el_byKey l) (dedupe_key sid (ce_key ?e)) = Some (evs ! j)"
      using evs(2) j(2) by (simp add: stored_event_def)
    then have "append_log h now (log_request_of s ?e) l = Inr (l, evs ! j, True)"
      using live e by (simp add: append_log_def accepting_def)
    then have "append_client h now s ?e (?b + int k) l ?ch =
        Inr (l, ?ch, \<lparr>hr_messages = [ACK (?b + int j) (seq (evs ! j))], hr_accepted = False, hr_event = None\<rparr>)"
      using e False j(2) by (simp add: append_client_def)
    then show ?thesis using that [of l ?ch] h side False by simp
  next
    case True
    have "?b + int k \<notin> set (client_numbers l sid)" using latest(1) by auto
    then have none: "client_seq_error l (log_request_of s ?e) = None"
      using e True small j(1) by (simp add: client_seq_error_def)
    obtain i where i: "ce_key ?e = nid i" using H(2) j(1) by (metis imageE nth_mem)
    have "ce_key ?e \<notin> ce_key ` set (take k H)"
    proof
      assume "ce_key ?e \<in> ce_key ` set (take k H)"
      then obtain i where "i < k" "i < length H" "ce_key (H ! i) = ce_key ?e" by (auto simp: in_set_conv_nth)
      then show False using dist j(1) True by (metis distinct_conv_nth length_map nat_neq_iff nth_map)
    qed
    then have new: "get_key (el_byKey l) (dedupe_key sid (ce_key ?e)) = None"
      using side i by (auto simp: log_side_def stored_event_def)
    let ?ev = "new_event h now (log_request_of s ?e) l"
    have "append_log h now (log_request_of s ?e) l = Inr (insert_event (log_request_of s ?e) ?ev l, ?ev, False)"
      using live e new none by (simp add: append_log_def accepting_def Let_def)
    then have app: "append_client h now s ?e (?b + int k) l ?ch =
        Inr (insert_event (log_request_of s ?e) ?ev l, set_key ?ch sid (?b + int j),
             \<lparr>hr_messages = [ACK (?b + int j) (seq ?ev)], hr_accepted = True, hr_event = Some ?ev\<rparr>)"
      using e True by (simp add: append_client_def)
    have "log_side nid sid E0 (Suc k) H (insert_event (log_request_of s ?e) ?ev l)"
      using log_side_next [OF side _ dist _ _ _ refl _ none] j True e carries_new by simp
    moreover have "el_redacted (insert_event (log_request_of s ?e) ?ev l) = el_redacted l"
      by (simp add: insert_event_def Let_def)
    ultimately show ?thesis using that h app True by simp
  qed
qed

lemma serve_all:
  assumes "log_side nid sid E0 k H l" and dist: "distinct (map ce_key H)"
    and H: "\<forall>i<length H. ce_clientSeq (H ! i) = int (length E0) + int i"
      "\<forall>e\<in>set H. ce_sessionId e = sid \<and> ce_key e \<in> range nid \<and> client_event_ok e"
    and "\<forall>n. get_key ch sid = Some n \<longrightarrow> n = int (length E0) + int k - 1"
    and "accepting st l sid" and small: "int (length E0) + int (length H) \<le> MAX_SAFE_INTEGER"
    and "sorted_wrt (<) js" and "{k..<length H} \<subseteq> set js" and "set js \<subseteq> {..<length H}"
    and "serve h now st (map ((!) H) js) (l, ch) = ((l', ch'), ms)"
  shows "log_side nid sid E0 (length H) H l' \<and> (\<exists>qs. length qs = length js \<and> ms = map2 (\<lambda>j q. ACK (int (length E0) + int j) q) js qs)"
  using assms
proof (induction js arbitrary: k l ch ms)
  case Nil
  then have "k = length H" by (auto simp: log_side_def)
  then show ?case using Nil.prems by simp
next
  case (Cons j js)
  have j: "j < length H" using Cons.prems(10) by simp
  have jk: "j \<le> k"
  proof (rule ccontr)
    assume k: "\<not> j \<le> k"
    then have "k \<in> {k..<length H}" using j by simp
    then have "k \<in> set js" using Cons.prems(9) k by (metis nle_le set_ConsD subsetD)
    then show False using Cons.prems(8) k by auto
  qed
  let ?k = "if j = k then Suc k else k"
  obtain l1 ch1 res q where r: "handleClientEvent h now (Some (H ! j)) st l ch = Inr (l1, ch1, res)"
      "log_side nid sid E0 ?k H l1" "\<forall>n. get_key ch1 sid = Some n \<longrightarrow> n = int (length E0) + int ?k - 1"
      "hr_messages res = [ACK (int (length E0) + int j) q]" "el_redacted l1 = el_redacted l"
    using frame_served [OF Cons.prems(1) j jk dist H Cons.prems(5,6) small, of h now] by blast
  obtain ms' where ms: "serve h now st (map ((!) H) js) (l1, ch1) = ((l', ch'), ms')"
      "ms = ACK (int (length E0) + int j) q # ms'"
    using Cons.prems(11) r(1,4) by (auto split: prod.splits)
  have live: "accepting st l1 sid" using Cons.prems(6) r(5) by (simp add: accepting_def)
  have cover: "{?k..<length H} \<subseteq> set js"
  proof
    fix x
    assume x: "x \<in> {?k..<length H}"
    then have "k \<le> x" "x \<noteq> j" using jk by (auto split: if_splits)
    then show "x \<in> set js" using x Cons.prems(9) by (metis atLeastLessThan_iff set_ConsD subsetD)
  qed
  obtain qs where "log_side nid sid E0 (length H) H l'" "length qs = length js"
      "ms' = map2 (\<lambda>j q. ACK (int (length E0) + int j) q) js qs"
    using Cons.IH [OF r(2) dist H r(3) live small _ cover _ ms(1)] Cons.prems(8,10) by auto
  then show ?case using ms(2) by (auto intro!: exI [of _ "q # qs"])
qed

lemma acks_clear:
  assumes "length qs = length js"
  shows "outbox_events (fold handle_server_message (map2 (\<lambda>j q. ACK (b + int j) q) js qs) c) =
    filter (\<lambda>x. ce_clientSeq (snd x) \<notin> (\<lambda>j. b + int j) ` set js) (outbox_events c)"
  using assms
proof (induction js arbitrary: qs c)
  case (Cons j js)
  then obtain q qs' where qs: "qs = q # qs'" by (cases qs) auto
  have "outbox_events (handle_server_message (ACK (b + int j) q) c) =
      filter (\<lambda>x. ce_clientSeq (snd x) \<noteq> b + int j) (outbox_events c)"
    by (simp add: resolve_waiters_def Let_def outbox_events_def filter_map comp_def)
  then show ?case using Cons.IH [of qs'] Cons.prems qs by (auto intro: filter_cong)
qed simp

text \<open>The order of the outbox: the created events it still holds, by their numbers.\<close>

lemma sorted_outbox_indices:
  assumes "client_ok nid sid b k c"
  obtains js where "sorted_outbox c = map ((!) (sc_created c)) js" "sorted_wrt (<) js" "{k..<length (sc_created c)} \<subseteq> set js"
    "set js \<subseteq> {..<length (sc_created c)}"
proof -
  let ?H = "sc_created c"
  have num: "\<forall>i<length ?H. ce_clientSeq (?H ! i) = b + int i" using client_ok_facts(1) [OF assms] .
  have mem: "set (sorted_outbox c) = snd ` set (outbox_events c)" by (simp add: sorted_outbox_alt)
  have sub: "set (sorted_outbox c) \<subseteq> set ?H"
    using assms by (auto simp: mem client_ok_def client_inv_def)
  define idx where "idx e = nat (ce_clientSeq e - b)" for e :: client_event
  have idx: "idx e < length ?H" "?H ! idx e = e" "ce_clientSeq e = b + int (idx e)" if e: "e \<in> set ?H" for e
  proof -
    obtain i where i: "i < length ?H" "e = ?H ! i" using e unfolding in_set_conv_nth by blast
    have n: "ce_clientSeq e = b + int i" using num i(1) unfolding i(2) by blast
    then have "idx e = i" by (simp add: idx_def)
    then show "idx e < length ?H" "?H ! idx e = e" "ce_clientSeq e = b + int (idx e)" using i n by simp_all
  qed
  have keys: "inj_on snd (set (outbox_events c))" 
    by (rule inj_onI) (use assms in \<open>auto simp: client_ok_def client_inv_def prod_eq_iff\<close>)
  have "distinct (map fst (outbox_events c))" using assms by (simp add: client_ok_def client_inv_def distinct_outbox_events)
  then have "distinct (outbox_events c)" by (simp add: distinct_map)
  then have dist: "distinct (sorted_outbox c)" using keys by (simp add: sorted_outbox_alt distinct_map)
  have "sorted (map ce_clientSeq (sorted_outbox c))" by (simp add: sorted_outbox_alt)
  then have "sorted_wrt (\<lambda>x y. ce_clientSeq x \<le> ce_clientSeq y) (sorted_outbox c)" by (simp add: sorted_wrt_map)
  then have "sorted_wrt (\<lambda>x y. idx x \<le> idx y) (sorted_outbox c)"
    by (rule sorted_wrt_mono_rel [rotated]) (use idx(3) sub in \<open>auto simp: subset_iff\<close>)
  then have "sorted (map idx (sorted_outbox c))" by (simp add: sorted_wrt_map)
  moreover have "inj_on idx (set (sorted_outbox c))" by (rule inj_onI) (metis idx(2) sub subsetD)
  then have "distinct (map idx (sorted_outbox c))" using dist by (simp add: distinct_map)
  ultimately have strict: "sorted_wrt (<) (map idx (sorted_outbox c))" by (simp add: strict_sorted_iff)
  have restored: "sorted_outbox c = map ((!) ?H) (map idx (sorted_outbox c))"
    using sub idx(2) by (simp add: map_idI subset_iff)
  have cover: "j \<in> set (map idx (sorted_outbox c))" if "k \<le> j" "j < length ?H" for j
  proof -
    have "?H ! j \<in> set (sorted_outbox c)" using assms that by (auto simp: mem client_ok_def client_side_def)
    moreover have "idx (?H ! j) = j" using num that by (simp add: idx_def)
    ultimately show ?thesis by force
  qed
  show ?thesis by (rule that [OF restored strict]) (use cover idx(1) sub in auto)
qed

lemma reconnect_delivers:
  assumes inv: "link_inv nid sid E0 k w" and live: "accepting st (lk_log w) sid"
    and small: "int (length E0) + int (length (sc_created (lk_client w))) \<le> MAX_SAFE_INTEGER" and nid: "\<forall>i. nid i \<noteq> []"
    and c: "c = on_open_socket (lk_client w)"
    and served: "serve h now st (drop (length (sc_sent (lk_client w))) (sc_sent c)) (lk_log w, lk_channel w) = ((l', ch'), ms)"
  shows "log_side nid sid E0 (length (sc_created (lk_client w))) (sc_created (lk_client w)) l' \<and>
    sc_outbox (fold handle_server_message ms c) = []"
proof -
  let ?c = "lk_client w" and ?b = "int (length E0)"
  note parts = link_inv_parts [OF inv] and facts = client_ok_facts [OF link_inv_parts(1) [OF inv]]
  let ?d = "?c\<lparr>sc_transport := Some True, sc_reconnectAttempts := 0\<rparr>"
  have same: "sorted_outbox ?d = sorted_outbox ?c" by (simp add: sorted_outbox_def)
  have sent: "sc_sent c = sc_sent ?c @ sorted_outbox ?c" by (simp add: c on_open_socket_def flush_outbox_def same)
  have out: "outbox_events c = outbox_events ?c"
    by (simp add: c on_open_socket_def flush_outbox_def) (simp add: outbox_events_def)
  obtain js where js: "sorted_outbox ?c = map ((!) (sc_created ?c)) js" "sorted_wrt (<) js"
      "{k..<length (sc_created ?c)} \<subseteq> set js" "set js \<subseteq> {..<length (sc_created ?c)}"
    using sorted_outbox_indices [OF parts(1)] by blast
  have ok: "client_event_ok e" if e: "e \<in> set (sc_created ?c)" for e
  proof -
    obtain i where "i < length (sc_created ?c)" "e = sc_created ?c ! i" using e unfolding in_set_conv_nth by blast
    then have "ce_clientSeq e = int (length E0) + int i" using facts(1) by blast
    then have "0 \<le> ce_clientSeq e" by simp
    moreover have "uuid_like sid" using parts(2) by (simp add: log_side_def)
    moreover have "ce_sessionId e = sid" "ce_key e \<in> range nid" "ce_type e \<in> set CLIENT_EVENT_TYPES" "ce_occurredAt e \<noteq> None"
      using e parts(1) unfolding client_ok_def client_inv_def by blast+
    moreover from this(2) nid have "ce_key e \<noteq> []" by (metis imageE)
    ultimately show ?thesis by (simp add: client_event_ok_def)
  qed
  then have H: "\<forall>e\<in>set (sc_created ?c). ce_sessionId e = sid \<and> ce_key e \<in> range nid \<and> client_event_ok e"
    using facts(2) by blast
  have served': "serve h now st (map ((!) (sc_created ?c)) js) (lk_log w, lk_channel w) = ((l', ch'), ms)"
    using served sent js(1) by simp
  from serve_all [OF parts(2) facts(3,1) H parts(3) live small js(2,3,4) served']
  obtain qs where side: "log_side nid sid E0 (length (sc_created ?c)) (sc_created ?c) l'" and qs: "length qs = length js"
      "ms = map2 (\<lambda>j q. ACK (?b + int j) q) js qs" by blast
  have "ce_clientSeq (snd x) \<in> (\<lambda>j. ?b + int j) ` set js" if "x \<in> set (outbox_events ?c)" for x
  proof -
    have "snd x \<in> set (sorted_outbox ?c)" using that by (simp add: sorted_outbox_alt)
    then obtain j where "j \<in> set js" "snd x = sc_created ?c ! j" using js(1) by auto
    then show ?thesis using facts(1) js(4) by auto
  qed
  then have "outbox_events (fold handle_server_message ms c) = []"
    unfolding qs(2) acks_clear [OF qs(1)] out by (simp add: filter_empty_conv)
  then show ?thesis using side by (simp add: outbox_events_def)
qed

section \<open>Two pages of one session\<close>

text \<open>
  A number that another page has used stays taken: the frame is answered with a replay from beyond it,
  the browser skips its event, and a later acknowledgement lets a wait for that event succeed.
\<close>

lemma taken_number:
  assumes "append_log h now (log_request_of s e) l = Inl (JsError ''CLIENT_SEQUENCE_CONFLICT'')"
    and "client_event_ok e" and "store_get st (ce_sessionId e) = Some s" and "is_endedAt s = None"
    and "ce_clientSeq e \<le> watermark ch l (ce_sessionId e) + 1" and "ce_clientSeq e \<in> set (client_numbers l (ce_sessionId e))"
  shows "\<exists>ch' m. handleClientEvent h now (Some e) st l ch = Inr (l, ch', rejected (REPLAY_FROM m)) \<and> ce_clientSeq e < m"
proof -
  have mono: "a \<le> fold max xs a" for xs and a :: int
  proof (induction xs arbitrary: a)
    case (Cons x xs)
    have "a \<le> max x a" by simp
    also have "\<dots> \<le> fold max xs (max x a)" by (rule Cons)
    finally show ?case by simp
  qed simp
  have "n \<in> set xs \<Longrightarrow> n \<le> fold max xs a" for n xs and a :: int
  proof (induction xs arbitrary: a)
    case (Cons x xs)
    have "x \<le> fold max xs (max x a)" using mono [of "max x a" xs] by simp
    then show ?case using Cons by auto
  qed simp
  then have "ce_clientSeq e \<le> latestClientSeq l (ce_sessionId e)" using assms(6) by (simp add: latestClientSeq_def)
  then show ?thesis using assms by (auto simp: handleClientEvent_def append_client_def Let_def)
qed

lemma replay_skips:
  assumes "ce_clientSeq e < m"
  shows "e \<notin> set (drop (length (sc_sent c)) (sc_sent (handle_server_message (REPLAY_FROM m) c)))"
  using assms by simp

lemma wait_passes_over:
  assumes "sc_pendingCode c = None" and "sc_pendingNotes c = None" and "sc_clientSeq c - 1 \<le> sc_lastAckedClientSeq c"
  shows "snd (flush_and_wait nid v now c) = Some (sc_clientSeq c - 1) \<and> sc_outbox (fst (flush_and_wait nid v now c)) = sc_outbox c"
  using assms by (simp add: flush_and_wait_def flush_edits_def flush_code_def flush_notes_def Let_def)

end
