(* ===== verification/RealtimeProtocol.thy ===== *)
theory RealtimeProtocol
  imports RealtimeVoice Step_Closure
begin

text \<open>
  The protocol that a connection follows, as an automaton over its trace: speech of the candidate lies
  between a start and an end, no start is sent while the model generates, the model is asked by
  \<open>requestSpeech\<close> alone, audio is handed on under the id of the current request, and the result of a
  tool call is sent only to the request it was made for.
\<close>

record proto =
  pr_open :: bool
  pr_gen :: bool
  pr_acc :: bool
  pr_req :: "string option"
  pr_epoch :: nat

definition proto_start :: proto where
  "proto_start = \<lparr>pr_open = False, pr_gen = False, pr_acc = False, pr_req = None, pr_epoch = 0\<rparr>"

fun proto_step :: "trace_item \<Rightarrow> proto \<Rightarrow> proto option" where
  "proto_step (Sent ActivityStart) p = (if pr_open p \<or> pr_gen p then None else Some (p\<lparr>pr_open := True\<rparr>))"
| "proto_step (Sent ActivityEnd) p = (if pr_open p then Some (p\<lparr>pr_open := False\<rparr>) else None)"
| "proto_step (Sent (AudioChunk f)) p = (if pr_open p then Some p else None)"
| "proto_step (Sent (Instruct u s)) p = Some (p\<lparr>pr_gen := True, pr_acc := True, pr_req := Some u\<rparr>)"
| "proto_step (Sent (ToolResponse n rs)) p = (if n = pr_epoch p then Some p else None)"
| "proto_step (Sent (Setup m)) p = Some p"
| "proto_step (Called (ModelAudio a u)) p = (if u = pr_req p \<and> (pr_acc p \<or> u = None) then Some p else None)"
| "proto_step (Called c) p = Some p"
| "proto_step Invalidated p = Some (p\<lparr>pr_gen := False, pr_acc := False, pr_req := None, pr_epoch := pr_epoch p + 1\<rparr>)"
| "proto_step Released p = Some (p\<lparr>pr_gen := False, pr_acc := False\<rparr>)"
| "proto_step LinkClosed p = Some (p\<lparr>pr_open := False\<rparr>)"

definition proto_run :: "trace_item list \<Rightarrow> proto option" where
  "proto_run xs = fold (\<lambda>x p. Option.bind p (proto_step x)) xs (Some proto_start)"

lemma proto_run_snoc: "proto_run (xs @ [x]) = Option.bind (proto_run xs) (proto_step x)"
  by (simp add: proto_run_def)

lemma proto_run_two: "proto_run (xs @ [x, y]) = Option.bind (Option.bind (proto_run xs) (proto_step x)) (proto_step y)"
  by (simp add: proto_run_def)

text \<open>The connection and the automaton agree.\<close>

definition agrees :: "voice \<Rightarrow> proto \<Rightarrow> bool" where
  "agrees v p \<longleftrightarrow> pr_gen p = rv_generating v \<and> pr_acc p = rv_accepting v \<and> pr_req p = rv_request v \<and> pr_epoch p = rv_epoch v \<and>
     (rv_accepting v \<longrightarrow> rv_request v \<noteq> None) \<and> (rv_generating v \<longrightarrow> rv_accepting v) \<and>
     (\<not> rv_ready v \<longrightarrow> \<not> rv_inputOpen v \<and> \<not> pr_open p \<and> \<not> rv_generating v \<and> \<not> rv_accepting v \<and> \<not> rv_deferred v) \<and>
     (rv_ready v \<and> rv_link v = Open \<longrightarrow> pr_open p = rv_inputOpen v \<and> rv_inputOpen v = (speaking (rv_vad v) \<and> \<not> rv_deferred v)) \<and>
     (rv_inputOpen v \<longrightarrow> speaking (rv_vad v) \<and> \<not> rv_deferred v) \<and> (rv_deferred v \<longrightarrow> speaking (rv_vad v)) \<and> (rv_muted v \<longrightarrow> \<not> speaking (rv_vad v)) \<and>
     (rv_link v = Dialing \<longrightarrow> \<not> rv_ready v)"

definition voice_ok :: "voice \<Rightarrow> bool" where
  "voice_ok v \<longleftrightarrow> (\<exists>p. proto_run (rv_trace v) = Some p \<and> agrees v p)"

lemma voice_okI: "proto_run (rv_trace v) = Some p \<Longrightarrow> agrees v p \<Longrightarrow> voice_ok v"
  unfolding voice_ok_def by blast

lemma voice_okE:
  assumes "voice_ok v"
  obtains p where "proto_run (rv_trace v) = Some p" "agrees v p"
  using assms unfolding voice_ok_def by blast

lemma voice_ok_new: "voice_ok (new_voice vo)"
  by (rule voice_okI [of _ proto_start])
    (simp_all add: new_voice_def proto_run_def agrees_def proto_start_def new_vad_def)

lemma agrees_facts:
  assumes "agrees v p"
  shows "rv_deferred v \<Longrightarrow> speaking (rv_vad v)" "rv_inputOpen v \<Longrightarrow> \<not> rv_deferred v" "rv_inputOpen v \<Longrightarrow> speaking (rv_vad v)"
    "rv_muted v \<Longrightarrow> \<not> speaking (rv_vad v)" "rv_ready v \<Longrightarrow> rv_link v = Open \<Longrightarrow> pr_open p = rv_inputOpen v"
    "rv_ready v \<Longrightarrow> rv_link v = Open \<Longrightarrow> rv_inputOpen v = (speaking (rv_vad v) \<and> \<not> rv_deferred v)"
    "pr_gen p = rv_generating v" "pr_acc p = rv_accepting v" "pr_req p = rv_request v" "pr_epoch p = rv_epoch v"
    "rv_accepting v \<Longrightarrow> rv_request v \<noteq> None" "\<not> rv_ready v \<Longrightarrow> \<not> pr_open p" "\<not> rv_ready v \<Longrightarrow> \<not> rv_generating v"
    "\<not> rv_ready v \<Longrightarrow> \<not> rv_deferred v" "\<not> rv_ready v \<Longrightarrow> \<not> rv_inputOpen v" "rv_link v = Dialing \<Longrightarrow> \<not> rv_ready v"
  using assms unfolding agrees_def by blast+

section \<open>Small steps\<close>

text \<open>Fields that no clause of the agreement speaks of.\<close>

lemma agrees_updates [simp]:
  "agrees (v\<lparr>rv_frames := x1\<rparr>) p = agrees v p" "agrees (v\<lparr>rv_samples := x2\<rparr>) p = agrees v p"
  "agrees (v\<lparr>rv_provisional := x3\<rparr>) p = agrees v p" "agrees (v\<lparr>rv_interviewerSpeaking := x4\<rparr>) p = agrees v p"
  "agrees (v\<lparr>rv_local := x5\<rparr>) p = agrees v p" "agrees (v\<lparr>rv_model := x6\<rparr>) p = agrees v p"
  "agrees (v\<lparr>rv_relays := x7\<rparr>) p = agrees v p" "agrees (v\<lparr>rv_audioThisTurn := x8\<rparr>) p = agrees v p"
  "agrees (v\<lparr>rv_trace := x9\<rparr>) p = agrees v p"
  "agrees (v\<lparr>rv_trace := x9, rv_inputOpen := b\<rparr>) p = agrees (v\<lparr>rv_inputOpen := b\<rparr>) p"
  by (simp_all add: agrees_def)

lemma voice_ok_updates [simp]:
  "voice_ok (v\<lparr>rv_frames := x1\<rparr>) = voice_ok v" "voice_ok (v\<lparr>rv_samples := x2\<rparr>) = voice_ok v"
  "voice_ok (v\<lparr>rv_provisional := x3\<rparr>) = voice_ok v" "voice_ok (v\<lparr>rv_interviewerSpeaking := x4\<rparr>) = voice_ok v"
  "voice_ok (v\<lparr>rv_local := x5\<rparr>) = voice_ok v" "voice_ok (v\<lparr>rv_model := x6\<rparr>) = voice_ok v"
  "voice_ok (v\<lparr>rv_relays := x7\<rparr>) = voice_ok v" "voice_ok (v\<lparr>rv_audioThisTurn := x8\<rparr>) = voice_ok v"
  by (simp_all add: voice_ok_def)

lemma note_sel [simp]: "rv_trace (note_item x v) = rv_trace v @ [x]" "agrees (note_item x v) p = agrees v p"
  by (simp_all add: note_item_def)

lemma note_fields [simp]:
  "rv_link (note_item x v) = rv_link v" "rv_vad (note_item x v) = rv_vad v" "rv_ready (note_item x v) = rv_ready v"
  "rv_muted (note_item x v) = rv_muted v" "rv_inputOpen (note_item x v) = rv_inputOpen v" "rv_frames (note_item x v) = rv_frames v"
  "rv_provisional (note_item x v) = rv_provisional v" "rv_generating (note_item x v) = rv_generating v"
  "rv_accepting (note_item x v) = rv_accepting v" "rv_request (note_item x v) = rv_request v"
  "rv_epoch (note_item x v) = rv_epoch v" "rv_deferred (note_item x v) = rv_deferred v" "rv_relays (note_item x v) = rv_relays v"
  "rv_interviewerSpeaking (note_item x v) = rv_interviewerSpeaking v"
  by (simp_all add: note_item_def)

lemma voice_ok_note:
  assumes "voice_ok v" and "\<And>p. agrees v p \<Longrightarrow> proto_step x p = Some p"
  shows "voice_ok (note_item x v)"
proof -
  obtain p where "proto_run (rv_trace v) = Some p" "agrees v p" using assms(1) by (rule voice_okE)
  then show ?thesis by (intro voice_okI [of _ p]) (simp_all add: proto_run_snoc assms(2))
qed

definition harmless :: "voice_callback \<Rightarrow> bool" where
  "harmless c \<longleftrightarrow> (\<forall>a u. c \<noteq> ModelAudio a u)"

lemma voice_ok_call: "voice_ok v \<Longrightarrow> harmless c \<Longrightarrow> voice_ok (call_owner c v)"
  unfolding call_owner_def by (rule voice_ok_note, assumption, cases c) (simp_all add: harmless_def)

lemma voice_ok_invalidate: "voice_ok v \<Longrightarrow> voice_ok (invalidateRequest v)"
proof -
  assume "voice_ok v"
  then obtain p where p: "proto_run (rv_trace v) = Some p" "agrees v p" by (rule voice_okE)
  let ?p = "p\<lparr>pr_gen := False, pr_acc := False, pr_req := None, pr_epoch := pr_epoch p + 1\<rparr>"
  have "agrees (v\<lparr>rv_epoch := rv_epoch v + 1, rv_accepting := False, rv_generating := False, rv_audioThisTurn := False, rv_request := None\<rparr>) ?p"
    unfolding agrees_def by (simp, insert p(2), unfold agrees_def, blast)
  then show ?thesis using p(1) by (intro voice_okI [of _ ?p]) (simp_all add: invalidateRequest_def proto_run_snoc)
qed

lemma clear_fields [simp]:
  "voice_ok (clearPreSpeech v) = voice_ok v" "rv_vad (clearPreSpeech v) = rv_vad v" "rv_deferred (clearPreSpeech v) = rv_deferred v"
  by (simp_all add: clearPreSpeech_def)

lemma voice_ok_end_provisional: "voice_ok v \<Longrightarrow> voice_ok (endProvisionalBarge v)"
  by (simp add: endProvisionalBarge_def voice_ok_call harmless_def)

lemma end_provisional_fields [simp]:
  "rv_vad (endProvisionalBarge v) = rv_vad v" "rv_link (endProvisionalBarge v) = rv_link v"
  "rv_ready (endProvisionalBarge v) = rv_ready v" "rv_inputOpen (endProvisionalBarge v) = rv_inputOpen v"
  "rv_deferred (endProvisionalBarge v) = rv_deferred v" "rv_generating (endProvisionalBarge v) = rv_generating v"
  "rv_muted (endProvisionalBarge v) = rv_muted v"
  by (simp_all add: endProvisionalBarge_def call_owner_def)

lemma agrees_end_provisional [simp]: "agrees (endProvisionalBarge v) p = agrees v p"
  by (simp add: endProvisionalBarge_def call_owner_def)

lemma voice_ok_frames:
  assumes "voice_ok v" and "rv_ready v" and "rv_link v = Open" and "rv_inputOpen v"
  shows "voice_ok (fold (\<lambda>f. send_message (AudioChunk f)) fs v)"
  using assms
proof (induction fs arbitrary: v)
  case (Cons f fs)
  have "voice_ok (send_message (AudioChunk f) v)"
    using Cons.prems voice_ok_note [of v "Sent (AudioChunk f)"] by (simp add: send_message_def agrees_facts(5))
  then show ?case using Cons by (simp add: send_message_def)
qed simp

text \<open>Opening the activity: the candidate has begun to speak, nothing is held and nothing generates.\<close>

definition may_open :: "voice \<Rightarrow> proto \<Rightarrow> bool" where
  "may_open v p \<longleftrightarrow> agrees (v\<lparr>rv_vad := (rv_vad v)\<lparr>speaking := False\<rparr>\<rparr>) p \<and> speaking (rv_vad v) \<and>
     \<not> rv_deferred v \<and> \<not> rv_muted v \<and> \<not> rv_generating v"

lemma voice_ok_started:
  assumes run: "proto_run (rv_trace v) = Some p" and may: "may_open v p" and link: "rv_ready v" "rv_link v = Open"
  shows "voice_ok ((send_message ActivityStart v)\<lparr>rv_inputOpen := True\<rparr>)"
  using assms
  by (intro voice_okI [of _ "p\<lparr>pr_open := True\<rparr>"])
    (auto simp: send_message_def proto_run_snoc note_item_def may_open_def agrees_def)

lemma voice_ok_open:
  assumes run: "proto_run (rv_trace v) = Some p" and may: "may_open v p"
  shows "voice_ok (openInputActivity v)"
proof (cases "rv_ready v \<and> rv_link v = Open")
  case False
  have "voice_ok v" using run may False by (intro voice_okI [of _ p]) (auto simp: may_open_def agrees_def)
  moreover have "sendActivity True v = v" using False by (simp add: sendActivity_def Let_def)
  moreover have "\<not> rv_inputOpen v" using may by (auto simp: may_open_def agrees_def)
  ultimately show ?thesis
    using False by (auto simp: openInputActivity_def Let_def)
next
  case True
  let ?w = "(send_message ActivityStart v)\<lparr>rv_inputOpen := True\<rparr>"
  have w: "sendActivity True v = ?w" using True by (simp add: sendActivity_def Let_def)
  have "voice_ok ?w" using voice_ok_started [OF run may] True by simp
  then have "voice_ok (send_frames ?w)"
    unfolding send_frames_def using True by (intro voice_ok_frames) (simp_all add: send_message_def)
  then show ?thesis by (simp add: openInputActivity_def w Let_def)
qed

lemma voice_ok_release:
  assumes "voice_ok v" and "\<not> rv_generating v"
  shows "voice_ok (release_deferred v)"
proof (cases "rv_deferred v \<and> speaking (rv_vad v) \<and> \<not> rv_muted v")
  case True
  obtain p where p: "proto_run (rv_trace v) = Some p" "agrees v p" using assms(1) by (rule voice_okE)
  have "may_open (v\<lparr>rv_deferred := False\<rparr>) p" using p(2) True assms(2) by (auto simp: may_open_def agrees_def)
  then have "voice_ok (openInputActivity (v\<lparr>rv_deferred := False\<rparr>))" using p(1) by (intro voice_ok_open) simp_all
  then show ?thesis using True by (simp add: release_deferred_def)
next
  case False
  have "\<not> rv_deferred v" using assms(1) False by (metis voice_okE agrees_facts(1,4))
  then show ?thesis using assms(1) by (simp add: release_deferred_def)
qed

lemma voice_ok_after: "voice_ok v \<Longrightarrow> voice_ok (afterInterviewerChange v)"
  by (simp add: afterInterviewerChange_def voice_ok_end_provisional voice_ok_release)

text \<open>The candidate falls silent, by the detector or by force.\<close>

lemma voice_ok_silent:
  assumes "voice_ok v" and "speaking (rv_vad v)" and "\<not> speaking w"
  shows "voice_ok (closeInputActivity (v\<lparr>rv_vad := w\<rparr>))"
proof -
  obtain p where p: "proto_run (rv_trace v) = Some p" "agrees v p" using assms(1) by (rule voice_okE)
  show ?thesis
  proof (cases "rv_deferred v \<or> \<not> (rv_ready v \<and> rv_link v = Open)")
    case quiet: True
    show ?thesis
    proof (cases "rv_deferred v")
      case True
      have "agrees (v\<lparr>rv_vad := w, rv_deferred := False\<rparr>) p"
        unfolding agrees_def by (simp, insert p(2) assms(3) True, unfold agrees_def, blast)
      then show ?thesis using p(1) True
        by (intro voice_okI [of _ p]) (simp_all add: closeInputActivity_def clearPreSpeech_def)
    next
      case False
      have "agrees (v\<lparr>rv_vad := w, rv_inputOpen := False\<rparr>) p"
        unfolding agrees_def by (simp, insert p(2) assms(3) False quiet, unfold agrees_def, blast)
      then show ?thesis using p(1) False quiet
        by (intro voice_okI [of _ p]) (simp_all add: closeInputActivity_def sendActivity_def Let_def)
    qed
  next
    case False
    let ?p = "p\<lparr>pr_open := False\<rparr>"
    have "agrees (v\<lparr>rv_vad := w, rv_inputOpen := False\<rparr>) ?p"
      unfolding agrees_def by (simp, insert p(2) assms(3) False, unfold agrees_def, blast)
    moreover have "pr_open p" using agrees_facts(5,6) [OF p(2)] False assms(2) by simp
    ultimately show ?thesis using p(1) False
      by (intro voice_okI [of _ ?p])
        (simp_all add: closeInputActivity_def sendActivity_def send_message_def note_item_def Let_def proto_run_snoc)
  qed
qed

text \<open>A change of the detector within speech or within silence.\<close>

lemma voice_ok_vad: "voice_ok v \<Longrightarrow> speaking w = speaking (rv_vad v) \<Longrightarrow> voice_ok (v\<lparr>rv_vad := w\<rparr>)"
  by (auto simp: voice_ok_def agrees_def)

section \<open>The owner's calls\<close>

lemma invalidate_fields [simp]:
  "rv_generating (invalidateRequest v) = False" "rv_ready (invalidateRequest v) = rv_ready v"
  "rv_link (invalidateRequest v) = rv_link v" "rv_vad (invalidateRequest v) = rv_vad v"
  "rv_deferred (invalidateRequest v) = rv_deferred v" "rv_muted (invalidateRequest v) = rv_muted v"
  by (simp_all add: invalidateRequest_def)

lemma agrees_requested:
  assumes "agrees v p" and "rv_ready v" and "rv_link v = Open"
  shows "agrees (v\<lparr>rv_accepting := True, rv_generating := True, rv_audioThisTurn := False, rv_request := Some u\<rparr>)
    (p\<lparr>pr_gen := True, pr_acc := True, pr_req := Some u\<rparr>)"
  unfolding agrees_def by (simp, insert assms, unfold agrees_def, blast)

lemma voice_ok_request: "voice_ok v \<Longrightarrow> voice_ok (fst (requestSpeech a v))"
proof (cases "rv_ready v \<and> rv_link v = Open")
  case True
  assume "voice_ok v"
  then have "voice_ok (invalidateRequest v)" by (rule voice_ok_invalidate)
  then obtain p where p: "proto_run (rv_trace (invalidateRequest v)) = Some p" "agrees (invalidateRequest v) p"
    by (rule voice_okE)
  let ?p = "p\<lparr>pr_gen := True, pr_acc := True, pr_req := Some (au_utteranceId a)\<rparr>"
  let ?w = "(invalidateRequest v)\<lparr>rv_accepting := True, rv_generating := True, rv_audioThisTurn := False, rv_request := Some (au_utteranceId a)\<rparr>"
  have "agrees ?w ?p" using agrees_requested [OF p(2)] True by simp
  then show ?thesis using True p(1)
    by (intro voice_okI [of _ ?p]) (simp_all add: requestSpeech_def send_message_def proto_run_snoc)
qed (auto simp: requestSpeech_def)

lemma voice_ok_owner: "voice_ok v \<Longrightarrow> voice_ok (owner_does k v)"
  by (cases k)
    (auto simp: cancelSpeech_def noteLocalPlayback_def noteModelPlayback_def Let_def
      intro!: voice_ok_request voice_ok_after voice_ok_invalidate)

lemma voice_ok_reaction: "voice_ok v \<Longrightarrow> voice_ok (fold owner_does ks v)"
  by (induction ks arbitrary: v) (auto intro: voice_ok_owner)

lemma voice_ok_tell: "voice_ok v \<Longrightarrow> harmless c \<Longrightarrow> voice_ok (tell react c v)"
  unfolding tell_def by (intro voice_ok_reaction voice_ok_call)

section \<open>The microphone\<close>

lemma voice_ok_confirm: "voice_ok v \<Longrightarrow> voice_ok (confirmBargeIn react v)"
  by (auto simp: confirmBargeIn_def harmless_def intro!: voice_ok_tell voice_ok_release voice_ok_invalidate)

lemma voice_ok_resolve: "voice_ok v \<Longrightarrow> voice_ok (resolveProvisionalBarge react db t v)"
  by (auto simp: resolveProvisionalBarge_def voice_ok_confirm split: option.split)

lemma voice_ok_start_event:
  assumes ok: "voice_ok v" and vad: "\<not> speaking (rv_vad v)" "speaking w" and "\<not> rv_muted v" and e: "ve_type e = SPEECH_START"
  shows "voice_ok (handleVadEvent e (v\<lparr>rv_vad := w\<rparr>))"
proof -
  obtain p where p: "proto_run (rv_trace v) = Some p" "agrees v p" using ok by (rule voice_okE)
  let ?v = "v\<lparr>rv_vad := w\<rparr>"
  let ?w = "if rv_interviewerSpeaking ?v \<or> rv_generating ?v then call_owner (Provisional True) (?v\<lparr>rv_provisional := Some (ve_atMs e)\<rparr>) else ?v"
  have w: "proto_run (rv_trace ?w) = Some p" "rv_generating ?w = rv_generating v" "rv_deferred ?w = rv_deferred v"
    using p(1) by (auto simp: call_owner_def proto_run_snoc)
  have def: "\<not> rv_deferred v" using p(2) vad(1) by (auto simp: agrees_def)
  show ?thesis
  proof (cases "rv_generating v")
    case True
    have "agrees (?w\<lparr>rv_deferred := True\<rparr>) p"
      using p(2) vad assms(4) True by (auto simp: agrees_def call_owner_def)
    then have "voice_ok (?w\<lparr>rv_deferred := True\<rparr>)" using w(1) by (intro voice_okI [of _ p]) simp_all
    then show ?thesis using True e by (simp add: handleVadEvent_def Let_def voice_ok_call harmless_def)
  next
    case False
    have "may_open ?w p" using p(2) vad assms(4) False def by (auto simp: may_open_def agrees_def call_owner_def)
    then have "voice_ok (openInputActivity ?w)" using w(1) by (rule voice_ok_open [rotated])
    then show ?thesis using False e by (simp add: handleVadEvent_def Let_def voice_ok_call harmless_def)
  qed
qed

lemma voice_ok_end_event:
  assumes ok: "voice_ok v" and vad: "speaking (rv_vad v)" "\<not> speaking w" and e: "ve_type e = SPEECH_END"
  shows "voice_ok (handleVadEvent e (v\<lparr>rv_vad := w\<rparr>))"
proof -
  have "endProvisionalBarge (v\<lparr>rv_vad := w\<rparr>) = (endProvisionalBarge v)\<lparr>rv_vad := w\<rparr>"
    by (simp add: endProvisionalBarge_def call_owner_def note_item_def)
  then have "voice_ok (closeInputActivity (endProvisionalBarge (v\<lparr>rv_vad := w\<rparr>)))"
    using voice_ok_silent [OF voice_ok_end_provisional [OF ok], of w] vad by simp
  then show ?thesis using e by (simp add: handleVadEvent_def voice_ok_call harmless_def)
qed

lemma buffer_fields [simp]:
  "voice_ok (bufferPreSpeech vo f v) = voice_ok v" "rv_vad (bufferPreSpeech vo f v) = rv_vad v"
  "rv_muted (bufferPreSpeech vo f v) = rv_muted v"
  by (simp_all add: bufferPreSpeech_def Let_def split: prod.split)

lemma voice_ok_push: "voice_ok v \<Longrightarrow> voice_ok (pushAudio vo react frame db t v)"
proof (cases "rv_muted v")
  case False
  assume ok: "voice_ok v"
  let ?v = "if rv_inputOpen v then v else bufferPreSpeech vo frame v"
  have v: "voice_ok ?v" "rv_vad ?v = rv_vad v" "rv_muted ?v = rv_muted v" using ok by simp_all
  obtain w e where pd: "pushDb (vo_vad vo) (vo_predictor vo) db t (rv_vad ?v) = (w, e)" by (cases "pushDb (vo_vad vo) (vo_predictor vo) db t (rv_vad ?v)")
  let ?u = "case e of None \<Rightarrow> ?v\<lparr>rv_vad := w\<rparr> | Some ev \<Rightarrow> handleVadEvent ev (?v\<lparr>rv_vad := w\<rparr>)"
  have "voice_ok ?u"
    using pd
  proof (cases rule: pushDb_cases)
    case (boundary ev)
    show ?thesis
    proof (cases "speaking (rv_vad ?v)")
      case True
      then show ?thesis using boundary voice_ok_end_event [OF v(1) True, of w ev] by simp
    next
      case False2: False
      then show ?thesis using boundary voice_ok_start_event [OF v(1) False2, of w ev] False v(3) by simp
    qed
  next
    case within
    then show ?thesis using voice_ok_vad [OF v(1)] by simp
  qed
  then have r: "voice_ok (resolveProvisionalBarge react db t ?u)" by (rule voice_ok_resolve)
  let ?r = "resolveProvisionalBarge react db t ?u"
  have "voice_ok (send_message (AudioChunk frame) ?r)" if "rv_ready ?r" "rv_link ?r = Open" "rv_inputOpen ?r"
    using voice_ok_frames [OF r that, of "[frame]"] by simp
  then show ?thesis using r False pd by (simp add: pushAudio_def Let_def split del: if_split) (simp split: if_split)
qed (simp add: pushAudio_def)


lemma voice_ok_force_silence:
  assumes "voice_ok v"
  shows "voice_ok (force_silence vo now v)" and "\<not> speaking (rv_vad (force_silence vo now v))"
proof -
  obtain w e where w: "vad_reset (vo_predictor vo) now (rv_vad v) = (w, e)" by (cases "vad_reset (vo_predictor vo) now (rv_vad v)")
  then have sp: "\<not> speaking w" "e = None \<longleftrightarrow> \<not> speaking (rv_vad v)" by (auto simp: vad_reset_def split: if_splits)
  have ok: "voice_ok (case e of None \<Rightarrow> v\<lparr>rv_vad := w\<rparr> | Some ev \<Rightarrow> closeInputActivity (v\<lparr>rv_vad := w\<rparr>))"
    using voice_ok_vad [OF assms, of w] voice_ok_silent [OF assms _ sp(1)] sp by (cases e) auto
  then show "voice_ok (force_silence vo now v)"
    by (auto simp: force_silence_def w Let_def harmless_def intro!: voice_ok_call split: option.splits)
  have "rv_vad (closeInputActivity (v\<lparr>rv_vad := w\<rparr>)) = w"
    by (simp add: closeInputActivity_def sendActivity_def send_message_def Let_def)
  then show "\<not> speaking (rv_vad (force_silence vo now v))"
    using sp(1) by (simp add: force_silence_def w Let_def call_owner_def split: option.split)
qed

text \<open>Muting: the detector is silenced, so that the agreement holds with the microphone off.\<close>

lemma agrees_muted:
  assumes "agrees v p" and "\<not> speaking (rv_vad v)"
  shows "agrees (v\<lparr>rv_muted := b\<rparr>) p"
  unfolding agrees_def by (simp, insert assms, unfold agrees_def, blast)

lemma force_silence_muted: "force_silence vo now (v\<lparr>rv_muted := b\<rparr>) = (force_silence vo now v)\<lparr>rv_muted := b\<rparr>"
  by (simp add: force_silence_def vad_reset_def closeInputActivity_def clearPreSpeech_def sendActivity_def send_message_def
      call_owner_def note_item_def Let_def)

lemma voice_ok_mute: "voice_ok v \<Longrightarrow> voice_ok (voice_setMuted vo now m v)"
proof -
  assume ok: "voice_ok v"
  let ?u = "endProvisionalBarge (clearPreSpeech v)"
  have "voice_ok ?u" using ok by (simp add: voice_ok_end_provisional)
  note f = voice_ok_force_silence [OF this, of vo now]
  obtain p where p: "proto_run (rv_trace (force_silence vo now ?u)) = Some p" "agrees (force_silence vo now ?u) p"
    using f(1) by (rule voice_okE)
  have c: "endProvisionalBarge (clearPreSpeech (v\<lparr>rv_muted := b\<rparr>)) = ?u\<lparr>rv_muted := b\<rparr>" for b
    by (simp add: endProvisionalBarge_def clearPreSpeech_def call_owner_def note_item_def)
  have "voice_ok (force_silence vo now (?u\<lparr>rv_muted := m\<rparr>))"
    unfolding force_silence_muted using p(1) agrees_muted [OF p(2) f(2)] by (intro voice_okI [of _ p]) simp_all
  moreover have "voice_ok (v\<lparr>rv_muted := False\<rparr>)"
  proof -
    obtain q where q: "proto_run (rv_trace v) = Some q" "agrees v q" using ok by (rule voice_okE)
    have "agrees (v\<lparr>rv_muted := False\<rparr>) q" unfolding agrees_def by (simp, insert q(2), unfold agrees_def, blast)
    then show ?thesis using q(1) by (intro voice_okI [of _ q]) simp_all
  qed
  ultimately show ?thesis using ok by (auto simp: voice_setMuted_def c)
qed

section \<open>The connection\<close>

lemma voice_ok_opened: "voice_ok v \<Longrightarrow> rv_link v = Dialing \<Longrightarrow> voice_ok (voice_opened vo v)"
proof -
  assume ok: "voice_ok v" and d: "rv_link v = Dialing"
  obtain p where p: "proto_run (rv_trace v) = Some p" "agrees v p" using ok by (rule voice_okE)
  have "agrees (v\<lparr>rv_link := Open\<rparr>) p" unfolding agrees_def by (simp, insert p(2) d, unfold agrees_def, blast)
  then have "voice_ok (v\<lparr>rv_link := Open\<rparr>)" using p(1) by (intro voice_okI [of _ p]) simp_all
  then show ?thesis by (simp add: voice_opened_def send_message_def voice_ok_note)
qed

text \<open>The ways a link ends: the request is given up and nothing remains open.\<close>

definition shut :: "link_state \<Rightarrow> voice \<Rightarrow> voice" where
  "shut l v = v\<lparr>rv_link := l, rv_ready := False, rv_inputOpen := False, rv_deferred := False, rv_epoch := rv_epoch v + 1,
     rv_accepting := False, rv_generating := False, rv_request := None\<rparr>"

lemma voice_ok_shut:
  assumes "voice_ok v" and "rv_trace w = rv_trace v @ [Invalidated, LinkClosed]"
    and "\<And>p. agrees w p = agrees (shut l v) p"
  shows "voice_ok w"
proof -
  obtain p where p: "proto_run (rv_trace v) = Some p" "agrees v p" using assms(1) by (rule voice_okE)
  let ?p = "p\<lparr>pr_gen := False, pr_acc := False, pr_req := None, pr_epoch := pr_epoch p + 1, pr_open := False\<rparr>"
  have "agrees (shut l v) ?p"
    unfolding agrees_def by (simp add: shut_def, insert p(2), unfold agrees_def, blast)
  moreover have "proto_run (rv_trace w) = Some ?p"
    using p(1) by (simp add: assms(2) proto_run_two)
  ultimately show ?thesis using assms(3) by (intro voice_okI [of _ ?p]) simp_all
qed

lemma voice_ok_closed: "voice_ok v \<Longrightarrow> voice_ok (voice_closed react v)"
proof -
  assume ok: "voice_ok v"
  let ?v1 = "clearPreSpeech (invalidateRequest (v\<lparr>rv_link := Closing, rv_ready := False, rv_inputOpen := False, rv_deferred := False\<rparr>))"
  have "voice_ok (note_item LinkClosed (?v1\<lparr>rv_interviewerSpeaking := rv_local ?v1 \<or> rv_model ?v1, rv_accepting := False\<rparr>))"
    by (rule voice_ok_shut [OF ok, of _ Closing])
      (simp_all add: clearPreSpeech_def invalidateRequest_def note_item_def shut_def agrees_def)
  then show ?thesis
    unfolding voice_closed_def Let_def by (intro voice_ok_tell voice_ok_end_provisional) (simp_all add: harmless_def)
qed

lemma voice_ok_disconnect: "voice_ok v \<Longrightarrow> voice_ok (voice_disconnect vo now v)"
proof -
  assume ok: "voice_ok v"
  let ?f = "force_silence vo now (endProvisionalBarge v)"
  have "voice_ok ?f" using ok by (intro voice_ok_force_silence voice_ok_end_provisional)
  then show ?thesis
    unfolding voice_disconnect_def Let_def
    by (rule voice_ok_shut [of _ _ Gone])
      (simp_all add: clearPreSpeech_def invalidateRequest_def note_item_def shut_def agrees_def)
qed

section \<open>Messages\<close>

lemma voice_ok_tools: "voice_ok v \<Longrightarrow> voice_ok (relayToolCall tc v)"
  by (auto simp: relayToolCall_def send_message_def agrees_facts(10) intro!: voice_ok_note split: option.split)

lemma call_epoch: "rv_epoch (call_owner c v) = rv_epoch v"
  by (simp add: call_owner_def)

lemma voice_ok_relay_done: "voice_ok v \<Longrightarrow> voice_ok (relay_done i outcome ms v)"
  by (auto simp: relay_done_def Let_def send_message_def call_epoch agrees_facts(10) harmless_def
      intro!: voice_ok_note voice_ok_call split: list.split)

lemma voice_ok_setup:
  assumes ok: "voice_ok v" and "rv_link v = Open" and "\<not> rv_ready v"
  shows "voice_ok (setup_complete react v)"
proof -
  let ?v1 = "v\<lparr>rv_ready := True\<rparr>"
  obtain p where p: "proto_run (rv_trace v) = Some p" "agrees v p" using ok by (rule voice_okE)
  have "voice_ok (if speaking (rv_vad v) \<and> \<not> rv_muted v then clearPreSpeech (send_frames (sendActivity True ?v1)) else ?v1)"
  proof (cases "speaking (rv_vad v) \<and> \<not> rv_muted v")
    case True
    have m: "may_open ?v1 p"
      unfolding may_open_def agrees_def by (simp add: assms(2), insert p(2) assms(2,3) True, unfold agrees_def, blast)
    let ?w = "(send_message ActivityStart ?v1)\<lparr>rv_inputOpen := True\<rparr>"
    have "voice_ok ?w" using voice_ok_started [OF _ m] p(1) assms(2) by simp
    then have "voice_ok (send_frames ?w)"
      unfolding send_frames_def using assms(2) by (intro voice_ok_frames) (simp_all add: send_message_def)
    moreover have "sendActivity True ?v1 = ?w" using assms(2) by (simp add: sendActivity_def Let_def)
    ultimately show ?thesis using True by simp
  next
    case False
    then have "\<not> speaking (rv_vad v)" using agrees_facts(4) [OF p(2)] by blast
    then have "agrees ?v1 p"
      unfolding agrees_def by (simp add: assms(2) \<open>\<not> speaking (rv_vad v)\<close>, insert p(2) assms(2,3), unfold agrees_def, blast)
    then have "voice_ok ?v1" using p(1) by (intro voice_okI [of _ p]) simp_all
    then show ?thesis using False by (simp only: if_False)
  qed
  then show ?thesis unfolding setup_complete_def Let_def by (intro voice_ok_tell) (simp_all add: harmless_def)
qed

text \<open>Audio is handed on under the id of the request, or of none once the owner has given the request up.\<close>

definition on_turn :: "voice \<Rightarrow> bool" where
  "on_turn v \<longleftrightarrow> rv_accepting v \<or> rv_request v = None"

lemma send_frames_same [simp]: "rv_accepting (send_frames v) = rv_accepting v" "rv_request (send_frames v) = rv_request v"
proof -
  have "rv_accepting (fold (\<lambda>f. send_message (AudioChunk f)) fs v) = rv_accepting v \<and>
      rv_request (fold (\<lambda>f. send_message (AudioChunk f)) fs v) = rv_request v" for fs
    by (induction fs arbitrary: v) (simp_all add: send_message_def)
  then show "rv_accepting (send_frames v) = rv_accepting v" "rv_request (send_frames v) = rv_request v"
    by (simp_all add: send_frames_def)
qed

lemma on_turn_owner:
  assumes "on_turn v"
  shows "on_turn (owner_does k v)"
proof -
  have after: "on_turn (afterInterviewerChange w) = on_turn w" for w
    by (simp add: on_turn_def afterInterviewerChange_def endProvisionalBarge_def release_deferred_def openInputActivity_def
        sendActivity_def send_message_def clearPreSpeech_def call_owner_def note_item_def Let_def)
  have inv: "on_turn (invalidateRequest w)" for w by (simp add: on_turn_def invalidateRequest_def note_item_def)
  have u: "on_turn (w\<lparr>rv_local := a\<rparr>) = on_turn w" "on_turn (w\<lparr>rv_model := a\<rparr>) = on_turn w"
    "on_turn (w\<lparr>rv_interviewerSpeaking := a\<rparr>) = on_turn w" for w a by (simp_all add: on_turn_def)
  have req: "on_turn (fst (requestSpeech a v))" for a
    using assms by (simp add: requestSpeech_def send_message_def on_turn_def)
  show ?thesis
    using assms by (cases k) (simp_all add: after inv u req cancelSpeech_def noteLocalPlayback_def noteModelPlayback_def Let_def)
qed

lemma voice_ok_audio_call:
  assumes "voice_ok v" and "on_turn v"
  shows "voice_ok (tell react (ModelAudio a (rv_request v)) v)" and "on_turn (tell react (ModelAudio a (rv_request v)) v)"
proof -
  let ?c = "call_owner (ModelAudio a (rv_request v)) v"
  have "voice_ok ?c"
    unfolding call_owner_def using assms(1)
  proof (rule voice_ok_note)
    fix p
    assume "agrees v p"
    from agrees_facts(8,9) [OF this] assms(2) show "proto_step (Called (ModelAudio a (rv_request v))) p = Some p"
      by (auto simp: on_turn_def)
  qed
  then show "voice_ok (tell react (ModelAudio a (rv_request v)) v)" unfolding tell_def by (rule voice_ok_reaction)
  have "on_turn (fold owner_does ks w)" if "on_turn w" for ks w
    using that by (induction ks arbitrary: w) (auto intro: on_turn_owner)
  moreover have "on_turn ?c" using assms(2) by (simp add: on_turn_def call_owner_def)
  ultimately show "on_turn (tell react (ModelAudio a (rv_request v)) v)" by (simp add: tell_def)
qed

lemma voice_ok_play: "voice_ok v \<Longrightarrow> voice_ok (play_audio react chunks v)"
proof -
  have "voice_ok (fold (\<lambda>a u. tell react (ModelAudio a (rv_request u)) u) xs w)" if "voice_ok w" "on_turn w" for xs w
    using that by (induction xs arbitrary: w) (auto intro: voice_ok_audio_call)
  then show "voice_ok v \<Longrightarrow> voice_ok (play_audio react chunks v)" by (auto simp: play_audio_def on_turn_def)
qed

lemma voice_ok_turn_complete: "voice_ok v \<Longrightarrow> voice_ok (turn_complete react v)"
proof -
  assume ok: "voice_ok v"
  obtain p where p: "proto_run (rv_trace v) = Some p" "agrees v p" using ok by (rule voice_okE)
  let ?p = "p\<lparr>pr_gen := False, pr_acc := False\<rparr>"
  have "agrees (v\<lparr>rv_accepting := False, rv_generating := False\<rparr>) ?p"
    unfolding agrees_def by (simp, insert p(2), unfold agrees_def, blast)
  then have "voice_ok (note_item Released (v\<lparr>rv_accepting := False, rv_generating := False\<rparr>))"
    using p(1) by (intro voice_okI [of _ ?p]) (simp_all add: proto_run_snoc)
  then show ?thesis
    using ok unfolding turn_complete_def Let_def by (intro voice_ok_after voice_ok_tell) (auto simp: harmless_def)
qed

lemma voice_ok_if: "(b \<Longrightarrow> voice_ok v) \<Longrightarrow> (\<not> b \<Longrightarrow> voice_ok w) \<Longrightarrow> voice_ok (if b then v else w)"
  by simp

lemma voice_ok_content:
  assumes "voice_ok v"
  shows "voice_ok (content_message react m v)"
proof -
  note v1 = voice_ok_play [OF assms, of react "extractModelAudio m"]
  have v2: "voice_ok (if b then tell react BargeIn (invalidateRequest (w\<lparr>rv_interviewerSpeaking := False\<rparr>)) else w)"
    if "voice_ok w" for b w
    using that by (simp add: voice_ok_tell voice_ok_invalidate harmless_def)
  have v3: "voice_ok (if b then confirmBargeIn react w else w)" if "voice_ok w" for b w
    using that by (simp add: voice_ok_confirm)
  have v4: "voice_ok (if b then call_owner (InputTranscript x c) w else w)" if "voice_ok w" for b w x c
    using that by (simp add: voice_ok_call harmless_def)
  have v5: "voice_ok (if b then turn_complete react w else w)" if "voice_ok w" for b w
    using that by (simp add: voice_ok_turn_complete)
  show ?thesis
    unfolding content_message_def Let_def by (rule v5, rule v4, rule v4, rule v3, rule v2, rule v1)
qed

lemma voice_ok_message:
  assumes "voice_ok v" and "rv_link v = Open"
    and "\<And>m. raw = Some m \<Longrightarrow> has_key m ''setupComplete'' \<or> has_key m ''setup_complete'' \<Longrightarrow> \<not> rv_ready v"
  shows "voice_ok (handleMessage react show_json raw v)"
  using assms voice_ok_setup [OF assms(1,2)]
  by (auto simp: handleMessage_def Let_def harmless_def voice_ok_content voice_ok_tools
      intro!: voice_ok_tell voice_ok_call split: option.split)

section \<open>A connection's life\<close>

text \<open>
  The provider speaks only on an open link and completes the setup once. What its messages say, how the
  owner reacts, and what the tools return is arbitrary.
\<close>

inductive voice_step :: "voice_options \<Rightarrow> reaction \<Rightarrow> (json \<Rightarrow> string) \<Rightarrow> voice \<Rightarrow> voice \<Rightarrow> bool"
  for vo react show_json where
  opened: "rv_link v = Dialing \<Longrightarrow> voice_step vo react show_json v (voice_opened vo v)"
| owner: "voice_step vo react show_json v (owner_does k v)"
| audio: "voice_step vo react show_json v (pushAudio vo react frame db t v)"
| mute: "voice_step vo react show_json v (voice_setMuted vo t m v)"
| message: "rv_link v = Open \<Longrightarrow>
    (\<And>m. raw = Some m \<Longrightarrow> has_key m ''setupComplete'' \<or> has_key m ''setup_complete'' \<Longrightarrow> \<not> rv_ready v) \<Longrightarrow>
    voice_step vo react show_json v (handleMessage react show_json raw v)"
| tool: "voice_step vo react show_json v (relay_done i outcome ms v)"
| closed: "voice_step vo react show_json v (voice_closed react v)"
| disconnected: "voice_step vo react show_json v (voice_disconnect vo t v)"

interpretation voice_kept: kept_by_steps "voice_step vo react show_json" voice_ok for vo react show_json
proof unfold_locales
  fix v w
  assume ok: "voice_ok v" and step: "voice_step vo react show_json v w"
  from step show "voice_ok w"
    by cases (use ok in \<open>simp_all add: voice_ok_opened voice_ok_owner voice_ok_push voice_ok_mute voice_ok_message
        voice_ok_relay_done voice_ok_closed voice_ok_disconnect\<close>)
qed

lemma voice_follows_protocol:
  "(voice_step vo react show_json)\<^sup>*\<^sup>* (new_voice vo) v \<Longrightarrow> proto_run (rv_trace v) \<noteq> None"
  using voice_kept.kept_by_closure [OF _ voice_ok_new] unfolding voice_ok_def by fastforce

section \<open>Audio that comes late\<close>

text \<open>
  A frame of audio carries no id of its own, so that it is handed on under the request that is current
  when it arrives. After a cancelled request and a new one, the last frames of the old turn get the id
  of the new one.
\<close>

lemma late_audio_gets_new_id:
  assumes "rv_ready v" and "rv_link v = Open"
  shows "\<exists>tr. rv_trace (play_audio (\<lambda>_. []) [d] (fst (requestSpeech new (cancelSpeech (fst (requestSpeech old v)))))) =
    tr @ [Called (ModelAudio d (Some (au_utteranceId new)))]"
proof -
  have after: "rv_ready (afterInterviewerChange u) = rv_ready u" "rv_link (afterInterviewerChange u) = rv_link u" for u
  proof -
    have "rv_ready (fold (\<lambda>f. send_message (AudioChunk f)) fs u) = rv_ready u \<and>
        rv_link (fold (\<lambda>f. send_message (AudioChunk f)) fs u) = rv_link u" for fs u
      by (induction fs arbitrary: u) (simp_all add: send_message_def)
    then show "rv_ready (afterInterviewerChange u) = rv_ready u" "rv_link (afterInterviewerChange u) = rv_link u"
      by (simp_all add: afterInterviewerChange_def release_deferred_def openInputActivity_def sendActivity_def send_frames_def
          send_message_def clearPreSpeech_def Let_def)
  qed
  let ?c = "cancelSpeech (fst (requestSpeech old v))"
  have "rv_ready ?c" "rv_link ?c = Open"
    using assms by (simp_all add: cancelSpeech_def Let_def after requestSpeech_def send_message_def)
  then show ?thesis
    by (simp add: play_audio_def tell_def requestSpeech_def send_message_def call_owner_def)
qed

end
