(* ===== verification/Spec2Isabelle.thy ===== *)
theory Spec2Isabelle
  imports VoiceExample VoiceTranscript TurnPredictor UtteranceCache SessionExamples SessionRoutes Vad UtteranceLifecycle Redacted_Reports ReportJobs IndependentGrade
  Playback LatencyLedger Delivery RealtimeProtocol
begin

text \<open>
  A verification library for Master Leeter, a voice interviewer for coding interviews. A browser
  streams what a candidate does (code, notes, runs, speech) to an API; the API stores every event in
  an append-only log, observes the code, decides with explicit rules whether the interviewer may
  speak and about what, and leaves wording and voice to external providers.

  \<^bold>\<open>How the parts interact.\<close> A browser measures speech (\<open>Vad\<close>) and plays authorized utterances
  (\<open>UtteranceLifecycle\<close>). Its frames reach \<open>handleClientEvent\<close> (\<open>SessionChannel\<close>), which appends them to
  the log (\<open>EventLog\<close>) under the session's pins (\<open>SessionStore\<close>). The process that owns a session
  (\<open>Ownership\<close>) hands each stored event to the runtime of that session (\<open>ingest\<close> in \<open>RuntimeIngest\<close>),
  which folds it into its state (\<open>RuntimeState\<close>, \<open>Observer\<close>), moves the stage machine
  (\<open>StateMachine\<close>, \<open>StageAdvance\<close>), asks the gate for a decision (\<open>Gate\<close>), and realizes it
  (\<open>RuntimeSpeech\<close>). Drops, resumptions and ends go through \<open>SessionRoutes\<close>, which reads the log back
  (\<open>Resume\<close>), credits the clock (\<open>Lease\<close>) and seals the log (\<open>SessionLifecycle\<close>).

  \<^bold>\<open>Theories and the code they model\<close> (paths under \<open>src/\<close>; \<open>api\<close> stands for \<open>apps/api/src/modules\<close>).

  \<^item> \<open>Prelude\<close>, \<open>Keyed_Maps\<close>, \<open>Step_Closure\<close>, \<open>Bounded_Steps\<close>: JSON values, JS rounding and truthiness,
    errors, ordered maps as JS keeps them, and the interfaces (locales) of step relations: what every step keeps or
    only increases, and loops with a rank. \<open>JsText\<close>, \<open>JsRegex\<close>: the string operations and the regular
    expressions the source uses, with a fuel of the length of the text.
  \<^item> \<open>Contracts\<close>: \<open>packages/contracts/src\<close>, the enums with their permission tables and the records.
  \<^item> \<open>Policy\<close>, \<open>StateMachine\<close>, \<open>BriefRequest\<close>, \<open>Classifier\<close>, \<open>TurnCompletion\<close>, \<open>Gate\<close>, \<open>StageAdvance\<close>,
    \<open>StageDriver\<close>: the files of \<open>api/orchestrator\<close> of these names.
  \<^item> \<open>Triggers\<close>, \<open>Probes\<close>, \<open>Clarification_Map\<close>: \<open>api/scenario/triggers.ts\<close>, \<open>probes.ts\<close>, \<open>clarification.ts\<close>.
  \<^item> \<open>Milestones\<close>, \<open>Snapshot\<close>, \<open>Transcript\<close>, \<open>Observer\<close>: the files of \<open>api/observer\<close>.
  \<^item> \<open>RuntimeState\<close>, \<open>Checkpoint\<close>, \<open>RuntimeSpeech\<close>, \<open>RuntimeIngest\<close>: \<open>api/orchestrator/runtime.ts\<close>, one record for
    the fields of \<open>InterviewRuntime\<close> and one definition per handler. \<open>RuntimeInvariants\<close>, \<open>RuntimeFrames\<close>,
    \<open>RuntimeGrowth\<close>, \<open>RuntimeSafety\<close> hold its reachable states, the frame of its handlers, its order and
    the laws of what is said.
  \<^item> \<open>EventLog\<close>: \<open>api/session/event-log.ts\<close> and the redaction of \<open>api/privacy/deletion.ts\<close>.
  \<^item> \<open>SessionStore\<close>, \<open>SessionChannel\<close>, \<open>SessionLifecycle\<close>, \<open>Lease\<close>, \<open>Resume\<close>, \<open>Ownership\<close>, \<open>SessionRoutes\<close>:
    \<open>session-store.ts\<close>, \<open>channel.ts\<close>, \<open>lifecycle.ts\<close>, \<open>lease.ts\<close>, \<open>resume.ts\<close>, \<open>runtime-ownership.ts\<close> and the routes
    of \<open>index.ts\<close>, all in \<open>api/session\<close>.
  \<^item> \<open>RunQueue\<close>: \<open>api/runner/queue.ts\<close>. \<open>ProviderCircuit\<close>: \<open>apps/api/src/lib/provider-circuit.ts\<close>.
    \<open>VoiceResumption\<close>: \<open>api/realtime/resumption.ts\<close>.
  \<^item> \<open>Evidence\<close>, \<open>Evaluator\<close>, \<open>IndependentGrade\<close>, \<open>ReportJobs\<close>: \<open>evidence.ts\<close> with \<open>rubric.ts\<close>, \<open>evaluator.ts\<close>,
    \<open>independent-evaluator.ts\<close>, \<open>report-store.ts\<close> with the worker of \<open>index.ts\<close>, all in \<open>api/report\<close>;
    \<open>Redacted_Reports\<close> relates a report to the redaction of its log.
  \<^item> \<open>Vad\<close>, \<open>UtteranceLifecycle\<close>, \<open>Playback\<close>, \<open>LatencyLedger\<close>, \<open>SessionClient\<close>, \<open>RealtimeVoice\<close>: the files of
    \<open>apps/web/lib\<close> with these names in lower case. \<open>Delivery\<close> puts the session client, the channel and the
    log together over a network that loses, repeats and reorders; \<open>RealtimeProtocol\<close> is the protocol of
    the voice connection as an automaton over its trace.
  \<^item> \<open>VoiceSession\<close>: the utterances of \<open>apps/web/lib/voice-session.ts\<close> (authorization, the request of model
    speech, cached audio, provider signals, the watchdog, reconnection), each method a function of one record of
    the private fields that also collects the commands sent to the provider, the player and the server.
    \<open>VoiceOutcomes\<close> has its invariant and the outcomes that follow from it; \<open>VoiceTranscript\<close> is the
    assembly and reporting of what the candidate said in the same file. \<open>AudioPcm\<close> is \<open>audio.ts\<close> with the PCM decoders, and
    \<open>TurnPredictor\<close> is \<open>turn-predictor.ts\<close>.
  \<^item> \<open>UtteranceAudio\<close>, \<open>UtteranceCache\<close>: \<open>api/realtime/utterance-audio.ts\<close> and \<open>tts.ts\<close>, the rendering of authorized
    words and the cache of rendered lines with its prewarming.
  \<^item> \<open>Examples\<close>, \<open>SessionExamples\<close>, \<open>VoiceExample\<close>: a small scenario, a small session and a voice session for the witnesses.

  \<^bold>\<open>State and operations.\<close> The private fields of a class are one record; a method is a function from
  the record (and a clock reading) to the new record and its result; an exception is \<open>Inl\<close> of an
  error, a \<open>null\<close> or \<open>undefined\<close> is \<open>None\<close>. A \<open>Map\<close> is a list of pairs in insertion order, because the
  source iterates over it. Instants are milliseconds as reals, \<open>None\<close> where \<open>Date.parse\<close> gives
  \<open>NaN\<close>. An \<open>await\<close> at which another handler can run splits a handler in two (the judge of a turn, the
  observation pass); the entry points of a session are single steps because \<open>dispatchTails\<close> in
  \<open>session/index.ts\<close> serializes its events.

  \<^bold>\<open>Parameters.\<close> The classifier of turns, the tree-sitter parser, the SHA-256 digest, the locale's
  string comparison, the prosody predictor, the runner, the model that grades, the generator of ids
  and the owner of a voice connection are arguments of the model; the only laws assumed are that
  generated ids do not repeat and are not empty.

  \<^bold>\<open>What the lemmas show.\<close> Gate and speech: what may be said, when, and that it is logged and authored
  by the scenario (with budgets, freshness and silence). Runtime: growth, observation, stages,
  checkpoints. Session: numbering, idempotency, redaction, pins, ownership, clocks, the seal and
  the agreement of what is restored with what was live. Resources: the run queue, the provider
  circuit, resumption handles. Reports: scales, citations, redaction, the states of a job, grounded
  grades. Browser: speech boundaries, utterance reports, playback, the delivery of events across a bad
  network, the protocol of the voice connection. Theorems that
  are not numbered state limits of the code that the findings of the development name.

  \<^bold>\<open>Bounds and fuel.\<close> \<open>advanceStages\<close> runs at most \<open>STAGE_ADVANCE_LIMIT = 8\<close> rounds, as in the code; the
  machine moves forward through ten stages, so the limit is never the reason it stops. The matcher
  of \<open>JsRegex\<close> gives a repetition as many rounds as the text has characters, which is enough because
  an empty round ends it.

  \<^bold>\<open>Not modelled.\<close> Speculative classification (a cache in front of the classifier) and the server's
  timing marks; \<open>commitTransition\<close>, which replaces the append of a transition in a process with a
  durable lifecycle; the Postgres stores other than the table of owners; the routes of reports;
  HTTP and web socket plumbing; the devices, the
  capture graph and the minting of credentials in \<open>voice-session.ts\<close>; single-precision rounding of samples (they are reals); remote models, voices and transcription; React components.
\<close>

section \<open>The gate\<close>


definition demo_probe_decision :: gate_decision where
  "demo_probe_decision = (decided ASK_PROBE (ProbeAsked ''p-done'' ''complexity''))\<lparr>probeId := Some ''p-done''\<rparr>"

lemma demo_probe_decided:
  "decideAction (demo_context IMPLEMENTATION (Some (demo_turn THINK_ALOUD ''I think it works''))) (demo_gate True)
     = Inr demo_probe_decision"
  by code_simp


text \<open>
  The gate always answers. If every trigger of the scenario is made of known predicates, no
  context makes the gate throw.
\<close>

theorem gate_total:
  assumes "triggers_known (gd_scenario deps)"
  shows "\<exists>d. decideAction ctx deps = Inr d"
  by (rule decideAction_total [OF assms])

lemma demo_triggers_known: "triggers_known (gd_scenario (demo_gate solved))"
proof -
  have "trigger_known ''solvedOptimally''" by code_simp
  then show ?thesis by (simp add: triggers_known_def demo_gate_def demo_defs)
qed

theorem gate_total_witness: "\<exists>d. decideAction (demo_context FOLLOW_UP None) (demo_gate False) = Inr d"
  by (rule gate_total [OF demo_triggers_known])

text \<open>
  C2: A probe is asked only when it is due: the decision names an authored probe whose trigger holds
  and which has uses left; the interviewer has been quiet and the candidate's hands still for as long
  as the policy demands; and no eligible probe is more relevant.
\<close>

theorem probe_is_due:
  assumes "decideAction ctx deps = Inr d" and "action d = ASK_PROBE"
  shows "\<exists>p\<in>set (probes (gd_scenario deps)). probeId d = Some (probe_id p) \<and>
     count_of (gd_probeUseCounts deps) (probe_id p) < maxUses p \<and>
     evaluateTrigger (probe_trigger p) (triggerCtx ctx deps) = Inr True \<and>
     minSecondsBetweenProbes (policy ctx) \<le> secondsSinceInterviewerLastSpoke ctx \<and>
     interruptQuietSeconds (policy ctx) \<le> secondsSinceCodeActivity ctx \<and>
     (\<forall>q\<in>set (probes (gd_scenario deps)). probe_eligible (triggerCtx ctx deps) q = Inr True \<longrightarrow>
        probeRelevance q (triggerCtx ctx deps) \<le> probeRelevance p (triggerCtx ctx deps))"
proof (rule ask_probe_origin [OF assms])
  fix t p
  assume sel: "selectRelevantProbe (gd_scenario deps) (triggerCtx ctx deps) = Inr (Some p)"
    and "canInterruptNow (policy ctx) (secondsSinceCodeActivity ctx)" and "canProbeNow (triggerCtx ctx deps)"
    and "probeId d = Some (probe_id p)"
  with selectRelevantProbe_eligible [OF sel] selectRelevantProbe_best [OF sel] show ?thesis
    by (intro bexI [of _ p]) (simp_all add: canProbeNow_def canInterruptNow_def)
qed

theorem probe_is_due_witness:
  "\<exists>p\<in>set (probes demo_scenario). probe_id p = ''p-done'' \<and>
     count_of [] (probe_id p) < maxUses p"
  using probe_is_due [OF demo_probe_decided]
  by (auto simp: demo_probe_decision_def demo_gate_def)

text \<open>
  Hints escalate within the budget. A hint is either asked for, or the candidate is stuck beyond
  the threshold with still hands and the hint is at most of the second level. Its level is one above
  every level given so far and within the ceiling of the policy, and the budget is not used up.
\<close>

theorem hint_within_budget:
  assumes "decideAction ctx deps = Inr d" and "action d \<in> {GIVE_HINT_L1, GIVE_HINT_L2}"
  shows "\<exists>t level. turn ctx = Some t \<and> hintLevel d = Some level \<and> action d = hint_action level \<and>
     1 \<le> level \<and> level \<le> maxHintLevel (policy ctx) \<and>
     length (hintsUsed (candidateState ctx)) < hintBudget (policy ctx) \<and>
     (\<forall>used\<in>set (hintsUsed (candidateState ctx)). used < level) \<and>
     (intent t = HINT_REQUEST \<or>
      level \<le> 2 \<and> interruptQuietSeconds (policy ctx) \<le> secondsSinceCodeActivity ctx \<and>
        stallThreshold (policy ctx) < stuck_level ctx)"
proof (rule hint_origin [OF assms])
  fix t level
  assume "turn_taken ctx t" and "hintLevel d = Some level" and "action d = hint_action level"
    and nxt: "nextAllowedHintLevel (policy ctx) (hintsUsed (candidateState ctx)) = Some level"
    and "intent t = HINT_REQUEST \<or> level \<le> 2 \<and> canInterruptNow (policy ctx) (secondsSinceCodeActivity ctx)
           \<and> stallThreshold (policy ctx) < stuck_level ctx"
  with nextAllowedHintLevel_SomeD [OF nxt] show ?thesis
    by (auto simp: turn_taken_def canInterruptNow_def)
qed

lemma demo_hint_decided:
  "decideAction (demo_context IMPLEMENTATION (Some (demo_turn HINT_REQUEST ''a hint please''))) (demo_gate True)
     = Inr ((decided GIVE_HINT_L1 (HintPermitted 1))\<lparr>hintLevel := Some 1\<rparr>)"
  by code_simp

theorem hint_within_budget_witness: "(1::nat) \<le> maxHintLevel (policyFor MOCK) \<and> 0 < hintBudget (policyFor MOCK)"
  using hint_within_budget [OF demo_hint_decided]
  by (auto simp: demo_context_def demo_candidate_def emptyCandidateState_def)

text \<open>
  Words about code are grounded. A decision that cites a revision cites the one the observer
  derived, that one is not behind the editor, and, once there is code, its observation is no older
  than the policy allows when the turn ended.
\<close>

theorem grounded_decision_fresh:
  assumes "decideAction ctx deps = Inr d" and "groundedInRevision d = Some r"
  shows "r = derivedFromRevision (candidateState ctx) \<and> latestCodeRevision ctx \<le> r \<and>
     (latestCodeRevision ctx \<noteq> 0 \<longrightarrow>
        (\<exists>seen said. codeObservedAt (candidateState ctx) = Some (Some seen) \<and>
           Option.bind (turn ctx) endedAt = Some said \<and>
           (said - seen) / 1000 \<le> maxCodeStalenessSeconds (policy ctx)))"
  using grounded_fresh [OF assms] codeFreshnessReason_None by metis

definition demo_stuck :: interview_context where
  "demo_stuck = (demo_context TEST_AND_DEBUG (Some (demo_turn CONFUSION ''no idea'')))
     \<lparr>candidateState := demo_candidate\<lparr>stuckScore := 1\<rparr>\<rparr>"

lemma demo_stuck_decided:
  "decideAction demo_stuck (demo_gate False)
     = Inr ((decided GIVE_HINT_L1 (StuckOverThreshold 1 (7/10)))\<lparr>hintLevel := Some 1, groundedInRevision := Some 3\<rparr>)"
  by code_simp

theorem grounded_decision_fresh_witness: "latestCodeRevision demo_stuck \<le> 3"
  using grounded_decision_fresh [OF demo_stuck_decided] by simp

text \<open>
  Late stages are mute to the brief. In \<open>FOLLOW_UP\<close> and \<open>WRAP_UP\<close>, a candidate who asks to hear
  the problem again gets silence; and while a lost opening waits for its redelivery every finished
  turn does, a question and an eligible follow-up included: the rules for the brief come before all
  others, and the stage does not permit the action they choose.
\<close>

theorem late_stages_mute_to_brief:
  assumes "openingRedeliveryPending deps \<or> isBriefRequest (transcript t) \<and> 0 < briefDeliveryCount deps"
    and "state ctx \<in> {FOLLOW_UP, WRAP_UP}" and "turn ctx = Some t"
  shows "\<exists>d. decideAction ctx deps = Inr d \<and> action d = STAY_SILENT"
proof (cases "finalized t \<and> endOfTurnThreshold (policy ctx) \<le> semanticEndProbability t \<and> \<not> candidateSpeakingNow ctx \<and>
    \<not> (interviewerCurrentlySpeaking ctx \<and> candidateSpeechStarted ctx)")
  case True
  have "\<exists>r. decide_turn ctx deps t = Inr (decided DELIVER_BRIEF r)"
    using assms(1) unfolding decide_turn_def by (cases "openingRedeliveryPending deps"; simp; blast)
  then obtain r where "decide ctx deps = Inr (decided DELIVER_BRIEF r)"
    using True assms(2,3) by (auto simp: decide_def)
  with assms(2) show ?thesis by (auto simp: decideAction_def then_do_def isActionAllowed_def)
next
  case False
  then have "\<exists>r. decide ctx deps = Inr (SILENT r)"
    using assms(2,3) by (auto simp: decide_def)
  then show ?thesis by (auto simp: decideAction_def then_do_def)
qed

lemma demo_brief_request: "isBriefRequest ''can you say that again?''"
  by code_simp

theorem late_stages_mute_to_brief_witness:
  "\<exists>d. decideAction (demo_context FOLLOW_UP (Some (demo_turn EXPLICIT_QUESTION ''can you say that again?'')))
         (demo_gate True) = Inr d \<and> action d = STAY_SILENT"
  by (rule late_stages_mute_to_brief [where t = "demo_turn EXPLICIT_QUESTION ''can you say that again?''"])
     (simp_all add: demo_context_def demo_gate_def demo_turn_def demo_brief_request)

text \<open>
  No mind reading. Under a shipped policy a turn that does not hand over the floor, judged after
  at most the minimal silence of its window, is answered with silence, however sure the classifier is
  that the sentence is complete. Only the undelivered opening is exempt.
\<close>

theorem silence_before_minimum:
  assumes "judge_decide d c base cl (Some s) attempt rt = (rt', Inr v)" and "rd_policy d = policyFor m"
    and "intent base \<notin> {EXPLICIT_QUESTION, CLARIFICATION_REQUEST, HINT_REQUEST}"
    and "0 \<le> s" and "s \<le> w_min (turnEndWindow (policyFor m) (turn_prosody base))"
    and "\<not> (rt_state rt = ORAL_PROBLEM_DELIVERY \<and> rt_briefDeliveryCount rt = 0)"
  shows "action (vd_decision v) = STAY_SILENT"
proof (rule ccontr)
  assume speaks: "action (vd_decision v) \<noteq> STAY_SILENT"
  obtain t completion where fused: "fused_turn d base cl (Some s) = (t, completion)" by fastforce
  then have t: "semanticEndProbability t = tc_endProbability completion"
    and cpl: "completion = estimateTurnCompletion (transcript base) (intent base) (cl_endProbability cl)
                (turn_prosody base) (Some s) (policyFor m)"
    using assms(2) by (auto simp: fused_turn_def Let_def)
  from assms(1) fused speaks have gate:
    "decideAction (buildContext d c rt (Some t)) (gate_deps d rt) = Inr (vd_decision v)"
    by (auto simp: judge_decide_def Let_def split: sum.splits option.splits)
  have "endOfTurnThreshold (policyFor m) \<le> tc_endProbability completion"
    by (cases rule: decide_speaks [OF decideAction_decide(1) [OF gate speaks] speaks])
       (use assms(2,6) in \<open>auto simp: turn_taken_def gate_deps_def buildContext_def t\<close>)
  also have "\<dots> \<le> silenceCeiling (max 0 s) (policyFor m) (turn_prosody base)"
    unfolding cpl by (rule estimate_le_ceiling) (use assms(3) in \<open>simp add: FLOOR_YIELDED_INTENTS_def\<close>)
  also have "\<dots> = HELD_FLOOR_CEILING"
    using assms(4,5) by (intro silenceCeiling_held) simp
  finally show False
    by (cases m) (simp_all add: policyFor_def POLICIES_def HELD_FLOOR_CEILING_def)
qed

definition demo_runtime :: runtime where
  "demo_runtime = (new_runtime (demo_clock 0))\<lparr>rt_state := IMPLEMENTATION, rt_briefDeliveryCount := 1,
     rt_candidate := demo_candidate, rt_latestCodeRevision := 3, latestCode := ''x''\<rparr>"

lemma demo_judged:
  "case judge_decide demo_deps (demo_clock 20000) (demo_turn THINK_ALOUD ''It is linear.'')
       (demo_classify [] True) (Some 1000) 0 demo_runtime of (rt', Inr v) \<Rightarrow> True | _ \<Rightarrow> False"
  by code_simp

theorem silence_before_minimum_witness:
  "\<exists>v. snd (judge_decide demo_deps (demo_clock 20000) (demo_turn THINK_ALOUD ''It is linear.'')
       (demo_classify [] True) (Some 1000) 0 demo_runtime) = Inr v \<and> action (vd_decision v) = STAY_SILENT"
proof -
  obtain rt' v where j: "judge_decide demo_deps (demo_clock 20000) (demo_turn THINK_ALOUD ''It is linear.'')
      (demo_classify [] True) (Some 1000) 0 demo_runtime = (rt', Inr v)"
    using demo_judged by (auto split: prod.splits sum.splits)
  have "action (vd_decision v) = STAY_SILENT"
    by (rule silence_before_minimum [OF j, of MOCK])
       (simp_all add: demo_deps_def demo_turn_def demo_runtime_def policyFor_def POLICIES_def)
  with j show ?thesis by simp
qed

section \<open>The session runtime\<close>


definition demo_started :: runtime where
  "demo_started = fst (ingest demo_deps (demo_clock 0) (demo_clock 1) (demo_clock 2)
     (demo_event SESSION_STARTED 0 []) (new_runtime (demo_clock 0)))"

lemma demo_started_reached: "runtime_reach demo_deps (new_runtime (demo_clock 0)) demo_started"
  unfolding demo_started_def by (rule runtime_reach.step [OF runtime_reach.start runtime_step.ingest])

definition demo_opened :: runtime where
  "demo_opened = fst (openInterview demo_deps (demo_clock 1) (demo_clock 2) (new_runtime (demo_clock 0)))"

lemma demo_opened_speaks:
  "(case authorized demo_opened of Some a \<Rightarrow> au_text a = ''Find the pair.'' \<and> action (au_decision a) = DELIVER_BRIEF
     | None \<Rightarrow> False) \<and> rt_briefDeliveryCount demo_opened = 1"
  "case openInterview demo_deps (demo_clock 1) (demo_clock 2) (new_runtime (demo_clock 0)) of
     (_, Inr res) \<Rightarrow> True | _ \<Rightarrow> False"
  by code_simp+

lemma demo_started_opened:
  "demo_started = persistCheckpoint (''event:'' @ show_nat 0) (Some 0) (fst (advanceStages demo_deps (demo_clock 2) demo_opened))"
proof -
  obtain rt' where "advanceStages demo_deps (demo_clock 2) demo_opened = (rt', Inr ())" by (rule advanceStages_refines)
  with demo_opened_speaks(2) show ?thesis
    by (auto simp: demo_started_def ingest_def applyCommitted_def demo_event_def demo_opened_def
        split: prod.splits sum.splits)
qed

lemma demo_started_speaks:
  "(case authorized demo_started of Some a \<Rightarrow> au_text a = ''Find the pair.'' \<and> action (au_decision a) = DELIVER_BRIEF
     | None \<Rightarrow> False) \<and> rt_briefDeliveryCount demo_started = 1"
proof -
  obtain rt' r where a: "advance_loop STAGE_ADVANCE_LIMIT demo_deps (demo_clock 2) demo_opened = (rt', r)" by fastforce
  with advance_loop_same [OF a] demo_opened_speaks(1) show ?thesis
    by (simp add: demo_started_opened advanceStages_def persistCheckpoint_def)
qed








text \<open>
  C6: Nothing is taken back. Along every run the log of appended events is only extended, the stage
  never moves back, the code revision never falls, no milestone is lost and the count of deliveries
  of the brief never falls.
\<close>

theorem runtime_only_grows:
  assumes "runtime_reach d start rt"
  shows "prefix (outbox start) (outbox rt) \<and> rt_state start \<le> rt_state rt \<and>
     rt_latestCodeRevision start \<le> rt_latestCodeRevision rt \<and>
     set (reached (rt_milestones start)) \<subseteq> set (reached (rt_milestones rt)) \<and>
     rt_briefDeliveryCount start \<le> rt_briefDeliveryCount rt"
  using growth.grown_by_closure [OF reach_rtranclp [OF assms]] by (simp add: extends_def)

theorem runtime_only_grows_witness:
  "rt_latestCodeRevision (new_runtime (demo_clock 0)) \<le> rt_latestCodeRevision demo_started"
  using runtime_only_grows [OF demo_started_reached] by simp

text \<open>
  A held turn is judged again late enough. Under a shipped policy, if a turn is held after
  \<open>s\<close> milliseconds of silence and the timer runs for \<open>w\<close>, the ceiling that the silence puts on its
  end probability has reached the threshold of the gate when the timer fires.
\<close>

theorem held_turn_waits_long_enough:
  assumes "heldTurn (holdForSilence d t cl completion (Some s) attempt rt) = Some h" and "heldTurn rt = None"
    and "reevaluationTimer (holdForSilence d t cl completion (Some s) attempt rt) = Some w"
    and "rd_policy d = policyFor m"
  shows "endOfTurnThreshold (policyFor m) \<le> silenceCeiling (s + w) (policyFor m) (turn_prosody t)"
proof -
  have "HELD_FLOOR_CEILING < endOfTurnThreshold (policyFor m)"
    by (cases m) (simp_all add: policyFor_def POLICIES_def HELD_FLOOR_CEILING_def)
  with hold_waits_enough [OF assms(1-3)] policyFor_window_strict [of m "turn_prosody t"] assms(4) show ?thesis
    by simp
qed

definition demo_held :: runtime where
  "demo_held = holdForSilence demo_deps (demo_turn THINK_ALOUD ''It is linear.'') (demo_classify [] True)
     (estimateTurnCompletion ''It is linear.'' THINK_ALOUD 1 None (Some 1000) (policyFor MOCK)) (Some 1000) 0 demo_runtime"

lemma demo_held_timer: "reevaluationTimer demo_held = Some (1425) \<and> heldTurn demo_held \<noteq> None"
  by code_simp

theorem held_turn_waits_long_enough_witness:
  "\<exists>w. reevaluationTimer demo_held = Some w \<and> endOfTurnThreshold (policyFor MOCK) \<le> silenceCeiling (1000 + w) (policyFor MOCK) None"
proof -
  obtain w h where w: "reevaluationTimer demo_held = Some w" and h: "heldTurn demo_held = Some h"
    using demo_held_timer by auto
  have "heldTurn demo_runtime = None" by (simp add: demo_runtime_def new_runtime_def)
  from held_turn_waits_long_enough [OF h [unfolded demo_held_def] this w [unfolded demo_held_def], of MOCK] w
  show ?thesis by (simp add: demo_deps_def demo_turn_def)
qed

text \<open>
  An observation pass catches up with the editor, unless the editor was emptied: then no
  snapshot is built and the derived state stays at the revision it had.
\<close>

theorem observation_catches_up:
  "derivedFromRevision (rt_candidate (fst (observation_pass d c rt))) =
     (if latestCode rt \<noteq> [] then rt_latestCodeRevision rt else derivedFromRevision (rt_candidate rt))"
  by (rule observation_pass_derived)

section \<open>The event log\<close>



text \<open>
  Blind retry is safe. Once a sequence of requests was accepted, sending any of their keys again, in
  any order, any number of times and whatever payload they carry by then, is accepted too and leaves
  the log as it is.
\<close>

theorem retries_change_nothing:
  assumes "append_requests h rs l = Some m" and "request_key ` set qs \<subseteq> request_key ` set rs"
  shows "append_requests h qs m = Some m"
  using assms by (rule retries_accepted)

theorem retries_change_nothing_witness:
  "append_requests demo_hash [(Some 5, demo_request 7 ''a''), (Some 6, demo_request 0 ''a'')] demo_log = Some demo_log"
proof (rule retries_change_nothing)
  show "append_requests demo_hash [(Some 2, demo_request 0 ''a'')] empty_log = Some demo_log"
    using demo_appended by (simp add: try_append_def)
qed (simp add: request_key_def)

text \<open>
  C8: A deleted session stays deleted. In every log reached from the empty one, each event of a redacted
  session is marked as redacted and keeps none of the identifying fields, no further event is
  accepted for it, and no idempotency key of it is answered any more.
\<close>

theorem redacted_sessions_stay_clean:
  assumes "(log_step h)\<^sup>*\<^sup>* empty_log l" and "s \<in> set (el_redacted l)"
  shows "(\<forall>e\<in>set (session_events l s). redacted_payload (payload e)) \<and>
    (\<forall>now r. rq_session r = s \<longrightarrow> append_log h now r l = Inl (JsError ''SESSION_DELETED''))"
proof -
  have "tombstones_clean empty_log" by (simp add: tombstones_clean_def empty_log_def)
  with assms(1) have "tombstones_clean l" by (rule tombstones.kept_by_closure)
  then show ?thesis using assms(2) by (auto simp: tombstones_clean_def append_log_def)
qed

theorem redacted_sessions_stay_clean_witness:
  "append_log demo_hash (Some 9) (demo_request 1 ''b'') (fst (redact_log ''s'' demo_log)) =
     Inl (JsError ''SESSION_DELETED'')"
proof -
  have "(log_step demo_hash)\<^sup>*\<^sup>* empty_log (fst (redact_log ''s'' demo_log))"
    by (rule rtranclp.rtrancl_into_rtrancl [OF r_into_rtranclp [of "log_step demo_hash", OF demo_log_step]])
      (rule log_step.redact)
  moreover have "''s'' \<in> set (el_redacted (fst (redact_log ''s'' demo_log)))" by (simp add: redact_log_tombstone)
  ultimately have "\<forall>now r. rq_session r = ''s'' \<longrightarrow>
      append_log demo_hash now r (fst (redact_log ''s'' demo_log)) = Inl (JsError ''SESSION_DELETED'')"
    using redacted_sessions_stay_clean by blast
  then show ?thesis by simp
qed

text \<open>
  The redaction knows the fields of speech and code, not those of the candidate state: an event that
  records the candidate's approach in the candidate's own words keeps them.
\<close>

theorem redaction_keeps_quotes:
  assumes "etype e = CANDIDATE_STATE_UPDATED" and "get_key (payload e) ''currentApproach'' = Some v"
  shows "get_key (payload (redactionFor e)) ''currentApproach'' = Some v"
  using assms by (simp add: redactionFor_def FULLY_REDACTED_def redactEvent_payload IDENTIFYING_FIELDS_def)

text \<open>The index by browser number is not part of the redaction: it keeps the original events.\<close>

theorem redaction_keeps_client_index: "el_clientSeqs (fst (redact_log s l)) = el_clientSeqs l"
  by (simp add: redact_log_def Let_def split: option.split)

section \<open>The channel of the browser\<close>

text \<open>
  The log has no hole in the browser's numbers. For browsers whose keys each stand for one number,
  whatever frames arrive (valid or not, repeated, out of order, after a reconnect) and whatever the
  server appends in between, the numbers of a session in the log are 0, 1, 2, ... in this order, and
  the counter of the channel is the last of them.
\<close>

theorem client_numbers_have_no_gap:
  assumes "(channel_step hc h)\<^sup>*\<^sup>* (empty_log, []) (l, ch)"
  shows "client_numbers l s = map int [0..<length (client_numbers l s)] \<and>
    (\<forall>n. get_key ch s = Some n \<longrightarrow> n = latestClientSeq l s)"
  using channel_kept.kept_by_closure [OF assms channel_inv_empty] by (simp add: channel_inv_def numbers_upto_def)

definition demo_honesty :: honesty where
  "demo_honesty = \<lparr>own_key = (\<lambda>_ k. k = ''a''), number_of = (\<lambda>_ _. 0)\<rparr>"

theorem client_numbers_have_no_gap_witness:
  "client_numbers demo_log ''s'' = [0] \<and> latestClientSeq demo_log ''s'' = 0"
proof -
  have "channel_step demo_honesty demo_hash (empty_log, []) (demo_log, [(''s'', 0)])"
    by (rule channel_step.client [OF _ demo_handled]) (simp add: honest_def demo_honesty_def demo_client_event_def)
  from client_numbers_have_no_gap [OF r_into_rtranclp [of "channel_step demo_honesty demo_hash", OF this], of "''s''"]
  have *: "client_numbers demo_log ''s'' = map int [0..<length (client_numbers demo_log ''s'')]"
    "0 = latestClientSeq demo_log ''s''" by simp_all
  then show ?thesis by (simp add: demo_numbers)
qed

text \<open>
  Without that honesty the guarantee is lost: a frame that repeats a stored key under the next number is
  acknowledged and moves the counter, though the log stores no such number, and the frame after it
  leaves a hole.
\<close>

theorem repeated_key_moves_counter:
  assumes "store_get st (ce_sessionId e) = Some s" and "is_endedAt s = None" and "client_event_ok e"
    and "watermark ch l (ce_sessionId e) + 1 = ce_clientSeq e" and "ce_sessionId e \<notin> set (el_redacted l)"
    and "stored_event l (ce_sessionId e, ce_key e) = Some ev"
  shows "\<exists>ch' res. handleClientEvent h now (Some e) st l ch = Inr (l, ch', res) \<and>
    get_key ch' (ce_sessionId e) = Some (ce_clientSeq e) \<and> hr_messages res = [ACK (ce_clientSeq e) (seq ev)]"
  using assms
  by (simp add: handleClientEvent_def append_client_def append_log_def stored_event_def log_request_of_def Let_def)

section \<open>Sessions, clocks and owners\<close>

text \<open>
  A session keeps its pins. Along any run of the store from a well-formed one, a stored session
  stays stored and keeps its id, user, scenario version and hash, mode, policy, language, tone, trace
  and length; its start never moves, its pauses only grow, an ended session never changes again; and
  a create with a known key answers with the session of that key.
\<close>

theorem sessions_keep_their_pins:
  assumes "store_step\<^sup>*\<^sup>* a b" and "store_wf a" and "get_key (ss_sessions a) sid = Some s"
  shows "\<exists>t. get_key (ss_sessions b) sid = Some t \<and> session_pins t = session_pins s \<and>
      is_pausedSeconds s \<le> is_pausedSeconds t \<and> (is_startedAt s \<noteq> None \<longrightarrow> is_startedAt t = is_startedAt s) \<and>
      (is_endedAt s \<noteq> None \<longrightarrow> t = s) \<and> session_ok (ss_scenarios b) sid t \<and>
      get_key (ss_scenarios b) sid = get_key (ss_scenarios a) sid"
proof -
  have "store_le a b" using assms(1,2) by (rule store_run_le)
  then obtain t where t: "get_key (ss_sessions b) sid = Some t" "session_le s t"
      "get_key (ss_scenarios b) sid = get_key (ss_scenarios a) sid"
    using assms(3) unfolding store_le_def by blast
  have "store_wf b" using store_kept.kept_by_closure [OF assms(1,2)] .
  from store_wfD [OF this t(1)] t show ?thesis unfolding session_le_def by auto
qed

theorem sessions_keep_their_pins_witness:
  "\<exists>t. get_key (ss_sessions (put_session demo_store ''s'' (demo_session\<lparr>is_pausedSeconds := 5\<rparr>))) ''s'' = Some t \<and>
     session_pins t = session_pins demo_session"
proof -
  have wf: "store_wf demo_store" using store_step_wf [OF demo_store_step store_wf_empty] .
  have g: "get_key (ss_sessions demo_store) ''s'' = Some demo_session" by (simp add: demo_store_def)
  have "addPause ''s'' 5 demo_store =
      Inr (put_session demo_store ''s'' (demo_session\<lparr>is_pausedSeconds := 5\<rparr>), demo_session\<lparr>is_pausedSeconds := 5\<rparr>)"
    by (simp add: addPause_def MAX_PAUSE_def require_def store_get_def deleted_def g Let_def)
      (simp add: demo_store_def demo_session_def new_session_def)
  then have "store_step demo_store (put_session demo_store ''s'' (demo_session\<lparr>is_pausedSeconds := 5\<rparr>))"
    by (rule store_step.pause)
  from sessions_keep_their_pins [OF r_into_rtranclp [of store_step, OF this] wf g] show ?thesis by blast
qed

section \<open>The end of a turn\<close>

text \<open>
  The wait for silence is exact. Under a shipped policy there is a silence after which a turn
  passes the threshold of the gate, \<open>silenceRequiredFor\<close> returns it, and it is the least one.
\<close>

theorem required_silence_is_least:
  "\<exists>required. silenceRequiredFor (endOfTurnThreshold (policyFor m)) (policyFor m) ps = Some required \<and>
     (\<forall>s. endOfTurnThreshold (policyFor m) \<le> silenceCeiling s (policyFor m) ps \<longleftrightarrow> required \<le> s)"
proof -
  have th: "HELD_FLOOR_CEILING < endOfTurnThreshold (policyFor m)" "endOfTurnThreshold (policyFor m) \<le> 1"
    by (cases m; simp add: policyFor_def POLICIES_def HELD_FLOOR_CEILING_def)+
  then obtain required where r: "silenceRequiredFor (endOfTurnThreshold (policyFor m)) (policyFor m) ps = Some required"
    by (cases "silenceRequiredFor (endOfTurnThreshold (policyFor m)) (policyFor m) ps")
       (auto simp: silenceRequiredFor_def Let_def split: if_splits)
  note least = silenceRequired_least [OF policyFor_window_strict th r]
  note exact = silenceRequired_exact [OF policyFor_window_strict th r]
  have "endOfTurnThreshold (policyFor m) \<le> silenceCeiling s (policyFor m) ps \<longleftrightarrow> required \<le> s" for s
    using least [of s] exact silenceCeiling_mono [of required s "policyFor m" ps] by linarith
  with r show ?thesis by blast
qed

text \<open>
  The estimate of a turn is a probability, never above what the words alone give, never falls
  with more silence, and stays at the ceiling of an unfinished sentence while the words trail off.
\<close>

theorem turn_estimate_bounds:
  "0 \<le> tc_endProbability (estimateTurnCompletion words i e ps s p) \<and>
   tc_endProbability (estimateTurnCompletion words i e ps s p) \<le> clamp01 e \<and>
   (endsMidThought words \<longrightarrow> tc_endProbability (estimateTurnCompletion words i e ps s p) \<le> MID_THOUGHT_CEILING) \<and>
   (ms \<le> ms' \<longrightarrow> tc_endProbability (estimateTurnCompletion words i e ps (Some ms) p)
     \<le> tc_endProbability (estimateTurnCompletion words i e ps (Some ms') p))"
  using estimate_range estimate_le_text estimate_mid_thought by (auto intro: estimate_mono_silence)

lemma demo_trails_off: "endsMidThought ''we could sort it and''"
  by code_simp

theorem turn_estimate_bounds_witness:
  "tc_endProbability (estimateTurnCompletion ''we could sort it and'' THINK_ALOUD 1 None (Some 9000) (policyFor STRICT))
     \<le> MID_THOUGHT_CEILING"
  using turn_estimate_bounds [of "''we could sort it and''"] demo_trails_off by blast

section \<open>Stages\<close>

text \<open>
  C9: The stages settle, and every move is on record. \<open>advanceStages\<close> returns, carries out the
  abstract advance of the stage signals until no rule applies (its eight rounds are enough), and
  appends one \<open>STATE_TRANSITIONED\<close> per move, each an edge of the table of transitions, in a chain
  from the old stage to the new one.
\<close>

theorem stages_settle_on_record:
  "\<exists>rt' moves. advanceStages d c rt = (rt', Inr ()) \<and>
     stageSignals d c rt' = settle_stages (stageSignals d c rt) \<and>
     nextStage (stageSignals d c rt') = None \<and>
     outbox rt' = outbox rt @ moves \<and> transitions_recorded (rt_state rt) moves (rt_state rt')"
proof -
  obtain rt' where a: "advanceStages d c rt = (rt', Inr ())"
    and s: "stageSignals d c rt' = settle_stages (stageSignals d c rt)" by (rule advanceStages_refines)
  from a advance_loop_recorded [of STAGE_ADVANCE_LIMIT d c rt] obtain moves where
    "outbox rt' = outbox rt @ moves" "transitions_recorded (rt_state rt) moves (rt_state rt')"
    by (auto simp: advanceStages_def)
  with a s show ?thesis by (simp add: settle_stages_fixpoint)
qed

text \<open>
  Time pressure wins. Once the brief was delivered and the remaining time is down to the
  wrap-up window of the policy, the next round of advances takes any stage before the evaluation to
  \<open>WRAP_UP\<close>.
\<close>

theorem time_pressure_wraps_up:
  assumes "0 < rt_briefDeliveryCount rt" and "session_seconds c \<le> wrapUpSeconds (rd_policy d)"
    and "rt_state rt \<noteq> EVALUATION"
  shows "rt_state (fst (advanceStages d c rt)) = WRAP_UP"
proof -
  obtain rt' where a: "advanceStages d c rt = (rt', Inr ())"
    and s: "stageSignals d c rt' = settle_stages (stageSignals d c rt)" by (rule advanceStages_refines)
  have "sg_state (settle_stages (stageSignals d c rt)) = WRAP_UP"
    by (rule settle_stages_time_pressure) (use assms in \<open>simp_all add: stageSignals_def\<close>)
  with a s [symmetric] show ?thesis by simp
qed

theorem time_pressure_wraps_up_witness:
  "rt_state (fst (advanceStages demo_deps (demo_clock 2390000) demo_runtime)) = WRAP_UP"
  by (rule time_pressure_wraps_up)
     (simp_all add: demo_runtime_def demo_deps_def demo_clock_def session_seconds_def math_round_def
        policyFor_def POLICIES_def)

text \<open>
  The state machine refuses exactly the unlisted moves: an event is an error only if it asks for
  a transition without a target or to a stage that is not a successor in the table; otherwise the
  machine stays, moves along the table, or ends the session in the evaluation, never backwards.
\<close>

theorem state_machine_is_strict:
  "(\<exists>e. applyEvent s ev r = Inl e) = (ev = STATE_TRANSITIONED \<and> (case r of None \<Rightarrow> True | Some t \<Rightarrow> \<not> isTransitionAllowed s t)) \<and>
   (\<forall>res. applyEvent s ev r = Inr res \<longrightarrow> s \<le> sm_state res \<and> allowedActions res = ALLOWED_ACTIONS (sm_state res) \<and>
      (sm_state res = s \<or> sm_state res = EVALUATION \<or> isTransitionAllowed s (sm_state res)))"
  by (intro conjI allI impI applyEvent_error_iff)
     (simp_all add: applyEvent_forward applyEvent_actions applyEvent_state)

theorem state_machine_is_strict_witness:
  "\<not> isTransitionAllowed IMPLEMENTATION WRAP_UP \<and> (\<exists>e. applyEvent IMPLEMENTATION STATE_TRANSITIONED (Some WRAP_UP) = Inl e)"
  using state_machine_is_strict [of IMPLEMENTATION STATE_TRANSITIONED "Some WRAP_UP"]
  by (simp add: isTransitionAllowed_def)

text \<open>
  C10: The planner of stage transitions never throws, plans only chains along the table from the
  current stage, and when the candidate starts to code after the brief the chain ends in the
  implementation or later.
\<close>

theorem planned_transitions_legal:
  "\<exists>ps. planStageTransitions inp = Inr ps \<and> legal_chain (in_state inp) ps \<and>
     (stage_driver_input.signal inp = CODE_STARTED \<and> briefDelivered inp \<longrightarrow> IMPLEMENTATION \<le> chain_end (in_state inp) ps)"
  using planStageTransitions_total [of inp] planStageTransitions_chain [of inp] code_started_lands [of inp] by blast

theorem planned_transitions_legal_witness:
  "\<exists>ps. planStageTransitions \<lparr>in_state = CLARIFICATION, stage_driver_input.signal = CODE_STARTED, briefDelivered = True,
        in_solvedOptimally = False, followUpAvailable = True, in_remainingSeconds = 900\<rparr> = Inr ps \<and>
     IMPLEMENTATION \<le> chain_end CLARIFICATION ps"
  using planned_transitions_legal [of "\<lparr>in_state = CLARIFICATION, stage_driver_input.signal = CODE_STARTED, briefDelivered = True,
        in_solvedOptimally = False, followUpAvailable = True, in_remainingSeconds = 900\<rparr>"] by auto

section \<open>Recovery\<close>

text \<open>
  C11: A restart loses nothing durable. A complete log that ends with the checkpoint of a well-formed
  runtime restores exactly the durable part of that runtime; only what lives with the connection (the
  open utterance, held turns and timers, queues) is forgotten.
\<close>

theorem restart_restores_checkpoint:
  assumes "history_error d 0 (evs @ [cp]) = None" and "etype cp = RUNTIME_CHECKPOINT"
    and "payload cp = checkpoint src" and "persistable src"
  shows "restore d (evs @ [cp]) rt = Inr (forget_live (durable_part d src rt))"
  by (rule restore_from_checkpoint [OF assms])

lemma demo_persistable: "persistable demo_runtime"
proof -
  have "\<exists>n. (3::real) = real n" by (rule exI [of _ 3]) simp
  then show ?thesis
    by (simp add: persistable_def candidate_ok_def demo_runtime_def new_runtime_def demo_candidate_def
        emptyCandidateState_def demo_clock_def)
qed

theorem restart_restores_checkpoint_witness:
  "restore demo_deps ([] @ [demo_event RUNTIME_CHECKPOINT 0 (checkpoint demo_runtime)]) (new_runtime (demo_clock 5))
     = Inr (forget_live (durable_part demo_deps demo_runtime (new_runtime (demo_clock 5))))"
  by (rule restart_restores_checkpoint) (simp_all add: demo_event_def demo_deps_def demo_persistable)

text \<open>
  One fractional revision makes a session unrecoverable. \<open>ingest\<close> accepts a \<open>CODE_DELTA\<close> whose
  revision is any number not below the latest one, and every checkpoint taken of a runtime with a
  revision that is not a natural number is refused by the schema when the session is restored.
\<close>

theorem fractional_revision_poisons_checkpoint:
  assumes "etype ev = CODE_DELTA" and "field (payload ev) ''revision'' = Some (JNum r)"
    and "field (payload ev) ''text'' = Some (JStr code)" and "rt_latestCodeRevision rt \<le> r" and "\<forall>n. r \<noteq> real n"
  shows "snd (ingest d c c1 c2 ev rt) = Inr no_result \<and>
     hydrateCheckpoint d (checkpoint (fst (ingest d c c1 c2 ev rt))) fresh = Inl (JsError ''INVALID_RUNTIME_CHECKPOINT'')"
proof -
  define rt1 where "rt1 = apply_code_delta c ev rt"
  have rev1: "rt_latestCodeRevision rt1 = r"
    using assms(2-4) by (simp add: rt1_def apply_code_delta_def numberOf_def stringOf_def scheduleObservation_def)
  obtain rt2 where adv: "advanceStages d c2 rt1 = (rt2, Inr ())" by (rule advanceStages_refines)
  then have rev2: "rt_latestCodeRevision rt2 = r"
    using advance_loop_same [of STAGE_ADVANCE_LIMIT d c2 rt1] rev1 by (simp add: advanceStages_def)
  have "ingest d c c1 c2 ev rt = (persistCheckpoint (''event:'' @ show_nat (seq ev)) (Some (seq ev)) rt2, Inr no_result)"
    using assms(1) adv by (simp add: ingest_def applyCommitted_def rt1_def)
  with checkpoint_bad_revision [of "persistCheckpoint (''event:'' @ show_nat (seq ev)) (Some (seq ev)) rt2" d fresh] rev2 assms(5)
  show ?thesis by (simp add: persistCheckpoint_def)
qed

lemma seven_halves: "(7/2::real) \<noteq> real n"
proof
  assume "(7/2::real) = real n"
  then have "real 7 = real (2 * n)" by simp
  then have "7 = 2 * n" by (simp only: of_nat_eq_iff)
  then show False by arith
qed

theorem fractional_revision_poisons_checkpoint_witness:
  "hydrateCheckpoint demo_deps (checkpoint (fst (ingest demo_deps (demo_clock 1) (demo_clock 1) (demo_clock 1)
       (demo_event CODE_DELTA 4 [(''revision'', JNum (7/2)), (''text'', JStr ''x'')]) demo_runtime))) (new_runtime (demo_clock 2))
     = Inl (JsError ''INVALID_RUNTIME_CHECKPOINT'')"
  by (rule conjunct2, rule fractional_revision_poisons_checkpoint [where r = "7/2" and code = "''x''"])
     (use seven_halves in \<open>simp_all add: demo_event_def field_def demo_runtime_def\<close>)

text \<open>
  C12: What a reconnecting browser is given is what the interviewer sees. If the log of a session holds
  the code events a live runtime ingested, in their order, then the code and the revision that the
  resumption reads back from the log are those of the runtime, whatever else either side did in
  between: other events, timers, speech, observations.
\<close>

theorem resumed_code_is_live_code:
  assumes "reconstruct l sid fallback = Some r" and "live_run d (new_runtime c) evs rt"
    and "filter (\<lambda>ev. etype ev = CODE_DELTA) (session_events l sid) = filter (\<lambda>ev. etype ev = CODE_DELTA) evs"
  shows "rs_code r = latestCode rt \<and> rs_codeRevision r = rt_latestCodeRevision rt"
  using resume_is_live [OF assms] by blast

theorem resumed_code_is_live_code_witness:
  "\<exists>r. reconstruct demo_log ''s'' CLARIFICATION = Some r \<and>
     rs_code r = latestCode (fst (ingest demo_deps (demo_clock 0) (demo_clock 1) (demo_clock 2) demo_stored
                               (new_runtime (demo_clock 0))))"
proof -
  let ?rt = "fst (ingest demo_deps (demo_clock 0) (demo_clock 1) (demo_clock 2) demo_stored (new_runtime (demo_clock 0)))"
  obtain r where r: "reconstruct demo_log ''s'' CLARIFICATION = Some r"
    by (simp add: reconstruct_def read_log_def demo_events Let_def)
  have run: "live_run demo_deps (new_runtime (demo_clock 0)) ([] @ [demo_stored]) ?rt"
    by (rule live_run.ingest) (rule live_run.start)
  from resumed_code_is_live_code [OF r run] show ?thesis using r by (simp add: demo_events)
qed


definition demo_life :: life where
  "demo_life = \<lparr>lc_store = demo_store, lc_log = demo_log, lc_reports = []\<rparr>"


section \<open>Authored content\<close>

definition typo_scenario :: scenario_version where
  "typo_scenario = demo_scenario\<lparr>probes := [demo_probe\<lparr>probe_trigger := ''solvedOptimally && mileston(LARGE_REWRITE)''\<rparr>]\<rparr>"

text \<open>
  Validation on one sample is not enough. \<open>validateScenarioTriggers\<close> accepts a scenario whose
  trigger misspells a predicate behind a term that is false in the sample, since the conjunction
  stops there; in the live interview the same scenario makes the gate throw as soon as that term holds.
\<close>

theorem validation_misses_typo:
  "validateScenarioTriggers typo_scenario (triggerCtx (demo_context IMPLEMENTATION None) (demo_gate False)) = [] \<and>
   decideAction (demo_context IMPLEMENTATION (Some (demo_turn THINK_ALOUD ''I think it works'')))
     ((demo_gate True)\<lparr>gd_scenario := typo_scenario\<rparr>) = Inl (UnknownPredicate ''mileston(LARGE_REWRITE)'')"
proof
  show "validateScenarioTriggers typo_scenario (triggerCtx (demo_context IMPLEMENTATION None) (demo_gate False)) = []"
    by code_simp
  show "decideAction (demo_context IMPLEMENTATION (Some (demo_turn THINK_ALOUD ''I think it works'')))
     ((demo_gate True)\<lparr>gd_scenario := typo_scenario\<rparr>) = Inl (UnknownPredicate ''mileston(LARGE_REWRITE)'')"
    by code_simp
qed

text \<open>
  A clarification discloses authored facts only. The answer is the value of a fact of the
  scenario, one marked \<open>AFTER_PROBE\<close> only once a probe was delivered; and when a fact matches but
  is refused, it is because of that mark.
\<close>

theorem clarification_discloses_authored:
  "(case getClarificationFact sc words delivered of
      Answerable k v \<Rightarrow> \<exists>f\<in>set (facts sc). fact_key f = k \<and> fact_value f = v \<and> (disclosure f = AFTER_PROBE \<longrightarrow> delivered \<noteq> [])
    | NotAnswerable r \<Rightarrow> matchFactKey sc words = None \<or> r = NOT_YET_DISCLOSABLE \<and> delivered = [])"
  using getClarificationFact_authored [of sc words delivered] getClarificationFact_refused [of sc words delivered]
  by (auto split: clarification_result.split)

lemma demo_clarified:
  "getClarificationFact demo_scenario ''is the input sorted?'' [''p-done''] = Answerable ''sorted'' ''It is not sorted.''"
  by code_simp

theorem clarification_discloses_authored_witness:
  "\<exists>f\<in>set (facts demo_scenario). fact_key f = ''sorted'' \<and> fact_value f = ''It is not sorted.''"
  using clarification_discloses_authored
    [where sc = demo_scenario and words = "''is the input sorted?''" and delivered = "[''p-done'']"]
  by (auto simp: demo_clarified)

section \<open>The observer\<close>

text \<open>
  The milestone of the repeated failure counts the streak. After any sequence of runs the
  counter is the number of last runs that failed with one and the same fingerprint, and a further
  run emits \<open>REPEATED_SAME_FAILURE\<close> exactly when that streak is three or longer with it.
\<close>

theorem repeated_failure_is_streak:
  "consecutiveIdenticalFailures (fold_runs rs emptyMilestoneState) = streak (rev rs) \<and>
   (REPEATED_SAME_FAILURE \<in> set (snd (applyRunResult (fold_runs rs emptyMilestoneState) r)) \<longleftrightarrow> 3 \<le> streak (r # rev rs))"
proof -
  have folded: "fold_runs (rs @ [r]) emptyMilestoneState = fst (applyRunResult (fold_runs rs emptyMilestoneState) r)"
    by (simp add: fold_runs_def)
  have count: "consecutiveIdenticalFailures (fst (applyRunResult (fold_runs rs emptyMilestoneState) r)) = streak (r # rev rs)"
    using fold_runs_streak [of "rs @ [r]"] unfolding folded by simp
  have "REPEATED_SAME_FAILURE \<in> set (snd (applyRunResult (fold_runs rs emptyMilestoneState) r)) \<longleftrightarrow> 3 \<le> streak (r # rev rs)"
  proof (cases "run_passed r")
    case True
    then show ?thesis by (auto simp: applyRunResult_def Let_def)
  next
    case False
    with applyRunResult_failed [OF False] count show ?thesis by metis
  qed
  with fold_runs_streak [of rs] show ?thesis by simp
qed

text \<open>
  Two failures count as the same exactly when the status, the exit code and the first line of
  the error output agree, up to surrounding blanks.
\<close>

theorem fingerprint_identifies_failure:
  "failureFingerprint r = failureFingerprint q \<longleftrightarrow>
     run_status r = run_status q \<and> exitCode r = exitCode q \<and>
     trim (firstStderrLine (stderr r)) = trim (firstStderrLine (stderr q))"
  by (rule failureFingerprint_eq_iff)

text \<open>
  The changed regions of a snapshot are exact: they cover the line numbers at which the old and
  the new code differ and no other, adjacent changes are one region, and the churn is the share of
  those lines, zero only for identical code.
\<close>

theorem changed_regions_exact:
  "covered (changedRegions (lineStats code (Some old))) =
      {i. i < max (length (split_char (CHR 0x0A) code)) (length (split_char (CHR 0x0A) old)) \<and>
          nth_opt (split_char (CHR 0x0A) code) i \<noteq> nth_opt (split_char (CHR 0x0A) old) i} \<and>
   apart (changedRegions (lineStats code (Some old))) \<and>
   0 \<le> churn (lineStats code (Some old)) \<and> churn (lineStats code (Some old)) \<le> 1 \<and>
   (churn (lineStats code (Some old)) = 0) = (code = old)"
  using lineStats_regions(1,2) [of code old] churn_range [of code "Some old"] churn_zero_iff [of code old]
  by (simp add: differs_def)

text \<open>
  The summary of a function counts the loops of its body: \<open>loopCount\<close> is their number and
  \<open>maxLoopDepth\<close> the deepest nesting, whatever else the syntax tree holds.
\<close>

theorem loop_summary_exact:
  assumes "childForFieldName node ''body'' = Some body"
  shows "loopCount (summarizeFunction node) = loops body \<and> maxLoopDepth (summarizeFunction node) = nesting body \<and>
     nesting body \<le> loops body"
  using summarizeFunction_loops [OF assms] nesting_le_loops by simp

definition demo_loop :: "ts_node list \<Rightarrow> ts_node" where
  "demo_loop inner = TsNode ''for_statement'' [] 1 2 False (map (TsChild None True) inner)"

definition demo_function :: ts_node where
  "demo_function = TsNode ''function_definition'' [] 0 3 False
     [TsChild (Some ''body'') True (TsNode ''block'' [] 1 3 False
        [TsChild None True (demo_loop [demo_loop []]), TsChild None True (demo_loop [])])]"

theorem loop_summary_exact_witness:
  "loopCount (summarizeFunction demo_function) = 3 \<and> maxLoopDepth (summarizeFunction demo_function) = 2"
  using loop_summary_exact [of demo_function] by (simp add: demo_function_def demo_loop_def childForFieldName_def is_loop_def)

text \<open>
  The stuck score stays between zero and one and is zero once the base tests pass, and a pass
  of the observer only adds milestones and leaves the hints, the probes and the candidate's own
  claims as they were.
\<close>

theorem observer_keeps_bounds:
  "0 \<le> stuckScore (or_state (observe inp)) \<and> stuckScore (or_state (observe inp)) \<le> 1 \<and>
   (BASE_TESTS_PASS \<in> set (reached (or_milestones (observe inp))) \<longrightarrow> stuckScore (or_state (observe inp)) = 0) \<and>
   set (reached (or_milestones (observe inp))) = set (reached (oi_milestones inp)) \<union> set (or_emitted (observe inp)) \<and>
   hintsUsed (or_state (observe inp)) = hintsUsed (oi_previous inp) \<and>
   probeHistory (or_state (observe inp)) = probeHistory (oi_previous inp) \<and>
   claimedTime (or_state (observe inp)) = claimedTime (oi_previous inp)"
  using observe_scores observe_solved observe_reached observe_same by simp

definition demo_observation :: observer_input where
  "demo_observation = \<lparr>oi_previous = demo_candidate,
     oi_milestones = emptyMilestoneState\<lparr>reached := [BASE_TESTS_PASS]\<rparr>, oi_snapshot = None, oi_run = None,
     oi_secondsSinceCodeActivity = 500, oi_consecutiveFailures = 4, oi_now = Some 0\<rparr>"

theorem observer_keeps_bounds_witness: "stuckScore (or_state (observe demo_observation)) = 0"
proof -
  have "BASE_TESTS_PASS \<in> set (reached (or_milestones (observe demo_observation)))"
    by (simp add: demo_observation_def observe_def Let_def)
  with observer_keeps_bounds show ?thesis by blast
qed

text \<open>
  The mismatch between claim and code is called exactly once, and only with cause: the milestone
  is emitted when it was not reached yet, the detected family is one of the scenario, and a claimed
  complexity differs from the family's after normalization; a second look emits nothing.
\<close>

theorem complexity_mismatch_once:
  "(COMPLEXITY_CLAIM_MISMATCH \<in> set (snd (applyComplexityMismatch cs ms sc)) \<longleftrightarrow>
      COMPLEXITY_CLAIM_MISMATCH \<notin> set (reached ms) \<and>
      (\<exists>family. List.find (\<lambda>f. Some (family_id f) = detectedSolutionFamilyId cs) (solutionFamilies sc) = Some family \<and>
         (complexityMismatch (claimedTime cs) (Some (timeComplexity family)) \<or>
          complexityMismatch (claimedSpace cs) (Some (spaceComplexity family))))) \<and>
   snd (applyComplexityMismatch cs (fst (applyComplexityMismatch cs ms sc)) sc) = []"
  by (simp only: applyComplexityMismatch_iff applyComplexityMismatch_idem snd_conv simp_thms)

text \<open>
  Only four solution families can ever be detected, so a scenario whose families are named
  otherwise never has its approach recognized, whatever recognition signals it authors.
\<close>

theorem only_built_in_families_detected:
  assumes "\<forall>f\<in>set (solutionFamilies sc). family_id f \<notin> {''sf-nested-loop'', ''sf-sort'', ''sf-set-single-pass'', ''sf-count-then-scan''}"
  shows "\<not> (\<exists>f\<in>set (solutionFamilies sc). Some (family_id f) = detectSolutionFamily snap)"
proof
  assume "\<exists>f\<in>set (solutionFamilies sc). Some (family_id f) = detectSolutionFamily snap"
  then obtain f where f: "f \<in> set (solutionFamilies sc)" "detectSolutionFamily snap = Some (family_id f)" by auto
  from detectSolutionFamily_range [OF f(2)] f(1) assms show False unfolding DETECTABLE_def by auto
qed

theorem only_built_in_families_detected_witness:
  "\<not> (\<exists>f\<in>set (solutionFamilies (demo_scenario\<lparr>solutionFamilies := [demo_family\<lparr>family_id := ''sf-two-pointers''\<rparr>]\<rparr>)).
        Some (family_id f) = detectSolutionFamily (emptySnapshot 1 ''x'' None))"
  by (rule only_built_in_families_detected) simp


definition demo_world :: world where
  "demo_world = (new_world 1000 [''s''] 0)\<lparr>
     w_table := \<lparr>ot_rows = [(''s'', \<lparr>or_token = 7, or_expiresAt = 1000\<rparr>)], ot_ttlMs = 1000, open_sessions = [''s'']\<rparr>,
     w_procs := (\<lambda>_. new_handles)(1 := \<lparr>oh_tokens = [(''s'', 7)], oh_runtimes = [''s''], oh_stopped = False\<rparr>),
     w_used := [7]\<rparr>"



text \<open>
  Fencing is final. A token that was once issued and does not pass the fence of a session never
  passes it again: a process that lost a session, by expiry or by its end, cannot write to the log
  later, whoever claims, renews, releases or stops in between.
\<close>

theorem fenced_token_stays_fenced:
  assumes "own_step\<^sup>*\<^sup>* w w'" and "tk \<in> set (w_used w)" and "\<not> assertRuntimeOwner (w_table w) sid tk (w_now w)"
  shows "\<not> assertRuntimeOwner (w_table w') sid tk (w_now w')"
proof -
  have "fenced_out sid tk w" using assms(2,3) by (simp add: fenced_out_def)
  from fence.kept_by_closure [OF assms(1) this] show ?thesis by (simp add: fenced_out_def)
qed

theorem fenced_token_stays_fenced_witness:
  "\<not> assertRuntimeOwner (w_table (demo_world\<lparr>w_now := 3000\<rparr>)) ''s'' 7 3000"
proof -
  have tick: "own_step (demo_world\<lparr>w_now := 2000\<rparr>) (demo_world\<lparr>w_now := 3000\<rparr>)"
    using own_step.tick [of "demo_world\<lparr>w_now := 2000\<rparr>" 3000] by simp
  from fenced_token_stays_fenced [OF r_into_rtranclp [of own_step, OF tick], of 7 "''s''"] show ?thesis
    by (simp add: assertRuntimeOwner_def holds_def demo_world_def)
qed

text \<open>
  C15: The clock of an interview stays in its bounds. Along any run of drops (reported once the interview
  has started), resumptions, ends, sweeps, stage changes and socket frames at times that do not go
  back, the remaining time of a session that has not ended lies between zero and its expected length:
  pauses never credit more than the time that has passed.
\<close>

theorem remaining_time_in_bounds:
  assumes "(clock_step h)\<^sup>*\<^sup>* (a, t) (b, now)" and "clock_wf (a, t)"
    and "get_key (ss_sessions (ap_store b)) sid = Some s" and "is_endedAt s = None" and "is_expectedSeconds s = real n"
  shows "\<exists>r. session_remaining s now = Some r \<and> 0 \<le> r \<and> r \<le> real n"
proof -
  have "clock_inv (b, now)" using clock_kept.kept_by_closure [OF assms(1,2)] by (simp add: clock_wf_def)
  then have "clock_ok now s (lease_of b sid)" using assms(3,4) by (simp add: clock_inv_def)
  then show ?thesis using assms(4,5) by (rule clock_ok_remaining)
qed

definition demo_api :: api where
  "demo_api = \<lparr>ap_life = demo_life, ap_leases = [], ap_channel = []\<rparr>"

lemma demo_clock_wf: "clock_wf (demo_api, 0)"
  using store_step_wf [OF demo_store_step store_wf_empty]
  by (auto simp: clock_wf_def clock_inv_def demo_api_def demo_life_def demo_store_def demo_session_def new_session_def
      clock_ok_def lease_wf_def lease_of_def newLease_def)

theorem remaining_time_in_bounds_witness:
  "\<exists>s r. get_key (ss_sessions (ap_store (fst (on_transition 60000 ''s'' CLARIFICATION demo_api)))) ''s'' = Some s \<and>
     session_remaining s 90000 = Some r \<and> 0 \<le> r \<and> r \<le> 2700"
proof -
  let ?b = "fst (on_transition 60000 ''s'' CLARIFICATION demo_api)" and ?f = "client_frame demo_hash 90000 None"
  have "clock_step demo_hash (demo_api, 0) (?b, 60000)" by (rule clock_step.transition) simp
  moreover have "clock_step demo_hash (?b, 60000) (fst (?f ?b), 90000)" by (rule clock_step.frame) simp
  ultimately have run: "(clock_step demo_hash)\<^sup>*\<^sup>* (demo_api, 0) (fst (?f ?b), 90000)"
    by (rule rtranclp.rtrancl_into_rtrancl [OF r_into_rtranclp [of "clock_step demo_hash"]])
  obtain s where s: "get_key (ss_sessions (ap_store ?b)) ''s'' = Some s" "is_endedAt s = None" "is_expectedSeconds s = real 2700"
    by (simp add: on_transition_def in_store_def store_transition_def require_def store_get_def deleted_def demo_api_def
        demo_life_def demo_store_def demo_session_def new_session_def demo_create_def put_session_def Let_def)
  from remaining_time_in_bounds [OF run demo_clock_wf _ s(2,3)] s(1) show ?thesis by auto
qed

text \<open>
  Without that proviso the bound is lost: a drop reported before the start is credited at the
  resumption, and the interview then starts with more than its expected length.
\<close>

theorem drop_before_start_extends:
  assumes "store_get (ap_store a) sid = Some s" and "is_id s = sid" and "is_startedAt s = None" and "is_endedAt s = None"
    and "is_pausedSeconds s = 0" and "is_expectedSeconds s = real n" and "lease_of a sid = newLease"
    and "reconstruct (ap_log (fst (route_disconnected h t sid a))) sid (is_state s) \<noteq> None"
  shows "\<exists>u. store_get (ap_store (fst (on_transition (t + 3600000) sid q
      (fst (route_resume h (t + 3600000) sid (fst (route_disconnected h t sid a))))))) sid = Some u \<and>
    session_remaining u (t + 3600000) = Some (real n + 3590)"
proof -
  let ?c = "fst (route_resume h (t + 3600000) sid (fst (route_disconnected h t sid a)))"
  have "store_get (ap_store ?c) sid = Some (s\<lparr>is_pausedSeconds := 3590\<rparr>)"
    using early_drop_credited [OF assms(1,2,3,4,7,8)] assms(5) by simp
  from early_drop_extends [OF this, of n "t + 3600000" q] assms(3,4,6) show ?thesis by simp
qed

text \<open>
  C16: Runs are served in order and none is lost. In every reachable state of the runner's queue at most
  the allowed number of runs execute and at most the allowed number wait, and runs wait only while
  every place is taken; runs start in the order in which they were accepted; and as many settlements
  as runs are waiting start all of them.
\<close>

theorem runs_served_in_order:
  assumes "queue_step\<^sup>*\<^sup>* (new_queue c d) q" and "0 < q_concurrency q" and "queue_step\<^sup>*\<^sup>* q q'"
  shows "q_active q \<le> q_concurrency q \<and> length (q_pending q) \<le> q_maxDepth q \<and>
    (q_pending q \<noteq> [] \<longrightarrow> q_active q = q_concurrency q) \<and>
    prefix (q_started q @ q_pending q) (q_started q' @ q_pending q') \<and> prefix (q_started q) (q_started q') \<and>
    q_started ((settled ^^ length (q_pending q)) q) = q_started q @ q_pending q"
proof -
  have inv: "queue_inv q" using queue_kept.kept_by_closure [OF assms(1) queue_inv_new] .
  have "queue_le q q'" using assms(3) by (rule queue_grows.grown_by_closure)
  then show ?thesis
    using inv settle_all [OF inv assms(2)] by (simp add: queue_inv_def queue_le_def accepted_def)
qed

theorem runs_served_in_order_witness:
  "q_started ((settled ^^ length (q_pending (fst (RunQueue.enqueue (9::nat) (new_queue None None)))))
      (fst (RunQueue.enqueue (9::nat) (new_queue None None)))) = [9]"
proof -
  let ?q = "fst (RunQueue.enqueue (9::nat) (new_queue None None))"
  have q: "?q = \<lparr>q_pending = [], q_active = 1, q_concurrency = 4, q_maxDepth = 64, q_started = [9]\<rparr>"
    by (simp add: RunQueue.enqueue_def new_queue_def drain_takes Let_def)
  have "0 < q_concurrency ?q" by (simp add: q)
  from runs_served_in_order [OF r_into_rtranclp [of queue_step, OF queue_step.enqueue] this rtranclp.rtrancl_refl]
  have "q_started ((settled ^^ length (q_pending ?q)) ?q) = q_started ?q @ q_pending ?q" by blast
  then show ?thesis by (simp add: q)
qed

text \<open>
  Ending is the same with and without a durable lifecycle. For a stored session, the routine of a
  process without one has the result, the stored sessions and the log of the lifecycle's; the
  lifecycle alone enqueues the report job.
\<close>

theorem ends_agree:
  assumes "store_get (ap_store a) sid = Some s"
  shows "snd (finalizeSession h now sid expected a) =
      snd (endWithReport h (Some now) sid rubric None expected (ap_life a)) \<and>
    ap_store (fst (finalizeSession h now sid expected a)) =
      lc_store (fst (endWithReport h (Some now) sid rubric None expected (ap_life a))) \<and>
    ap_log (fst (finalizeSession h now sid expected a)) =
      lc_log (fst (endWithReport h (Some now) sid rubric None expected (ap_life a)))"
  using assms by (rule finalize_is_lifecycle)

theorem ends_agree_witness:
  "ap_log (fst (finalizeSession demo_hash 5 ''s'' 0 demo_api)) =
   lc_log (fst (endWithReport demo_hash (Some 5) ''s'' ''r1'' None 0 demo_life))"
  using ends_agree [of demo_api "''s''" demo_session demo_hash 5 0 "''r1''"]
  by (simp add: demo_api_def demo_life_def demo_store_def store_get_def deleted_def)

text \<open>
  The server's events and the browser's share the keys of a session: a browser event stored under the
  key of the end makes the session end without a \<open>SESSION_ENDED\<close> event.
\<close>

theorem browser_key_swallows_end:
  assumes "endWithReport h now sid rubric t expected lc = (lc', Inr s)" and "store_wf (lc_store lc)"
    and "stored_event (lc_log lc) (sid, ''session-ended:'' @ sid) = Some ev" and "etype ev = CODE_DELTA"
    and "\<forall>e\<in>set (session_events (lc_log lc) sid). etype e \<noteq> SESSION_ENDED"
  shows "is_endedAt s \<noteq> None \<and> (\<forall>e\<in>set (session_events (lc_log lc') sid). etype e \<noteq> SESSION_ENDED)"
  using end_swallowed [OF assms(1,2,3)] endWithReport_ended [OF assms(1,2)] assms(5) by simp

section \<open>The voice provider and the browser\<close>

text \<open>
  A tripped circuit lets one probe through. While it is open nothing passes; after the cooldown the
  first caller passes, and until one of the callers reports a success, a failure or a release, no
  other does, at whatever time and however often they ask.
\<close>

theorem one_probe_at_a_time:
  assumes "tryAcquire now c = (c', True)" and "circuit_state now c = HALF_OPEN"
    and "\<forall>(k, t)\<in>set ks. k = Acquire"
  shows "\<not> snd (tryAcquire later (circuit_run ks c'))"
  using assms by (rule probe_excludes)

definition demo_circuit :: circuit where
  "demo_circuit = \<lparr>pc_threshold = 2, pc_cooldown = 10, pc_failures = 0, pc_openUntil = 50, pc_probe = False\<rparr>"

theorem one_probe_at_a_time_witness:
  "\<not> snd (tryAcquire 70 (circuit_run [(Acquire, 61)] (demo_circuit\<lparr>pc_probe := True\<rparr>)))"
  by (rule one_probe_at_a_time [of 60 demo_circuit])
    (simp_all add: tryAcquire_def circuit_state_def demo_circuit_def)

text \<open>
  The circuit trips exactly at its threshold. From the start of a circuit that accepts its
  configuration, fewer failures in a row than the threshold leave it closed, whenever they happen,
  and the failure that reaches the threshold opens it until the cooldown has passed; a success in
  between starts the count again.
\<close>

theorem trips_at_threshold:
  assumes "new_circuit n d = Inr c"
  shows "(length ts < n \<longrightarrow> circuit_state later (circuit_run (map (\<lambda>t. (Failure False, t)) ts) c) = CLOSED) \<and>
    (length ts + 1 = n \<longrightarrow> 0 < now \<longrightarrow> later < now + d \<longrightarrow>
       snd (tryAcquire later (circuit_run (map (\<lambda>t. (Failure False, t)) ts @ [(Failure False, now)]) c)) = False) \<and>
    success (circuit_run (map (\<lambda>t. (Failure False, t)) ts) c) = c"
proof -
  have c: "c = \<lparr>pc_threshold = n, pc_cooldown = d, pc_failures = 0, pc_openUntil = 0, pc_probe = False\<rparr>" "1 \<le> d"
    using assms by (auto simp: new_circuit_def split: if_splits)
  have below: "circuit_run (map (\<lambda>t. (Failure False, t)) ts) c = c\<lparr>pc_failures := length ts\<rparr>" if "length ts < n"
    using failures_below [of c ts] that by (simp add: c)
  have at_n: "circuit_run (map (\<lambda>t. (Failure False, t)) ts @ [(Failure False, now)]) c = c\<lparr>pc_openUntil := now + d\<rparr>"
    if "length ts + 1 = n" using failures_open [of c ts now] that by (simp add: c)
  have reset: "success (circuit_run ks c) = c" for ks :: "(circuit_call \<times> real) list"
  proof -
    have "pc_threshold (circuit_run ks u) = pc_threshold u \<and> pc_cooldown (circuit_run ks u) = pc_cooldown u" for u
    proof (induction ks arbitrary: u)
      case (Cons k ks)
      then show ?case by (cases k; cases "fst k") (simp_all add: circuit_call_def circuit_defs)
    qed simp
    then show ?thesis by (simp add: success_def c)
  qed
  show ?thesis using below at_n reset c by (auto simp: circuit_state_def tryAcquire_def)
qed

theorem trips_at_threshold_witness:
  "snd (tryAcquire 12 (circuit_run [(Failure False, 1), (Failure False, 5)]
     \<lparr>pc_threshold = 2, pc_cooldown = 10, pc_failures = 0, pc_openUntil = 0, pc_probe = False\<rparr>)) = False"
  using trips_at_threshold [of 2 10 "\<lparr>pc_threshold = 2, pc_cooldown = 10, pc_failures = 0, pc_openUntil = 0, pc_probe = False\<rparr>"
    "[1]" 12 5] by (simp add: new_circuit_def)

text \<open>
  The store of resumption handles is a map with expiry. Read at any later time, recording a handle
  changes the entry of its own session only, to that handle until its time to live has passed, or
  nothing at all when the map is full of live handles of others; a clear removes that entry, a read
  returns it and changes none; and the map never outgrows its bound.
\<close>

theorem handles_are_a_map:
  assumes "resumption_inv v" and "now \<le> later"
  shows "live_handle later (record_handle now sid token v) =
      (if length (vr_handles (prune now v)) \<ge> vr_maxEntries v \<and> \<not> has_key (vr_handles (prune now v)) sid
       then live_handle later v
       else (live_handle later v)(sid := if later < now + vr_ttlMs v then Some token else None)) \<and>
    live_handle later (clear_handle sid v) = (live_handle later v)(sid := None) \<and>
    snd (get_handle now sid v) = live_handle now v sid \<and>
    live_handle later (fst (get_handle now sid v)) = live_handle later v \<and>
    resumption_inv (record_handle now sid token v) \<and> resumption_inv (clear_handle sid v) \<and>
    resumption_inv (fst (get_handle now sid v))"
  using record_live [OF assms] clear_live get_is_live get_keeps_live [OF assms(2)] record_inv [OF assms(1)]
    clear_inv [OF assms(1)] get_inv [OF assms(1)]
  by simp

theorem handles_are_a_map_witness:
  "live_handle 5 (record_handle 1 ''s'' ''h1'' (new_resumption 10 1)) ''s'' = Some ''h1''"
  using handles_are_a_map [of "new_resumption 10 1" 1 5 "''s''" "''h1''"]
  by (simp add: resumption_inv_def new_resumption_def prune_def)

text \<open>
  An utterance ends once and its report is honest. Whatever signals reach a new utterance, in any
  order and number, it makes at most one report, exactly when it has ended; the report names the
  outcome it ended with, plays no more audio than was received, claims completion only when audio was
  received and without a reason, and an interruption only when there was audio; and once ended, no
  further signal or change of source has any effect.
\<close>

theorem utterance_ends_once:
  assumes "apply_signals ss (new_lifecycle uid act src t0) = (u, rs)"
  shows "length rs \<le> 1 \<and> (rs \<noteq> [] \<longleftrightarrow> is_terminal (ul_current u)) \<and>
    (\<forall>r\<in>set rs. ul_current u = Ended (ur_outcome r) \<and> report_ok r) \<and>
    (rs \<noteq> [] \<longrightarrow> (\<forall>ss'. apply_signals ss' u = (u, [])) \<and> switchSource src' u = (u, False))"
proof -
  have u: "u = fst (apply_signals ss (new_lifecycle uid act src t0))" using assms by simp
  have inv: "lifecycle_inv u"
    unfolding u by (rule lifecycle_kept.kept_by_closure [OF apply_signals_steps lifecycle_inv_new])
  have rs: "rs = (if is_terminal (ul_current u) then [the (ul_report u)] else [])"
    using apply_signals_reports [OF assms _ lifecycle_inv_new] by (simp add: new_lifecycle_def)
  have rep: "\<exists>r. ul_report u = Some r \<and> ul_current u = Ended (ur_outcome r) \<and> report_ok r" if "is_terminal (ul_current u)"
    using inv that by (auto simp: lifecycle_inv_def split: option.splits)
  show ?thesis using rs rep apply_signals_terminal [of u] terminal_absorbs [of u] by (auto split: if_splits)
qed

theorem utterance_ends_once_witness:
  "length (snd (apply_signals [(Requested, 1), (AudioReceived 2, 2), (SourceComplete, 3), (PlaybackDrained, 4)]
     (new_lifecycle ''u'' ''ASK'' MODEL 0))) \<le> 1"
  using utterance_ends_once [of "[(Requested, 1), (AudioReceived 2, 2), (SourceComplete, 3), (PlaybackDrained, 4)]"
      "''u''" "''ASK''" MODEL 0 _ _ MODEL]
  by (metis prod.collapse)

text \<open>
  Completion is reported without playback: audio that was received but never started playing is reported
  as played when its source completes.
\<close>

theorem unplayed_audio_reported_played:
  assumes "0 < sec"
  shows "\<exists>r. snd (apply_signals [(Requested, t1), (AudioReceived sec, t2), (SourceComplete, t3)]
      (new_lifecycle uid act src t0)) = [r] \<and>
    ur_outcome r = utterance_outcome.COMPLETED \<and> ur_firstAudio r \<and> ur_playedAudioMs r = math_round (sec * 1000)"
  using assms math_round_nonneg [of "sec * 1000"] math_round_of_int [of 0]
  by (simp add: apply_signal_def new_lifecycle_def finish_def hasAudio_def Let_def)

text \<open>
  Speech boundaries alternate and are spaced. On a recording with increasing times, whatever the
  levels and settings, a new detector reports starts and ends of speech in turn, beginning with a
  start, and each boundary lies at least the confirmation time of the one before after it: the
  minimal speech after a start, the hangover after an end; none lies before the recording.
\<close>

theorem speech_boundaries_spaced:
  assumes "sorted (map snd fs)" and "\<forall>f\<in>set fs. lo \<le> snd f"
  shows "spaced cfg False lo (listen cfg pr fs (new_vad cfg))"
  using assms by (rule listen_from_new)

theorem speech_boundaries_spaced_witness:
  "spaced DEFAULT_VAD_CONFIG False 0
     (listen DEFAULT_VAD_CONFIG (None :: unit predictor) [(-20, 0), (-20, 600), (-20, 700)] (new_vad DEFAULT_VAD_CONFIG))"
  by (rule speech_boundaries_spaced) auto

section \<open>The report\<close>

text \<open>A short log for the examples: a hint, a passing run and a sentence of the candidate.\<close>

definition demo_logged :: "nat \<Rightarrow> event_type \<Rightarrow> payload \<Rightarrow> session_event" where
  "demo_logged n ty p = \<lparr>sessionId = ''s'', seq = n, occurredAt = Some (real n), etype = ty, actor = SYSTEM,
     scenarioVersionId = ''v'', payload = p, evidenceHash = ''h'', traceId = ''t''\<rparr>"

definition demo_session_log :: "session_event list" where
  "demo_session_log = [demo_logged 0 HINT_GIVEN [(''level'', JNum 1)], demo_logged 1 RUN_COMPLETED [(''status'', JStr ''PASSED'')],
     demo_logged 2 SPEECH_FINAL [(''transcript'', JStr ''I would use a map here'')]]"

lemma demo_runs_ok [simp]: "ty \<noteq> RUN_COMPLETED \<Longrightarrow> run_ok (demo_logged n ty p)"
    "run_ok (demo_logged n RUN_COMPLETED [(''status'', JStr x)])"
  by (simp_all add: run_ok_def demo_logged_def string_field_def)

lemma demo_evaluates: "\<exists>r. evaluate (Some 9) demo_session_log ''rubric-coding-v1'' = Inr r"
  by (cases "evaluate (Some 9) demo_session_log ''rubric-coding-v1''")
    (auto simp: evaluate_error_iff demo_session_log_def)

text \<open>
  C17: Every report is within its scales. Whatever the log, a report scores each dimension of the rubric
  exactly once and in its order, with a score from 1 to 4, a confidence that is positive and at most
  0.8, and at most four citations; its overall score lies from 1 to 4 and within half a hundredth of
  the weighted sum of the scores.
\<close>

theorem report_within_scales:
  assumes "evaluate now es rid = Inr r"
  shows "map sc_dimension (sr_dimensions r) = map ds_key (rb_dimensions CODING_RUBRIC_V1) \<and>
    (\<forall>s\<in>set (sr_dimensions r). 1 \<le> sc_score s \<and> sc_score s \<le> 4 \<and> 0 < sc_confidence s \<and> sc_confidence s \<le> 8 / 10 \<and>
       length (sc_evidence s) \<le> 4) \<and>
    1 \<le> sr_overall r \<and> sr_overall r \<le> 4 \<and>
    \<bar>sr_overall r - (\<Sum>d\<leftarrow>rb_dimensions CODING_RUBRIC_V1. \<Sum>s\<leftarrow>sr_dimensions r.
       if sc_dimension s = ds_key d then ds_weight d * sc_score s else 0)\<bar> \<le> 1 / 200"
proof -
  obtain f where r: "sr_dimensions r = map (scoreDimension f) RUBRIC_DIMENSIONS"
      "sr_overall r = to_fixed2 (weighted_sum (\<lambda>d. sc_score (scoreDimension f d)))"
    by (rule evaluate_report [OF assms])
  let ?w = "weighted_sum (\<lambda>d. sc_score (scoreDimension f d))"
  have "\<forall>s\<in>set (sr_dimensions r). 1 \<le> sc_score s \<and> sc_score s \<le> 4 \<and> 0 < sc_confidence s \<and> sc_confidence s \<le> 8 / 10 \<and>
      length (sc_evidence s) \<le> 4"
    unfolding r using judge_confidence momentsFor_length [of 4] by (auto simp: EVIDENCE_LIMIT_def)
  moreover have "1 \<le> sr_overall r" "sr_overall r \<le> 4"
    unfolding r by (rule overall_range; simp)+
  moreover have "(\<Sum>d\<leftarrow>rb_dimensions CODING_RUBRIC_V1. \<Sum>s\<leftarrow>sr_dimensions r.
       if sc_dimension s = ds_key d then ds_weight d * sc_score s else 0) = ?w"
    unfolding r by (simp add: CODING_RUBRIC_V1_def RUBRIC_DIMENSIONS_def weighted_sum_def)
  moreover have "\<bar>to_fixed2 ?w - ?w\<bar> \<le> 1 / 200" by (rule to_fixed2_near)
  ultimately show ?thesis by (simp add: r rubric_keys comp_def)
qed

theorem report_within_scales_witness:
  "\<exists>r. evaluate (Some 9) demo_session_log ''rubric-coding-v1'' = Inr r \<and> 1 \<le> sr_overall r \<and> sr_overall r \<le> 4"
  using demo_evaluates report_within_scales [of "Some 9" demo_session_log "''rubric-coding-v1''"] by blast



text \<open>
  C19: The evaluation fails in two cases only. It refuses a rubric other than the one it has, and it
  stops at a completed run that carries no status text; on every other log, empty ones included, it
  makes a report.
\<close>

theorem evaluation_fails_exactly:
  "(evaluate now es rid = Inl x) =
     ((rid \<noteq> rb_id CODING_RUBRIC_V1 \<and> x = JsError ''Unknown rubric'') \<or>
      (rid = rb_id CODING_RUBRIC_V1 \<and> (\<exists>e. e \<in> set es \<and> etype e = RUN_COMPLETED \<and> string_field ''status'' e = None) \<and>
       x = JsError ''TypeError''))"
  unfolding evaluate_error_iff by (auto simp: coding_id run_ok_def)



text \<open>
  C21: Once a session is redacted its report quotes nothing. No citation of a report that is made from
  the redacted log carries words of the candidate.
\<close>

theorem redacted_report_quotes_nothing:
  assumes "evaluate now (map redactionFor es) rid = Inr r" and "s \<in> set (sr_dimensions r)" and "m \<in> set (sc_evidence s)"
  shows "em_summary m \<noteq> Quoted q"
proof -
  obtain f d where f: "extractFacts (map redactionFor es) = Inr f" and s: "sc_evidence s = momentsFor f d EVIDENCE_LIMIT"
    by (rule evaluate_report [OF assms(1)]) (use assms(2) in auto)
  then show ?thesis using extract_redacted_quotes [OF f] momentsFor_set [of f d EVIDENCE_LIMIT] assms(3) by auto
qed

lemma demo_redacted_evaluates: "\<exists>r. evaluate (Some 9) (map redactionFor demo_session_log) ''rubric-coding-v1'' = Inr r"
  by (cases "evaluate (Some 9) (map redactionFor demo_session_log) ''rubric-coding-v1''")
    (auto simp: evaluate_error_iff demo_session_log_def)

theorem redacted_report_quotes_nothing_witness:
  "\<exists>r. evaluate (Some 9) (map redactionFor demo_session_log) ''rubric-coding-v1'' = Inr r \<and>
     em_summary (hd (sc_evidence (sr_dimensions r ! 2))) \<noteq> Quoted ''x''"
proof -
  obtain r where r: "evaluate (Some 9) (map redactionFor demo_session_log) ''rubric-coding-v1'' = Inr r"
    using demo_redacted_evaluates by blast
  obtain f where f: "extractFacts (map redactionFor demo_session_log) = Inr f"
      and dims: "sr_dimensions r = map (scoreDimension f) RUBRIC_DIMENSIONS"
    by (rule evaluate_report [OF r])
  have "momentsFor f Correctness 4 \<noteq> []"
    using extract_moments [OF f]
    by (simp add: momentsFor_def slice_last_def demo_session_log_def cited_def demo_logged_def moment_of_def)
  then have "hd (sc_evidence (sr_dimensions r ! 2)) \<in> set (sc_evidence (sr_dimensions r ! 2))"
    "sr_dimensions r ! 2 \<in> set (sr_dimensions r)"
    unfolding dims by (simp_all add: RUBRIC_DIMENSIONS_def EVIDENCE_LIMIT_def)
  then show ?thesis using r redacted_report_quotes_nothing [OF r] by blast
qed

text \<open>
  The level of a hint is redacted too, so the report of a redacted session can score higher than the
  report of the same session before: a session that passed with hints does so in its approach.
\<close>

theorem redaction_raises_the_approach:
  assumes "extractFacts es = Inr f" and "extractFacts (map redactionFor es) = Inr g"
    and "sf_firstPassSeq f \<noteq> None" and "sf_hintsGiven f \<noteq> []"
  shows "sc_score (scoreDimension f Approach) < sc_score (scoreDimension g Approach)"
  using assms by (rule approach_after_redaction)

section \<open>Report jobs and graders\<close>

text \<open>
  C22: The jobs keep their shape. Whatever any number of workers, routes and deletions do to a store that
  starts empty, in any order and under fresh tokens: each job lies under its own session; it has a
  report exactly when it is ready, a token and a lease exactly while it runs, an error exactly when it
  failed; a token runs one job; and only ready reports are marked as viewed.
\<close>

theorem jobs_keep_their_shape:
  assumes "job_step\<^sup>*\<^sup>* \<lparr>jw_store = no_jobs, jw_used = [], jw_now = t0\<rparr> w" and "job_of (jw_store w) sid = Some j"
  shows "rj_sessionId j = sid \<and> (rj_report j \<noteq> None) = (rj_status j = READY) \<and>
    (rj_leaseToken j \<noteq> None) = (rj_status j = RUNNING) \<and> (rj_leaseExpiresAt j \<noteq> None) = (rj_status j = RUNNING) \<and>
    (rj_error j \<noteq> None) = (rj_status j = report_status.FAILED) \<and> (sid \<in> set (js_viewed (jw_store w)) \<longrightarrow> rj_status j = READY) \<and>
    (\<forall>other k. job_of (jw_store w) other = Some k \<and> rj_leaseToken k \<noteq> None \<and> rj_leaseToken k = rj_leaseToken j \<longrightarrow>
       other = sid)"
proof -
  have "jobs_ok \<lparr>jw_store = no_jobs :: ('a, 'b) job_store, jw_used = [], jw_now = t0\<rparr>"
    by (simp add: jobs_ok_def no_jobs_def job_of_def)
  then have ok: "jobs_ok w" by (rule jobs_kept.kept_by_closure [OF assms(1)])
  then have "job_ok (jw_used w) sid j" using assms(2) by (simp add: jobs_ok_def)
  moreover have "sid \<in> set (js_viewed (jw_store w)) \<longrightarrow> rj_status j = READY" using ok assms(2) by (auto simp: jobs_ok_def)
  moreover have "other = sid" if "job_of (jw_store w) other = Some k" "rj_leaseToken k \<noteq> None" "rj_leaseToken k = rj_leaseToken j"
    for other k using ok assms(2) that unfolding jobs_ok_def by blast
  ultimately show ?thesis unfolding job_ok_def by blast
qed

definition demo_jobs :: "(nat, nat) job_store" where
  "demo_jobs = fst (jobs_enqueue ''s'' ''r'' 0 no_jobs)"

lemma demo_jobs_reached: "job_step\<^sup>*\<^sup>* \<lparr>jw_store = no_jobs, jw_used = [], jw_now = 0\<rparr> \<lparr>jw_store = demo_jobs, jw_used = [], jw_now = 0\<rparr>"
  using job_step.enqueue [of "\<lparr>jw_store = no_jobs :: (nat, nat) job_store, jw_used = [], jw_now = 0\<rparr>" "''s''" "''r''"]
  by (simp add: demo_jobs_def)

lemma demo_job: "job_of demo_jobs ''s'' = Some (queued_job ''s'' ''r'' 0 None)"
  proof -
  have "job_of no_jobs ''s'' = (None :: (nat, nat) report_job option)" by (simp add: no_jobs_def job_of_def)
  then show ?thesis by (simp add: demo_jobs_def jobs_enqueue_def Let_def)
qed

theorem jobs_keep_their_shape_witness:
  "\<exists>j. job_of demo_jobs ''s'' = Some j \<and> rj_sessionId j = ''s'' \<and> (rj_report j \<noteq> None) = (rj_status j = READY)"
  using jobs_keep_their_shape [OF demo_jobs_reached, of "''s''" "queued_job ''s'' ''r'' 0 None"] demo_job by simp

text \<open>
  C23: A worker that lost its claim changes nothing. Once a token no longer holds the job it was given
  for, because the lease ran out and another worker claimed the job, because it was completed or
  deleted, then after any further steps its result, its saved progress and its failure are refused
  and leave the store as it was.
\<close>

theorem lost_claims_are_refused:
  assumes "token \<in> set (jw_used w)" and "claimed sid token (jw_store w) = None" and "job_step\<^sup>*\<^sup>* w w'"
  shows "jobs_complete sid token r t (jw_store w') = (jw_store w', False) \<and>
    jobs_saveProgress sid token p (jw_store w') = (jw_store w', False) \<and>
    jobs_fail sid token err t (jw_store w') = (jw_store w', False)"
  using lost_results_refused [OF lost_kept.kept_by_closure [OF assms(3), of sid token]] assms(1,2)
  by (simp add: claim_lost_def)

theorem lost_claims_are_refused_witness:
  "jobs_complete ''s'' 7 5 9 demo_jobs = (demo_jobs, False)"
  using lost_claims_are_refused [of 7 "\<lparr>jw_store = demo_jobs, jw_used = [7], jw_now = 0\<rparr>" "''s''"
      "\<lparr>jw_store = demo_jobs, jw_used = [7], jw_now = 0\<rparr>" 5 9]
  by (simp add: claimed_def demo_job)

text \<open>
  A grade is asked for once. A worker that evaluates its claim calls no grader whose grade is
  already saved; and when it succeeds, the grades it used are saved under its claim, so that an attempt
  after a crash between the two calls repeats neither.
\<close>

theorem grades_are_asked_once:
  assumes "evaluate_with_progress sol tra base attach sid token p st = (st', calls, res)"
    and "claimed sid token st = Some j" and "rj_progress j = p"
  shows "(pg_solution p \<noteq> None \<longrightarrow> Solution \<notin> set calls) \<and> (pg_transcript p \<noteq> None \<longrightarrow> Transcript_Grader \<notin> set calls) \<and>
    (\<forall>r. res = Inr r \<longrightarrow> (\<exists>k x y. claimed sid token st' = Some k \<and> rj_progress k = \<lparr>pg_solution = Some x, pg_transcript = Some y\<rparr> \<and>
       (pg_solution p = None \<longrightarrow> sol = Inr x) \<and> (pg_transcript p = None \<longrightarrow> tra = Inr y)))"
proof -
  have "\<exists>k x y. claimed sid token st' = Some k \<and> rj_progress k = \<lparr>pg_solution = Some x, pg_transcript = Some y\<rparr> \<and>
       (pg_solution p = None \<longrightarrow> sol = Inr x) \<and> (pg_transcript p = None \<longrightarrow> tra = Inr y)" if res: "res = Inr r" for r
  proof -
    obtain k x y where k: "claimed sid token st' = Some k" "pg_solution (rj_progress k) = Some x"
        "pg_transcript (rj_progress k) = Some y" "pg_solution p = None \<longrightarrow> sol = Inr x" "pg_transcript p = None \<longrightarrow> tra = Inr y"
      using evaluate_saves [OF assms(1) [unfolded res] assms(2,3)] by auto
    then have "rj_progress k = \<lparr>pg_solution = Some x, pg_transcript = Some y\<rparr>" by simp
    then show ?thesis using k by (intro exI [of _ k] exI [of _ x] exI [of _ y]) simp
  qed
  then show ?thesis using evaluate_skips [OF assms(1)] by blast
qed

definition demo_running :: "(nat, nat) job_store" where
  "demo_running = fst (jobs_claim ''s'' 1 0 10 demo_jobs)"

lemma demo_claimed:
  "claimed ''s'' 1 demo_running = Some ((queued_job ''s'' ''r'' 0 None)\<lparr>rj_status := RUNNING, rj_attempts := 1,
     rj_leaseToken := Some 1, rj_leaseExpiresAt := Some 10\<rparr>)"
  by (simp add: demo_running_def jobs_claim_def demo_job claimable_def Let_def claimed_def queued_job_def)

theorem grades_are_asked_once_witness:
  "\<exists>st' calls k. evaluate_with_progress (Inr 3) (Inr 4) (Inr 0) (\<lambda>r p. r) ''s'' 1 no_progress demo_running = (st', calls, Inr 0) \<and>
     claimed ''s'' 1 st' = Some k \<and> rj_progress k = \<lparr>pg_solution = Some 3, pg_transcript = Some 4\<rparr>"
proof -
  obtain st' calls where e:
      "evaluate_with_progress (Inr 3) (Inr 4) (Inr 0) (\<lambda>r p. r) ''s'' 1 no_progress demo_running = (st', calls, Inr 0)"
    using progress_saved(1) [OF demo_claimed] progress_saved(2) [OF demo_claimed]
    by (simp add: evaluate_with_progress_def run_grader_def no_progress_def progress_saved(1) split: prod.splits)
  then show ?thesis
    using grades_are_asked_once [OF e demo_claimed] by (simp add: queued_job_def no_progress_def)
qed

text \<open>
  A failed job that its session enqueues again is claimed at once, however often it was tried: the
  limit of attempts bounds the automatic retries only.
\<close>

theorem repeated_end_ignores_attempt_limit:
  assumes "job_of st sid = Some j" and "rj_status j = report_status.FAILED" and "MAX_REPORT_ATTEMPTS \<le> rj_attempts j"
  shows "snd (jobs_claim sid tk now expires st) = None \<and>
    (\<exists>k. snd (jobs_claim sid tk now expires (fst (jobs_enqueue sid rubric now st))) = Some (tk, k) \<and>
       rj_attempts k = rj_attempts j + 1)"
  using requeued_ignores_limit [OF assms] by blast


definition demo_grade :: model_grade where
  "demo_grade = \<lparr>mg_score = Some 130, mg_confidence = Some (1 / 2), mg_summary = ''fine'', mg_strengths = [], mg_improvements = [],
     mg_dimensions = [\<lparr>di_key = ''understanding'', di_score = Some 80, di_rationale = ''ok''\<rparr>],
     mg_evidence = [\<lparr>ci_seq = 2, ci_claim = ''names a map'', ci_quote = Some ''use a map''\<rparr>]\<rparr>"

lemma demo_texts [simp]:
  "clean ''fine'' 2000 = Inr ''fine''" "clean ''ok'' 1000 = Inr ''ok''" "clean ''names a map'' 1000 = Inr ''names a map''"
  "has_sub ''I would use a map here'' ''use a map''"
  by code_simp+




text \<open>
  The graders are independent. Two sessions with the same code changes and completed runs get the
  same reply from the solution grader, whatever was said in them; two with the same words and the same
  interviewer's turns get the same reply from the transcript grader, whatever was coded or run.
\<close>

theorem graders_are_independent:
  "(filter (\<lambda>e. etype e \<in> {CODE_DELTA, RUN_COMPLETED}) es = filter (\<lambda>e. etype e \<in> {CODE_DELTA, RUN_COMPLETED}) es' \<longrightarrow>
      gradeSolution gs now ctx es c = gradeSolution gs now ctx es' c) \<and>
   (filter (\<lambda>e. etype e \<in> {SPEECH_FINAL, PROBE_ASKED, HINT_GIVEN, FOLLOW_UP_PRESENTED, CLARIFICATION_ANSWERED}) es =
      filter (\<lambda>e. etype e \<in> {SPEECH_FINAL, PROBE_ASKED, HINT_GIVEN, FOLLOW_UP_PRESENTED, CLARIFICATION_ANSWERED}) es' \<longrightarrow>
      gradeTranscript gs now ctx es c = gradeTranscript gs now ctx es' c)"
proof -
  have part: "filter P es = filter P es'" if "filter Q es = filter Q es'" "\<And>e. P e \<Longrightarrow> Q e"
    for P Q :: "session_event \<Rightarrow> bool"
  proof -
    have "filter P xs = filter P (filter Q xs)" for xs using that(2) by (induction xs) auto
    then show ?thesis using that(1) by metis
  qed
  show ?thesis
    by (intro conjI impI solution_sees transcript_sees;
        unfold code_events_def events_of_def spoken_events_def interviewer_events_def; erule part; auto)
qed

definition demo_graders :: graders where
  "demo_graders = \<lparr>gs_model = ''m'', gs_number = (\<lambda>_. ''1''), ask_solution = (\<lambda>_. Inr demo_grade), ask_transcript = (\<lambda>_. Inr demo_grade)\<rparr>"

theorem graders_are_independent_witness:
  "gradeSolution demo_graders 0 None demo_session_log demo_circuit =
   gradeSolution demo_graders 0 None [demo_logged 1 RUN_COMPLETED [(''status'', JStr ''PASSED'')]] demo_circuit"
  using graders_are_independent [of demo_session_log "[demo_logged 1 RUN_COMPLETED [(''status'', JStr ''PASSED'')]]"
      demo_graders 0 None demo_circuit]
  by (simp add: demo_session_log_def demo_logged_def)

text \<open>
  A private value with a line break is never found in a reply that repeats it, because the reply is
  searched as JSON, which escapes the break.
\<close>

theorem leak_check_misses_escaped_values:
  assumes "\<forall>x. no_control (num x)" and "CHR 0x0A \<in> set (trim v)"
  shows "\<not> leaks num g [v]"
  using escaped_values_missed [of num "[v]" g] assms by simp

section \<open>Playback and latency in the browser\<close>

text \<open>
  C25: Audio never overlaps. Whatever chunks of audio, ends, stops and changes of volume reach a new
  scheduler while the clock runs on, the sources scheduled to play follow each other without overlap,
  each plays for a positive time, and the next chunk starts no earlier than the last one ends; while
  audio is queued ahead of the clock it starts exactly there, without a gap.
\<close>

theorem audio_never_overlaps:
  assumes "(playback_step o1)\<^sup>*\<^sup>* (new_playback, t0) (p, now)" and "leads_ok o1" and "0 < n" and "0 < rate"
  shows "sorted_wrt (\<lambda>a b. so_end a \<le> so_start b) (pb_active p) \<and>
    (\<forall>s\<in>set (pb_active p). so_start s < so_end s) \<and>
    (\<exists>start. snd (enqueueAt o1 n rate now running p) = Some start \<and> now \<le> start \<and> (\<forall>s\<in>set (pb_active p). so_end s \<le> start) \<and>
       (0 < queuedSeconds now p \<longrightarrow> start = now + queuedSeconds now p))"
proof -
  have inv: "playback_inv p"
    using playback_kept.kept_by_closure [OF assms(1)] assms(2) playback_inv_new by simp
  have start: "snd (enqueueAt o1 n rate now running p) = Some (start_at o1 now running p)"
    using assms(3) by (simp add: enqueueAt_def Let_def)
  have "so_end s \<le> start_at o1 now running p" if "s \<in> set (pb_active p)" for s
    using inv that start_at_later(2) [OF assms(2)] unfolding playback_inv_def by (meson order_trans)
  moreover have "start_at o1 now running p = now + queuedSeconds now p" if "0 < queuedSeconds now p"
    using that by (auto simp: queuedSeconds_def start_at_def Let_def split: option.splits if_splits)
  ultimately show ?thesis using inv start start_at_later(1) [OF assms(2)] by (auto simp: playback_inv_def)
qed

theorem audio_never_overlaps_witness:
  "\<exists>start. snd (enqueueAt \<lparr>po_sampleRate = 24000, po_leadSeconds = 6 / 100, po_runningLeadSeconds = 3 / 100, po_hasGain = True\<rparr>
     480 24000 5 True new_playback) = Some start \<and> 5 \<le> start"
  using audio_never_overlaps [of "\<lparr>po_sampleRate = 24000, po_leadSeconds = 6 / 100, po_runningLeadSeconds = 3 / 100,
      po_hasGain = True\<rparr>" 5 new_playback 5 480 24000 True]
  by (auto simp: leads_ok_def)

text \<open>
  Each utterance is measured at most once. In any sequence of calls to a new latency ledger the ids of
  the reported ledgers, in their order, are some of the ids that were authorized, in theirs; none is
  reported twice for one authorization, and none without one.
\<close>

theorem ledgers_follow_authorizations:
  "subseq (map ld_utteranceId (vl_reports (ledger_run ks (new_voice_ledger stale)))) (authorized_ids ks)"
proof -
  have "subseq (reported_ids (ledger_run ks (new_voice_ledger stale)) @ open_id (ledger_run ks (new_voice_ledger stale)))
      (authorized_ids ks)"
    using ledger_run_ids [of ks "new_voice_ledger stale"] by (simp add: reported_ids_def open_id_def new_voice_ledger_def)
  then have "subseq (reported_ids (ledger_run ks (new_voice_ledger stale))) (authorized_ids ks)"
    by (rule subseq_order.trans [rotated]) (rule prefix_imp_subseq, simp)
  then show ?thesis by (simp add: reported_ids_def)
qed

text \<open>
  A mark that an utterance takes after it ended is kept for the next one: the next ledger then holds a
  stage of its own playback that lies before its authorization.
\<close>

theorem late_marks_are_adopted:
  assumes "vl_open v = None" and "m \<in> set UTTERANCE_MARKS" and "m \<noteq> AuthorizationReceived" and "\<not> has_key (vl_pending v) m"
    and "late < t"
  shows "\<exists>l. vl_open (authorized_utterance uid act src t (mark m late v)) = Some l \<and> mark_at l m = Some late \<and>
    mark_at l AuthorizationReceived = Some t"
  using assms by (rule late_mark_adopted)

section \<open>Delivery from the browser and the voice connection\<close>

text \<open>
  C26: The browser's events reach the log once and in order. A page that loads with the server's cursor
  numbers its events from there. However the network loses, repeats and reorders its frames and the
  replies, and whatever other sessions and the server append in between, the numbered events of the
  session in the log are those it had when the page loaded, followed by the first \<open>k\<close> events of the
  browser, each once, with its type, payload, time and number, in the order in which they were made.
\<close>

theorem browser_events_arrive_once:
  assumes "page_loaded nid sid w0" and "inj nid" and "(link_step nid h sid)\<^sup>*\<^sup>* w0 w"
  shows "\<exists>k evs. k \<le> length (sc_created (lk_client w)) \<and> list_all2 carries (take k (sc_created (lk_client w))) evs \<and>
    numbered (lk_log w) sid = numbered (lk_log w0) sid @ zip (map ce_clientSeq (take k (sc_created (lk_client w)))) evs \<and>
    subseq evs (session_events (lk_log w) sid)"
proof -
  obtain k where inv: "link_inv nid sid (numbered (lk_log w0) sid) k w" using reached_inv [OF assms] by blast
  note ok = link_inv_parts(1) [OF inv] and side = link_inv_parts(2) [OF inv]
  have k: "k \<le> length (sc_created (lk_client w))" using side by (simp add: log_side_def)
  have "map (\<lambda>j. int (length (numbered (lk_log w0) sid)) + int j) [0..<k] = map ce_clientSeq (take k (sc_created (lk_client w)))"
    using client_ok_facts(1) [OF ok] k by (intro nth_equalityI) simp_all
  then show ?thesis using side k unfolding log_side_def by auto
qed

definition demo_ids :: "nat \<Rightarrow> string" where
  "demo_ids i = replicate (Suc i) (CHR ''k'')"

definition demo_page :: link where
  "demo_page = \<lparr>lk_client = new_client ''s'' (Some 0) None, lk_log = empty_log, lk_channel = [], lk_replies = []\<rparr>"

definition demo_frame :: client_event where
  "demo_frame = \<lparr>ce_sessionId = ''s'', ce_clientSeq = 0, ce_key = ''k'', ce_type = RUN_REQUESTED, ce_occurredAt = Some 1,
     ce_payload = [(''revision'', JNum 0), (''input'', JStr ''1'')]\<rparr>"

definition demo_typed :: link where
  "demo_typed = demo_page\<lparr>lk_client := client_do demo_ids (RequestRun ''1'') 1 (lk_client demo_page)\<rparr>"

lemma demo_ids_inj: "inj demo_ids"
  by (rule injI) (metis demo_ids_def length_replicate nat.inject)

lemma demo_page_loaded: "page_loaded demo_ids ''s'' demo_page"
  by (auto simp: page_loaded_def demo_page_def latestClientSeq_def client_numbers_def numbers_upto_def log_wf_empty stored_event_def)

lemma demo_typed_client:
  "sc_created (lk_client demo_typed) = [demo_frame]" "sc_outbox (lk_client demo_typed) = [(''k'', \<lparr>ob_event = demo_frame, ob_attempts = 0\<rparr>)]"
  "sc_sent (lk_client demo_typed) = []" "lk_log demo_typed = empty_log" "lk_channel demo_typed = []"
  by (simp_all add: demo_typed_def demo_page_def new_client_def requestRun_def flush_edits_def flush_code_def flush_notes_def
      enqueue_event_def try_send_def Let_def demo_frame_def demo_ids_def)

lemma demo_typed_reached: "(link_step demo_ids demo_hash ''s'')\<^sup>*\<^sup>* demo_page demo_typed"
  unfolding demo_typed_def by (rule r_into_rtranclp, rule link_step.browser) simp_all

theorem browser_events_arrive_once_witness:
  "\<exists>k evs. k \<le> length [demo_frame] \<and> list_all2 carries (take k [demo_frame]) evs \<and>
    numbered empty_log ''s'' = numbered empty_log ''s'' @ zip (map ce_clientSeq (take k [demo_frame])) evs"
proof -
  have "lk_log demo_page = empty_log" by (simp add: demo_page_def)
  with browser_events_arrive_once [OF demo_page_loaded demo_ids_inj demo_typed_reached]
  show ?thesis by (auto simp only: demo_typed_client)
qed

text \<open>
  C27: What the browser takes for saved is saved. Under the same conditions an event that left the
  outbox, an event that a settled wait covers, and an event that a wait covers which is granted at once,
  is stored in the log under its own key, with its contents.
\<close>

theorem saved_means_stored:
  assumes "page_loaded nid sid w0" and "inj nid" and "(link_step nid h sid)\<^sup>*\<^sup>* w0 w"
    and "e \<in> set (sc_created (lk_client w))"
    and "e \<notin> set (sorted_outbox (lk_client w)) \<or> (\<exists>v\<in>set (sc_settled (lk_client w)). ce_clientSeq e \<le> snd v) \<or>
      (\<exists>n. snd (flush_and_wait nid v0 t (lk_client w)) = Some n \<and> ce_clientSeq e \<le> n)"
  shows "\<exists>ev. stored_event (lk_log w) (sid, ce_key e) = Some ev \<and> carries e ev"
proof -
  obtain k where inv: "link_inv nid sid (numbered (lk_log w0) sid) k w" using reached_inv [OF assms(1,2,3)] by blast
  let ?c = "lk_client w" and ?b = "int (length (numbered (lk_log w0) sid))"
  note ok = link_inv_parts(1) [OF inv] and side = link_inv_parts(2) [OF inv]
  have settled: "ce_clientSeq e < ?b + int k" if "v \<in> set (sc_settled ?c)" "ce_clientSeq e \<le> snd v" for v
  proof -
    have "snd v < ?b + int k" using ok that(1) by (simp add: client_ok_def client_side_def)
    then show ?thesis using that(2) by simp
  qed
  have granted: "e \<notin> snd ` set (outbox_events ?c) \<or> ce_clientSeq e < ?b + int k"
    if "snd (flush_and_wait nid v0 t ?c) = Some n" "ce_clientSeq e \<le> n" for n
    using granted_wait [OF ok assms(2) that(1) assms(4) that(2)] by blast
  have "e \<notin> snd ` set (outbox_events ?c) \<or> ce_clientSeq e < ?b + int k"
    using assms(5)
  proof (elim disjE bexE exE conjE)
    assume "e \<notin> set (sorted_outbox ?c)"
    then show ?thesis by (simp add: sorted_outbox_alt)
  qed (use settled granted in blast)+
  from delivered_stored [OF ok side assms(4) this] show ?thesis .
qed

definition demo_online :: link where
  "demo_online = demo_typed\<lparr>lk_client := client_do demo_ids Opened 1 (client_do demo_ids Connect 1 (lk_client demo_typed))\<rparr>"

definition demo_landed :: event_log where
  "demo_landed = insert_event (log_request_of demo_session demo_frame) (new_event demo_hash (Some 2) (log_request_of demo_session demo_frame) empty_log) empty_log"

definition demo_saved :: link where
  "demo_saved = \<lparr>lk_client = client_do demo_ids (Receive (ACK 0 0)) 3 (lk_client demo_online), lk_log = demo_landed,
     lk_channel = [(''s'', 0)], lk_replies = [ACK 0 0]\<rparr>"

lemma demo_online_client:
  "sc_created (lk_client demo_online) = [demo_frame]" "sc_outbox (lk_client demo_online) = [(''k'', \<lparr>ob_event = demo_frame, ob_attempts = 1\<rparr>)]"
  "sc_sent (lk_client demo_online) = [demo_frame]" "lk_log demo_online = empty_log" "lk_channel demo_online = []" "lk_replies demo_online = []"
proof -
  have key: "ce_key demo_frame = ''k''" by (simp add: demo_frame_def)
  have "lk_replies demo_typed = []" by (simp add: demo_typed_def demo_page_def)
  then show
    "sc_created (lk_client demo_online) = [demo_frame]" "sc_outbox (lk_client demo_online) = [(''k'', \<lparr>ob_event = demo_frame, ob_attempts = 1\<rparr>)]"
    "sc_sent (lk_client demo_online) = [demo_frame]" "lk_log demo_online = empty_log" "lk_channel demo_online = []" "lk_replies demo_online = []"
    by (simp_all add: demo_online_def client_connect_def on_open_socket_def flush_outbox_def sorted_outbox_def try_send_def
        demo_typed_client key)
qed

lemma demo_online_reached: "(link_step demo_ids demo_hash ''s'')\<^sup>*\<^sup>* demo_page demo_online"
proof -
  let ?m = "demo_typed\<lparr>lk_client := client_do demo_ids Connect 1 (lk_client demo_typed)\<rparr>"
  have "link_step demo_ids demo_hash ''s'' demo_typed ?m" by (rule link_step.browser) simp_all
  moreover have "link_step demo_ids demo_hash ''s'' ?m (?m\<lparr>lk_client := client_do demo_ids Opened 1 (lk_client ?m)\<rparr>)"
    by (rule link_step.browser) simp_all
  then have "link_step demo_ids demo_hash ''s'' ?m demo_online" by (simp add: demo_online_def)
  ultimately show ?thesis using demo_typed_reached by (meson rtranclp.rtrancl_into_rtrancl)
qed

lemma demo_landing:
  "handleClientEvent demo_hash (Some 2) (Some demo_frame) demo_store empty_log [] =
     Inr (demo_landed, [(''s'', 0)], \<lparr>hr_messages = [ACK 0 0], hr_accepted = True,
       hr_event = Some (new_event demo_hash (Some 2) (log_request_of demo_session demo_frame) empty_log)\<rparr>)"
proof -
  have e: "ce_sessionId demo_frame = ''s''" "ce_clientSeq demo_frame = 0" "client_event_ok demo_frame"
    by (simp_all add: demo_frame_def client_event_ok_def CLIENT_EVENT_TYPES_def)
  have st: "store_get demo_store ''s'' = Some demo_session" "is_endedAt demo_session = None"
    by (simp_all add: store_get_def deleted_def demo_store_def demo_session_def new_session_def)
  have "watermark [] empty_log ''s'' = -1" by (simp add: watermark_def latestClientSeq_def client_numbers_def)
  then have "handleClientEvent demo_hash (Some 2) (Some demo_frame) demo_store empty_log [] =
      append_client demo_hash (Some 2) demo_session demo_frame 0 empty_log [(''s'', -1)]"
    using e st by (simp add: handleClientEvent_def Let_def)
  then show ?thesis
    using e by (simp add: append_client_def append_log_def client_seq_error_def client_numbers_def MAX_SAFE_INTEGER_def
        demo_landed_def empty_events Let_def)
qed

lemma demo_saved_reached: "(link_step demo_ids demo_hash ''s'')\<^sup>*\<^sup>* demo_page demo_saved"
proof -
  let ?m = "demo_online\<lparr>lk_log := demo_landed, lk_channel := [(''s'', 0)], lk_replies := lk_replies demo_online @ [ACK 0 0]\<rparr>"
  have "link_step demo_ids demo_hash ''s'' demo_online ?m"
    using link_step.frame [of demo_frame demo_online demo_hash "Some 2" demo_store] demo_landing by (simp add: demo_online_client)
  moreover have "link_step demo_ids demo_hash ''s'' ?m (?m\<lparr>lk_client := client_do demo_ids (Receive (ACK 0 0)) 3 (lk_client ?m)\<rparr>)"
    by (rule link_step.browser) simp_all
  moreover have "?m\<lparr>lk_client := client_do demo_ids (Receive (ACK 0 0)) 3 (lk_client ?m)\<rparr> = demo_saved"
    by (rule link.equality) (simp_all add: demo_saved_def demo_online_client)
  ultimately show ?thesis using demo_online_reached by (metis rtranclp.rtrancl_into_rtrancl)
qed

theorem saved_means_stored_witness:
  "\<exists>ev. stored_event demo_landed (''s'', ''k'') = Some ev \<and> carries demo_frame ev"
proof -
  have "sorted_outbox (lk_client demo_saved) = []"
    by (simp add: demo_saved_def demo_online_client resolve_waiters_def sorted_outbox_def demo_frame_def)
  moreover have "demo_frame \<in> set (sc_created (lk_client demo_saved))"
    by (simp add: demo_saved_def demo_online_client resolve_waiters_def)
  ultimately have "\<exists>ev. stored_event (lk_log demo_saved) (''s'', ce_key demo_frame) = Some ev \<and> carries demo_frame ev"
    using saved_means_stored [OF demo_page_loaded demo_ids_inj demo_saved_reached] by auto
  then show ?thesis by (simp add: demo_saved_def) (simp add: demo_frame_def)
qed

text \<open>
  C28: A reconnect delivers everything. From every state of the two ends, whatever was lost before: if the
  socket opens, the server handles the frames that the browser then sends, in their order, while the
  session is live, and its replies arrive, then every event the browser has made is stored and the
  outbox is empty.
\<close>

theorem reconnect_delivers_everything:
  assumes "page_loaded nid sid w0" and "inj nid" and "(link_step nid h sid)\<^sup>*\<^sup>* w0 w"
    and "accepting st (lk_log w) sid" and "[] \<notin> range nid"
    and "int (length (numbered (lk_log w0) sid)) + int (length (sc_created (lk_client w))) \<le> MAX_SAFE_INTEGER"
    and "serve h now st (drop (length (sc_sent (lk_client w))) (sc_sent (on_open_socket (lk_client w)))) (lk_log w, lk_channel w) =
      ((l', ch'), ms)"
  shows "sc_outbox (fold handle_server_message ms (on_open_socket (lk_client w))) = [] \<and>
    (\<forall>e\<in>set (sc_created (lk_client w)). \<exists>ev. stored_event l' (sid, ce_key e) = Some ev \<and> carries e ev)"
proof -
  obtain k where inv: "link_inv nid sid (numbered (lk_log w0) sid) k w" using reached_inv [OF assms(1,2,3)] by blast
  have "\<forall>i. nid i \<noteq> []" using assms(5) by (metis rangeI)
  note delivered = reconnect_delivers [OF inv assms(4,6) this refl assms(7)]
  have "\<exists>ev. stored_event l' (sid, ce_key e) = Some ev \<and> carries e ev" if e: "e \<in> set (sc_created (lk_client w))" for e
  proof -
    obtain j where "j < length (sc_created (lk_client w))" "e = sc_created (lk_client w) ! j"
      using e unfolding in_set_conv_nth by blast
    then show ?thesis using log_side_stored [OF conjunct1 [OF delivered]] by blast
  qed
  then show ?thesis using conjunct2 [OF delivered] by blast
qed

theorem reconnect_delivers_everything_witness:
  "\<exists>l' ms. sc_outbox (fold handle_server_message ms (on_open_socket (lk_client demo_typed))) = [] \<and>
    (\<exists>ev. stored_event l' (''s'', ''k'') = Some ev \<and> carries demo_frame ev)"
proof -
  obtain l' ch' ms where s: "serve demo_hash (Some 2) demo_store
      (drop (length (sc_sent (lk_client demo_typed))) (sc_sent (on_open_socket (lk_client demo_typed))))
      (lk_log demo_typed, lk_channel demo_typed) = ((l', ch'), ms)" by (metis prod.exhaust)
  have live: "accepting demo_store (lk_log demo_typed) ''s''"
    by (simp add: accepting_def demo_typed_client store_get_def deleted_def demo_store_def demo_session_def new_session_def)
  have ids: "[] \<notin> range demo_ids" by (auto simp: demo_ids_def)
  have small: "int (length (numbered (lk_log demo_page) ''s'')) + int (length (sc_created (lk_client demo_typed))) \<le> MAX_SAFE_INTEGER"
    by (simp add: demo_page_def numbered_def demo_typed_client MAX_SAFE_INTEGER_def)
  from reconnect_delivers_everything [OF demo_page_loaded demo_ids_inj demo_typed_reached live ids small s]
  have "sc_outbox (fold handle_server_message ms (on_open_socket (lk_client demo_typed))) = []"
    "\<exists>ev. stored_event l' (''s'', ce_key demo_frame) = Some ev \<and> carries demo_frame ev" by (simp_all add: demo_typed_client)
  then show ?thesis by (auto simp: demo_frame_def)
qed

text \<open>
  The server and the browser agree on who counts, but only for one page. When another page of the session
  has used a number, the frame under that number is answered by a replay from beyond it, so that its
  event is never stored, and a later acknowledgement lets the wait for it succeed.
\<close>

theorem second_page_loses_an_event:
  assumes "append_log h now (log_request_of s e) l = Inl (JsError ''CLIENT_SEQUENCE_CONFLICT'')"
    and "client_event_ok e" and "store_get st (ce_sessionId e) = Some s" and "is_endedAt s = None"
    and "ce_clientSeq e \<le> watermark ch l (ce_sessionId e) + 1" and "ce_clientSeq e \<in> set (client_numbers l (ce_sessionId e))"
    and "sc_pendingCode c = None" and "sc_pendingNotes c = None" and "sc_clientSeq c - 1 \<le> sc_lastAckedClientSeq c"
  shows "(\<exists>ch' m. handleClientEvent h now (Some e) st l ch = Inr (l, ch', rejected (REPLAY_FROM m)) \<and>
      e \<notin> set (drop (length (sc_sent c)) (sc_sent (handle_server_message (REPLAY_FROM m) c)))) \<and>
    snd (flush_and_wait nid v t c) = Some (sc_clientSeq c - 1) \<and> sc_outbox (fst (flush_and_wait nid v t c)) = sc_outbox c"
  using taken_number [OF assms(1-6)] replay_skips [of e _ c] wait_passes_over [OF assms(7-9), of nid v t] by metis




text \<open>
  The id of a request does not tell late audio apart: what arrives after a cancelled request and a new
  one is handed on under the new id, though it may belong to the old turn.
\<close>

theorem late_audio_is_retagged:
  assumes "rv_ready v" and "rv_link v = Open"
  shows "\<exists>tr. rv_trace (play_audio (\<lambda>_. []) [d] (fst (requestSpeech new (cancelSpeech (fst (requestSpeech old v)))))) =
    tr @ [Called (ModelAudio d (Some (RealtimeVoice.authorization.au_utteranceId new)))]"
  using assms by (rule late_audio_gets_new_id)

section \<open>The voice session and its audio\<close>

text \<open>
  C30: Every utterance ends in one outcome, and nothing sounds without one. Whatever the server authorizes and
  the connection, the audio clock, the network, the timers and the candidate do, in any order, the outcomes
  that the browser reported followed by the utterance in flight are the utterances that were begun, each once
  and in order; and without an utterance in flight nothing plays, no deadline runs, no cached audio is
  fetched, and no request or failure waits.
\<close>

theorem utterances_accounted_for:
  assumes "voice_session_step\<^sup>*\<^sup>* (start_session new_session_voice) vs"
  shows "map ur_utteranceId (vs_outcomes vs) @ (case vs_utterance vs of None \<Rightarrow> [] | Some u \<Rightarrow> [ul_id u]) = vs_accepted vs \<and>
    (vs_utterance vs = None \<longrightarrow> \<not> is_playing vs \<and> vs_watchdog vs = None \<and> vs_tail vs = None \<and> vs_pendingFailure vs = None \<and>
       vs_pendingSpeech vs = None)"
  using session_reached [OF assms] voice_session_ok_book voice_session_ok_silent by blast

theorem utterances_accounted_for_witness:
  "map ur_utteranceId (vs_outcomes demo_sent) @ [''u''] = vs_accepted demo_sent"
  using utterances_accounted_for [OF demo_sent_reached] demo_sent_facts(1)
  by (simp add: demo_playing_def demo_lifecycle_sel)



text \<open>
  C32: What was played out counts as completed. When the whole audio of an utterance has arrived and the sink
  reports the end of the last source, the utterance ends and is reported as completed, exactly once.
\<close>

theorem played_out_completes:
  assumes "voice_session_step\<^sup>*\<^sup>* (start_session new_session_voice) vs" and "vs_utterance vs = Some u" and "ul_sourceComplete u"
    and "vs_pendingFailure vs = None" and "vs_playback vs = Some p" and "\<not> isPlaying (release_source i p)"
  shows "\<exists>r. vs_utterance (source_ended m i vs) = None \<and> vs_outcomes (source_ended m i vs) = vs_outcomes vs @ [r] \<and>
    ur_utteranceId r = ul_id u \<and> ur_outcome r = utterance_outcome.COMPLETED"
  by (rule drained_completes [OF session_reached [OF assms(1)] assms(2-4)]) (use assms(5,6) in \<open>simp add: is_playing_def\<close>)

theorem played_out_completes_witness:
  "\<exists>r. vs_outcomes (source_ended (at_ms 150) 0 demo_sent) = [r] \<and> ur_utteranceId r = ''u'' \<and> ur_outcome r = utterance_outcome.COMPLETED"
proof -
  have "ul_sourceComplete (demo_playing\<lparr>ul_sourceComplete := True\<rparr>)" by simp
  from played_out_completes [OF demo_sent_reached demo_sent_facts(1) this demo_sent_facts(6,2) demo_output_ends, of "at_ms 150"]
  show ?thesis unfolding demo_sent_facts(4) by (auto simp: demo_playing_def demo_lifecycle_sel)
qed

text \<open>
  C33: Samples survive the transport. Base64 returns the samples that were sent; and the bytes of cached audio
  give the same samples however the network cuts them into chunks, even within a sample, with no byte left.
\<close>

theorem samples_survive_transport:
  assumes "concat chunks = concat (map (\<lambda>w. [ucast w, ucast (drop_bit 8 w)]) pcm)"
  shows "base64ToPcm16 (pcm16ToBase64 pcm) = Some pcm \<and> decode_stream chunks None = (pcm, None)"
proof -
  have "samples_of (concat (map (\<lambda>w. [ucast w, ucast (drop_bit 8 w)]) pcm)) = pcm"
    by (induction pcm) (simp_all add: int16_split)
  moreover have "even (length (concat (map (\<lambda>w. [ucast w, ucast (drop_bit 8 w)]) pcm)))" by (induction pcm) simp_all
  ultimately show ?thesis using base64_samples decode_stream_whole [of chunks None] assms by (simp add: carried_def odd_byte_def)
qed

theorem samples_survive_transport_witness:
  "decode_stream [[1], [2, 3], [4]] None = ([0x0201, 0x0403], None)"
  using samples_survive_transport [of "[[1], [2, 3], [4]]" "[0x0201, 0x0403]"] by simp

text \<open>
  Samples never wrap. A sample out of the range of the microphone is clamped before it is stored in
  sixteen bits, so that the order of the samples is kept and nothing wraps around; and changing the rate keeps
  every sample between the least and the greatest of the input.
\<close>

theorem samples_never_wrap:
  assumes "resample inp from_rate to_rate = Inr ys" and "\<forall>x\<in>set inp. lo \<le> x \<and> x \<le> hi" and "i < length ys" and "j < length ys"
    and "ys ! i \<le> ys ! j"
  shows "lo \<le> ys ! i \<and> ys ! i \<le> hi \<and> sint (floatToPcm16 ys ! i) \<le> sint (floatToPcm16 ys ! j) \<and>
    sint (floatToPcm16 ys ! i) = truncate_toward_zero (scaled (ys ! i))"
  using resample_range [OF assms(1,2)] sint_floatToPcm16 [OF assms(3)] sint_floatToPcm16 [OF assms(4)]
    truncate_mono [OF scaled_mono [OF assms(5)]] assms(3) by simp

theorem samples_never_wrap_witness: "sint (floatToPcm16 [2, 3] ! 0) \<le> sint (floatToPcm16 [2, 3] ! 1)"
  using samples_never_wrap [of "[2, 3]" 1 1 "[2, 3]" 2 3 0 1] by (simp add: resample_def)






section \<open>The voice ahead of time, and the voice at a pause\<close>

text \<open>
  C35: Whatever may be said is rendered. The lines that are rendered ahead of an interview are, each once, the
  authored texts of the scenario without the white space around them; and whatever words an interviewer is
  authorized to say in any run of its runtime are among them, or are blank.
\<close>

theorem authorized_speech_is_rendered:
  assumes "runtime_reach d (new_runtime c) rt" and "authorized rt = Some a"
  shows "set (authoredUtterances (rd_scenario d)) = trim ` set (authored_texts (rd_scenario d)) - {[]} \<and>
    distinct (authoredUtterances (rd_scenario d)) \<and>
    (trim (au_text a) = [] \<or> trim (au_text a) \<in> set (authoredUtterances (rd_scenario d)))"
proof -
  have lines: "set (authoredUtterances (rd_scenario d)) = trim ` set (authored_texts (rd_scenario d)) - {[]}"
    unfolding authoredUtterances_def add_lines(1) authored_texts_def by auto
  have "voiced d (new_runtime c)" by (simp add: voiced_def new_runtime_def)
  from speech.kept_by_closure [OF reach_rtranclp [OF assms(1)] this] assms(2)
  have "au_text a \<in> set (authored_texts (rd_scenario d)) \<or> au_text a = []"
    by (auto simp: voiced_def authorization_ok_def authored_def)
  moreover have "trim [] = []" by (simp add: trim_def)
  ultimately have "trim (au_text a) = [] \<or> trim (au_text a) \<in> trim ` set (authored_texts (rd_scenario d)) - {[]}" by auto
  moreover have "distinct (authoredUtterances (rd_scenario d))" unfolding authoredUtterances_def by (rule add_lines(2)) simp
  ultimately show ?thesis unfolding lines by blast
qed

theorem authorized_speech_is_rendered_witness: "''Find the pair.'' \<in> set (authoredUtterances demo_scenario)"
proof -
  obtain a where a: "authorized demo_started = Some a" "au_text a = ''Find the pair.''"
    using demo_started_speaks by (auto split: option.splits)
  have "trim ''Find the pair.'' = ''Find the pair.''" by code_simp
  with authorized_speech_is_rendered [OF demo_started_reached a(1), THEN conjunct2, THEN conjunct2] a(2)
  show ?thesis by (simp add: demo_deps_def)
qed


definition demo_audio :: audio_config where
  "demo_audio = \<lparr>ao_digests = \<lparr>dg_text = (\<lambda>s. s), dg_bytes = map (\<lambda>b. char_of (unat b))\<rparr>, ao_rendererId = ''r'', ao_voiceId = ''v'',
     ao_concurrency = 3, ao_disk = True, ao_verifies = True\<rparr>"




text \<open>
  C37: The prewarm ends and tries every line once. However its workers interleave, their steps come to an end;
  when no step is left no render is under way, every line was taken, and the counts of the report, what was
  there, what was rendered and what failed, add up to the number of the lines; and before the end at most as
  many renders run as the cache allows.
\<close>

theorem prewarm_tries_every_line:
  assumes "(prewarm_step n (prewarm_workers ao n))\<^sup>*\<^sup>* new_prewarm p"
  shows "wfp (\<lambda>q p. prewarm_step n (prewarm_workers ao n) p q) \<and> length (pw_busy p) \<le> max 1 (ao_concurrency ao) \<and>
    ((\<nexists>q. prewarm_step n (prewarm_workers ao n) p q) \<longrightarrow>
       pw_busy p = [] \<and> pw_cursor p = n \<and> pw_cached p + pw_rendered p + pw_failed p = n)"
proof -
  have ok: "prewarm_ok n (prewarm_workers ao n) p" using prewarm_kept.kept_by_closure [OF assms prewarm_ok_new] .
  have "pw_busy p = [] \<and> pw_cursor p = n \<and> pw_cached p + pw_rendered p + pw_failed p = n"
    if stuck: "\<nexists>q. prewarm_step n (prewarm_workers ao n) p q"
  proof (cases n)
    case 0
    then show ?thesis using ok by (simp add: prewarm_ok_def prewarm_workers_def)
  next
    case (Suc k)
    then show ?thesis using prewarm_stuck [OF stuck _ ok] by (simp add: prewarm_workers_def)
  qed
  then show ?thesis using ok prewarm_terminates by (simp add: prewarm_ok_def prewarm_workers_def)
qed

theorem prewarm_tries_every_line_witness: "length (pw_busy (take_line False new_prewarm)) \<le> 3"
proof -
  have "(prewarm_step 2 (prewarm_workers demo_audio 2))\<^sup>*\<^sup>* new_prewarm (take_line False new_prewarm)"
    by (rule r_into_rtranclp, rule prewarm_step.take) (simp_all add: new_prewarm_def prewarm_workers_def demo_audio_def)
  from prewarm_tries_every_line [OF this] show ?thesis by (simp add: demo_audio_def)
qed

text \<open>
  C38: Only silence is cut. The trimmed audio is a contiguous piece of the audio that starts at a whole sample,
  and every sample that reaches the threshold lies inside of it.
\<close>

theorem only_silence_is_cut:
  assumes "0 \<le> rate"
  shows "\<exists>i j. trimSilence pcm rate = take (length pcm - i - j) (drop i pcm) \<and> i + j \<le> length pcm \<and> even i \<and>
    (\<forall>k < length pcm div 2. \<bar>readInt16LE pcm k\<bar> \<ge> SILENCE_THRESHOLD \<longrightarrow> i \<le> 2 * k \<and> 2 * k + 2 \<le> length pcm - j)"
  using trimSilence_cut [OF assms, of pcm] unfolding is_voiced_def .

theorem only_silence_is_cut_witness: 
  "\<exists>i j. trimSilence [0, 0, 0, 1, 0, 0] 0 = take (length [0 :: 8 word, 0, 0, 1, 0, 0] - i - j) (drop i [0, 0, 0, 1, 0, 0])"
  using only_silence_is_cut [OF order_refl, of "[0, 0, 0, 1, 0, 0]"] by blast



text \<open>
  C40: Forgetting old frames changes no estimate. The predictor drops frames as it goes; asked about an instant
  at most two tails before its latest frame, it gives the estimate of one that kept every frame.
\<close>

theorem forgetting_changes_no_estimate:
  assumes "\<forall>(frame, rate, t)\<in>set fs. t \<le> last_at" and "tp_frames tp = []" and "last_at - 2 * tp_tailMs tp \<le> atMs"
  shows "TurnPredictor.estimate atMs (push_frames fs tp) =
    estimate_of (tp_weights tp) (features_of (tail_of (tp_tailMs tp) atMs (all_features fs)))"
  by (rule estimate_of_all_frames [OF assms])

theorem forgetting_changes_no_estimate_witness:
  "TurnPredictor.estimate 100 (push_frames [([1], 8000, 20), ([1], 8000, 40)] (new_predictor None None)) =
    estimate_of PROSODY_WEIGHTS (features_of (tail_of TAIL_MS 100 (all_features [([1], 8000, 20), ([1], 8000, 40)])))"
  using forgetting_changes_no_estimate [of "[([1], 8000, 20), ([1], 8000, 40)]" 40 "new_predictor None None" 100]
  by (simp add: new_predictor_def TAIL_MS_def)

end
